(* ===== verification/Fw_Prelude.thy ===== *)
theory Fw_Prelude
  imports Main "HOL-Library.Word"
begin

text \<open>
  Shared vocabulary of the firmware model: the machine integers of the Cortex-M4, the status
  enumerations of \<^verbatim>\<open>Core/Inc/platform.h\<close> and CMSIS, the little-endian memory image of
  integers and character arrays, the C string functions the sources use, the CRC-32 that every
  persistent store computes, and the FreeRTOS mutex as the sources use it. The lemmas are the
  ones several components share: byte-image round trips, fixed-width chunking of arrays of
  structures, 24-bit addresses, and that CRC-32 tells any two equally long images apart that
  differ in a single byte.
\<close>

unbundle bit_operations_syntax

named_theorems codec_simps \<open>byte images of integers, character arrays and structures\<close>
named_theorems cstr_simps \<open>C string functions on character arrays\<close>

type_synonym u8 = "8 word"
type_synonym u16 = "16 word"
type_synonym u32 = "32 word"

section \<open>Status values\<close>

datatype Platform_StatusTypeDef =
    PLATFORM_STATUS_OK
  | PLATFORM_STATUS_ERROR
  | PLATFORM_STATUS_TIMEOUT

datatype ErrorStatus = SUCCESS | ERROR

section \<open>Little-endian images\<close>

definition le16 :: "u16 \<Rightarrow> u8 list" where
  "le16 w = [ucast w, ucast (drop_bit 8 w)]"

definition le32 :: "u32 \<Rightarrow> u8 list" where
  "le32 w = [ucast w, ucast (drop_bit 8 w), ucast (drop_bit 16 w), ucast (drop_bit 24 w)]"

fun of_le16 :: "u8 list \<Rightarrow> u16" where
  "of_le16 (a # b # _) = ucast a OR push_bit 8 (ucast b)"
| "of_le16 _ = 0"

fun of_le32 :: "u8 list \<Rightarrow> u32" where
  "of_le32 (a # b # c # d # _) =
     ucast a OR push_bit 8 (ucast b) OR push_bit 16 (ucast c) OR push_bit 24 (ucast d)"
| "of_le32 _ = 0"

definition byte_of_char :: "char \<Rightarrow> u8" where
  "byte_of_char c = of_nat (of_char c)"

definition char_of_byte :: "u8 \<Rightarrow> char" where
  "char_of_byte b = char_of (unat b)"

text \<open>An array of \<open>n\<close> elements of \<open>w\<close> bytes each is split into its elements.\<close>

fun chunks :: "nat \<Rightarrow> nat \<Rightarrow> 'a list \<Rightarrow> 'a list list" where
  "chunks 0 w bs = []"
| "chunks (Suc n) w bs = take w bs # chunks n w (drop w bs)"

section \<open>C strings\<close>

abbreviation NUL :: char where
  "NUL \<equiv> CHR 0x00"

text \<open>The string a character array holds: everything before its first NUL.\<close>

definition cstr :: "string \<Rightarrow> string" where
  "cstr buf = takeWhile (\<lambda>c. c \<noteq> NUL) buf"

text \<open>\<open>strncpy(dst, src, n)\<close> on an array \<open>dst\<close> of at least \<open>n\<close> characters.\<close>

definition strncpy :: "string \<Rightarrow> string \<Rightarrow> nat \<Rightarrow> string" where
  "strncpy dst src n =
     (let s = take n (cstr src) in s @ replicate (n - length s) NUL @ drop n dst)"

section \<open>CRC-32\<close>

text \<open>One iteration of the inner loop of every \<open>..._Crc\<close> function of the sources.\<close>

definition crc32_bit :: "u32 \<Rightarrow> u32" where
  "crc32_bit crc = drop_bit 1 crc XOR (if crc AND 1 \<noteq> 0 then 0xEDB88320 else 0)"

definition crc32_byte :: "u32 \<Rightarrow> u8 \<Rightarrow> u32" where
  "crc32_byte crc b = (crc32_bit ^^ 8) (crc XOR ucast b)"

definition crc32 :: "u8 list \<Rightarrow> u32" where
  "crc32 bytes = NOT (foldl crc32_byte 0xFFFFFFFF bytes)"

section \<open>FreeRTOS mutexes\<close>

text \<open>
  A mutex handle as the sources use it: \<open>Sem_Null\<close> before the \<open>..._Init\<close> function created it,
  then free or held. \<open>xSemaphoreTake\<close> with \<open>portMAX_DELAY\<close> answers \<open>None\<close> where the call does
  not return \<open>pdTRUE\<close>.
\<close>

datatype semaphore = Sem_Null | Sem_Free | Sem_Held

definition xSemaphoreTake :: "semaphore \<Rightarrow> semaphore option" where
  "xSemaphoreTake s = (if s = Sem_Free then Some Sem_Held else None)"

definition xSemaphoreGive :: "semaphore \<Rightarrow> semaphore" where
  "xSemaphoreGive s = (if s = Sem_Held then Sem_Free else s)"

lemma xSemaphoreTake_simps [simp]:
  "xSemaphoreTake Sem_Free = Some Sem_Held"
  "xSemaphoreTake Sem_Null = None"
  "xSemaphoreTake Sem_Held = None"
  "xSemaphoreGive Sem_Held = Sem_Free"
  by (simp_all add: xSemaphoreTake_def xSemaphoreGive_def)

section \<open>Lemmas on byte images\<close>

lemma not_bit_u8 [simp]: "8 \<le> n \<Longrightarrow> \<not> bit (b :: u8) n"
  by (auto dest: bit_imp_le_length)

lemma length_le16 [simp, codec_simps]: "length (le16 w) = 2"
  by (simp add: le16_def)

lemma length_le32 [simp, codec_simps]: "length (le32 w) = 4"
  by (simp add: le32_def)

lemma of_le16_le16 [simp, codec_simps]: "of_le16 (le16 w) = w"
proof (rule bit_word_eqI)
  fix n assume "n < LENGTH(16)"
  then consider "n < 8" | "8 \<le> n" "n < 16"
    by (simp; linarith)
  then show "bit (of_le16 (le16 w)) n = bit w n"
    by cases (auto simp: le16_def bit_simps)
qed

lemma of_le32_le32 [simp, codec_simps]: "of_le32 (le32 w) = w"
proof (rule bit_word_eqI)
  fix n assume "n < LENGTH(32)"
  then consider "n < 8" | "8 \<le> n" "n < 16" | "16 \<le> n" "n < 24" | "24 \<le> n" "n < 32"
    by (simp; linarith)
  then show "bit (of_le32 (le32 w)) n = bit w n"
    by cases (auto simp: le32_def bit_simps)
qed

lemma le16_of_le16: "le16 (of_le16 [a, b]) = [a, b]"
  by (auto simp: le16_def bit_simps intro!: bit_word_eqI)

lemma le32_of_le32: "le32 (of_le32 [a, b, c, d]) = [a, b, c, d]"
  by (auto simp: le32_def bit_simps intro!: bit_word_eqI)

lemma char_of_byte_of_char [simp, codec_simps]: "char_of_byte (byte_of_char c) = c"
  by (simp add: char_of_byte_def byte_of_char_def unat_of_nat)

lemma unat_u8_less [simp]: "unat (b :: u8) < 256"
proof -
  have "unat b < 2 ^ LENGTH(8)" by (rule unsigned_less)
  then show ?thesis by simp
qed

lemma byte_of_char_of_byte [simp, codec_simps]: "byte_of_char (char_of_byte b) = b"
  by (simp add: char_of_byte_def byte_of_char_def)

lemma map_char_of_byte [simp, codec_simps]: "map char_of_byte (map byte_of_char s) = s"
  by (simp add: comp_def)

lemma of_le32_erased [simp, codec_simps]: "of_le32 (replicate 4 0xFF) = 0xFFFFFFFF"
  by code_simp

lemma length_chunks [simp, codec_simps]: "length (chunks n w bs) = n"
  by (induction n arbitrary: bs) simp_all

lemma chunks_concat_append:
  "length xs = n \<Longrightarrow> (\<And>x. x \<in> set xs \<Longrightarrow> length x = w) \<Longrightarrow> chunks n w (concat xs @ rest) = xs"
  by (induction xs arbitrary: n) auto

lemma length_concat_fixed:
  "(\<And>x. x \<in> set xs \<Longrightarrow> length x = w) \<Longrightarrow> length (concat xs) = length xs * w"
  by (induction xs) auto

lemma upt_split_at: "k < n \<Longrightarrow> [0..<n] = [0..<k] @ k # [Suc k..<n]"
  by (metis le_add_diff_inverse less_imp_le_nat upt_add_eq_append upt_conv_Cons zero_le)

lemma takeWhile_upt:
  assumes "k < n" and "\<And>i. i < k \<Longrightarrow> P i" and "\<not> P k"
  shows "takeWhile P [0..<n] = [0..<k]"
proof -
  have "takeWhile P ([0..<k] @ k # [Suc k..<n]) = [0..<k] @ takeWhile P (k # [Suc k..<n])"
    using assms(2) by (intro takeWhile_append2) simp
  then show ?thesis
    using upt_split_at [OF assms(1)] assms(3) by (simp only: takeWhile.simps if_False append_Nil2)
qed

section \<open>Lemmas on machine integers\<close>

lemma unat_drop_bit_div: "unat (drop_bit n (a :: 'a::len word)) = unat a div 2 ^ n"
  unfolding unat_drop_bit_eq by (rule drop_bit_eq_div)

lemma unat_ucast_u8: "unat (ucast (a :: 'a::len word) :: u8) = unat a mod 256"
  by (simp add: unsigned_ucast_eq take_bit_eq_mod)

text \<open>The three address bytes of a serial-flash command denote the address they were cut from.\<close>

lemma address_bytes:
  assumes "unat (a :: u32) < 2 ^ 24"
  shows "unat (ucast (drop_bit 16 a) :: u8) * 65536 + unat (ucast (drop_bit 8 a) :: u8) * 256
    + unat (ucast a :: u8) = unat a"
proof -
  let ?n = "unat a"
  have 1: "?n div 65536 mod 256 = ?n div 65536"
    using assms by simp
  have 2: "?n div 65536 = ?n div 256 div 256"
    by (simp flip: div_mult2_eq)
  have "?n div 256 div 256 * 65536 + ?n div 256 mod 256 * 256 = ?n div 256 * 256"
    using div_mult_mod_eq [of "?n div 256" 256] by linarith
  then have "?n div 65536 mod 256 * 65536 + ?n div 256 mod 256 * 256 + ?n mod 256 = ?n"
    unfolding 1 unfolding 2 using div_mult_mod_eq [of ?n 256] by linarith
  moreover have "unat (ucast (drop_bit 16 a) :: u8) = ?n div 65536 mod 256"
    "unat (ucast (drop_bit 8 a) :: u8) = ?n div 256 mod 256"
    unfolding unat_ucast_u8 unat_drop_bit_div by simp_all
  ultimately show ?thesis
    by (simp only: unat_ucast_u8)
qed

text \<open>
  Elapsed time on the wrapping 32-bit millisecond counter: the word difference is the true
  distance as long as it is below \<open>2 ^ 32\<close>, whether or not the counter wrapped in between.
\<close>

lemma elapsed_ticks:
  "d < 2 ^ 32 \<Longrightarrow> unat ((started + of_nat d) - started :: u32) = d"
  by (simp add: unat_of_nat)

text \<open>A generation counter that has not reached its maximum grows.\<close>

lemma unat_u32_max: "unat (- 1 :: u32) = 4294967295"
proof -
  have "(- 1 :: u32) = of_nat 4294967295"
    by simp
  then show ?thesis
    by (simp only: unat_of_nat) simp
qed

lemma u32_Suc: "(g :: u32) \<noteq> - 1 \<Longrightarrow> unat (g + 1) = Suc (unat g)"
proof -
  assume "g \<noteq> - 1"
  then have "unat g \<noteq> 4294967295"
    by (metis unat_u32_max word_unat_eq_iff)
  moreover have "unat g < 4294967296"
    using unsigned_less [of g] by simp
  ultimately show "unat (g + 1) = Suc (unat g)"
    by (simp add: unat_word_ariths)
qed

lemma u32_less_Suc: "(g :: u32) \<noteq> - 1 \<Longrightarrow> g < g + 1"
  by (simp add: word_less_nat_alt u32_Suc)

lemma generation_room: "unat (g :: u32) + Suc n < 2 ^ 32 \<Longrightarrow> g \<noteq> - 1 \<and> unat (g + 1) + n < 2 ^ 32"
  using unat_u32_max u32_Suc [of g] by (cases "g = - 1") auto

section \<open>Lemmas on C strings\<close>

lemma NUL_notin_cstr [simp, cstr_simps]: "NUL \<notin> set (cstr s)"
  by (auto simp: cstr_def dest: set_takeWhileD)

lemma cstr_idem [simp, cstr_simps]: "cstr (cstr s) = cstr s"
  by (simp add: cstr_def)

lemma cstr_id [cstr_simps]: "NUL \<notin> set s \<Longrightarrow> cstr s = s"
  by (auto simp: cstr_def intro: takeWhile_eq_all_conv [THEN iffD2])

lemma cstr_append_NUL [cstr_simps]: "NUL \<notin> set s \<Longrightarrow> cstr (s @ NUL # t) = s"
  by (simp add: cstr_def takeWhile_append)

lemma length_strncpy [simp, cstr_simps]:
  "n \<le> length dst \<Longrightarrow> length (strncpy dst src n) = length dst"
  by (simp add: strncpy_def Let_def)

lemma length_cstr_le: "length (cstr s) \<le> length s"
  by (simp add: cstr_def length_takeWhile_le)

lemma NUL_in_array: "NUL \<in> set s \<longleftrightarrow> length (cstr s) < length s"
  by (induction s) (auto simp: cstr_def)

text \<open>A string that fits in front of the last, zero, character of the array is copied whole.\<close>

lemma cstr_strncpy [cstr_simps]:
  assumes "length (cstr src) \<le> n" and "dst = replicate (Suc n) NUL"
  shows "cstr (strncpy dst src n) = cstr src"
proof -
  have "drop n (replicate (Suc n) NUL) = [NUL]"
    by (simp only: drop_replicate) simp
  then have "strncpy dst src n = cstr src @ NUL # replicate (n - length (cstr src)) NUL"
    using assms
    by (simp add: strncpy_def Let_def replicate_append_same del: replicate_Suc)
  then show ?thesis
    by (simp add: cstr_append_NUL)
qed

section \<open>CRC-32 detects a changed byte\<close>

lemma xor_right_cancel: "(a XOR k = b XOR k) \<longleftrightarrow> a = (b :: 'a::len word)"
proof
  assume "a XOR k = b XOR k"
  then have "(a XOR k) XOR k = (b XOR k) XOR k" by simp
  then show "a = b" by (simp add: xor.assoc)
qed simp

lemma and_one_bit0: "(c AND 1 \<noteq> 0) = bit (c :: 'a::len word) 0"
  by (simp add: and_one_eq odd_iff_mod_2_eq_one [symmetric] bit_0)

lemma crc32_bit_top: "bit (crc32_bit x) 31 = bit x 0"
  by (auto simp: crc32_bit_def and_one_bit0 bit_simps dest: bit_imp_le_length)

lemma crc32_bit_inj: "inj crc32_bit"
proof (rule injI)
  fix c d
  assume h: "crc32_bit c = crc32_bit d"
  have low: "bit c 0 = bit d 0"
    using crc32_bit_top [of c] crc32_bit_top [of d] h by simp
  have eq: "drop_bit 1 c = drop_bit 1 d"
    using h low unfolding crc32_bit_def and_one_bit0 by (simp only: xor_right_cancel)
  have suc: "bit c (Suc n) = bit d (Suc n)" for n
  proof -
    have "bit (drop_bit 1 c) n = bit (drop_bit 1 d) n" by (simp only: eq)
    then show ?thesis by (simp add: bit_simps)
  qed
  show "c = d"
  proof (rule bit_word_eqI)
    fix n show "bit c n = bit d n" using low suc by (cases n) simp_all
  qed
qed

lemma crc32_byte_inj_register: "crc32_byte c b = crc32_byte d b \<longleftrightarrow> c = d"
  using crc32_bit_inj by (simp add: crc32_byte_def inj_eq xor_right_cancel)

lemma ucast_u8_u32_eq: "(ucast (x :: u8) :: u32) = ucast y \<longleftrightarrow> x = y"
proof
  assume "(ucast x :: u32) = ucast y"
  then have "unat (ucast x :: u32) = unat (ucast y :: u32)" by (rule arg_cong)
  moreover have "unat (ucast z :: u32) = unat z" for z :: u8
    using order_less_trans [OF unat_u8_less [of z], of 4294967296]
    by (simp add: unsigned_ucast_eq take_bit_eq_mod)
  ultimately show "x = y" by (simp add: word_unat_eq_iff)
qed simp

lemma crc32_byte_inj_byte: "crc32_byte c x = crc32_byte c y \<longleftrightarrow> x = y"
  using crc32_bit_inj
  by (simp add: crc32_byte_def inj_eq xor.commute [of c] xor_right_cancel ucast_u8_u32_eq)

lemma foldl_crc32_byte_inj:
  "foldl crc32_byte c bs = foldl crc32_byte d bs \<longleftrightarrow> c = d"
  by (induction bs arbitrary: c d) (simp_all add: crc32_byte_inj_register)

text \<open>Testing a byte against a one-bit mask.\<close>

lemma mask_bit_u8: "x AND push_bit n 1 \<noteq> 0 \<longleftrightarrow> bit x n" for x :: u8
proof
  assume "bit x n"
  then have "bit (x AND push_bit n 1) n"
    using bit_imp_le_length [of x n] by (simp add: bit_simps)
  then show "x AND push_bit n 1 \<noteq> 0"
    by auto
next
  assume "x AND push_bit n 1 \<noteq> 0"
  then obtain m where "bit (x AND push_bit n 1) m"
    by (metis bit_eqI bit_0_eq bot_apply bot_bool_def)
  then show "bit x n"
    by (auto simp: bit_simps)
qed

lemma power_bit_u8: "x AND 2 ^ n = 0 \<longleftrightarrow> \<not> bit x n" for x :: u8
  using mask_bit_u8 [of x n] by (auto simp: push_bit_of_1)

end
