(* ===== verification/Api_Json.thy ===== *)
theory Api_Json
  imports Fw_Prelude "HOL-Library.Sublist"
begin

text \<open>
  The text helpers of the management interface, \<^verbatim>\<open>Srv/Src/api_service.c\<close>: looking up values in a
  request body and formatting the JSON of a response. A pointer into a C string is the rest of the
  string from there on; the terminating zero is read as \<open>NUL\<close> at its end.
\<close>

section \<open>C strings\<close>

abbreviation DQUOTE :: char where "DQUOTE \<equiv> CHR 0x22"
abbreviation BACKSLASH :: char where "BACKSLASH \<equiv> CHR 0x5C"
abbreviation TAB :: char where "TAB \<equiv> CHR 0x09"
abbreviation CR :: char where "CR \<equiv> CHR 0x0D"
abbreviation LF :: char where "LF \<equiv> CHR 0x0A"
abbreviation SPACE :: char where "SPACE \<equiv> CHR 0x20"

definition peek :: "string \<Rightarrow> char" where
  "peek cursor = (case cursor of [] \<Rightarrow> NUL | c # _ \<Rightarrow> c)"

fun strstr :: "string \<Rightarrow> string \<Rightarrow> string option" where
  "strstr [] needle = (if needle = [] then Some [] else None)"
| "strstr (c # s) needle = (if prefix needle (c # s) then Some (c # s) else strstr s needle)"

definition strchr :: "string \<Rightarrow> char \<Rightarrow> string option" where
  "strchr s c = (case dropWhile (\<lambda>x. x \<noteq> c) s of [] \<Rightarrow> None | t \<Rightarrow> Some t)"

definition is_digit :: "char \<Rightarrow> bool" where
  "is_digit c \<longleftrightarrow> 48 \<le> byte_of_char c \<and> byte_of_char c \<le> 57"

definition digits_value :: "string \<Rightarrow> nat" where
  "digits_value ds = foldl (\<lambda>v d. 10 * v + (of_char d - 48)) 0 ds"

text \<open>\<open>snprintf\<close>: the length the text would need, and what fits before the terminating zero.\<close>

definition snprintf :: "nat \<Rightarrow> string \<Rightarrow> nat \<times> string" where
  "snprintf capacity text = (length text, take (capacity - 1) text)"

fun decimal :: "nat \<Rightarrow> string" where
  "decimal n = (if n < 10 then [char_of (48 + n)] else decimal (n div 10) @ [char_of (48 + n mod 10)])"

declare decimal.simps [simp del]

definition decimal_int :: "int \<Rightarrow> string" where
  "decimal_int i = (if i < 0 then CHR ''-'' # decimal (nat (- i)) else decimal (nat i))"

section \<open>Reading values\<close>

definition json_pattern :: "string \<Rightarrow> string" where
  "json_pattern key = snd (snprintf 40 ([DQUOTE] @ key @ [DQUOTE]))"

definition skip_blanks :: "string \<Rightarrow> string" where
  "skip_blanks cursor = dropWhile (\<lambda>c. c = SPACE \<or> c = TAB) cursor"

definition skip_space :: "string \<Rightarrow> string" where
  "skip_space cursor = dropWhile (\<lambda>c. c = SPACE \<or> c = TAB \<or> c = CR \<or> c = LF) cursor"

text \<open>The characters up to the closing quote and the rest from there on; \<open>None\<close> is the early return.\<close>

fun apiService_JsonValue :: "string \<Rightarrow> nat \<Rightarrow> nat \<Rightarrow> (string \<times> string) option" where
  "apiService_JsonValue [] capacity len = Some ([], [])"
| "apiService_JsonValue (c # cursor) capacity len =
     (if c = DQUOTE then Some ([], c # cursor)
      else if c = BACKSLASH \<or> byte_of_char c < 0x20 \<or> len \<ge> capacity - 1 then None
      else map_option (\<lambda>(v, rest). (c # v, rest)) (apiService_JsonValue cursor capacity (Suc len)))"

definition apiService_JsonString :: "string \<Rightarrow> string \<Rightarrow> nat \<Rightarrow> string option" where
  "apiService_JsonString json key capacity =
     (if capacity = 0 then None
      else case strstr json (json_pattern key) of
        None \<Rightarrow> None
      | Some found \<Rightarrow>
          let cursor = skip_blanks (drop (length (json_pattern key)) found)
          in if peek cursor \<noteq> CHR '':'' then None
             else let cursor = skip_blanks (drop 1 cursor)
                  in if peek cursor \<noteq> DQUOTE then None
                     else case apiService_JsonValue (drop 1 cursor) capacity 0 of
                       None \<Rightarrow> None
                     | Some (value, rest) \<Rightarrow>
                         if peek rest \<noteq> DQUOTE then None
                         else let next = peek (skip_space (drop 1 rest))
                              in if next \<noteq> CHR '','' \<and> next \<noteq> CHR ''}'' then None else Some value)"

definition apiService_JsonHasKey :: "string \<Rightarrow> string \<Rightarrow> bool" where
  "apiService_JsonHasKey json key \<longleftrightarrow>
     (case snprintf 40 ([DQUOTE] @ key @ [DQUOTE]) of
        (len, pattern) \<Rightarrow> 0 < len \<and> len < 40 \<and> strstr json pattern \<noteq> None)"

text \<open>Where the value of a key starts, for the values that are not strings.\<close>

definition json_value_start :: "string \<Rightarrow> string \<Rightarrow> string option" where
  "json_value_start json key =
     (case strstr json (json_pattern key) of
        None \<Rightarrow> None
      | Some found \<Rightarrow>
          (case strchr (drop (length (json_pattern key)) found) (CHR '':'') of
             None \<Rightarrow> None
           | Some cursor \<Rightarrow> Some (skip_blanks (drop 1 cursor))))"

definition apiService_JsonBoolean :: "string \<Rightarrow> string \<Rightarrow> u8 option" where
  "apiService_JsonBoolean json key =
     (case json_value_start json key of
        None \<Rightarrow> None
      | Some cursor \<Rightarrow>
          (case (if prefix ''true'' cursor then Some (1, drop 4 cursor)
                 else if prefix ''false'' cursor then Some (0, drop 5 cursor)
                 else None) of
             None \<Rightarrow> None
           | Some (parsed, rest) \<Rightarrow>
               (let next = peek (skip_space rest)
                in if next \<noteq> CHR '','' \<and> next \<noteq> CHR ''}'' then None else Some parsed)))"

text \<open>\<open>strtoul\<close> in base ten from a digit on; \<open>unsigned long\<close> has 32 bits, more is a range error.\<close>

definition apiService_JsonNumber :: "string \<Rightarrow> string \<Rightarrow> u32 option" where
  "apiService_JsonNumber json key =
     (case json_value_start json key of
        None \<Rightarrow> None
      | Some cursor \<Rightarrow>
          (if \<not> is_digit (peek cursor) then None
           else
             let parsed = digits_value (takeWhile is_digit cursor);
                 next = peek (skip_space (dropWhile is_digit cursor))
             in if parsed \<ge> 2 ^ 32 then None
                else if next \<noteq> CHR '','' \<and> next \<noteq> CHR ''}'' then None
                else Some (of_nat parsed)))"

section \<open>Writing values\<close>

fun json_join :: "string list \<Rightarrow> string" where
  "json_join [] = []"
| "json_join [m] = m"
| "json_join (m # ms) = m @ '','' @ json_join ms"

definition json_object :: "string list \<Rightarrow> string" where
  "json_object members = ''{'' @ json_join members @ ''}''"

text \<open>\<open>used\<close> is the text written so far into a buffer of \<open>capacity\<close> characters.\<close>

fun apiService_AppendLoop :: "string \<Rightarrow> nat \<Rightarrow> string \<Rightarrow> string option" where
  "apiService_AppendLoop used capacity [] = Some used"
| "apiService_AppendLoop used capacity (c # value) =
     (if byte_of_char c < 0x20 then None
      else if c = DQUOTE \<or> c = BACKSLASH
      then (if capacity - length used \<le> 2 then None
            else apiService_AppendLoop (used @ [BACKSLASH, c]) capacity value)
      else if capacity - length used \<le> 1 then None
      else apiService_AppendLoop (used @ [c]) capacity value)"

definition apiService_AppendJsonString :: "string \<Rightarrow> nat \<Rightarrow> string \<Rightarrow> string option" where
  "apiService_AppendJsonString used capacity value =
     (if length used \<ge> capacity then None else apiService_AppendLoop used capacity (cstr value))"

definition apiService_HexEncode :: "u8 list \<Rightarrow> string" where
  "apiService_HexEncode data =
     concat (map (\<lambda>b. [''0123456789abcdef'' ! unat (drop_bit 4 b), ''0123456789abcdef'' ! unat (b AND 0x0F)]) data)"

end
