(* ===== verification/Api_Request.thy ===== *)
theory Api_Request
  imports Api_Json
begin

text \<open>
  Reading one request and writing one response over an established TLS connection,
  \<^verbatim>\<open>Srv/Src/api_service.c\<close>. The connection is a script: the results of the coming reads (a read never
  returns more than it was asked for, the rest of a chunk is delivered by the next call) and how many
  bytes each coming write accepts. A write outside the request buffer is a result of its own.
\<close>

section \<open>The connection\<close>

datatype ssl_read = Ssl_Data string | Ssl_Result int

record tls_session =
  ssl_reads :: "ssl_read list"
  ssl_writes :: "int list"
  ssl_out :: string

definition MBEDTLS_ERR_SSL_BAD_INPUT_DATA :: int where "MBEDTLS_ERR_SSL_BAD_INPUT_DATA = - 0x7100"
definition MBEDTLS_ERR_SSL_BUFFER_TOO_SMALL :: int where "MBEDTLS_ERR_SSL_BUFFER_TOO_SMALL = - 0x6A00"
definition MBEDTLS_ERR_SSL_TIMEOUT :: int where "MBEDTLS_ERR_SSL_TIMEOUT = - 0x6800"

text \<open>An exhausted read script is a timeout; an exhausted write script accepts everything.\<close>

definition mbedtls_ssl_read :: "tls_session \<Rightarrow> nat \<Rightarrow> ssl_read \<times> tls_session" where
  "mbedtls_ssl_read ssl len =
     (case ssl_reads ssl of
        [] \<Rightarrow> (Ssl_Result MBEDTLS_ERR_SSL_TIMEOUT, ssl)
      | Ssl_Result r # rest \<Rightarrow> (Ssl_Result r, ssl\<lparr>ssl_reads := rest\<rparr>)
      | Ssl_Data d # rest \<Rightarrow>
          if length d \<le> len then (Ssl_Data d, ssl\<lparr>ssl_reads := rest\<rparr>)
          else (Ssl_Data (take len d), ssl\<lparr>ssl_reads := Ssl_Data (drop len d) # rest\<rparr>))"

definition mbedtls_ssl_write :: "tls_session \<Rightarrow> string \<Rightarrow> int \<times> tls_session" where
  "mbedtls_ssl_write ssl data =
     (case ssl_writes ssl of
        [] \<Rightarrow> (int (length data), ssl\<lparr>ssl_out := ssl_out ssl @ data\<rparr>)
      | r # rest \<Rightarrow>
          let n = min (nat r) (length data)
          in (if r \<le> 0 then r else int n, ssl\<lparr>ssl_writes := rest, ssl_out := ssl_out ssl @ take n data\<rparr>))"

function apiService_WriteAll :: "tls_session \<Rightarrow> string \<Rightarrow> int \<times> tls_session" where
  "apiService_WriteAll ssl data =
     (if data = [] then (0, ssl)
      else case mbedtls_ssl_write ssl data of
        (result, ssl') \<Rightarrow>
          if result \<le> 0 then (result, ssl') else apiService_WriteAll ssl' (drop (nat result) data))"
  by pat_completeness auto
termination
  by (relation "measure (\<lambda>(ssl, data). length data)") auto

declare apiService_WriteAll.simps [simp del]

section \<open>Requests\<close>

record ApiService_RequestTypeDef =
  rq_method :: string
  rq_path :: string
  rq_authorization :: string
  rq_body :: string
  rq_bodyLength :: nat

definition API_SERVICE_REQUEST_SIZE :: nat where "API_SERVICE_REQUEST_SIZE = 2560"
definition API_SERVICE_RESPONSE_SIZE :: nat where "API_SERVICE_RESPONSE_SIZE = 2048"
definition API_SERVICE_BODY_SIZE :: nat where "API_SERVICE_BODY_SIZE = 2048"

definition CRLF :: string where "CRLF = [CR, LF]"

definition isspace :: "char \<Rightarrow> bool" where
  "isspace c \<longleftrightarrow> c = SPACE \<or> 9 \<le> byte_of_char c \<and> byte_of_char c \<le> 13"

definition strtoul :: "string \<Rightarrow> u32" where
  "strtoul s =
     (let t = dropWhile isspace s;
          negative = (peek t = CHR ''-'');
          ds = takeWhile is_digit (if negative \<or> peek t = CHR ''+'' then drop 1 t else t);
          v = digits_value ds
      in if v \<ge> 2 ^ 32 then 0xFFFFFFFF else if negative then - of_nat v else of_nat v)"

text \<open>\<open>sscanf\<close> with \<open>%7s %79s\<close>.\<close>

definition scan_word :: "nat \<Rightarrow> string \<Rightarrow> string \<times> string" where
  "scan_word n s = (let t = dropWhile isspace s; w = take n (takeWhile (\<lambda>c. \<not> isspace c) t) in (w, drop (length w) t))"

definition scan_request_line :: "string \<Rightarrow> (string \<times> string) option" where
  "scan_request_line s =
     (case scan_word 7 s of (method, t) \<Rightarrow> case scan_word 79 t of (path, _) \<Rightarrow>
        if method = [] \<or> path = [] then None else Some (method, path))"

text \<open>The position of the blank line that ends the header, in the text up to the first zero.\<close>

definition strstr_index :: "string \<Rightarrow> string \<Rightarrow> nat option" where
  "strstr_index s needle = map_option (\<lambda>t. length s - length t) (strstr s needle)"

definition apiService_FindHeaderEnd :: "string \<Rightarrow> nat option" where
  "apiService_FindHeaderEnd buffer = strstr_index (cstr buffer) (CRLF @ CRLF)"

definition find_header :: "string \<Rightarrow> string \<Rightarrow> string \<Rightarrow> string option" where
  "find_header header upper lower =
     map_option (drop (length upper))
       (case strstr header upper of Some t \<Rightarrow> Some t | None \<Rightarrow> strstr header lower)"

definition apiService_ContentLength :: "string \<Rightarrow> nat" where
  "apiService_ContentLength header =
     (case find_header header (CRLF @ ''Content-Length:'') (CRLF @ ''content-length:'') of
        None \<Rightarrow> 0
      | Some t \<Rightarrow> unat (strtoul t))"

text \<open>
  The receive loop: the value it returns early, or the buffer with the end of the header and the
  expected length of the body. \<open>buffer\<close> is what was received so far.
\<close>

type_synonym received = "string \<times> nat option \<times> nat"

definition apiService_NoteHeader :: "string \<Rightarrow> nat option \<Rightarrow> nat \<Rightarrow> (nat option \<times> nat) option" where
  "apiService_NoteHeader buffer headerEnd expected =
     (case headerEnd of
        Some h \<Rightarrow> Some (Some h, expected)
      | None \<Rightarrow>
          (case apiService_FindHeaderEnd buffer of
             None \<Rightarrow> Some (None, expected)
           | Some h \<Rightarrow>
               (let expected' = apiService_ContentLength (take h (cstr buffer))
                in if expected' > API_SERVICE_BODY_SIZE then None else Some (Some h, expected'))))"

definition request_complete :: "string \<Rightarrow> nat option \<Rightarrow> nat \<Rightarrow> bool" where
  "request_complete buffer headerEnd expected \<longleftrightarrow>
     (case headerEnd of None \<Rightarrow> False | Some h \<Rightarrow> length buffer \<ge> h + 4 + expected)"

function apiService_ReadLoop ::
  "tls_session \<Rightarrow> nat \<Rightarrow> string \<Rightarrow> nat option \<Rightarrow> nat \<Rightarrow> (int + received) \<times> tls_session" where
  "apiService_ReadLoop ssl capacity buffer headerEnd expected =
     (if \<not> length buffer < capacity - 1 then (Inr (buffer, headerEnd, expected), ssl)
      else case mbedtls_ssl_read ssl (capacity - length buffer - 1) of
        (Ssl_Result r, ssl') \<Rightarrow> (Inl (if r \<le> 0 then r else 0), ssl')
      | (Ssl_Data d, ssl') \<Rightarrow>
          if d = [] then (Inl 0, ssl')
          else case apiService_NoteHeader (buffer @ d) headerEnd expected of
            None \<Rightarrow> (Inl MBEDTLS_ERR_SSL_BAD_INPUT_DATA, ssl')
          | Some (headerEnd', expected') \<Rightarrow>
              if request_complete (buffer @ d) headerEnd' expected' then (Inr (buffer @ d, headerEnd', expected'), ssl')
              else apiService_ReadLoop ssl' capacity (buffer @ d) headerEnd' expected')"
  by pat_completeness auto
termination
  by (relation "measure (\<lambda>(ssl, capacity, buffer, headerEnd, expected). capacity - length buffer)")
    (auto intro!: diff_less_mono2)

declare apiService_ReadLoop.simps [simp del]

text \<open>
  The outcomes of reading a request: an error code, a return value of 0 without a request having been
  stored, the request, or (with the position of the end of the header) a zero written at an index outside
  the buffer.
\<close>

datatype read_outcome =
    Read_Failed int
  | Read_Unset
  | Read_Request ApiService_RequestTypeDef
  | Read_Outside nat nat

definition apiService_ParseHeader :: "string \<Rightarrow> (string \<times> string \<times> string) option" where
  "apiService_ParseHeader header =
     (case scan_request_line header of
        None \<Rightarrow> None
      | Some (method, path) \<Rightarrow>
          (case find_header header (CRLF @ ''Authorization: Bearer '') (CRLF @ ''authorization: Bearer '') of
             None \<Rightarrow> Some (method, path, [])
           | Some bearer \<Rightarrow>
               (let len = (case strstr_index bearer CRLF of Some n \<Rightarrow> n | None \<Rightarrow> length bearer)
                in if len \<ge> 65 then None else Some (method, path, take len bearer))))"

definition apiService_ReadRequest :: "tls_session \<Rightarrow> nat \<Rightarrow> read_outcome \<times> tls_session" where
  "apiService_ReadRequest ssl capacity =
     (case apiService_ReadLoop ssl capacity [] None 0 of
        (Inl r, ssl') \<Rightarrow> (if r = 0 then Read_Unset else Read_Failed r, ssl')
      | (Inr (buffer, headerEnd, expected), ssl') \<Rightarrow>
          (case headerEnd of
             None \<Rightarrow> (Read_Failed MBEDTLS_ERR_SSL_BAD_INPUT_DATA, ssl')
           | Some h \<Rightarrow>
               (case apiService_ParseHeader (take h (cstr buffer)) of
                  None \<Rightarrow> (Read_Failed MBEDTLS_ERR_SSL_BAD_INPUT_DATA, ssl')
                | Some (method, path, authorization) \<Rightarrow>
                    if h + 4 + expected \<ge> capacity then (Read_Outside h (h + 4 + expected), ssl')
                    else (Read_Request \<lparr>rq_method = method, rq_path = path, rq_authorization = authorization,
                            rq_body = take expected (drop (h + 4) buffer), rq_bodyLength = expected\<rparr>, ssl'))))"

section \<open>Responses\<close>

definition apiService_Header :: "nat \<Rightarrow> string \<Rightarrow> nat \<Rightarrow> string" where
  "apiService_Header status reason len =
     ''HTTP/1.1 '' @ decimal status @ '' '' @ reason @ CRLF
     @ ''Content-Type: application/json'' @ CRLF
     @ ''Content-Length: '' @ decimal len @ CRLF
     @ ''Connection: close'' @ CRLF
     @ ''Cache-Control: no-store'' @ CRLF @ CRLF"

definition apiService_RespondEx :: "tls_session \<Rightarrow> nat \<Rightarrow> string \<Rightarrow> string \<Rightarrow> bool \<Rightarrow> int \<times> tls_session" where
  "apiService_RespondEx ssl status reason json headOnly =
     (case snprintf API_SERVICE_RESPONSE_SIZE
             (apiService_Header status reason (length json) @ (if headOnly then [] else json)) of
        (len, response) \<Rightarrow>
          if len = 0 \<or> len \<ge> API_SERVICE_RESPONSE_SIZE then (MBEDTLS_ERR_SSL_BUFFER_TOO_SMALL, ssl)
          else apiService_WriteAll ssl response)"

definition apiService_Respond :: "tls_session \<Rightarrow> nat \<Rightarrow> string \<Rightarrow> string \<Rightarrow> int \<times> tls_session" where
  "apiService_Respond ssl status reason json = apiService_RespondEx ssl status reason json False"

definition apiService_RespondBuffer :: "tls_session \<Rightarrow> nat \<Rightarrow> string \<Rightarrow> string \<Rightarrow> int \<times> tls_session" where
  "apiService_RespondBuffer ssl status reason json =
     (case snprintf 128 (apiService_Header status reason (length json)) of
        (len, header) \<Rightarrow>
          if len = 0 \<or> len \<ge> 128 then (MBEDTLS_ERR_SSL_BUFFER_TOO_SMALL, ssl)
          else case apiService_WriteAll ssl header of
            (result, ssl') \<Rightarrow> if result \<noteq> 0 then (result, ssl') else apiService_WriteAll ssl' json)"

text \<open>A JSON object with one string member.\<close>

definition json_string_member :: "string \<Rightarrow> string \<Rightarrow> string" where
  "json_string_member key value = [DQUOTE] @ key @ [DQUOTE] @ '':'' @ [DQUOTE] @ value @ [DQUOTE]"

definition json_member :: "string \<Rightarrow> string \<Rightarrow> string" where
  "json_member key text = [DQUOTE] @ key @ [DQUOTE] @ '':'' @ text"

definition json_bool :: "bool \<Rightarrow> string" where
  "json_bool b = (if b then ''true'' else ''false'')"

definition apiService_Error :: "tls_session \<Rightarrow> nat \<Rightarrow> string \<Rightarrow> string \<Rightarrow> int \<times> tls_session" where
  "apiService_Error ssl status reason code =
     apiService_Respond ssl status reason (snd (snprintf 96 (''{'' @ json_string_member ''error'' code @ ''}'')))"

section \<open>Properties\<close>

lemma mbedtls_ssl_read_length:
  "mbedtls_ssl_read ssl len = (Ssl_Data d, ssl') \<Longrightarrow> length d \<le> len"
  by (auto simp: mbedtls_ssl_read_def split: list.splits ssl_read.splits if_splits)

text \<open>What the receive loop hands on: a bounded buffer, and either a complete request or a full buffer.\<close>

lemma strstr_suffix: "strstr s needle = Some t \<Longrightarrow> suffix t s \<and> prefix needle t"
  by (induction s) (auto simp: suffix_Cons split: if_splits)

lemma strstr_index_bound: "strstr_index s needle = Some n \<Longrightarrow> n + length needle \<le> length s"
  by (auto simp: strstr_index_def dest!: strstr_suffix) (use suffix_length_le prefix_length_le in fastforce)

definition header_inside :: "string \<Rightarrow> nat option \<Rightarrow> bool" where
  "header_inside buffer headerEnd \<longleftrightarrow> (case headerEnd of None \<Rightarrow> True | Some h \<Rightarrow> h + 4 \<le> length buffer)"

lemma apiService_NoteHeader_bound:
  assumes "apiService_NoteHeader (buffer @ d) headerEnd expected = Some (h, e)" and "expected \<le> API_SERVICE_BODY_SIZE"
    and "header_inside buffer headerEnd"
  shows "e \<le> API_SERVICE_BODY_SIZE" and "header_inside (buffer @ d) h"
proof -
  have "n + 4 \<le> length (buffer @ d)" if "apiService_FindHeaderEnd (buffer @ d) = Some n" for n
    using strstr_index_bound [of "cstr (buffer @ d)" "CRLF @ CRLF" n] that length_cstr_le [of "buffer @ d"]
    by (simp add: apiService_FindHeaderEnd_def CRLF_def)
  then show "e \<le> API_SERVICE_BODY_SIZE" "header_inside (buffer @ d) h"
    using assms by (auto simp: apiService_NoteHeader_def header_inside_def Let_def split: option.splits if_splits)
qed

lemma apiService_ReadLoop_bounds:
  assumes "apiService_ReadLoop ssl capacity buffer headerEnd expected = (Inr (buffer', h', expected'), ssl')"
    and "length buffer \<le> capacity - 1" and "expected \<le> API_SERVICE_BODY_SIZE" and "header_inside buffer headerEnd"
  shows "length buffer' \<le> capacity - 1 \<and> expected' \<le> API_SERVICE_BODY_SIZE \<and> header_inside buffer' h'
    \<and> (request_complete buffer' h' expected' \<or> length buffer' = capacity - 1)"
  using assms
proof (induction ssl capacity buffer headerEnd expected rule: apiService_ReadLoop.induct)
  case (1 ssl capacity buffer headerEnd expected)
  show ?case
  proof (cases "length buffer < capacity - 1")
    case False
    then show ?thesis
      using "1.prems" by (subst (asm) apiService_ReadLoop.simps) auto
  next
    case True
    obtain r ssl1 where read: "mbedtls_ssl_read ssl (capacity - length buffer - 1) = (r, ssl1)"
      by fastforce
    then obtain d where d: "r = Ssl_Data d" "d \<noteq> []"
      using "1.prems"(1) True by (subst (asm) apiService_ReadLoop.simps) (auto split: ssl_read.splits if_splits)
    then obtain h1 e1 where note_header: "apiService_NoteHeader (buffer @ d) headerEnd expected = Some (h1, e1)"
      using "1.prems"(1) True read by (subst (asm) apiService_ReadLoop.simps) (auto split: option.splits)
    have "length (buffer @ d) \<le> capacity - 1"
      using mbedtls_ssl_read_length [OF read [unfolded d]] True by simp
    moreover have "e1 \<le> API_SERVICE_BODY_SIZE" "header_inside (buffer @ d) h1"
      using apiService_NoteHeader_bound [OF note_header "1.prems"(3,4)] by blast+
    moreover have "(if request_complete (buffer @ d) h1 e1 then (Inr (buffer @ d, h1, e1), ssl1)
        else apiService_ReadLoop ssl1 capacity (buffer @ d) h1 e1) = (Inr (buffer', h', expected'), ssl')"
      using "1.prems"(1) True read d note_header by (subst (asm) apiService_ReadLoop.simps) simp
    ultimately show ?thesis
      using "1.IH" [OF _ read [symmetric] d note_header refl] True by (auto split: if_splits)
  qed
qed

lemma scan_word_length: "scan_word n s = (w, t) \<Longrightarrow> length w \<le> n"
  by (auto simp: scan_word_def Let_def)

lemma apiService_ParseHeader_bounds:
  assumes "apiService_ParseHeader header = Some (method, path, authorization)"
  shows "0 < length method \<and> length method \<le> 7 \<and> 0 < length path \<and> length path \<le> 79 \<and> length authorization \<le> 64"
  using assms
  by (auto simp: apiService_ParseHeader_def scan_request_line_def Let_def
      dest: scan_word_length split: option.splits prod.splits if_splits)

text \<open>
  C36: reading a request always ends. A request it returns fits the fixed-size fields (method, path and
  token with their terminating zeros) and has exactly the announced body of at most 2048 bytes. The
  terminating zero of the body is written outside the 2560-byte buffer only when the header takes
  more than 507 bytes, and then less than 2048 bytes behind its end.
\<close>

theorem apiService_ReadRequest_bounds:
  "case apiService_ReadRequest ssl API_SERVICE_REQUEST_SIZE of
     (Read_Request r, _) \<Rightarrow>
       0 < length (rq_method r) \<and> length (rq_method r) < 8 \<and> 0 < length (rq_path r) \<and> length (rq_path r) < 80
       \<and> length (rq_authorization r) < 65 \<and> length (rq_body r) = rq_bodyLength r \<and> rq_bodyLength r \<le> 2048
   | (Read_Outside h i, _) \<Rightarrow> 507 < h \<and> 2560 \<le> i \<and> i < 2560 + 2048
   | (Read_Failed e, _) \<Rightarrow> e \<noteq> 0
   | (Read_Unset, _) \<Rightarrow> True"
proof -
  obtain r ssl1 where loop: "apiService_ReadLoop ssl API_SERVICE_REQUEST_SIZE [] None 0 = (r, ssl1)"
    by fastforce
  show ?thesis
  proof (cases r)
    case (Inl e)
    then show ?thesis
      using loop by (simp add: apiService_ReadRequest_def)
  next
    case (Inr x)
    obtain buffer h expected where x: "x = (buffer, h, expected)"
      by (metis prod_cases3)
    have bounds: "length buffer \<le> 2559" "expected \<le> 2048" "header_inside buffer h"
        "request_complete buffer h expected \<or> length buffer = 2559"
      using apiService_ReadLoop_bounds [OF loop [unfolded Inr x]]
      by (simp_all add: API_SERVICE_REQUEST_SIZE_def API_SERVICE_BODY_SIZE_def header_inside_def)
    show ?thesis
    proof (cases h)
      case None
      then show ?thesis
        using loop Inr x by (simp add: apiService_ReadRequest_def MBEDTLS_ERR_SSL_BAD_INPUT_DATA_def)
    next
      case (Some n)
      then show ?thesis
        using loop Inr x bounds apiService_ParseHeader_bounds [of "take n (cstr buffer)"]
        by (auto simp: apiService_ReadRequest_def MBEDTLS_ERR_SSL_BAD_INPUT_DATA_def API_SERVICE_REQUEST_SIZE_def
            header_inside_def request_complete_def split: option.splits)
    qed
  qed
qed

text \<open>A header of 512 bytes that announces a body of 2048, and a client that sends it.\<close>

definition long_start :: string where
  "long_start = ''PUT /x HTTP/1.1'' @ CRLF @ ''Content-Length: 2048'' @ CRLF @ ''X: ''"

definition long_header :: string where
  "long_header = long_start @ replicate 466 (CHR ''a'') @ CRLF @ CRLF"

definition long_client :: tls_session where
  "long_client = \<lparr>ssl_reads = [Ssl_Data long_header, Ssl_Data (replicate 2048 (CHR ''b''))], ssl_writes = [], ssl_out = []\<rparr>"

lemma strstr_skip: "c \<notin> set xs \<Longrightarrow> strstr (xs @ s) (c # needle) = strstr s (c # needle)"
  by (induction xs) auto

lemma strstr_absent: "c \<notin> set s \<Longrightarrow> strstr s (c # needle) = None"
  by (induction s) auto

lemma long_header_length: "length long_header = 512"
  by (simp add: long_header_def long_start_def CRLF_def)

lemma long_header_take: "take 508 long_header = long_start @ replicate 466 (CHR ''a'')"
  by (simp add: long_header_def long_start_def CRLF_def)

lemma long_header_cstr: "cstr (long_header @ s) = long_header @ cstr s"
  by (simp add: cstr_def long_header_def long_start_def CRLF_def takeWhile_append)

lemma long_header_end: "apiService_FindHeaderEnd long_header = Some 508"
proof -
  have c: "cstr long_header = long_header"
    using long_header_cstr [of "[]"] by (simp add: cstr_def)
  show ?thesis
    unfolding apiService_FindHeaderEnd_def c
    by (simp add: strstr_index_def long_header_def long_start_def CRLF_def strstr_skip)
qed

lemma long_header_content: "apiService_ContentLength (take 508 long_header) = 2048"
  unfolding long_header_take
  by (simp add: apiService_ContentLength_def find_header_def long_start_def CRLF_def strtoul_def Let_def isspace_def
      byte_of_char_def peek_def is_digit_def digits_value_def)

lemma long_header_parse: "apiService_ParseHeader (take 508 long_header) = Some (''PUT'', ''/x'', [])"
  unfolding long_header_take
  by (simp add: apiService_ParseHeader_def scan_request_line_def scan_word_def find_header_def long_start_def CRLF_def
      Let_def isspace_def byte_of_char_def strstr_absent)

text \<open>
  C37: the zero can be written outside the buffer: a client that sends a header of 512 bytes
  announcing a body of 2048 makes the server write one byte behind its 2560-byte buffer.
\<close>

theorem request_buffer_overflow:
  "fst (apiService_ReadRequest long_client API_SERVICE_REQUEST_SIZE) = Read_Outside 508 2560"
proof -
  let ?body = "replicate 2047 (CHR ''b'')"
  let ?c1 = "long_client\<lparr>ssl_reads := [Ssl_Data (replicate 2048 (CHR ''b''))]\<rparr>"
  let ?c2 = "long_client\<lparr>ssl_reads := [Ssl_Data [CHR ''b'']]\<rparr>"
  have n1: "apiService_NoteHeader long_header None 0 = Some (Some 508, 2048)"
    using long_header_content long_header_cstr [of "[]"] long_header_end
    by (simp add: apiService_NoteHeader_def API_SERVICE_BODY_SIZE_def cstr_def [of "[]"])
  have step1: "apiService_ReadLoop long_client 2560 [] None 0 = apiService_ReadLoop ?c1 2560 long_header (Some 508) 2048"
    using long_header_length n1
    by (subst apiService_ReadLoop.simps) (auto simp: mbedtls_ssl_read_def long_client_def request_complete_def)
  have "drop 2047 (replicate 2048 (CHR ''b'')) = [CHR ''b'']"
    by (simp only: drop_replicate) simp
  then have step2: "apiService_ReadLoop ?c1 2560 long_header (Some 508) 2048
      = apiService_ReadLoop ?c2 2560 (long_header @ ?body) (Some 508) 2048"
    using long_header_length
    by (subst apiService_ReadLoop.simps) (simp add: mbedtls_ssl_read_def long_client_def request_complete_def apiService_NoteHeader_def)
  have step3: "apiService_ReadLoop ?c2 2560 (long_header @ ?body) (Some 508) 2048 = (Inr (long_header @ ?body, Some 508, 2048), ?c2)"
    using long_header_length by (subst apiService_ReadLoop.simps) simp
  have "take 508 (cstr (long_header @ ?body)) = take 508 long_header"
    using long_header_length by (simp add: long_header_cstr)
  then show ?thesis
    using step1 step2 step3 long_header_parse by (simp add: apiService_ReadRequest_def API_SERVICE_REQUEST_SIZE_def)
qed

text \<open>A write result of zero stops the response although it reports success; otherwise all of it is sent.\<close>

lemma apiService_WriteAll_complete:
  assumes "list_all (\<lambda>r. 0 < r) (ssl_writes ssl)"
  shows "fst (apiService_WriteAll ssl data) = 0 \<and> ssl_out (snd (apiService_WriteAll ssl data)) = ssl_out ssl @ data"
  using assms
proof (induction ssl data rule: apiService_WriteAll.induct)
  case (1 ssl data)
  show ?case
  proof (cases "data = [] \<or> ssl_writes ssl = []")
    case True
    then show ?thesis
      by (subst (1 2) apiService_WriteAll.simps; subst (1 2) apiService_WriteAll.simps) (auto simp: mbedtls_ssl_write_def)
  next
    case False
    then obtain r rest where r: "ssl_writes ssl = r # rest"
      by (cases "ssl_writes ssl") auto
    obtain result ssl' where w: "mbedtls_ssl_write ssl data = (result, ssl')"
      by fastforce
    define n where "n = min (nat r) (length data)"
    have res: "result = int n" "0 < n" "ssl' = ssl\<lparr>ssl_writes := rest, ssl_out := ssl_out ssl @ take n data\<rparr>"
      using w r "1.prems" False by (auto simp: mbedtls_ssl_write_def Let_def n_def)
    have "fst (apiService_WriteAll ssl' (drop n data)) = 0
        \<and> ssl_out (snd (apiService_WriteAll ssl' (drop n data))) = ssl_out ssl' @ drop n data"
      using "1.IH" [OF _ w [symmetric]] "1.prems" False res r by simp
    then show ?thesis
      using False w res by (subst (1 2) apiService_WriteAll.simps) simp
  qed
qed

end
