(* ===== verification/W25q64.thy ===== *)
theory W25q64
  imports Fw_Prelude
begin

text \<open>
  The NOR flash driver \<^verbatim>\<open>Periph/Src/w25q64.c\<close> above the SPI wire. The chip is hardware: its
  part of the model (the \<open>nor_...\<close> definitions) is the datasheet behaviour that the driver's
  header states, namely that erasing a sector sets its 4096 bytes to \<open>0xFF\<close>, that programming
  can only clear bits and wraps inside a 256-byte page, and that both need a preceding write
  enable. The environment decides through two scripts which waiting loop of a transfer times
  out and for how many status polls the chip stays busy; an exhausted script means no fault.
  After the driver gave up on a busy chip the next command finds it ready.
  The lemmas give the contract the persistent stores rely on: what a read returns, what an
  erase and a program leave in memory on success, and what they leave untouched on every
  outcome. The locale \<open>nor_driver\<close> is that contract; it is interpreted on the driver at the end.
\<close>

section \<open>Constants\<close>

definition W25Q64_CAPACITY_BYTES :: u32 where
  "W25Q64_CAPACITY_BYTES = 8 * 1024 * 1024"

definition W25Q64_SECTOR_SIZE :: u32 where
  "W25Q64_SECTOR_SIZE = 4096"

definition W25Q64_PAGE_SIZE :: u32 where
  "W25Q64_PAGE_SIZE = 256"

lemmas w25q64_constants =
  W25Q64_CAPACITY_BYTES_def W25Q64_SECTOR_SIZE_def W25Q64_PAGE_SIZE_def

abbreviation nor_capacity :: nat where
  "nor_capacity \<equiv> 8388608"

abbreviation nor_sector :: nat where
  "nor_sector \<equiv> 4096"

section \<open>Driver state and chip\<close>

text \<open>
  \<open>flashMutex\<close> is \<open>None\<close> while the handle is NULL and otherwise the nesting depth of the
  recursive mutex. An entry \<open>Some j\<close> of \<open>spi_faults\<close> makes the \<open>j\<close>-th waiting loop of the next
  transfer time out.
\<close>

record w25q64 =
  flashMutex :: "nat option"
  nor_mem :: "nat \<Rightarrow> u8"
  nor_wel :: bool
  nor_busy :: nat
  spi_faults :: "nat option list"
  busy_times :: "nat list"

definition nor_addr :: "u8 \<Rightarrow> u8 \<Rightarrow> u8 \<Rightarrow> nat" where
  "nor_addr a2 a1 a0 = unat a2 * 65536 + unat a1 * 256 + unat a0"

definition nor_erase :: "(nat \<Rightarrow> u8) \<Rightarrow> nat \<Rightarrow> nat \<Rightarrow> u8" where
  "nor_erase m a = (\<lambda>i. if i div nor_sector = a div nor_sector then 0xFF else m i)"

definition nor_page_next :: "nat \<Rightarrow> nat" where
  "nor_page_next a = a div 256 * 256 + Suc a mod 256"

fun nor_page_program :: "(nat \<Rightarrow> u8) \<Rightarrow> nat \<Rightarrow> u8 list \<Rightarrow> nat \<Rightarrow> u8" where
  "nor_page_program m a [] = m"
| "nor_page_program m a (d # ds) = nor_page_program (m(a := m a AND d)) (nor_page_next a) ds"

text \<open>What the chip shifts out after the bytes of a command.\<close>

fun nor_output :: "w25q64 \<Rightarrow> u8 list \<Rightarrow> nat \<Rightarrow> u8 list" where
  "nor_output f [c] n =
     (if c = 0x05 then replicate n (if nor_busy f = 0 then 0 else 1)
      else if c = 0x9F then take n [0xEF, 0x40, 0x17]
      else replicate n 0xFF)"
| "nor_output f [c, a2, a1, a0] n =
     (if c = 0x03 then map (\<lambda>i. nor_mem f ((nor_addr a2 a1 a0 + i) mod nor_capacity)) [0..<n]
      else replicate n 0xFF)"
| "nor_output f _ n = replicate n 0xFF"

text \<open>What the chip does when it is deselected after the given bytes were shifted in.\<close>

definition nor_start :: "w25q64 \<Rightarrow> (nat \<Rightarrow> u8) \<Rightarrow> w25q64" where
  "nor_start f m =
     f\<lparr>nor_mem := m, nor_wel := False,
       nor_busy := (case busy_times f of [] \<Rightarrow> 0 | t # _ \<Rightarrow> t), busy_times := tl (busy_times f)\<rparr>"

fun nor_deselect :: "w25q64 \<Rightarrow> u8 list \<Rightarrow> w25q64" where
  "nor_deselect f [] = f"
| "nor_deselect f (c # rest) =
     (if c = 0x06 then (if rest = [] then f\<lparr>nor_wel := True\<rparr> else f)
      else if c = 0x05 then f\<lparr>nor_busy := nor_busy f - 1\<rparr>
      else if c = 0x20 then
        (case rest of [a2, a1, a0] \<Rightarrow>
           if nor_wel f then nor_start f (nor_erase (nor_mem f) (nor_addr a2 a1 a0)) else f
         | _ \<Rightarrow> f)
      else if c = 0x02 then
        (case rest of a2 # a1 # a0 # d # ds \<Rightarrow>
           if nor_wel f
           then nor_start f (nor_page_program (nor_mem f) (nor_addr a2 a1 a0) (d # ds)) else f
         | _ \<Rightarrow> f)
      else f)"

section \<open>Transfers and commands\<close>

text \<open>
  The byte loop of \<open>w25q64_Transfer\<close>: status, number of bytes written to the data register and
  number of bytes received. Wait \<open>2 * i\<close> is the TXE wait of byte \<open>i\<close>, wait \<open>2 * i + 1\<close> its
  RXNE wait (the byte is already in the data register), and the last wait is the BSY wait.
\<close>

fun transfer_loop :: "nat option \<Rightarrow> nat \<Rightarrow> Platform_StatusTypeDef \<times> nat \<times> nat" where
  "transfer_loop w 0 =
     (if w = Some 0 then (PLATFORM_STATUS_TIMEOUT, 0, 0) else (PLATFORM_STATUS_OK, 0, 0))"
| "transfer_loop w (Suc n) =
     (if w = Some 0 then (PLATFORM_STATUS_TIMEOUT, 0, 0)
      else if w = Some 1 then (PLATFORM_STATUS_TIMEOUT, 1, 0)
      else case transfer_loop (map_option (\<lambda>j. j - 2) w) n of
        (s, sent, received) \<Rightarrow> (s, Suc sent, Suc received))"

definition w25q64_Transfer ::
  "w25q64 \<Rightarrow> u8 list option \<Rightarrow> nat \<Rightarrow> Platform_StatusTypeDef \<times> u8 list \<times> nat \<times> w25q64" where
  "w25q64_Transfer f transmit len =
     (let w = (case spi_faults f of [] \<Rightarrow> None | e # _ \<Rightarrow> e);
          bytes = (case transmit of Some t \<Rightarrow> t | None \<Rightarrow> replicate len 0xFF)
      in case transfer_loop w len of
        (s, sent, received) \<Rightarrow>
          (s, take sent bytes, received, f\<lparr>spi_faults := tl (spi_faults f)\<rparr>))"

definition w25q64_Command ::
  "w25q64 \<Rightarrow> u8 list \<Rightarrow> nat \<Rightarrow> Platform_StatusTypeDef \<times> u8 list \<times> w25q64" where
  "w25q64_Command f command receiveLength =
     (case w25q64_Transfer f (Some command) (length command) of
        (s1, out1, r1, f1) \<Rightarrow>
          if s1 = PLATFORM_STATUS_OK \<and> receiveLength \<noteq> 0 then
            (case w25q64_Transfer f1 None receiveLength of
               (s2, out2, r2, f2) \<Rightarrow>
                 (s2, take r2 (nor_output f2 command receiveLength),
                  nor_deselect f2 (out1 @ out2)))
          else (s1, [], nor_deselect f1 out1))"

definition w25q64_WriteEnable :: "w25q64 \<Rightarrow> Platform_StatusTypeDef \<times> w25q64" where
  "w25q64_WriteEnable f = (case w25q64_Command f [0x06] 0 of (s, _, f') \<Rightarrow> (s, f'))"

text \<open>
  Every iteration of the polling loop lasts one millisecond, so the loop guard
  \<open>Platform_GetTick() - started < timeoutMs\<close> admits at most \<open>timeoutMs\<close> iterations.
\<close>

fun w25q64_WaitReady :: "w25q64 \<Rightarrow> nat \<Rightarrow> Platform_StatusTypeDef \<times> w25q64" where
  "w25q64_WaitReady f 0 = (PLATFORM_STATUS_TIMEOUT, f)"
| "w25q64_WaitReady f (Suc ms) =
     (case w25q64_Command f [0x05] 1 of
        (s, status, f') \<Rightarrow>
          if s \<noteq> PLATFORM_STATUS_OK then (PLATFORM_STATUS_ERROR, f')
          else if hd status AND 1 = 0 then (PLATFORM_STATUS_OK, f')
          else w25q64_WaitReady f' ms)"

section \<open>The flash mutex\<close>

definition xSemaphoreTakeRecursive :: "w25q64 \<Rightarrow> w25q64 option" where
  "xSemaphoreTakeRecursive f =
     (case flashMutex f of None \<Rightarrow> None | Some d \<Rightarrow> Some (f\<lparr>flashMutex := Some (Suc d)\<rparr>))"

definition xSemaphoreGiveRecursive :: "w25q64 \<Rightarrow> w25q64" where
  "xSemaphoreGiveRecursive f = f\<lparr>flashMutex := map_option (\<lambda>d. d - 1) (flashMutex f)\<rparr>"

definition W25Q64_Lock :: "w25q64 \<Rightarrow> Platform_StatusTypeDef \<times> w25q64" where
  "W25Q64_Lock f =
     (case xSemaphoreTakeRecursive f of
        None \<Rightarrow> (PLATFORM_STATUS_ERROR, f)
      | Some f' \<Rightarrow> (PLATFORM_STATUS_OK, f'))"

definition W25Q64_Unlock :: "w25q64 \<Rightarrow> w25q64" where
  "W25Q64_Unlock f = (if flashMutex f \<noteq> None then xSemaphoreGiveRecursive f else f)"

section \<open>Driver operations\<close>

definition W25Q64_IsAvailable :: "w25q64 \<Rightarrow> bool \<times> w25q64" where
  "W25Q64_IsAvailable f =
     (case xSemaphoreTakeRecursive f of
        None \<Rightarrow> (False, f)
      | Some f0 \<Rightarrow>
          (case w25q64_Command f0 [0x9F] 3 of
             (s, identity, f1) \<Rightarrow>
               (s = PLATFORM_STATUS_OK \<and> identity = [0xEF, 0x40, 0x17],
                xSemaphoreGiveRecursive f1)))"

text \<open>\<open>created\<close> tells whether \<open>xSemaphoreCreateRecursiveMutexStatic\<close> returned a handle.\<close>

definition W25Q64_Init :: "bool \<Rightarrow> w25q64 \<Rightarrow> Platform_StatusTypeDef \<times> w25q64" where
  "W25Q64_Init created f =
     (if \<not> created then (PLATFORM_STATUS_ERROR, f\<lparr>flashMutex := None\<rparr>)
      else case W25Q64_IsAvailable (f\<lparr>flashMutex := Some 0\<rparr>) of
        (available, f') \<Rightarrow>
          (if available then PLATFORM_STATUS_OK else PLATFORM_STATUS_ERROR, f'))"

definition address_command :: "u8 \<Rightarrow> u32 \<Rightarrow> u8 list" where
  "address_command c address =
     [c, ucast (drop_bit 16 address), ucast (drop_bit 8 address), ucast address]"

definition W25Q64_Read ::
  "w25q64 \<Rightarrow> u32 \<Rightarrow> u32 \<Rightarrow> Platform_StatusTypeDef \<times> u8 list \<times> w25q64" where
  "W25Q64_Read f address len =
     (if len = 0 \<or> address > W25Q64_CAPACITY_BYTES - len then (PLATFORM_STATUS_ERROR, [], f)
      else case xSemaphoreTakeRecursive f of
        None \<Rightarrow> (PLATFORM_STATUS_ERROR, [], f)
      | Some f0 \<Rightarrow>
          (case w25q64_Command f0 (address_command 0x03 address) (unat len) of
             (s, bytes, f1) \<Rightarrow> (s, bytes, xSemaphoreGiveRecursive f1)))"

definition W25Q64_EraseSector :: "w25q64 \<Rightarrow> u32 \<Rightarrow> Platform_StatusTypeDef \<times> w25q64" where
  "W25Q64_EraseSector f address =
     (if address \<ge> W25Q64_CAPACITY_BYTES \<or> address mod W25Q64_SECTOR_SIZE \<noteq> 0
      then (PLATFORM_STATUS_ERROR, f)
      else case xSemaphoreTakeRecursive f of
        None \<Rightarrow> (PLATFORM_STATUS_ERROR, f)
      | Some f0 \<Rightarrow>
          (case w25q64_WriteEnable f0 of
             (s1, f1) \<Rightarrow>
               if s1 \<noteq> PLATFORM_STATUS_OK then (s1, xSemaphoreGiveRecursive f1)
               else (case w25q64_Command f1 (address_command 0x20 address) 0 of
                 (s2, _, f2) \<Rightarrow>
                   if s2 \<noteq> PLATFORM_STATUS_OK then (s2, xSemaphoreGiveRecursive f2)
                   else (case w25q64_WaitReady f2 2000 of
                     (s3, f3) \<Rightarrow> (s3, xSemaphoreGiveRecursive f3)))))"

text \<open>One iteration of the program loop: one page at most.\<close>

definition w25q64_ProgramChunk ::
  "w25q64 \<Rightarrow> u32 \<Rightarrow> u8 list \<Rightarrow> Platform_StatusTypeDef \<times> w25q64" where
  "w25q64_ProgramChunk f address chunk =
     (case w25q64_WriteEnable f of
        (s1, f1) \<Rightarrow>
          if s1 \<noteq> PLATFORM_STATUS_OK then (s1, f1)
          else (case w25q64_Transfer f1 (Some (address_command 0x02 address)) 4 of
            (s2, out2, _, f2) \<Rightarrow>
              if s2 \<noteq> PLATFORM_STATUS_OK then (s2, nor_deselect f2 out2)
              else (case w25q64_Transfer f2 (Some chunk) (length chunk) of
                (s3, out3, _, f3) \<Rightarrow>
                  if s3 \<noteq> PLATFORM_STATUS_OK then (s3, nor_deselect f3 (out2 @ out3))
                  else w25q64_WaitReady (nor_deselect f3 (out2 @ out3)) 100)))"

function w25q64_ProgramLoop ::
  "w25q64 \<Rightarrow> u32 \<Rightarrow> u8 list \<Rightarrow> Platform_StatusTypeDef \<times> w25q64" where
  "w25q64_ProgramLoop f address source =
     (if source = [] then (PLATFORM_STATUS_OK, f)
      else let chunk = min (unat (W25Q64_PAGE_SIZE - address mod W25Q64_PAGE_SIZE)) (length source)
        in case w25q64_ProgramChunk f address (take chunk source) of
          (s, f') \<Rightarrow>
            if s \<noteq> PLATFORM_STATUS_OK then (s, f')
            else w25q64_ProgramLoop f' (address + of_nat chunk) (drop chunk source))"
  by pat_completeness auto

lemma unat_mod_page: "unat (a mod W25Q64_PAGE_SIZE) = unat a mod 256"
  by (simp add: W25Q64_PAGE_SIZE_def unat_mod_distrib)

lemma unat_page_rest:
  "unat (W25Q64_PAGE_SIZE - address mod W25Q64_PAGE_SIZE) = 256 - unat address mod 256"
proof -
  have "address mod W25Q64_PAGE_SIZE \<le> W25Q64_PAGE_SIZE"
    by (simp add: word_le_nat_alt unat_mod_page) (simp add: W25Q64_PAGE_SIZE_def)
  then have "unat (W25Q64_PAGE_SIZE - address mod W25Q64_PAGE_SIZE) =
      unat W25Q64_PAGE_SIZE - unat (address mod W25Q64_PAGE_SIZE)"
    by (rule unat_sub)
  then show ?thesis
    by (simp add: unat_mod_page) (simp add: W25Q64_PAGE_SIZE_def)
qed

termination w25q64_ProgramLoop
  by (relation "measure (\<lambda>(f, address, source). length source)")
    (auto simp: unat_page_rest)

declare w25q64_ProgramLoop.simps [simp del]

definition W25Q64_Program ::
  "w25q64 \<Rightarrow> u32 \<Rightarrow> u8 list \<Rightarrow> Platform_StatusTypeDef \<times> w25q64" where
  "W25Q64_Program f address data =
     (let len = of_nat (length data) :: u32
      in if len = 0 \<or> address > W25Q64_CAPACITY_BYTES - len then (PLATFORM_STATUS_ERROR, f)
      else case xSemaphoreTakeRecursive f of
        None \<Rightarrow> (PLATFORM_STATUS_ERROR, f)
      | Some f0 \<Rightarrow>
          (case w25q64_ProgramLoop f0 address data of
             (s, f1) \<Rightarrow> (s, xSemaphoreGiveRecursive f1)))"

section \<open>Transfers\<close>

lemma transfer_loop_None [simp]: "transfer_loop None n = (PLATFORM_STATUS_OK, n, n)"
  by (induction n) simp_all

lemma transfer_loop_OK:
  "transfer_loop w n = (PLATFORM_STATUS_OK, sent, received) \<Longrightarrow> sent = n \<and> received = n"
  by (induction w n arbitrary: sent received rule: transfer_loop.induct)
    (auto split: if_splits prod.splits)

text \<open>The part of the driver state a transfer does not touch.\<close>

definition same_chip :: "w25q64 \<Rightarrow> w25q64 \<Rightarrow> bool" where
  "same_chip f g \<longleftrightarrow> flashMutex g = flashMutex f \<and> nor_mem g = nor_mem f \<and> nor_wel g = nor_wel f
     \<and> nor_busy g = nor_busy f \<and> busy_times g = busy_times f"

lemma w25q64_Transfer_frame:
  "w25q64_Transfer f transmit len = (s, out, r, f') \<Longrightarrow> same_chip f f'"
  by (auto simp: w25q64_Transfer_def same_chip_def Let_def split: prod.splits)

lemma w25q64_Transfer_prefix:
  "w25q64_Transfer f (Some bytes) len = (s, out, r, f') \<Longrightarrow> \<exists>k. out = take k bytes"
  by (auto simp: w25q64_Transfer_def Let_def split: prod.splits)

lemma w25q64_Transfer_OK:
  assumes "w25q64_Transfer f transmit len = (PLATFORM_STATUS_OK, out, r, f')"
  shows "r = len" and "transmit = Some bytes \<Longrightarrow> length bytes = len \<Longrightarrow> out = bytes"
  using assms by (auto simp: w25q64_Transfer_def Let_def dest: transfer_loop_OK split: prod.splits)

section \<open>Commands\<close>

lemma w25q64_WriteEnable_frame:
  assumes "w25q64_WriteEnable f = (s, f')"
  shows "nor_mem f' = nor_mem f \<and> flashMutex f' = flashMutex f
    \<and> (s = PLATFORM_STATUS_OK \<longrightarrow> nor_wel f')"
proof -
  obtain out r f1 where t: "w25q64_Transfer f (Some [0x06]) 1 = (s, out, r, f1)"
    and f': "f' = nor_deselect f1 out"
    using assms by (auto simp: w25q64_WriteEnable_def w25q64_Command_def split: prod.splits if_splits)
  obtain k where "out = take k [0x06]"
    using w25q64_Transfer_prefix [OF t] by blast
  then have "out = [] \<or> out = [0x06]"
    by (cases k) simp_all
  moreover have "s = PLATFORM_STATUS_OK \<Longrightarrow> out = [0x06]"
    using t by (auto dest: w25q64_Transfer_OK(2) [where bytes = "[0x06]"])
  ultimately show ?thesis
    using w25q64_Transfer_frame [OF t] by (auto simp: f' same_chip_def)
qed

lemma nor_deselect_status [simp]: "nor_deselect f (0x05 # rest) = f\<lparr>nor_busy := nor_busy f - 1\<rparr>"
  by simp

lemma w25q64_Command_status:
  assumes "w25q64_Command f [0x05] 1 = (s, status, f')"
  shows "nor_mem f' = nor_mem f \<and> flashMutex f' = flashMutex f \<and> nor_wel f' = nor_wel f
    \<and> (s = PLATFORM_STATUS_OK \<longrightarrow> status = [if nor_busy f = 0 then 0 else 1])"
proof -
  obtain s1 out1 r1 f1 where t1: "w25q64_Transfer f (Some [0x05]) 1 = (s1, out1, r1, f1)"
    by (cases "w25q64_Transfer f (Some [0x05]) 1") auto
  obtain s2 out2 r2 f2 where t2: "w25q64_Transfer f1 None 1 = (s2, out2, r2, f2)"
    by (cases "w25q64_Transfer f1 None 1") auto
  note frames = w25q64_Transfer_frame [OF t1] w25q64_Transfer_frame [OF t2]
  show ?thesis
  proof (cases "s1 = PLATFORM_STATUS_OK")
    case True
    then have "out1 = [0x05]"
      using t1 by (auto dest: w25q64_Transfer_OK(2) [where bytes = "[0x05]"])
    moreover have "s2 = PLATFORM_STATUS_OK \<Longrightarrow> r2 = 1"
      using t2 by (auto dest: w25q64_Transfer_OK(1))
    ultimately show ?thesis
      using assms t1 t2 True frames by (auto simp: w25q64_Command_def same_chip_def)
  next
    case False
    obtain k where "out1 = take k [0x05]"
      using w25q64_Transfer_prefix [OF t1] by blast
    then have "out1 = [] \<or> out1 = [0x05]"
      by (cases k) simp_all
    then show ?thesis
      using assms t1 False frames by (auto simp: w25q64_Command_def same_chip_def)
  qed
qed

lemma w25q64_WaitReady_frame:
  "w25q64_WaitReady f ms = (s, f') \<Longrightarrow>
     nor_mem f' = nor_mem f \<and> flashMutex f' = flashMutex f \<and> nor_wel f' = nor_wel f"
proof (induction f ms rule: w25q64_WaitReady.induct)
  case (1 f)
  then show ?case by simp
next
  case (2 f ms)
  obtain s0 st f0 where c: "w25q64_Command f [0x05] 1 = (s0, st, f0)"
    by (cases "w25q64_Command f [0x05] 1") auto
  show ?case
    using "2.IH" [OF c [symmetric]] "2.prems" w25q64_Command_status [OF c]
    by (auto simp: c [unfolded One_nat_def] split: if_splits)
qed

lemma nor_addr_bytes:
  "unat a < 2 ^ 24 \<Longrightarrow>
     nor_addr (ucast (drop_bit 16 a)) (ucast (drop_bit 8 a)) (ucast (a :: u32)) = unat a"
  unfolding nor_addr_def by (rule address_bytes)

lemma length_address_command [simp]: "length (address_command c a) = 4"
  by (simp add: address_command_def)

text \<open>Shifting in a part of an address command other than the whole of it changes no memory.\<close>

lemma nor_deselect_address_prefix:
  assumes "out = take k (address_command c a)" and "c \<in> {0x02, 0x03, 0x20}"
  shows "nor_mem (nor_deselect f out) = nor_mem f \<or>
    c = 0x20 \<and> nor_wel f \<and> out = address_command c a"
proof -
  consider "k = 0" | "k = 1" | "k = 2" | "k = 3" | "4 \<le> k"
    by linarith
  then show ?thesis
    using assms by cases (auto simp: address_command_def numeral_2_eq_2 numeral_3_eq_3)
qed

lemma nor_deselect_mutex [simp]: "flashMutex (nor_deselect f out) = flashMutex f"
  by (cases out) (auto simp: nor_start_def split: list.splits)

section \<open>Erasing\<close>

lemma nor_deselect_erase:
  "nor_wel f \<Longrightarrow> unat a < 2 ^ 24 \<Longrightarrow>
     nor_mem (nor_deselect f (address_command 0x20 a)) = nor_erase (nor_mem f) (unat a)"
  by (simp add: address_command_def nor_addr_bytes nor_start_def)

lemma xSemaphoreTakeRecursive_Some:
  "xSemaphoreTakeRecursive f = Some f0 \<longleftrightarrow>
     (\<exists>d. flashMutex f = Some d \<and> f0 = f\<lparr>flashMutex := Some (Suc d)\<rparr>)"
  by (auto simp: xSemaphoreTakeRecursive_def split: option.splits)

lemma xSemaphoreGiveRecursive_simps [simp]:
  "nor_mem (xSemaphoreGiveRecursive f) = nor_mem f"
  "spi_faults (xSemaphoreGiveRecursive f) = spi_faults f"
  "busy_times (xSemaphoreGiveRecursive f) = busy_times f"
  "flashMutex (xSemaphoreGiveRecursive f) = map_option (\<lambda>d. d - 1) (flashMutex f)"
  by (simp_all add: xSemaphoreGiveRecursive_def)

lemma capacity_unat: "address < W25Q64_CAPACITY_BYTES \<longleftrightarrow> unat address < nor_capacity"
  by (simp add: word_less_nat_alt W25Q64_CAPACITY_BYTES_def)

text \<open>
  Whatever the outcome, an erase leaves the memory as it was or with the one sector erased; a
  successful erase has erased it; the mutex is given back.
\<close>

lemma W25Q64_EraseSector_cases:
  assumes "W25Q64_EraseSector f address = (s, f')"
  shows "(nor_mem f' = nor_mem f \<or> nor_mem f' = nor_erase (nor_mem f) (unat address))
    \<and> (s = PLATFORM_STATUS_OK \<longrightarrow> nor_mem f' = nor_erase (nor_mem f) (unat address))
    \<and> flashMutex f' = flashMutex f"
proof (cases "address \<ge> W25Q64_CAPACITY_BYTES \<or> address mod W25Q64_SECTOR_SIZE \<noteq> 0
    \<or> flashMutex f = None")
  case True
  then show ?thesis
    using assms by (auto simp: W25Q64_EraseSector_def xSemaphoreTakeRecursive_def split: option.splits)
next
  case False
  then have small: "unat address < 2 ^ 24"
    using capacity_unat [of address] by (simp add: not_le)
  obtain d where d: "flashMutex f = Some d"
    using False by auto
  let ?f0 = "f\<lparr>flashMutex := Some (Suc d)\<rparr>"
  obtain s1 f1 where w: "w25q64_WriteEnable ?f0 = (s1, f1)"
    by (cases "w25q64_WriteEnable ?f0") auto
  note fr1 = w25q64_WriteEnable_frame [OF w]
  obtain s2 out2 r2 f2 where t: "w25q64_Transfer f1 (Some (address_command 0x20 address)) 4
      = (s2, out2, r2, f2)"
    by (cases "w25q64_Transfer f1 (Some (address_command 0x20 address)) 4") auto
  note fr2 = w25q64_Transfer_frame [OF t]
  obtain k where k: "out2 = take k (address_command 0x20 address)"
    using w25q64_Transfer_prefix [OF t] by blast
  have ok2: "s2 = PLATFORM_STATUS_OK \<Longrightarrow> out2 = address_command 0x20 address"
    using t by (auto dest: w25q64_Transfer_OK(2))
  obtain s3 f3 where r: "w25q64_WaitReady (nor_deselect f2 out2) 2000 = (s3, f3)"
    by (cases "w25q64_WaitReady (nor_deselect f2 out2) 2000") auto
  note fr3 = w25q64_WaitReady_frame [OF r]
  have mem2: "nor_mem (nor_deselect f2 out2) = nor_mem f2 \<or>
      nor_mem (nor_deselect f2 out2) = nor_erase (nor_mem f2) (unat address)"
    using nor_deselect_address_prefix [OF k, of f2] nor_deselect_erase [OF _ small, of f2] by auto
  have mem2_ok: "s1 = PLATFORM_STATUS_OK \<Longrightarrow> s2 = PLATFORM_STATUS_OK \<Longrightarrow>
      nor_mem (nor_deselect f2 out2) = nor_erase (nor_mem f2) (unat address)"
    using ok2 nor_deselect_erase [OF _ small, of f2] fr1 fr2 by (simp add: same_chip_def)
  have "(s, f') = (if s1 \<noteq> PLATFORM_STATUS_OK then (s1, xSemaphoreGiveRecursive f1)
      else if s2 \<noteq> PLATFORM_STATUS_OK
        then (s2, xSemaphoreGiveRecursive (nor_deselect f2 out2))
        else (s3, xSemaphoreGiveRecursive f3))"
    using assms False d w t r
    by (auto simp: W25Q64_EraseSector_def xSemaphoreTakeRecursive_def w25q64_Command_def)
  then show ?thesis
    using fr1 fr2 fr3 mem2 mem2_ok d by (auto simp: same_chip_def split: if_splits)
qed

section \<open>Programming\<close>

text \<open>The intended effect of programming: the bits of the data are cleared in place.\<close>

definition nor_write :: "(nat \<Rightarrow> u8) \<Rightarrow> nat \<Rightarrow> u8 list \<Rightarrow> nat \<Rightarrow> u8" where
  "nor_write m a ds = (\<lambda>i. if a \<le> i \<and> i < a + length ds then m i AND ds ! (i - a) else m i)"

lemma nor_write_Nil [simp]: "nor_write m a [] = m"
  by (rule ext) (auto simp: nor_write_def)

lemma nor_write_append: "nor_write (nor_write m a xs) (a + length xs) ys = nor_write m a (xs @ ys)"
  by (rule ext) (auto simp: nor_write_def nth_append not_less)

lemma nor_write_Cons: "nor_write m a (d # ds) = nor_write (m(a := m a AND d)) (Suc a) ds"
proof -
  have "nor_write m a [d] = m(a := m a AND d)"
    by (rule ext) (auto simp: nor_write_def less_Suc_eq)
  then show ?thesis
    using nor_write_append [of m a "[d]" ds] by simp
qed

text \<open>Data that stay inside their page are written without wrapping.\<close>

lemma nor_page_program_write:
  "a mod 256 + length ds \<le> 256 \<Longrightarrow> nor_page_program m a ds = nor_write m a ds"
proof (induction m a ds rule: nor_page_program.induct)
  case (2 m a d ds)
  show ?case
  proof (cases "ds = []")
    case False
    then have "a mod 256 + 1 < 256"
      using "2.prems" by (cases ds) auto
    then have step: "nor_page_next a = Suc a" and "Suc a mod 256 = Suc (a mod 256)"
      unfolding nor_page_next_def by (simp_all add: mod_Suc)
    then have "nor_page_program (m(a := m a AND d)) (Suc a) ds = nor_write (m(a := m a AND d)) (Suc a) ds"
      using "2.IH" "2.prems" by (simp add: fun_upd_def)
    then show ?thesis
      by (simp add: step nor_write_Cons)
  qed (simp add: nor_write_Cons)
qed simp

lemma nor_deselect_program:
  assumes "unat a < 2 ^ 24" and "unat a mod 256 + length ds \<le> 256" and "nor_wel f"
  shows "nor_mem (nor_deselect f (address_command 0x02 a @ ds)) = nor_write (nor_mem f) (unat a) ds"
proof (cases ds)
  case Nil
  then show ?thesis
    by (simp add: address_command_def)
next
  case (Cons d ds')
  then show ?thesis
    using assms nor_page_program_write [of "unat a" "d # ds'" "nor_mem f"]
    by (simp add: address_command_def nor_addr_bytes nor_start_def)
qed

text \<open>
  One iteration writes a prefix of its chunk, and the whole chunk when it succeeds.
\<close>

lemma w25q64_ProgramChunk_cases:
  assumes "w25q64_ProgramChunk f a chunk = (s, f')" and "unat a < 2 ^ 24"
    and "unat a mod 256 + length chunk \<le> 256"
  shows "(\<exists>k. nor_mem f' = nor_write (nor_mem f) (unat a) (take k chunk))
    \<and> (s = PLATFORM_STATUS_OK \<longrightarrow> nor_mem f' = nor_write (nor_mem f) (unat a) chunk)
    \<and> flashMutex f' = flashMutex f"
proof -
  obtain s1 f1 where w: "w25q64_WriteEnable f = (s1, f1)"
    by (cases "w25q64_WriteEnable f") auto
  note fr1 = w25q64_WriteEnable_frame [OF w]
  obtain s2 out2 r2 f2 where t2: "w25q64_Transfer f1 (Some (address_command 0x02 a)) 4 = (s2, out2, r2, f2)"
    by (cases "w25q64_Transfer f1 (Some (address_command 0x02 a)) 4") auto
  note fr2 = w25q64_Transfer_frame [OF t2]
  obtain s3 out3 r3 f3 where t3: "w25q64_Transfer f2 (Some chunk) (length chunk) = (s3, out3, r3, f3)"
    by (cases "w25q64_Transfer f2 (Some chunk) (length chunk)") auto
  note fr3 = w25q64_Transfer_frame [OF t3]
  obtain s4 f4 where r: "w25q64_WaitReady (nor_deselect f3 (out2 @ out3)) 100 = (s4, f4)"
    by (cases "w25q64_WaitReady (nor_deselect f3 (out2 @ out3)) 100") auto
  note fr4 = w25q64_WaitReady_frame [OF r]
  obtain k2 where k2: "out2 = take k2 (address_command 0x02 a)"
    using w25q64_Transfer_prefix [OF t2] by blast
  obtain k3 where k3: "out3 = take k3 chunk"
    using w25q64_Transfer_prefix [OF t3] by blast
  have ok2: "s2 = PLATFORM_STATUS_OK \<Longrightarrow> out2 = address_command 0x02 a"
    using t2 by (auto dest: w25q64_Transfer_OK(2))
  have ok3: "s3 = PLATFORM_STATUS_OK \<Longrightarrow> out3 = chunk"
    using t3 by (auto dest: w25q64_Transfer_OK(2))
  have none: "nor_mem (nor_deselect f2 out2) = nor_mem f2"
    using nor_deselect_address_prefix [OF k2, of f2] by simp
  have len: "unat a mod 256 + length out3 \<le> 256"
    using assms(3) by (simp add: k3)
  have mem3: "nor_mem (nor_deselect f3 (address_command 0x02 a @ out3)) = nor_write (nor_mem f3) (unat a) out3"
    if "s1 = PLATFORM_STATUS_OK"
    using nor_deselect_program [OF assms(2) len, of f3] that fr1 fr2 fr3 by (simp add: same_chip_def)
  have "(s, f') = (if s1 \<noteq> PLATFORM_STATUS_OK then (s1, f1)
      else if s2 \<noteq> PLATFORM_STATUS_OK then (s2, nor_deselect f2 out2)
      else if s3 \<noteq> PLATFORM_STATUS_OK then (s3, nor_deselect f3 (out2 @ out3)) else (s4, f4))"
    using assms(1) w t2 t3 r by (auto simp: w25q64_ProgramChunk_def)
  then consider "s1 \<noteq> PLATFORM_STATUS_OK" "s = s1" "f' = f1"
    | "s1 = PLATFORM_STATUS_OK" "s2 \<noteq> PLATFORM_STATUS_OK" "s = s2" "f' = nor_deselect f2 out2"
    | "s1 = PLATFORM_STATUS_OK" "s2 = PLATFORM_STATUS_OK" "s3 \<noteq> PLATFORM_STATUS_OK" "s = s3"
        "f' = nor_deselect f3 (out2 @ out3)"
    | "s1 = PLATFORM_STATUS_OK" "s2 = PLATFORM_STATUS_OK" "s3 = PLATFORM_STATUS_OK" "f' = f4"
    by (auto split: if_splits)
  then show ?thesis
  proof cases
    case 1
    then show ?thesis
      using fr1 by (auto intro: exI [of _ 0])
  next
    case 2
    then show ?thesis
      using fr1 fr2 none by (auto simp: same_chip_def intro: exI [of _ 0])
  next
    case 3
    then show ?thesis
      using fr1 fr2 fr3 mem3 ok2 k3 by (auto simp: same_chip_def)
  next
    case 4
    then show ?thesis
      using fr1 fr2 fr3 fr4 mem3 ok2 ok3 by (auto simp: same_chip_def intro: exI [of _ "length chunk"])
  qed
qed

text \<open>
  The program loop: whatever the outcome, exactly a prefix of the data has been written, and
  all of it on success.
\<close>

lemma w25q64_ProgramLoop_cases:
  "w25q64_ProgramLoop f a source = (s, f') \<Longrightarrow> unat a + length source \<le> nor_capacity \<Longrightarrow>
     (\<exists>k. nor_mem f' = nor_write (nor_mem f) (unat a) (take k source))
     \<and> (s = PLATFORM_STATUS_OK \<longrightarrow> nor_mem f' = nor_write (nor_mem f) (unat a) source)
     \<and> flashMutex f' = flashMutex f"
proof (induction f a source rule: w25q64_ProgramLoop.induct)
  case (1 f a source)
  show ?case
  proof (cases "source = []")
    case True
    then show ?thesis
      using "1.prems" by (simp add: w25q64_ProgramLoop.simps)
  next
    case False
    define chunk where "chunk = min (unat (W25Q64_PAGE_SIZE - a mod W25Q64_PAGE_SIZE)) (length source)"
    have chunk: "0 < chunk" "chunk \<le> length source" "unat a mod 256 + chunk \<le> 256"
      using False by (auto simp: chunk_def unat_page_rest)
    obtain s1 f1 where c: "w25q64_ProgramChunk f a (take chunk source) = (s1, f1)"
      by (cases "w25q64_ProgramChunk f a (take chunk source)") auto
    have small: "unat a < 2 ^ 24"
      using "1.prems"(2) by simp
    have step: "(\<exists>k. nor_mem f1 = nor_write (nor_mem f) (unat a) (take k (take chunk source)))
      \<and> (s1 = PLATFORM_STATUS_OK \<longrightarrow> nor_mem f1 = nor_write (nor_mem f) (unat a) (take chunk source))
      \<and> flashMutex f1 = flashMutex f"
      using w25q64_ProgramChunk_cases [OF c small] chunk by simp
    show ?thesis
    proof (cases "s1 = PLATFORM_STATUS_OK")
      case False
      then have "s = s1" "f' = f1"
        using "1.prems"(1) \<open>source \<noteq> []\<close> c
        by (simp_all add: w25q64_ProgramLoop.simps [of f a source] Let_def flip: chunk_def)
      then show ?thesis
        using step False by (metis take_take)
    next
      case True
      then have rec: "w25q64_ProgramLoop f1 (a + of_nat chunk) (drop chunk source) = (s, f')"
        using "1.prems"(1) \<open>source \<noteq> []\<close> c
        by (simp add: w25q64_ProgramLoop.simps [of f a source] Let_def flip: chunk_def)
      have addr: "unat (a + of_nat chunk) = unat a + chunk"
        using "1.prems"(2) chunk by (simp add: unat_word_ariths unat_of_nat)
      have m1: "nor_mem f1 = nor_write (nor_mem f) (unat a) (take chunk source)"
        using step True by simp
      have app: "nor_write (nor_mem f1) (unat a + chunk) ds
          = nor_write (nor_mem f) (unat a) (take chunk source @ ds)" for ds
        using nor_write_append [of "nor_mem f" "unat a" "take chunk source" ds] chunk m1 by simp
      have "(\<exists>k. nor_mem f' = nor_write (nor_mem f1) (unat (a + of_nat chunk)) (take k (drop chunk source)))
          \<and> (s = PLATFORM_STATUS_OK \<longrightarrow> nor_mem f' = nor_write (nor_mem f1) (unat (a + of_nat chunk)) (drop chunk source))
          \<and> flashMutex f' = flashMutex f1"
        using "1.IH" [OF \<open>source \<noteq> []\<close> chunk_def c [symmetric] _ rec] True "1.prems"(2) addr chunk
        by simp
      then obtain k where "nor_mem f' = nor_write (nor_mem f) (unat a) (take chunk source @ take k (drop chunk source))"
        and "s = PLATFORM_STATUS_OK \<longrightarrow> nor_mem f' = nor_write (nor_mem f) (unat a) source"
        and "flashMutex f' = flashMutex f"
        using step by (auto simp: addr app)
      then show ?thesis
        by (metis take_add)
    qed
  qed
qed

text \<open>
  The range check of \<open>W25Q64_Read\<close> and \<open>W25Q64_Program\<close> is exact for every length up to the
  capacity of the chip.
\<close>

lemma range_guard:
  assumes "unat len \<le> nor_capacity"
  shows "address > W25Q64_CAPACITY_BYTES - len \<longleftrightarrow> nor_capacity < unat address + unat len"
proof -
  have "len \<le> W25Q64_CAPACITY_BYTES"
    using assms by (simp add: word_le_nat_alt W25Q64_CAPACITY_BYTES_def)
  then have "unat (W25Q64_CAPACITY_BYTES - len) = nor_capacity - unat len"
    by (simp add: unat_sub) (simp add: W25Q64_CAPACITY_BYTES_def)
  then show ?thesis
    using assms by (simp add: word_less_nat_alt) linarith
qed

lemma W25Q64_Program_cases:
  assumes "W25Q64_Program f address data = (s, f')" and "unat address + length data \<le> nor_capacity"
  shows "(\<exists>k. nor_mem f' = nor_write (nor_mem f) (unat address) (take k data))
    \<and> (s = PLATFORM_STATUS_OK \<longrightarrow> nor_mem f' = nor_write (nor_mem f) (unat address) data)
    \<and> flashMutex f' = flashMutex f"
proof -
  have unchanged: ?thesis if "s = PLATFORM_STATUS_ERROR" "f' = f"
    using that by (auto intro: exI [of _ 0])
  show ?thesis
  proof (cases "data = [] \<or> flashMutex f = None")
    case True
    then show ?thesis
      using assms(1) unchanged
      by (auto simp: W25Q64_Program_def Let_def xSemaphoreTakeRecursive_def split: if_splits)
  next
    case False
    obtain d where d: "flashMutex f = Some d"
      using False by auto
    let ?f0 = "f\<lparr>flashMutex := Some (Suc d)\<rparr>"
    obtain s1 f1 where l: "w25q64_ProgramLoop ?f0 address data = (s1, f1)"
      by (cases "w25q64_ProgramLoop ?f0 address data") auto
    consider "s = PLATFORM_STATUS_ERROR" "f' = f" | "s = s1" "f' = xSemaphoreGiveRecursive f1"
      using assms(1) d l
      by (auto simp: W25Q64_Program_def Let_def xSemaphoreTakeRecursive_def split: if_splits)
    then show ?thesis
      using unchanged w25q64_ProgramLoop_cases [OF l assms(2)] d by cases auto
  qed
qed

section \<open>Reading\<close>

lemma w25q64_Command_read:
  assumes "w25q64_Command f (address_command 0x03 a) n = (s, bytes, f')"
    and "unat a + n \<le> nor_capacity" and "0 < n"
  shows "nor_mem f' = nor_mem f \<and> flashMutex f' = flashMutex f
    \<and> (s = PLATFORM_STATUS_OK \<longrightarrow> bytes = map (nor_mem f) [unat a..<unat a + n])"
proof -
  let ?c = "address_command 0x03 a"
  have small: "unat a < 2 ^ 24"
    using assms(2,3) by simp
  obtain s1 out1 r1 f1 where t1: "w25q64_Transfer f (Some ?c) 4 = (s1, out1, r1, f1)"
    by (cases "w25q64_Transfer f (Some ?c) 4") auto
  obtain s2 out2 r2 f2 where t2: "w25q64_Transfer f1 None n = (s2, out2, r2, f2)"
    by (cases "w25q64_Transfer f1 None n") auto
  note fr = w25q64_Transfer_frame [OF t1] w25q64_Transfer_frame [OF t2]
  have inert: "nor_deselect g (take k ?c @ rest) = g" if "0 < k" for g k rest
    using that by (cases k) (auto simp: address_command_def)
  obtain k where k: "out1 = take k ?c"
    using w25q64_Transfer_prefix [OF t1] by blast
  have out1: "s1 = PLATFORM_STATUS_OK \<Longrightarrow> out1 = ?c"
    using t1 by (auto dest: w25q64_Transfer_OK(2))
  have mem: "map (\<lambda>i. nor_mem f ((unat a + i) mod nor_capacity)) [0..<n]
      = map (nor_mem f) [unat a..<unat a + n]"
    using assms(2) by (auto intro!: nth_equalityI)
  show ?thesis
  proof (cases "s1 = PLATFORM_STATUS_OK")
    case True
    have "bytes = take r2 (nor_output f2 ?c n)" "s = s2" "f' = nor_deselect f2 (?c @ out2)"
      using assms(1,3) t1 t2 True out1 by (auto simp: w25q64_Command_def)
    moreover have "nor_deselect f2 (?c @ out2) = f2"
      using inert [of 4 f2 out2] by simp
    moreover have "nor_output f2 ?c n = map (nor_mem f) [unat a..<unat a + n]"
      using fr mem by (simp add: address_command_def nor_addr_bytes [OF small] same_chip_def)
    ultimately show ?thesis
      using fr t2 by (auto simp: same_chip_def dest: w25q64_Transfer_OK(1))
  next
    case False
    have "f' = nor_deselect f1 out1" "s = s1"
      using assms(1) t1 False by (auto simp: w25q64_Command_def)
    moreover have "nor_deselect f1 out1 = f1"
      using inert [of k f1 "[]"] k by (cases k) auto
    ultimately show ?thesis
      using fr False by (auto simp: same_chip_def)
  qed
qed

lemma W25Q64_Read_cases:
  assumes "W25Q64_Read f address len = (s, bytes, f')"
    and "unat address + unat len \<le> nor_capacity"
  shows "nor_mem f' = nor_mem f \<and> flashMutex f' = flashMutex f
    \<and> (s = PLATFORM_STATUS_OK \<longrightarrow>
         bytes = map (nor_mem f) [unat address..<unat address + unat len])"
proof (cases "len = 0 \<or> flashMutex f = None")
  case True
  then show ?thesis
    using assms(1) by (auto simp: W25Q64_Read_def xSemaphoreTakeRecursive_def split: if_splits)
next
  case False
  obtain d where d: "flashMutex f = Some d"
    using False by auto
  let ?f0 = "f\<lparr>flashMutex := Some (Suc d)\<rparr>"
  have pos: "0 < unat len"
    using False by (simp add: unat_gt_0)
  obtain s1 b1 f1 where c: "w25q64_Command ?f0 (address_command 0x03 address) (unat len) = (s1, b1, f1)"
    by (cases "w25q64_Command ?f0 (address_command 0x03 address) (unat len)") auto
  consider "s = PLATFORM_STATUS_ERROR" "f' = f"
    | "s = s1" "bytes = b1" "f' = xSemaphoreGiveRecursive f1"
    using assms(1) d c by (auto simp: W25Q64_Read_def xSemaphoreTakeRecursive_def split: if_splits)
  then show ?thesis
    using w25q64_Command_read [OF c assms(2) pos] d by cases auto
qed

section \<open>Without faults every operation succeeds\<close>

definition flash_ready :: "w25q64 \<Rightarrow> bool" where
  "flash_ready f \<longleftrightarrow> flashMutex f \<noteq> None \<and> spi_faults f = [] \<and> busy_times f = []"

lemma w25q64_Transfer_ready:
  "spi_faults f = [] \<Longrightarrow> w25q64_Transfer f transmit len =
     (PLATFORM_STATUS_OK, take len (case transmit of Some t \<Rightarrow> t | None \<Rightarrow> replicate len 0xFF), len, f)"
  by (simp add: w25q64_Transfer_def Let_def)

lemma w25q64_WaitReady_ready:
  "spi_faults f = [] \<Longrightarrow> nor_busy f = 0 \<Longrightarrow> 0 < ms \<Longrightarrow> w25q64_WaitReady f ms = (PLATFORM_STATUS_OK, f)"
  by (cases ms) (simp_all add: w25q64_Command_def w25q64_Transfer_ready)

lemma w25q64_WriteEnable_ready:
  "spi_faults f = [] \<Longrightarrow> w25q64_WriteEnable f = (PLATFORM_STATUS_OK, f\<lparr>nor_wel := True\<rparr>)"
  by (simp add: w25q64_WriteEnable_def w25q64_Command_def w25q64_Transfer_ready)

lemma W25Q64_Read_ready:
  assumes "flash_ready f" and "0 < unat len" and "unat address + unat len \<le> nor_capacity"
  shows "\<exists>bytes f'. W25Q64_Read f address len = (PLATFORM_STATUS_OK, bytes, f') \<and> flash_ready f'"
proof -
  obtain d where d: "flashMutex f = Some d"
    using assms(1) by (auto simp: flash_ready_def)
  have "\<not> address > W25Q64_CAPACITY_BYTES - len"
    using assms(3) by (subst range_guard) simp_all
  moreover have "len \<noteq> 0"
    using assms(2) by (simp add: unat_gt_0)
  moreover have "nor_deselect g (address_command 3 address @ rest) = g" for g rest
    by (simp add: address_command_def)
  ultimately show ?thesis
    using assms d
    by (auto simp: W25Q64_Read_def xSemaphoreTakeRecursive_def w25q64_Command_def
        w25q64_Transfer_ready flash_ready_def)
qed

lemma nor_start_simps [simp]:
  "spi_faults (nor_start f m) = spi_faults f"
  "flashMutex (nor_start f m) = flashMutex f"
  "busy_times (nor_start f m) = tl (busy_times f)"
  "busy_times f = [] \<Longrightarrow> nor_busy (nor_start f m) = 0"
  by (simp_all add: nor_start_def)

lemma nor_deselect_erase_start:
  "nor_wel f \<Longrightarrow> \<exists>m. nor_deselect f (address_command 0x20 a) = nor_start f m"
  by (auto simp: address_command_def)

lemma nor_deselect_program_start:
  "nor_wel f \<Longrightarrow> chunk \<noteq> [] \<Longrightarrow> \<exists>m. nor_deselect f (address_command 0x02 a @ chunk) = nor_start f m"
  by (cases chunk) (auto simp: address_command_def)

lemma W25Q64_EraseSector_ready:
  assumes "flash_ready f" and "unat address < nor_capacity" and "unat address mod nor_sector = 0"
  shows "\<exists>f'. W25Q64_EraseSector f address = (PLATFORM_STATUS_OK, f') \<and> flash_ready f'"
proof -
  obtain d where d: "flashMutex f = Some d"
    using assms(1) by (auto simp: flash_ready_def)
  let ?f1 = "f\<lparr>flashMutex := Some (Suc d), nor_wel := True\<rparr>"
  obtain m where m: "nor_deselect ?f1 (address_command 0x20 address) = nor_start ?f1 m"
    using nor_deselect_erase_start [of ?f1] by auto
  have aligned: "address mod W25Q64_SECTOR_SIZE = 0" and range: "\<not> W25Q64_CAPACITY_BYTES \<le> address"
    using assms(2,3) by (simp_all add: word_unat_eq_iff unat_mod_distrib W25Q64_SECTOR_SIZE_def
      capacity_unat not_le)
  show ?thesis
    using assms(1) d aligned range m
    by (simp add: W25Q64_EraseSector_def xSemaphoreTakeRecursive_def w25q64_WriteEnable_ready
        w25q64_Command_def w25q64_Transfer_ready w25q64_WaitReady_ready flash_ready_def)
qed

lemma w25q64_ProgramChunk_ready:
  assumes "spi_faults f = []" and "busy_times f = []" and "chunk \<noteq> []"
  shows "\<exists>f'. w25q64_ProgramChunk f a chunk = (PLATFORM_STATUS_OK, f') \<and> spi_faults f' = []
    \<and> busy_times f' = [] \<and> flashMutex f' = flashMutex f"
proof -
  let ?f1 = "f\<lparr>nor_wel := True\<rparr>"
  obtain m where "nor_deselect ?f1 (address_command 0x02 a @ chunk) = nor_start ?f1 m"
    using nor_deselect_program_start [OF _ assms(3), of ?f1] by auto
  then show ?thesis
    using assms by (simp add: w25q64_ProgramChunk_def w25q64_WriteEnable_ready w25q64_Transfer_ready
        w25q64_WaitReady_ready)
qed

lemma w25q64_ProgramLoop_ready:
  "spi_faults f = [] \<Longrightarrow> busy_times f = [] \<Longrightarrow>
     \<exists>f'. w25q64_ProgramLoop f a source = (PLATFORM_STATUS_OK, f') \<and> spi_faults f' = []
       \<and> busy_times f' = [] \<and> flashMutex f' = flashMutex f"
proof (induction f a source rule: w25q64_ProgramLoop.induct)
  case (1 f a source)
  show ?case
  proof (cases "source = []")
    case True
    then show ?thesis
      using "1.prems" by (simp add: w25q64_ProgramLoop.simps)
  next
    case False
    define chunk where "chunk = min (unat (W25Q64_PAGE_SIZE - a mod W25Q64_PAGE_SIZE)) (length source)"
    have "take chunk source \<noteq> []"
      using False by (auto simp: chunk_def unat_page_rest)
    then obtain f1 where c: "w25q64_ProgramChunk f a (take chunk source) = (PLATFORM_STATUS_OK, f1)"
      "spi_faults f1 = []" "busy_times f1 = []" "flashMutex f1 = flashMutex f"
      using w25q64_ProgramChunk_ready [OF "1.prems"] by blast
    show ?thesis
      using "1.IH" [OF False chunk_def c(1) [symmetric] _ c(2,3)] c False
      by (simp add: w25q64_ProgramLoop.simps [of f a source] Let_def flip: chunk_def)
  qed
qed

lemma W25Q64_Program_ready:
  assumes "flash_ready f" and "data \<noteq> []" and "unat address + length data \<le> nor_capacity"
  shows "\<exists>f'. W25Q64_Program f address data = (PLATFORM_STATUS_OK, f') \<and> flash_ready f'"
proof -
  obtain d where d: "flashMutex f = Some d"
    using assms(1) by (auto simp: flash_ready_def)
  have len: "unat (of_nat (length data) :: u32) = length data"
    using assms(3) by (simp add: unat_of_nat)
  then have "(of_nat (length data) :: u32) \<noteq> 0"
    using assms(2) by (metis length_0_conv unat_eq_zero)
  moreover have "\<not> address > W25Q64_CAPACITY_BYTES - of_nat (length data)"
    using assms(3) len by (subst range_guard) simp_all
  moreover obtain f1 where "w25q64_ProgramLoop (f\<lparr>flashMutex := Some (Suc d)\<rparr>) address data = (PLATFORM_STATUS_OK, f1)"
    "spi_faults f1 = []" "busy_times f1 = []" "flashMutex f1 = Some (Suc d)"
    using w25q64_ProgramLoop_ready [of "f\<lparr>flashMutex := Some (Suc d)\<rparr>" address data] assms(1)
    by (auto simp: flash_ready_def)
  ultimately show ?thesis
    using d by (simp add: W25Q64_Program_def Let_def xSemaphoreTakeRecursive_def flash_ready_def)
qed

section \<open>The driver's contract\<close>

text \<open>
  What the persistent stores rely on, for any flash state \<open>'f\<close>: reads do not change memory and
  return it, an erase touches one sector, a program writes a prefix of its data, and all three
  succeed when the flash is ready.
\<close>

locale nor_driver =
  fixes rd :: "'f \<Rightarrow> u32 \<Rightarrow> u32 \<Rightarrow> Platform_StatusTypeDef \<times> u8 list \<times> 'f"
    and er :: "'f \<Rightarrow> u32 \<Rightarrow> Platform_StatusTypeDef \<times> 'f"
    and pr :: "'f \<Rightarrow> u32 \<Rightarrow> u8 list \<Rightarrow> Platform_StatusTypeDef \<times> 'f"
    and mem :: "'f \<Rightarrow> nat \<Rightarrow> u8"
    and ready :: "'f \<Rightarrow> bool"
  assumes rd_mem: "rd f a n = (s, bs, f') \<Longrightarrow> unat a + unat n \<le> nor_capacity \<Longrightarrow> mem f' = mem f"
    and rd_ok: "rd f a n = (PLATFORM_STATUS_OK, bs, f') \<Longrightarrow> unat a + unat n \<le> nor_capacity \<Longrightarrow>
      bs = map (mem f) [unat a..<unat a + unat n]"
    and rd_ready: "ready f \<Longrightarrow> 0 < unat n \<Longrightarrow> unat a + unat n \<le> nor_capacity \<Longrightarrow>
      \<exists>bs f'. rd f a n = (PLATFORM_STATUS_OK, bs, f') \<and> ready f'"
    and er_cases: "er f a = (s, f') \<Longrightarrow> mem f' = mem f \<or> mem f' = nor_erase (mem f) (unat a)"
    and er_ok: "er f a = (PLATFORM_STATUS_OK, f') \<Longrightarrow> mem f' = nor_erase (mem f) (unat a)"
    and er_ready: "ready f \<Longrightarrow> unat a < nor_capacity \<Longrightarrow> unat a mod nor_sector = 0 \<Longrightarrow>
      \<exists>f'. er f a = (PLATFORM_STATUS_OK, f') \<and> ready f'"
    and pr_cases: "pr f a d = (s, f') \<Longrightarrow> unat a + length d \<le> nor_capacity \<Longrightarrow>
      \<exists>k. mem f' = nor_write (mem f) (unat a) (take k d)"
    and pr_ok: "pr f a d = (PLATFORM_STATUS_OK, f') \<Longrightarrow> unat a + length d \<le> nor_capacity \<Longrightarrow>
      mem f' = nor_write (mem f) (unat a) d"
    and pr_ready: "ready f \<Longrightarrow> d \<noteq> [] \<Longrightarrow> unat a + length d \<le> nor_capacity \<Longrightarrow>
      \<exists>f'. pr f a d = (PLATFORM_STATUS_OK, f') \<and> ready f'"

interpretation w25q64_driver: nor_driver W25Q64_Read W25Q64_EraseSector W25Q64_Program nor_mem flash_ready
proof (unfold_locales, goal_cases)
  case 1 then show ?case by (rule W25Q64_Read_cases [THEN conjunct1])
next
  case 2 then show ?case using W25Q64_Read_cases by metis
next
  case 3 then show ?case by (rule W25Q64_Read_ready)
next
  case 4 then show ?case by (rule W25Q64_EraseSector_cases [THEN conjunct1])
next
  case 5 then show ?case using W25Q64_EraseSector_cases by metis
next
  case 6 then show ?case by (rule W25Q64_EraseSector_ready)
next
  case 7 then show ?case by (rule W25Q64_Program_cases [THEN conjunct1])
next
  case 8 then show ?case using W25Q64_Program_cases by metis
next
  case 9 then show ?case by (rule W25Q64_Program_ready)
qed

end
