(* ===== verification/Flash_Layout.thy ===== *)
theory Flash_Layout
  imports W25q64
begin

text \<open>
  The sector map of \<^verbatim>\<open>Periph/Inc/flash_layout.h\<close>: which 4 KiB sectors of the NOR flash each
  persistent store owns, counted from the top of the address space. The lemmas evaluate the
  addresses and show that every sector is aligned and in range.
\<close>

definition flash_sector_from_top :: "u32 \<Rightarrow> u32" where
  "flash_sector_from_top n = W25Q64_CAPACITY_BYTES - n * W25Q64_SECTOR_SIZE"

definition FLASH_LAYOUT_USER_STORE_SECTOR_A :: u32 where
  "FLASH_LAYOUT_USER_STORE_SECTOR_A = flash_sector_from_top 2"
definition FLASH_LAYOUT_USER_STORE_SECTOR_B :: u32 where
  "FLASH_LAYOUT_USER_STORE_SECTOR_B = flash_sector_from_top 1"
definition FLASH_LAYOUT_HEALTH_CHECK_CONFIG_SECTOR_A :: u32 where
  "FLASH_LAYOUT_HEALTH_CHECK_CONFIG_SECTOR_A = flash_sector_from_top 4"
definition FLASH_LAYOUT_HEALTH_CHECK_CONFIG_SECTOR_B :: u32 where
  "FLASH_LAYOUT_HEALTH_CHECK_CONFIG_SECTOR_B = flash_sector_from_top 3"
definition FLASH_LAYOUT_TLS_SERVER_CREDENTIALS_SECTOR_A :: u32 where
  "FLASH_LAYOUT_TLS_SERVER_CREDENTIALS_SECTOR_A = flash_sector_from_top 6"
definition FLASH_LAYOUT_TLS_SERVER_CREDENTIALS_SECTOR_B :: u32 where
  "FLASH_LAYOUT_TLS_SERVER_CREDENTIALS_SECTOR_B = flash_sector_from_top 5"
definition FLASH_LAYOUT_HEALTH_CHECK_LOG_SECTOR_0 :: u32 where
  "FLASH_LAYOUT_HEALTH_CHECK_LOG_SECTOR_0 = flash_sector_from_top 8"
definition FLASH_LAYOUT_HEALTH_CHECK_LOG_SECTOR_1 :: u32 where
  "FLASH_LAYOUT_HEALTH_CHECK_LOG_SECTOR_1 = flash_sector_from_top 7"
definition FLASH_LAYOUT_TLS_TRUST_STORE_BANK_A :: u32 where
  "FLASH_LAYOUT_TLS_TRUST_STORE_BANK_A = flash_sector_from_top 15"
definition FLASH_LAYOUT_TLS_TRUST_STORE_BANK_B :: u32 where
  "FLASH_LAYOUT_TLS_TRUST_STORE_BANK_B = flash_sector_from_top 12"
definition FLASH_LAYOUT_TLS_TRUST_STORE_BANK_SECTORS :: nat where
  "FLASH_LAYOUT_TLS_TRUST_STORE_BANK_SECTORS = 3"
definition FLASH_LAYOUT_FACTORY_RESET_MARKER_SECTOR :: u32 where
  "FLASH_LAYOUT_FACTORY_RESET_MARKER_SECTOR = flash_sector_from_top 16"
definition FLASH_LAYOUT_FACTORY_RESET_DATA_SECTORS :: nat where
  "FLASH_LAYOUT_FACTORY_RESET_DATA_SECTORS = 15"
definition FLASH_LAYOUT_CALLBACK_CONFIG_SECTOR_A :: u32 where
  "FLASH_LAYOUT_CALLBACK_CONFIG_SECTOR_A = flash_sector_from_top 18"
definition FLASH_LAYOUT_CALLBACK_CONFIG_SECTOR_B :: u32 where
  "FLASH_LAYOUT_CALLBACK_CONFIG_SECTOR_B = flash_sector_from_top 17"
definition FLASH_LAYOUT_TLS_TRUST_STORE_LEGACY_BANK_A :: u32 where
  "FLASH_LAYOUT_TLS_TRUST_STORE_LEGACY_BANK_A = flash_sector_from_top 12"
definition FLASH_LAYOUT_TLS_TRUST_STORE_LEGACY_BANK_B :: u32 where
  "FLASH_LAYOUT_TLS_TRUST_STORE_LEGACY_BANK_B = flash_sector_from_top 10"

lemmas flash_layout_defs =
  FLASH_LAYOUT_USER_STORE_SECTOR_A_def FLASH_LAYOUT_USER_STORE_SECTOR_B_def
  FLASH_LAYOUT_HEALTH_CHECK_CONFIG_SECTOR_A_def FLASH_LAYOUT_HEALTH_CHECK_CONFIG_SECTOR_B_def
  FLASH_LAYOUT_TLS_SERVER_CREDENTIALS_SECTOR_A_def FLASH_LAYOUT_TLS_SERVER_CREDENTIALS_SECTOR_B_def
  FLASH_LAYOUT_HEALTH_CHECK_LOG_SECTOR_0_def FLASH_LAYOUT_HEALTH_CHECK_LOG_SECTOR_1_def
  FLASH_LAYOUT_TLS_TRUST_STORE_BANK_A_def FLASH_LAYOUT_TLS_TRUST_STORE_BANK_B_def
  FLASH_LAYOUT_FACTORY_RESET_MARKER_SECTOR_def
  FLASH_LAYOUT_CALLBACK_CONFIG_SECTOR_A_def FLASH_LAYOUT_CALLBACK_CONFIG_SECTOR_B_def
  FLASH_LAYOUT_TLS_TRUST_STORE_LEGACY_BANK_A_def FLASH_LAYOUT_TLS_TRUST_STORE_LEGACY_BANK_B_def
  flash_sector_from_top_def w25q64_constants

text \<open>
  The sectors of each store, as sector numbers (address divided by the sector size).
\<close>

definition sectors_of :: "u32 \<Rightarrow> nat \<Rightarrow> nat list" where
  "sectors_of address n = map (\<lambda>i. unat address div nor_sector + i) [0..<n]"

definition flash_allocation :: "(string \<times> nat list) list" where
  "flash_allocation =
     [(''user store A'', sectors_of FLASH_LAYOUT_USER_STORE_SECTOR_A 1),
      (''user store B'', sectors_of FLASH_LAYOUT_USER_STORE_SECTOR_B 1),
      (''health-check configuration A'', sectors_of FLASH_LAYOUT_HEALTH_CHECK_CONFIG_SECTOR_A 1),
      (''health-check configuration B'', sectors_of FLASH_LAYOUT_HEALTH_CHECK_CONFIG_SECTOR_B 1),
      (''server credentials A'', sectors_of FLASH_LAYOUT_TLS_SERVER_CREDENTIALS_SECTOR_A 1),
      (''server credentials B'', sectors_of FLASH_LAYOUT_TLS_SERVER_CREDENTIALS_SECTOR_B 1),
      (''health-check log 0'', sectors_of FLASH_LAYOUT_HEALTH_CHECK_LOG_SECTOR_0 1),
      (''health-check log 1'', sectors_of FLASH_LAYOUT_HEALTH_CHECK_LOG_SECTOR_1 1),
      (''trust store A'', sectors_of FLASH_LAYOUT_TLS_TRUST_STORE_BANK_A
          FLASH_LAYOUT_TLS_TRUST_STORE_BANK_SECTORS),
      (''trust store B'', sectors_of FLASH_LAYOUT_TLS_TRUST_STORE_BANK_B
          FLASH_LAYOUT_TLS_TRUST_STORE_BANK_SECTORS),
      (''factory-reset marker'', sectors_of FLASH_LAYOUT_FACTORY_RESET_MARKER_SECTOR 1),
      (''callback configuration A'', sectors_of FLASH_LAYOUT_CALLBACK_CONFIG_SECTOR_A 1),
      (''callback configuration B'', sectors_of FLASH_LAYOUT_CALLBACK_CONFIG_SECTOR_B 1)]"

lemma flash_layout_addresses [simp]:
  "unat FLASH_LAYOUT_USER_STORE_SECTOR_A = 8380416"
  "unat FLASH_LAYOUT_USER_STORE_SECTOR_B = 8384512"
  "unat FLASH_LAYOUT_HEALTH_CHECK_CONFIG_SECTOR_A = 8372224"
  "unat FLASH_LAYOUT_HEALTH_CHECK_CONFIG_SECTOR_B = 8376320"
  "unat FLASH_LAYOUT_TLS_SERVER_CREDENTIALS_SECTOR_A = 8364032"
  "unat FLASH_LAYOUT_TLS_SERVER_CREDENTIALS_SECTOR_B = 8368128"
  "unat FLASH_LAYOUT_HEALTH_CHECK_LOG_SECTOR_0 = 8355840"
  "unat FLASH_LAYOUT_HEALTH_CHECK_LOG_SECTOR_1 = 8359936"
  "unat FLASH_LAYOUT_TLS_TRUST_STORE_BANK_A = 8327168"
  "unat FLASH_LAYOUT_TLS_TRUST_STORE_BANK_B = 8339456"
  "unat FLASH_LAYOUT_FACTORY_RESET_MARKER_SECTOR = 8323072"
  "unat FLASH_LAYOUT_CALLBACK_CONFIG_SECTOR_A = 8314880"
  "unat FLASH_LAYOUT_CALLBACK_CONFIG_SECTOR_B = 8318976"
  "unat FLASH_LAYOUT_TLS_TRUST_STORE_LEGACY_BANK_A = 8339456"
  "unat FLASH_LAYOUT_TLS_TRUST_STORE_LEGACY_BANK_B = 8347648"
  by (simp_all add: flash_layout_defs)

lemma flash_layout_distinct [simp]:
  "FLASH_LAYOUT_USER_STORE_SECTOR_A \<noteq> FLASH_LAYOUT_USER_STORE_SECTOR_B"
  "FLASH_LAYOUT_HEALTH_CHECK_CONFIG_SECTOR_A \<noteq> FLASH_LAYOUT_HEALTH_CHECK_CONFIG_SECTOR_B"
  "FLASH_LAYOUT_TLS_SERVER_CREDENTIALS_SECTOR_A \<noteq> FLASH_LAYOUT_TLS_SERVER_CREDENTIALS_SECTOR_B"
  "FLASH_LAYOUT_CALLBACK_CONFIG_SECTOR_A \<noteq> FLASH_LAYOUT_CALLBACK_CONFIG_SECTOR_B"
  "FLASH_LAYOUT_TLS_TRUST_STORE_BANK_A \<noteq> FLASH_LAYOUT_TLS_TRUST_STORE_BANK_B"
  "FLASH_LAYOUT_HEALTH_CHECK_LOG_SECTOR_0 \<noteq> FLASH_LAYOUT_HEALTH_CHECK_LOG_SECTOR_1"
  by (simp_all add: flash_layout_defs)

declare flash_layout_distinct [symmetric, simp]

end
