(* ===== verification/Ab_Store.thy ===== *)
theory Ab_Store
  imports Flash_Layout
begin

text \<open>
  The A/B snapshot scheme that four stores of the firmware repeat, as reference routines over
  any flash driver, and the locales \<open>ab_reader\<close> and \<open>ab_store\<close> that give its guarantees once: a successful
  save is durable and found again at the next start, a save touches only the inactive sector
  whatever happens, a save succeeds when the flash is ready, and a power loss in the middle of a
  save leaves the old snapshot or a completely valid one. The stores interpret the locale on
  their own save and load functions.
\<close>

definition ab_target :: "u32 \<Rightarrow> u32 \<Rightarrow> u32 \<Rightarrow> u32" where
  "ab_target sector_a sector_b active = (if active = sector_a then sector_b else sector_a)"

text \<open>Erase, program, read back and check; \<open>active\<close> is the sector in use before.\<close>

definition ab_save ::
  "('f \<Rightarrow> u32 \<Rightarrow> u32 \<Rightarrow> Platform_StatusTypeDef \<times> u8 list \<times> 'f) \<Rightarrow>
   ('f \<Rightarrow> u32 \<Rightarrow> Platform_StatusTypeDef \<times> 'f) \<Rightarrow>
   ('f \<Rightarrow> u32 \<Rightarrow> u8 list \<Rightarrow> Platform_StatusTypeDef \<times> 'f) \<Rightarrow>
   ('s \<Rightarrow> u8 list) \<Rightarrow> (u8 list \<Rightarrow> 's) \<Rightarrow> ('s \<Rightarrow> bool) \<Rightarrow> ('s \<Rightarrow> u32) \<Rightarrow> u32 \<Rightarrow> u32 \<Rightarrow> u32 \<Rightarrow>
   'f \<Rightarrow> u32 \<Rightarrow> 's \<Rightarrow> Platform_StatusTypeDef \<times> 'f" where
  "ab_save rd er pr enc dec valid gen sz sector_a sector_b f active candidate =
     (let target = ab_target sector_a sector_b active
      in case er f target of
        (s1, f1) \<Rightarrow>
          if s1 \<noteq> PLATFORM_STATUS_OK then (PLATFORM_STATUS_ERROR, f1)
          else (case pr f1 target (enc candidate) of
            (s2, f2) \<Rightarrow>
              if s2 \<noteq> PLATFORM_STATUS_OK then (PLATFORM_STATUS_ERROR, f2)
              else (case rd f2 target sz of
                (s3, bytes, f3) \<Rightarrow>
                  if s3 \<noteq> PLATFORM_STATUS_OK \<or> \<not> valid (dec bytes)
                     \<or> gen (dec bytes) \<noteq> gen candidate
                  then (PLATFORM_STATUS_ERROR, f3)
                  else (PLATFORM_STATUS_OK, f3))))"

lemma ab_save_status:
  "ab_save rd er pr enc dec valid gen sz a b f active c = (s, f') \<Longrightarrow>
     s = PLATFORM_STATUS_OK \<or> s = PLATFORM_STATUS_ERROR"
  by (auto simp: ab_save_def Let_def split: prod.splits if_splits)

text \<open>The newer of two valid images; sector A wins a tie.\<close>

definition ab_choose ::
  "('s \<Rightarrow> bool) \<Rightarrow> ('s \<Rightarrow> u32) \<Rightarrow> u32 \<Rightarrow> u32 \<Rightarrow> 's option \<Rightarrow> 's option \<Rightarrow> ('s \<times> u32) option" where
  "ab_choose valid gen sector_a sector_b first second =
     (let usable = (\<lambda>image. case image of None \<Rightarrow> False | Some x \<Rightarrow> valid x)
      in if usable first \<and> (\<not> usable second \<or> gen (the first) \<ge> gen (the second))
         then Some (the first, sector_a)
         else if usable second then Some (the second, sector_b) else None)"

definition ab_load ::
  "('f \<Rightarrow> u32 \<Rightarrow> u32 \<Rightarrow> Platform_StatusTypeDef \<times> u8 list \<times> 'f) \<Rightarrow>
   (u8 list \<Rightarrow> 's) \<Rightarrow> ('s \<Rightarrow> bool) \<Rightarrow> ('s \<Rightarrow> u32) \<Rightarrow> u32 \<Rightarrow> u32 \<Rightarrow> u32 \<Rightarrow>
   'f \<Rightarrow> ('s \<times> u32) option \<times> 'f" where
  "ab_load rd dec valid gen sz sector_a sector_b f =
     (case rd f sector_a sz of
        (s1, bytes1, f1) \<Rightarrow>
          (case rd f1 sector_b sz of
             (s2, bytes2, f2) \<Rightarrow>
               (ab_choose valid gen sector_a sector_b
                  (if s1 = PLATFORM_STATUS_OK then Some (dec bytes1) else None)
                  (if s2 = PLATFORM_STATUS_OK then Some (dec bytes2) else None), f2)))"

text \<open>The bytes a memory holds in the first \<open>sz\<close> bytes at an address.\<close>

definition image_at :: "(nat \<Rightarrow> u8) \<Rightarrow> u32 \<Rightarrow> u32 \<Rightarrow> u8 list" where
  "image_at m a sz = map m [unat a..<unat a + unat sz]"

lemma image_at_cong:
  "(\<And>i. unat a \<le> i \<Longrightarrow> i < unat a + unat sz \<Longrightarrow> m i = m' i) \<Longrightarrow> image_at m a sz = image_at m' a sz"
  by (simp add: image_at_def)

lemma nor_erase_other: "i div nor_sector \<noteq> unat a div nor_sector \<Longrightarrow> nor_erase m (unat a) i = m i"
  by (simp add: nor_erase_def)

lemma sector_of_offset:
  "unat a mod nor_sector = 0 \<Longrightarrow> unat a \<le> i \<Longrightarrow> i < unat a + nor_sector \<Longrightarrow>
     i div nor_sector = unat (a :: u32) div nor_sector"
proof -
  assume a: "unat a mod nor_sector = 0" "unat a \<le> i" "i < unat a + nor_sector"
  then have "unat a = unat a div nor_sector * nor_sector"
    using div_mult_mod_eq [of "unat a" nor_sector] by simp
  then have "i = unat a div nor_sector * nor_sector + (i - unat a)" "i - unat a < nor_sector"
    using a by linarith+
  then show ?thesis
    by (metis div_less div_mult_self3 add_0_right zero_neq_numeral)
qed

lemma and_FF_u8 [simp]: "0xFF AND (b :: u8) = b"
proof -
  have "(0xFF :: u8) = - 1" by simp
  then show ?thesis by (simp only: and.left_neutral)
qed

text \<open>Programming an erased sector leaves exactly the data.\<close>

lemma image_after_erase_program:
  assumes "unat a mod nor_sector = 0" and "length d = unat sz" and "unat sz \<le> nor_sector"
  shows "image_at (nor_write (nor_erase m (unat a)) (unat a) d) a sz = d"
proof (rule nth_equalityI)
  fix i assume "i < length (image_at (nor_write (nor_erase m (unat a)) (unat a) d) a sz)"
  then have i: "i < unat sz"
    by (simp add: image_at_def)
  then have "(unat a + i) div nor_sector = unat a div nor_sector"
    using assms by (intro sector_of_offset) auto
  then show "image_at (nor_write (nor_erase m (unat a)) (unat a) d) a sz ! i = d ! i"
    using i assms(2) by (simp add: image_at_def nor_write_def nor_erase_def)
qed (simp add: image_at_def assms)

locale ab_reader = nor_driver rd er pr mem ready
  for rd :: "'f \<Rightarrow> u32 \<Rightarrow> u32 \<Rightarrow> Platform_StatusTypeDef \<times> u8 list \<times> 'f"
    and er :: "'f \<Rightarrow> u32 \<Rightarrow> Platform_StatusTypeDef \<times> 'f"
    and pr :: "'f \<Rightarrow> u32 \<Rightarrow> u8 list \<Rightarrow> Platform_StatusTypeDef \<times> 'f"
    and mem :: "'f \<Rightarrow> nat \<Rightarrow> u8"
    and ready :: "'f \<Rightarrow> bool" +
  fixes dec :: "u8 list \<Rightarrow> 's"
    and valid :: "'s \<Rightarrow> bool"
    and gen :: "'s \<Rightarrow> u32"
    and sz :: u32
    and sector_a :: u32
    and sector_b :: u32
  assumes size_pos: "0 < unat sz"
    and size_sector: "unat sz \<le> nor_sector"
    and aligned_a: "unat sector_a mod nor_sector = 0"
    and aligned_b: "unat sector_b mod nor_sector = 0"
    and range_a: "unat sector_a + nor_sector \<le> nor_capacity"
    and range_b: "unat sector_b + nor_sector \<le> nor_capacity"
    and distinct_ab: "sector_a \<noteq> sector_b"
begin

abbreviation load where
  "load \<equiv> ab_load rd dec valid gen sz sector_a sector_b"

abbreviation newest where
  "newest m \<equiv> ab_choose valid gen sector_a sector_b
     (Some (dec (image_at m sector_a sz))) (Some (dec (image_at m sector_b sz)))"

lemma target_cases:
  assumes "t = ab_target sector_a sector_b active"
  shows "t = sector_a \<or> t = sector_b" and "unat t mod nor_sector = 0"
    and "unat t + nor_sector \<le> nor_capacity" and "unat t + unat sz \<le> nor_capacity"
  using assms aligned_a aligned_b range_a range_b size_sector
  by (auto simp: ab_target_def split: if_splits)

lemma sectors_apart: "unat sector_a div nor_sector \<noteq> unat sector_b div nor_sector"
proof
  assume "unat sector_a div nor_sector = unat sector_b div nor_sector"
  then have "unat sector_a = unat sector_b"
    using aligned_a aligned_b div_mult_mod_eq [of "unat sector_a" nor_sector]
      div_mult_mod_eq [of "unat sector_b" nor_sector] by simp
  then show False
    using distinct_ab by (simp add: word_unat_eq_iff)
qed

lemma load_ready:
  assumes "ready f"
  shows "\<exists>f'. load f = (newest (mem f), f') \<and> ready f' \<and> mem f' = mem f"
proof -
  have room: "unat sector_a + unat sz \<le> nor_capacity" "unat sector_b + unat sz \<le> nor_capacity"
    using range_a range_b size_sector by auto
  obtain b1 f1 where r1: "rd f sector_a sz = (PLATFORM_STATUS_OK, b1, f1)" "ready f1"
    using rd_ready [OF assms size_pos room(1)] by blast
  obtain b2 f2 where r2: "rd f1 sector_b sz = (PLATFORM_STATUS_OK, b2, f2)" "ready f2"
    using rd_ready [OF r1(2) size_pos room(2)] by blast
  have "mem f1 = mem f" "mem f2 = mem f"
    using rd_mem [OF r1(1) room(1)] rd_mem [OF r2(1) room(2)] by simp_all
  then show ?thesis
    using r1 r2 rd_ok [OF r1(1) room(1)] rd_ok [OF r2(1) room(2)]
    by (simp add: ab_load_def image_at_def)
qed

text \<open>The image in the other sector survives a save.\<close>

lemma image_other_sector:
  assumes "\<And>i. i div nor_sector \<noteq> unat (ab_target sector_a sector_b active) div nor_sector \<Longrightarrow> m' i = m i"
    and "active = sector_a \<or> active = sector_b"
  shows "image_at m' active sz = image_at m active sz"
proof (rule image_at_cong)
  fix i assume i: "unat active \<le> i" "i < unat active + unat sz"
  have "unat active mod nor_sector = 0"
    using assms(2) aligned_a aligned_b by auto
  then have "i div nor_sector = unat active div nor_sector"
    using sector_of_offset [of active i] i size_sector by simp
  moreover have "unat active div nor_sector \<noteq> unat (ab_target sector_a sector_b active) div nor_sector"
    using assms(2) sectors_apart by (auto simp: ab_target_def)
  ultimately show "m' i = m i"
    using assms(1) by simp
qed

text \<open>
  Power loss: if memory outside the inactive sector is as it was, the next start finds the old
  snapshot, or a snapshot in the inactive sector that passes every check and is not older.
\<close>

lemma power_loss:
  assumes "\<And>i. i div nor_sector \<noteq> unat (ab_target sector_a sector_b active) div nor_sector \<Longrightarrow> m' i = m i"
    and "active = sector_a \<or> active = sector_b"
    and "dec (image_at m active sz) = x" and "valid x"
    and "t = ab_target sector_a sector_b active" and "y = dec (image_at m' t sz)"
  shows "newest m' = Some (x, active) \<or> newest m' = Some (y, t) \<and> valid y \<and> gen x \<le> gen y"
proof -
  have other: "dec (image_at m' active sz) = x"
    using image_other_sector [OF assms(1,2)] assms(3) by simp
  show ?thesis
    using assms(2,4,5,6) distinct_ab other
    by (auto simp: ab_choose_def ab_target_def not_le split: if_splits)
qed

text \<open>What the start-up choice says about the sector it names.\<close>

lemma newest_active:
  assumes "newest m = Some (x, active)"
  shows "dec (image_at m active sz) = x" and "valid x" and "active = sector_a \<or> active = sector_b"
  using assms distinct_ab by (auto simp: ab_choose_def Let_def split: if_splits)

lemma newest_none:
  assumes "newest m = None" and "active = sector_a \<or> active = sector_b"
  shows "\<not> valid (dec (image_at m active sz))"
  using assms by (auto simp: ab_choose_def Let_def split: if_splits)

end

text \<open>A pair of sectors that is also written: the encoder inverts the decoder.\<close>

locale ab_store = ab_reader rd er pr mem ready dec valid gen sz sector_a sector_b
  for rd :: "'f \<Rightarrow> u32 \<Rightarrow> u32 \<Rightarrow> Platform_StatusTypeDef \<times> u8 list \<times> 'f"
    and er :: "'f \<Rightarrow> u32 \<Rightarrow> Platform_StatusTypeDef \<times> 'f"
    and pr :: "'f \<Rightarrow> u32 \<Rightarrow> u8 list \<Rightarrow> Platform_StatusTypeDef \<times> 'f"
    and mem :: "'f \<Rightarrow> nat \<Rightarrow> u8"
    and ready :: "'f \<Rightarrow> bool"
    and dec :: "u8 list \<Rightarrow> 's"
    and valid :: "'s \<Rightarrow> bool"
    and gen :: "'s \<Rightarrow> u32"
    and sz :: u32
    and sector_a :: u32
    and sector_b :: u32 +
  fixes enc :: "'s \<Rightarrow> u8 list"
    and wf :: "'s \<Rightarrow> bool"
  assumes length_enc: "wf x \<Longrightarrow> length (enc x) = unat sz"
    and dec_enc: "wf x \<Longrightarrow> dec (enc x) = x"
begin

abbreviation save where
  "save \<equiv> ab_save rd er pr enc dec valid gen sz sector_a sector_b"

text \<open>Whatever the outcome of a save, memory outside the inactive sector is untouched.\<close>

lemma save_frame:
  assumes "save f active c = (s, f')" and "wf c"
    and "i div nor_sector \<noteq> unat (ab_target sector_a sector_b active) div nor_sector"
  shows "mem f' i = mem f i"
proof -
  define t where "t = ab_target sector_a sector_b active"
  note t = target_cases [OF t_def]
  obtain s1 f1 where e: "er f t = (s1, f1)"
    by (cases "er f t") auto
  obtain s2 f2 where p: "pr f1 t (enc c) = (s2, f2)"
    by (cases "pr f1 t (enc c)") auto
  obtain s3 bs f3 where r: "rd f2 t sz = (s3, bs, f3)"
    by (cases "rd f2 t sz") auto
  have "f' = f1 \<or> f' = f2 \<or> f' = f3"
    using assms(1) e p r by (auto simp: ab_save_def Let_def simp flip: t_def split: if_splits)
  moreover have "mem f1 i = mem f i"
    using er_cases [OF e] assms(3) by (auto simp: t_def nor_erase_def)
  moreover have "mem f2 i = mem f1 i"
  proof -
    have "unat t + length (enc c) \<le> nor_capacity"
      using t(4) length_enc [OF assms(2)] by simp
    then obtain k where "mem f2 = nor_write (mem f1) (unat t) (take k (enc c))"
      using pr_cases [OF p] by blast
    moreover have "\<not> (unat t \<le> i \<and> i < unat t + unat sz)"
      using assms(3) sector_of_offset [OF t(2), of i] size_sector by (auto simp: t_def)
    ultimately show ?thesis
      using length_enc [OF assms(2)] by (auto simp: nor_write_def)
  qed
  moreover have "mem f3 = mem f2"
    using rd_mem [OF r t(4)] .
  ultimately show ?thesis
    by auto
qed

text \<open>A save that reports success has put exactly the image of the candidate into place.\<close>

lemma save_ok:
  assumes "save f active c = (PLATFORM_STATUS_OK, f')" and "wf c"
  shows "image_at (mem f') (ab_target sector_a sector_b active) sz = enc c" and "valid c"
proof -
  define t where "t = ab_target sector_a sector_b active"
  note t = target_cases [OF t_def]
  obtain s1 f1 where e: "er f t = (s1, f1)"
    by (cases "er f t") auto
  obtain s2 f2 where p: "pr f1 t (enc c) = (s2, f2)"
    by (cases "pr f1 t (enc c)") auto
  obtain s3 bs f3 where r: "rd f2 t sz = (s3, bs, f3)"
    by (cases "rd f2 t sz") auto
  have ok: "s1 = PLATFORM_STATUS_OK" "s2 = PLATFORM_STATUS_OK" "s3 = PLATFORM_STATUS_OK"
    "f' = f3" "valid (dec bs)"
    using assms(1) e p r by (auto simp: ab_save_def Let_def simp flip: t_def split: if_splits)
  have "unat t + length (enc c) \<le> nor_capacity"
    using t(4) length_enc [OF assms(2)] by simp
  then have "mem f2 = nor_write (nor_erase (mem f) (unat t)) (unat t) (enc c)"
    using pr_ok p er_ok e ok by metis
  then have image: "image_at (mem f2) t sz = enc c"
    using image_after_erase_program [OF t(2) length_enc [OF assms(2)] size_sector] by simp
  moreover have "mem f3 = mem f2"
    using rd_mem [OF r t(4)] .
  ultimately show "image_at (mem f') (ab_target sector_a sector_b active) sz = enc c"
    using ok(4) by (simp add: t_def)
  have "bs = enc c"
    using rd_ok [OF _ t(4)] r ok(3) image by (auto simp: image_at_def)
  then show "valid c"
    using ok(5) dec_enc [OF assms(2)] by simp
qed

lemma save_ready:
  assumes "ready f" and "wf c" and "valid c"
  shows "\<exists>f'. save f active c = (PLATFORM_STATUS_OK, f') \<and> ready f'"
proof -
  define t where "t = ab_target sector_a sector_b active"
  note t = target_cases [OF t_def]
  have room: "unat t + length (enc c) \<le> nor_capacity"
    using t(4) length_enc [OF assms(2)] by simp
  obtain f1 where e: "er f t = (PLATFORM_STATUS_OK, f1)" "ready f1"
    using er_ready [OF assms(1) _ t(2)] t(3) by auto
  obtain f2 where p: "pr f1 t (enc c) = (PLATFORM_STATUS_OK, f2)" "ready f2"
    using pr_ready [OF e(2) _ room] length_enc [OF assms(2)] size_pos
    by (metis length_0_conv less_not_refl)
  obtain bs f3 where r: "rd f2 t sz = (PLATFORM_STATUS_OK, bs, f3)" "ready f3"
    using rd_ready [OF p(2) size_pos t(4)] by blast
  have "mem f2 = nor_write (nor_erase (mem f) (unat t)) (unat t) (enc c)"
    using pr_ok [OF p(1) room] er_ok [OF e(1)] by simp
  then have "bs = enc c"
    using rd_ok [OF r(1) t(4)] image_after_erase_program [OF t(2) length_enc [OF assms(2)] size_sector]
    by (simp add: image_at_def)
  then show ?thesis
    using e p r assms dec_enc by (simp add: ab_save_def Let_def flip: t_def)
qed

text \<open>
  Durability: a saved snapshot is what the next start finds, provided its generation is larger
  than that of a valid snapshot in the sector that was active.
\<close>

lemma save_then_newest:
  assumes "save f active c = (PLATFORM_STATUS_OK, f')" and "wf c"
    and "active = sector_a \<or> active = sector_b"
    and "valid (dec (image_at (mem f) active sz)) \<Longrightarrow> gen (dec (image_at (mem f) active sz)) < gen c"
  shows "newest (mem f') = Some (c, ab_target sector_a sector_b active)"
proof -
  have frame: "\<And>i. i div nor_sector \<noteq> unat (ab_target sector_a sector_b active) div nor_sector \<Longrightarrow> mem f' i = mem f i"
    by (rule save_frame [OF assms(1,2)])
  have other: "image_at (mem f') active sz = image_at (mem f) active sz"
    by (rule image_other_sector [OF frame assms(3)])
  note ok = save_ok [OF assms(1,2)]
  have new: "dec (image_at (mem f') (ab_target sector_a sector_b active) sz) = c"
    using ok(1) dec_enc [OF assms(2)] by simp
  show ?thesis
    using assms(3,4) distinct_ab new other ok(2)
    by (auto simp: ab_choose_def ab_target_def split: if_splits)
qed

text \<open>
  One step of a run without faults: from memory that holds snapshot \<open>x\<close> as its newest one (or
  none at all) a save of a later generation succeeds and becomes the newest one.
\<close>

lemma save_step:
  assumes "ready f" and "wf c" and "valid c"
    and "newest (mem f) = Some (x, active) \<and> gen x < gen c
      \<or> newest (mem f) = None \<and> (active = sector_a \<or> active = sector_b)"
  shows "\<exists>f'. save f active c = (PLATFORM_STATUS_OK, f') \<and> ready f'
    \<and> newest (mem f') = Some (c, ab_target sector_a sector_b active)"
proof -
  obtain f' where f': "save f active c = (PLATFORM_STATUS_OK, f')" "ready f'"
    using save_ready [OF assms(1-3)] by blast
  have "active = sector_a \<or> active = sector_b"
    using assms(4) newest_active(3) by blast
  moreover have "gen (dec (image_at (mem f) active sz)) < gen c"
    if "valid (dec (image_at (mem f) active sz))"
    using that assms(4) newest_active(1) newest_none by blast
  ultimately show ?thesis
    using f' save_then_newest [OF f'(1) assms(2)] by blast
qed

end

end
