(* ===== verification/User_Store.thy ===== *)
theory User_Store
  imports Ab_Store
begin

text \<open>
  The management-user database \<^verbatim>\<open>Srv/Src/user_store.c\<close>: the structures with their in-memory
  layout (the padding byte of \<open>UserStore_RecordTypeDef\<close> included, since the CRC covers it), the
  A/B save and the start-up load, and the four operations. The abstract view of a store is a
  finite map from user names to records; the lemmas show that the operations refine it, that
  they keep the invariant, give the mutex back on every path, and that the store is durable.
\<close>

section \<open>Data\<close>

definition USER_STORE_MAX_USERS :: nat where "USER_STORE_MAX_USERS = 8"
definition USER_STORE_USERNAME_SIZE :: nat where "USER_STORE_USERNAME_SIZE = 25"
definition USER_STORE_SALT_SIZE :: nat where "USER_STORE_SALT_SIZE = 16"
definition USER_STORE_VERIFIER_SIZE :: nat where "USER_STORE_VERIFIER_SIZE = 32"
definition USER_STORE_MAGIC :: u32 where "USER_STORE_MAGIC = 0x55534552"
definition USER_STORE_VERSION :: u16 where "USER_STORE_VERSION = 1"

lemmas user_store_constants =
  USER_STORE_MAX_USERS_def USER_STORE_USERNAME_SIZE_def USER_STORE_SALT_SIZE_def
  USER_STORE_VERIFIER_SIZE_def

record UserStore_RecordTypeDef =
  usr_enabled :: u8
  usr_role :: u8
  usr_username :: string
  usr_salt :: "u8 list"
  usr_verifier :: "u8 list"
  usr_pad :: u8
  usr_iterations :: u32

record UserStore_SnapshotTypeDef =
  us_magic :: u32
  us_version :: u16
  us_count :: u16
  us_generation :: u32
  us_users :: "UserStore_RecordTypeDef list"
  us_crc :: u32

record user_store =
  us_snapshot :: UserStore_SnapshotTypeDef
  us_activeAddress :: u32
  us_storeMutex :: semaphore

abbreviation user_sector_a :: u32 where
  "user_sector_a \<equiv> FLASH_LAYOUT_USER_STORE_SECTOR_A"

abbreviation user_sector_b :: u32 where
  "user_sector_b \<equiv> FLASH_LAYOUT_USER_STORE_SECTOR_B"

definition zero_user :: UserStore_RecordTypeDef where
  "zero_user = \<lparr>usr_enabled = 0, usr_role = 0, usr_username = replicate 25 NUL,
     usr_salt = replicate 16 0, usr_verifier = replicate 32 0, usr_pad = 0, usr_iterations = 0\<rparr>"

definition zero_user_snapshot :: UserStore_SnapshotTypeDef where
  "zero_user_snapshot = \<lparr>us_magic = 0, us_version = 0, us_count = 0, us_generation = 0,
     us_users = replicate 8 zero_user, us_crc = 0\<rparr>"

section \<open>Memory images\<close>

definition enc_user :: "UserStore_RecordTypeDef \<Rightarrow> u8 list" where
  "enc_user r = [usr_enabled r, usr_role r] @ map byte_of_char (usr_username r) @ usr_salt r
     @ usr_verifier r @ [usr_pad r] @ le32 (usr_iterations r)"

definition dec_user :: "u8 list \<Rightarrow> UserStore_RecordTypeDef" where
  "dec_user bs = \<lparr>usr_enabled = bs ! 0, usr_role = bs ! 1,
     usr_username = map char_of_byte (take 25 (drop 2 bs)), usr_salt = take 16 (drop 27 bs),
     usr_verifier = take 32 (drop 43 bs), usr_pad = bs ! 75,
     usr_iterations = of_le32 (take 4 (drop 76 bs))\<rparr>"

text \<open>The \<open>offsetof(UserStore_SnapshotTypeDef, crc)\<close> bytes that the CRC covers.\<close>

definition user_snapshot_body :: "UserStore_SnapshotTypeDef \<Rightarrow> u8 list" where
  "user_snapshot_body x = le32 (us_magic x) @ le16 (us_version x) @ le16 (us_count x)
     @ le32 (us_generation x) @ concat (map enc_user (us_users x))"

definition enc_user_snapshot :: "UserStore_SnapshotTypeDef \<Rightarrow> u8 list" where
  "enc_user_snapshot x = user_snapshot_body x @ le32 (us_crc x)"

definition dec_user_snapshot :: "u8 list \<Rightarrow> UserStore_SnapshotTypeDef" where
  "dec_user_snapshot bs = \<lparr>us_magic = of_le32 (take 4 bs), us_version = of_le16 (take 2 (drop 4 bs)),
     us_count = of_le16 (take 2 (drop 6 bs)), us_generation = of_le32 (take 4 (drop 8 bs)),
     us_users = map dec_user (chunks 8 80 (drop 12 bs)), us_crc = of_le32 (take 4 (drop 652 bs))\<rparr>"

definition user_snapshot_size :: u32 where "user_snapshot_size = 656"

definition wf_user :: "UserStore_RecordTypeDef \<Rightarrow> bool" where
  "wf_user r \<longleftrightarrow> length (usr_username r) = 25 \<and> length (usr_salt r) = 16 \<and> length (usr_verifier r) = 32"

definition wf_user_snapshot :: "UserStore_SnapshotTypeDef \<Rightarrow> bool" where
  "wf_user_snapshot x \<longleftrightarrow> length (us_users x) = 8 \<and> list_all wf_user (us_users x)"

section \<open>Integrity, save and load\<close>

definition userStore_Crc :: "u8 list \<Rightarrow> u32" where
  "userStore_Crc bytes = crc32 bytes"

definition userStore_IsValid :: "UserStore_SnapshotTypeDef \<Rightarrow> bool" where
  "userStore_IsValid candidate \<longleftrightarrow>
     us_magic candidate = USER_STORE_MAGIC \<and> us_version candidate = USER_STORE_VERSION
     \<and> unat (us_count candidate) \<le> USER_STORE_MAX_USERS
     \<and> us_crc candidate = userStore_Crc (user_snapshot_body candidate)"

text \<open>The header fields a save fills in.\<close>

definition userStore_Seal :: "UserStore_SnapshotTypeDef \<Rightarrow> UserStore_SnapshotTypeDef" where
  "userStore_Seal candidate =
     (let c = candidate\<lparr>us_magic := USER_STORE_MAGIC, us_version := USER_STORE_VERSION,
                us_generation := us_generation candidate + 1\<rparr>
      in c\<lparr>us_crc := userStore_Crc (user_snapshot_body c)\<rparr>)"

definition userStore_Save ::
  "user_store \<Rightarrow> w25q64 \<Rightarrow> UserStore_SnapshotTypeDef \<Rightarrow> Platform_StatusTypeDef \<times> user_store \<times> w25q64" where
  "userStore_Save st f candidate0 =
     (let target = (if us_activeAddress st = user_sector_a then user_sector_b else user_sector_a);
          candidate = userStore_Seal candidate0
      in case W25Q64_EraseSector f target of
        (s1, f1) \<Rightarrow>
          if s1 \<noteq> PLATFORM_STATUS_OK then (PLATFORM_STATUS_ERROR, st, f1)
          else (case W25Q64_Program f1 target (enc_user_snapshot candidate) of
            (s2, f2) \<Rightarrow>
              if s2 \<noteq> PLATFORM_STATUS_OK then (PLATFORM_STATUS_ERROR, st, f2)
              else (case W25Q64_Read f2 target user_snapshot_size of
                (s3, bytes, f3) \<Rightarrow>
                  (let verification = dec_user_snapshot bytes
                   in if s3 \<noteq> PLATFORM_STATUS_OK \<or> \<not> userStore_IsValid verification
                         \<or> us_generation verification \<noteq> us_generation candidate
                      then (PLATFORM_STATUS_ERROR, st, f3)
                      else (PLATFORM_STATUS_OK,
                            st\<lparr>us_snapshot := candidate, us_activeAddress := target\<rparr>, f3)))))"

text \<open>\<open>created\<close> tells whether \<open>xSemaphoreCreateMutexStatic\<close> returned a handle.\<close>

definition UserStore_Init ::
  "bool \<Rightarrow> user_store \<Rightarrow> w25q64 \<Rightarrow> Platform_StatusTypeDef \<times> user_store \<times> w25q64" where
  "UserStore_Init created st f =
     (if \<not> created then (PLATFORM_STATUS_ERROR, st\<lparr>us_storeMutex := Sem_Null\<rparr>, f)
      else case W25Q64_Read f user_sector_a user_snapshot_size of
        (s1, bytes1, f1) \<Rightarrow>
          (case W25Q64_Read f1 user_sector_b user_snapshot_size of
             (s2, bytes2, f2) \<Rightarrow>
               (let first = dec_user_snapshot bytes1; second = dec_user_snapshot bytes2;
                    firstValid = (s1 = PLATFORM_STATUS_OK \<and> userStore_IsValid first);
                    secondValid = (s2 = PLATFORM_STATUS_OK \<and> userStore_IsValid second);
                    st' = st\<lparr>us_storeMutex := Sem_Free\<rparr>
                in (PLATFORM_STATUS_OK,
                    if firstValid \<and> (\<not> secondValid \<or> us_generation first \<ge> us_generation second)
                    then st'\<lparr>us_snapshot := first, us_activeAddress := user_sector_a\<rparr>
                    else if secondValid
                    then st'\<lparr>us_snapshot := second, us_activeAddress := user_sector_b\<rparr>
                    else st'\<lparr>us_snapshot := zero_user_snapshot, us_activeAddress := user_sector_b\<rparr>,
                    f2))))"

section \<open>Operations\<close>

text \<open>The search loop shared by the operations: the first position with that name, or the count.\<close>

fun userStore_Position :: "UserStore_RecordTypeDef list \<Rightarrow> string \<Rightarrow> nat" where
  "userStore_Position [] username = 0"
| "userStore_Position (r # rs) username =
     (if cstr (usr_username r) = cstr username then 0 else Suc (userStore_Position rs username))"

definition active_users :: "UserStore_SnapshotTypeDef \<Rightarrow> UserStore_RecordTypeDef list" where
  "active_users x = take (unat (us_count x)) (us_users x)"

definition UserStore_Find ::
  "user_store \<Rightarrow> string \<Rightarrow>
     Platform_StatusTypeDef \<times> (UserStore_RecordTypeDef \<times> nat) option \<times> user_store" where
  "UserStore_Find st username =
     (case xSemaphoreTake (us_storeMutex st) of
        None \<Rightarrow> (PLATFORM_STATUS_ERROR, None, st)
      | Some m \<Rightarrow>
          (let position = userStore_Position (active_users (us_snapshot st)) username;
               st' = st\<lparr>us_storeMutex := xSemaphoreGive m\<rparr>
           in if position < unat (us_count (us_snapshot st))
              then (PLATFORM_STATUS_OK, Some (us_users (us_snapshot st) ! position, position), st')
              else (PLATFORM_STATUS_ERROR, None, st')))"

definition UserStore_Put ::
  "user_store \<Rightarrow> w25q64 \<Rightarrow> UserStore_RecordTypeDef \<Rightarrow> Platform_StatusTypeDef \<times> user_store \<times> w25q64" where
  "UserStore_Put st f rec =
     (if usr_username rec ! 0 = NUL then (PLATFORM_STATUS_ERROR, st, f)
      else case xSemaphoreTake (us_storeMutex st) of
        None \<Rightarrow> (PLATFORM_STATUS_ERROR, st, f)
      | Some m \<Rightarrow>
          (let st1 = st\<lparr>us_storeMutex := m\<rparr>;
               candidate = us_snapshot st1;
               position = userStore_Position (active_users candidate) (usr_username rec);
               isNew = (position = unat (us_count candidate))
           in if isNew \<and> unat (us_count candidate) \<ge> USER_STORE_MAX_USERS
              then (PLATFORM_STATUS_ERROR, st1\<lparr>us_storeMutex := xSemaphoreGive m\<rparr>, f)
              else (case userStore_Save st1 f
                  (candidate\<lparr>us_count := (if isNew then us_count candidate + 1 else us_count candidate),
                             us_users := (us_users candidate)[position := rec]\<rparr>) of
                (s, st2, f') \<Rightarrow> (s, st2\<lparr>us_storeMutex := xSemaphoreGive m\<rparr>, f'))))"

function userStore_ShiftLoop ::
  "UserStore_RecordTypeDef list \<Rightarrow> nat \<Rightarrow> nat \<Rightarrow> UserStore_RecordTypeDef list" where
  "userStore_ShiftLoop users tail count =
     (if tail + 1 < count
      then userStore_ShiftLoop (users[tail := users ! (tail + 1)]) (tail + 1) count
      else users)"
  by pat_completeness auto
termination
  by (relation "measure (\<lambda>(users, tail, count). count - tail)") auto

declare userStore_ShiftLoop.simps [simp del]

definition UserStore_Delete ::
  "user_store \<Rightarrow> w25q64 \<Rightarrow> string \<Rightarrow> Platform_StatusTypeDef \<times> user_store \<times> w25q64" where
  "UserStore_Delete st f username =
     (case xSemaphoreTake (us_storeMutex st) of
        None \<Rightarrow> (PLATFORM_STATUS_ERROR, st, f)
      | Some m \<Rightarrow>
          (let st1 = st\<lparr>us_storeMutex := m\<rparr>;
               candidate = us_snapshot st1;
               count = unat (us_count candidate);
               position = userStore_Position (active_users candidate) username
           in if position = count
              then (PLATFORM_STATUS_ERROR, st1\<lparr>us_storeMutex := xSemaphoreGive m\<rparr>, f)
              else (case userStore_Save st1 f
                  (candidate\<lparr>us_users := (userStore_ShiftLoop (us_users candidate) position count)
                                            [count - 1 := zero_user],
                             us_count := us_count candidate - 1\<rparr>) of
                (s, st2, f') \<Rightarrow> (s, st2\<lparr>us_storeMutex := xSemaphoreGive m\<rparr>, f'))))"

definition UserStore_List ::
  "user_store \<Rightarrow> nat \<Rightarrow> UserStore_RecordTypeDef list \<times> user_store" where
  "UserStore_List st capacity =
     (if capacity = 0 then ([], st)
      else case xSemaphoreTake (us_storeMutex st) of
        None \<Rightarrow> ([], st)
      | Some m \<Rightarrow>
          (let count = min (unat (us_count (us_snapshot st))) capacity
           in (take count (us_users (us_snapshot st)), st\<lparr>us_storeMutex := xSemaphoreGive m\<rparr>)))"

section \<open>Memory images round-trip\<close>

lemma length_enc_user [simp]: "wf_user r \<Longrightarrow> length (enc_user r) = 80"
  by (simp add: enc_user_def wf_user_def)

lemma dec_enc_user [simp]: "wf_user r \<Longrightarrow> dec_user (enc_user r) = r"
  by (cases r) (simp add: enc_user_def dec_user_def wf_user_def nth_append comp_def)

lemma wf_user_snapshot_length:
  "wf_user_snapshot x \<Longrightarrow> length (concat (map enc_user (us_users x))) = 640"
  by (subst length_concat_fixed [where w = 80]) (auto simp: wf_user_snapshot_def list_all_iff)

lemma length_user_snapshot_body: "wf_user_snapshot x \<Longrightarrow> length (user_snapshot_body x) = 652"
  by (simp add: user_snapshot_body_def wf_user_snapshot_length)

lemma length_enc_user_snapshot:
  "wf_user_snapshot x \<Longrightarrow> length (enc_user_snapshot x) = unat user_snapshot_size"
  by (simp add: enc_user_snapshot_def length_user_snapshot_body user_snapshot_size_def)

lemma dec_enc_user_snapshot:
  assumes "wf_user_snapshot x"
  shows "dec_user_snapshot (enc_user_snapshot x) = x"
proof -
  have "chunks 8 80 (concat (map enc_user (us_users x)) @ le32 (us_crc x)) = map enc_user (us_users x)"
    using assms by (intro chunks_concat_append) (auto simp: wf_user_snapshot_def list_all_iff)
  moreover have "map dec_user (map enc_user (us_users x)) = us_users x"
    using assms by (auto simp: wf_user_snapshot_def list_all_iff intro!: map_idI)
  moreover have "drop 640 (concat (map enc_user (us_users x))) = []"
    using wf_user_snapshot_length [OF assms] by simp
  ultimately show ?thesis
    using wf_user_snapshot_length [OF assms]
    by (cases x) (simp add: dec_user_snapshot_def enc_user_snapshot_def user_snapshot_body_def)
qed

lemma wf_zero_user [simp]: "wf_user zero_user"
  by (simp add: wf_user_def zero_user_def)

lemma wf_zero_user_snapshot [simp]: "wf_user_snapshot zero_user_snapshot"
  by (simp add: wf_user_snapshot_def zero_user_snapshot_def list_all_iff)

lemma wf_dec_user: "length bs = 80 \<Longrightarrow> wf_user (dec_user bs)"
  by (simp add: wf_user_def dec_user_def)

lemma chunks_length: "x \<in> set (chunks n w bs) \<Longrightarrow> n * w \<le> length bs \<Longrightarrow> length x = w"
  by (induction n arbitrary: bs) auto

lemma wf_dec_user_snapshot: "length bs = 656 \<Longrightarrow> wf_user_snapshot (dec_user_snapshot bs)"
  by (auto simp: wf_user_snapshot_def dec_user_snapshot_def list_all_iff
      intro!: wf_dec_user dest: chunks_length)

lemma wf_userStore_Seal [simp]: "wf_user_snapshot (userStore_Seal x) = wf_user_snapshot x"
  by (simp add: userStore_Seal_def Let_def wf_user_snapshot_def)

lemma userStore_Seal_simps [simp]:
  "us_users (userStore_Seal x) = us_users x"
  "us_count (userStore_Seal x) = us_count x"
  "us_generation (userStore_Seal x) = us_generation x + 1"
  by (simp_all add: userStore_Seal_def Let_def)

lemma userStore_IsValid_Seal:
  "userStore_IsValid (userStore_Seal x) \<longleftrightarrow> unat (us_count x) \<le> USER_STORE_MAX_USERS"
  by (simp add: userStore_IsValid_def userStore_Seal_def Let_def user_snapshot_body_def)

section \<open>The store is an A/B store\<close>

interpretation user_ab: ab_store W25Q64_Read W25Q64_EraseSector W25Q64_Program nor_mem flash_ready
  dec_user_snapshot userStore_IsValid us_generation user_snapshot_size user_sector_a user_sector_b
  enc_user_snapshot wf_user_snapshot
proof unfold_locales
qed (simp_all add: length_enc_user_snapshot dec_enc_user_snapshot, simp_all add: user_snapshot_size_def)

lemma userStore_Save_ab:
  "userStore_Save st f c =
     (case user_ab.save f (us_activeAddress st) (userStore_Seal c) of
        (s, f') \<Rightarrow>
          (s, if s = PLATFORM_STATUS_OK
              then st\<lparr>us_snapshot := userStore_Seal c,
                      us_activeAddress := ab_target user_sector_a user_sector_b (us_activeAddress st)\<rparr>
              else st, f'))"
  by (simp add: userStore_Save_def ab_save_def ab_target_def Let_def split: prod.splits)

lemma UserStore_Init_ab:
  "UserStore_Init True st f =
     (case user_ab.load f of
        (newest, f') \<Rightarrow>
          (PLATFORM_STATUS_OK,
           case newest of
             Some (x, a) \<Rightarrow> st\<lparr>us_storeMutex := Sem_Free, us_snapshot := x, us_activeAddress := a\<rparr>
           | None \<Rightarrow> st\<lparr>us_storeMutex := Sem_Free, us_snapshot := zero_user_snapshot,
                        us_activeAddress := user_sector_b\<rparr>, f'))"
  by (auto simp: UserStore_Init_def ab_load_def ab_choose_def Let_def split: prod.splits)

section \<open>Searching\<close>

abbreviation user_key :: "UserStore_RecordTypeDef \<Rightarrow> string" where
  "user_key r \<equiv> cstr (usr_username r)"

lemma userStore_Position_le: "userStore_Position us n \<le> length us"
  by (induction us) simp_all

lemma userStore_Position_hit:
  "userStore_Position us n < length us \<Longrightarrow> user_key (us ! userStore_Position us n) = cstr n"
  by (induction us) auto

lemma userStore_Position_miss:
  "userStore_Position us n = length us \<longleftrightarrow> cstr n \<notin> user_key ` set us"
  by (induction us) auto

text \<open>The abstract view: the record stored under each name.\<close>

definition user_map :: "UserStore_SnapshotTypeDef \<Rightarrow> string \<rightharpoonup> UserStore_RecordTypeDef" where
  "user_map x = map_of (map (\<lambda>r. (user_key r, r)) (active_users x))"

definition user_inv :: "UserStore_SnapshotTypeDef \<Rightarrow> bool" where
  "user_inv x \<longleftrightarrow> wf_user_snapshot x \<and> unat (us_count x) \<le> 8
     \<and> distinct (map user_key (active_users x)) \<and> [] \<notin> user_key ` set (active_users x)"

lemma length_active_users:
  "user_inv x \<Longrightarrow> length (active_users x) = unat (us_count x)"
  by (simp add: user_inv_def active_users_def wf_user_snapshot_def)

lemma map_of_keyed_position:
  "map_of (map (\<lambda>r. (user_key r, r)) us) (cstr n) =
     (if userStore_Position us n < length us then Some (us ! userStore_Position us n) else None)"
  by (induction us) auto

lemma UserStore_Find_map:
  assumes "user_inv (us_snapshot st)" and "us_storeMutex st = Sem_Free"
  shows "UserStore_Find st n =
    (case user_map (us_snapshot st) (cstr n) of
       Some r \<Rightarrow> (PLATFORM_STATUS_OK,
                   Some (r, userStore_Position (active_users (us_snapshot st)) n), st)
     | None \<Rightarrow> (PLATFORM_STATUS_ERROR, None, st))"
proof -
  let ?us = "active_users (us_snapshot st)"
  have same: "st\<lparr>us_storeMutex := Sem_Free\<rparr> = st"
    using assms(2) by (cases st) simp
  have "us_users (us_snapshot st) ! userStore_Position ?us n = ?us ! userStore_Position ?us n"
    if "userStore_Position ?us n < unat (us_count (us_snapshot st))"
    using that by (simp add: active_users_def)
  then show ?thesis
    using assms(2) map_of_keyed_position [of ?us n] length_active_users [OF assms(1)] same
    by (auto simp: UserStore_Find_def user_map_def Let_def)
qed

section \<open>Inserting, replacing and deleting\<close>

lemma keyed_update:
  assumes "distinct (map user_key us)" and "p < length us" and "user_key r = user_key (us ! p)"
  shows "map_of (map (\<lambda>r. (user_key r, r)) (us[p := r])) = (map_of (map (\<lambda>r. (user_key r, r)) us))(user_key r \<mapsto> r)"
  using assms
proof (induction us arbitrary: p)
  case (Cons u us)
  show ?case
  proof (cases p)
    case 0
    then show ?thesis using Cons.prems by (auto simp: fun_eq_iff)
  next
    case (Suc q)
    then have "user_key u \<noteq> user_key r"
      using Cons.prems by (auto simp: image_iff)
    then show ?thesis
      using Suc Cons by (auto simp: fun_eq_iff)
  qed
qed simp

lemma keyed_append:
  "user_key r \<notin> user_key ` set us \<Longrightarrow>
     map_of (map (\<lambda>r. (user_key r, r)) (us @ [r])) = (map_of (map (\<lambda>r. (user_key r, r)) us))(user_key r \<mapsto> r)"
  by (induction us) (auto simp: fun_upd_twist)

lemma keyed_remove:
  assumes "distinct (map user_key us)" and "p < length us"
  shows "map_of (map (\<lambda>r. (user_key r, r)) (take p us @ drop (Suc p) us))
    = (map_of (map (\<lambda>r. (user_key r, r)) us))(user_key (us ! p) := None)"
  using assms
proof (induction us arbitrary: p)
  case (Cons u us)
  show ?case
  proof (cases p)
    case 0
    then have "map_of (map (\<lambda>r. (user_key r, r)) us) (user_key u) = None"
      using Cons.prems by (simp add: map_of_eq_None_iff image_image)
    then show ?thesis
      using 0 by (auto simp: fun_eq_iff)
  next
    case (Suc q)
    then have "user_key u \<noteq> user_key (us ! q)"
      using Cons.prems by (auto simp: image_iff)
    then show ?thesis
      using Suc Cons by (auto simp: fun_eq_iff)
  qed
qed simp

lemma distinct_keys_update:
  "distinct (map user_key us) \<Longrightarrow> p < length us \<Longrightarrow> user_key r = user_key (us ! p) \<Longrightarrow>
     map user_key (us[p := r]) = map user_key us"
  by (metis list_update_id map_update nth_map)

lemma length_userStore_ShiftLoop [simp]:
  "length (userStore_ShiftLoop users tail count) = length users"
  by (induction users tail count rule: userStore_ShiftLoop.induct)
    (subst userStore_ShiftLoop.simps, simp)

lemma userStore_ShiftLoop_nth:
  "count \<le> length users \<Longrightarrow> i < length users \<Longrightarrow>
     userStore_ShiftLoop users tail count ! i =
       (if tail \<le> i \<and> i + 1 < count then users ! (i + 1) else users ! i)"
proof (induction users tail count rule: userStore_ShiftLoop.induct)
  case (1 users tail count)
  show ?case
  proof (cases "tail + 1 < count")
    case True
    then show ?thesis
      using "1.IH" "1.prems" by (subst userStore_ShiftLoop.simps) (auto simp: nth_list_update)
  next
    case False
    then show ?thesis
      by (subst userStore_ShiftLoop.simps) auto
  qed
qed

lemma set_userStore_ShiftLoop:
  "count \<le> length users \<Longrightarrow> set (userStore_ShiftLoop users tail count) \<subseteq> set users"
  by (rule subsetI) (auto simp: in_set_conv_nth [of _ "userStore_ShiftLoop users tail count"]
      userStore_ShiftLoop_nth)

text \<open>The deletion loop, the clearing of the last slot and the smaller count remove one record.\<close>

lemma shift_removes:
  assumes "p < count" and "count \<le> length users"
  shows "take (count - 1) ((userStore_ShiftLoop users p count)[count - 1 := z])
    = take p (take count users) @ drop (Suc p) (take count users)"
proof (rule nth_equalityI)
  show "length (take (count - 1) ((userStore_ShiftLoop users p count)[count - 1 := z]))
    = length (take p (take count users) @ drop (Suc p) (take count users))"
    using assms by auto
next
  fix i assume "i < length (take (count - 1) ((userStore_ShiftLoop users p count)[count - 1 := z]))"
  then have "i < count - 1"
    by simp
  then show "take (count - 1) ((userStore_ShiftLoop users p count)[count - 1 := z]) ! i
    = (take p (take count users) @ drop (Suc p) (take count users)) ! i"
    using assms by (auto simp: userStore_ShiftLoop_nth nth_append)
qed

section \<open>What the operations guarantee\<close>

definition user_put :: "UserStore_SnapshotTypeDef \<Rightarrow> UserStore_RecordTypeDef \<Rightarrow> UserStore_SnapshotTypeDef" where
  "user_put x r =
     (let p = userStore_Position (active_users x) (usr_username r)
      in x\<lparr>us_count := (if p = unat (us_count x) then us_count x + 1 else us_count x),
           us_users := (us_users x)[p := r]\<rparr>)"

definition user_drop :: "UserStore_SnapshotTypeDef \<Rightarrow> string \<Rightarrow> UserStore_SnapshotTypeDef" where
  "user_drop x n =
     (let p = userStore_Position (active_users x) n; count = unat (us_count x)
      in x\<lparr>us_users := (userStore_ShiftLoop (us_users x) p count)[count - 1 := zero_user],
           us_count := us_count x - 1\<rparr>)"

lemma key_nonempty: "wf_user r \<Longrightarrow> usr_username r ! 0 \<noteq> NUL \<longleftrightarrow> user_key r \<noteq> []"
  by (cases "usr_username r") (auto simp: wf_user_def cstr_def)

lemma unat_u16_Suc: "unat (c :: u16) < 8 \<Longrightarrow> unat (c + 1) = Suc (unat c)"
  by (simp add: unat_word_ariths)

lemma unat_u16_pred: "0 < unat (c :: u16) \<Longrightarrow> unat (c - 1) = unat c - 1"
  by (metis One_nat_def Suc_leI unat_1 unat_sub word_le_nat_alt)

lemma active_user_put:
  assumes "user_inv x"
    and "userStore_Position (active_users x) (usr_username r) = unat (us_count x) \<Longrightarrow> unat (us_count x) < 8"
  shows "active_users (user_put x r) =
    (let p = userStore_Position (active_users x) (usr_username r)
     in if p = unat (us_count x) then active_users x @ [r] else (active_users x)[p := r])"
proof -
  have len: "length (us_users x) = 8"
    using assms(1) by (simp add: user_inv_def wf_user_snapshot_def)
  show ?thesis
    using assms(2) len
    by (auto simp: user_put_def Let_def active_users_def unat_u16_Suc take_update_swap
        take_Suc_conv_app_nth list_update_append)
qed

lemma user_put_spec:
  assumes "user_inv x" and "wf_user r" and "user_key r \<noteq> []"
    and "userStore_Position (active_users x) (usr_username r) = unat (us_count x) \<Longrightarrow> unat (us_count x) < 8"
  shows "user_inv (user_put x r)" and "user_map (user_put x r) = (user_map x)(user_key r \<mapsto> r)"
proof -
  let ?us = "active_users x" and ?p = "userStore_Position (active_users x) (usr_username r)"
  have len: "length ?us = unat (us_count x)"
    using assms(1) by (rule length_active_users)
  have inv: "distinct (map user_key ?us)" "[] \<notin> user_key ` set ?us" "wf_user_snapshot x" "unat (us_count x) \<le> 8"
    using assms(1) by (simp_all add: user_inv_def)
  have wf: "wf_user_snapshot (user_put x r)"
    using inv(3) assms(2) set_update_subset_insert [of "us_users x" ?p r]
    by (auto simp: user_put_def Let_def wf_user_snapshot_def list_all_iff)
  have count: "unat (us_count (user_put x r)) \<le> 8"
    using inv(4) assms(4) by (auto simp: user_put_def Let_def unat_u16_Suc)
  have "user_inv (user_put x r) \<and> user_map (user_put x r) = (user_map x)(user_key r \<mapsto> r)"
  proof (cases "?p = unat (us_count x)")
    case True
    then have new: "user_key r \<notin> user_key ` set ?us"
      using userStore_Position_miss [of ?us] len by simp
    have act: "active_users (user_put x r) = ?us @ [r]"
      using active_user_put [OF assms(1,4)] True by simp
    have "user_inv (user_put x r)"
      using wf count inv new assms(3) by (auto simp: user_inv_def act)
    moreover have "user_map (user_put x r) = (user_map x)(user_key r \<mapsto> r)"
      unfolding user_map_def act by (rule keyed_append [OF new])
    ultimately show ?thesis
      by simp
  next
    case False
    then have p: "?p < length ?us"
      using userStore_Position_le [of ?us] len by (metis le_neq_implies_less)
    have key: "user_key r = user_key (?us ! ?p)"
      using userStore_Position_hit [OF p] by simp
    have act: "active_users (user_put x r) = ?us[?p := r]"
      using active_user_put [OF assms(1,4)] False by simp
    have keys: "map user_key (?us[?p := r]) = map user_key ?us"
      using distinct_keys_update [OF inv(1) p key] .
    have "user_inv (user_put x r)"
      using wf count inv keys unfolding user_inv_def act by (metis list.set_map)
    moreover have "user_map (user_put x r) = (user_map x)(user_key r \<mapsto> r)"
      unfolding user_map_def act by (rule keyed_update [OF inv(1) p key])
    ultimately show ?thesis
      by simp
  qed
  then show "user_inv (user_put x r)" and "user_map (user_put x r) = (user_map x)(user_key r \<mapsto> r)"
    by simp_all
qed

lemma user_drop_spec:
  assumes "user_inv x" and "userStore_Position (active_users x) n \<noteq> unat (us_count x)"
  shows "user_inv (user_drop x n)" and "user_map (user_drop x n) = (user_map x)(cstr n := None)"
proof -
  let ?us = "active_users x" and ?p = "userStore_Position (active_users x) n"
  let ?c = "unat (us_count x)"
  have len: "length ?us = ?c" and full: "length (us_users x) = 8"
    using assms(1) length_active_users by (auto simp: user_inv_def wf_user_snapshot_def)
  have inv: "distinct (map user_key ?us)" "[] \<notin> user_key ` set ?us" "wf_user_snapshot x" "?c \<le> 8"
    using assms(1) by (simp_all add: user_inv_def)
  have p: "?p < ?c"
    using assms(2) userStore_Position_le [of ?us n] len by (metis le_neq_implies_less)
  then have count: "unat (us_count x - 1) = ?c - 1"
    by (intro unat_u16_pred) simp
  have key: "user_key (?us ! ?p) = cstr n"
    using userStore_Position_hit [of ?us n] p len by simp
  have act: "active_users (user_drop x n) = take ?p ?us @ drop (Suc ?p) ?us"
    using shift_removes [OF p, of "us_users x" zero_user] inv(4) full count
    by (simp add: user_drop_def Let_def active_users_def)
  have users: "set (us_users (user_drop x n)) \<subseteq> insert zero_user (set (us_users x))"
  proof
    fix r assume "r \<in> set (us_users (user_drop x n))"
    then have "r \<in> insert zero_user (set (userStore_ShiftLoop (us_users x) ?p ?c))"
      using set_update_subset_insert by (fastforce simp: user_drop_def Let_def)
    then show "r \<in> insert zero_user (set (us_users x))"
      using set_userStore_ShiftLoop [of ?c "us_users x" ?p] inv(4) full by auto
  qed
  have "distinct (map user_key (take ?p ?us @ ?us ! ?p # drop (Suc ?p) ?us))"
    using inv(1) id_take_nth_drop [of ?p ?us] p len by metis
  then have keys: "distinct (map user_key (take ?p ?us @ drop (Suc ?p) ?us))"
    by simp
  have "length (us_users (user_drop x n)) = 8" and "unat (us_count (user_drop x n)) \<le> 8"
    using full count inv(4) by (simp_all add: user_drop_def Let_def)
  then show "user_inv (user_drop x n)"
    using users inv keys set_take_subset [of ?p ?us] set_drop_subset [of "Suc ?p" ?us]
    by (auto simp: user_inv_def act wf_user_snapshot_def list_all_iff)
  show "user_map (user_drop x n) = (user_map x)(cstr n := None)"
    using keyed_remove [OF inv(1), of ?p] p len key by (simp add: user_map_def act)
qed

text \<open>How a save moves the whole store.\<close>

lemma userStore_Save_outcome:
  assumes "userStore_Save st f c = (s, st', f')"
  shows "s = PLATFORM_STATUS_OK \<and> st' = st\<lparr>us_snapshot := userStore_Seal c,
           us_activeAddress := ab_target user_sector_a user_sector_b (us_activeAddress st)\<rparr>
         \<and> user_ab.save f (us_activeAddress st) (userStore_Seal c) = (PLATFORM_STATUS_OK, f')
    \<or> s = PLATFORM_STATUS_ERROR \<and> st' = st
         \<and> user_ab.save f (us_activeAddress st) (userStore_Seal c) = (PLATFORM_STATUS_ERROR, f')"
proof -
  obtain s1 f1 where save: "user_ab.save f (us_activeAddress st) (userStore_Seal c) = (s1, f1)"
    by (cases "user_ab.save f (us_activeAddress st) (userStore_Seal c)") auto
  show ?thesis
    using assms save ab_save_status [OF save] by (auto simp: userStore_Save_ab)
qed

lemma user_seal_inv [simp]:
  "user_inv (userStore_Seal x) = user_inv x" "user_map (userStore_Seal x) = user_map x"
  by (simp_all add: user_inv_def user_map_def active_users_def)

lemma user_store_eta: "us_storeMutex st = Sem_Free \<Longrightarrow> st\<lparr>us_storeMutex := Sem_Free\<rparr> = st"
  by (cases st) simp

text \<open>Put and delete are a save of the changed snapshot between taking and giving the mutex.\<close>

lemma UserStore_Put_save:
  assumes "us_storeMutex st = Sem_Free" and "wf_user r"
  shows "UserStore_Put st f r =
    (if user_key r = [] \<or> userStore_Position (active_users (us_snapshot st)) (usr_username r)
          = unat (us_count (us_snapshot st)) \<and> 8 \<le> unat (us_count (us_snapshot st))
     then (PLATFORM_STATUS_ERROR, st, f)
     else case userStore_Save (st\<lparr>us_storeMutex := Sem_Held\<rparr>) f (user_put (us_snapshot st) r) of
       (s, st', f') \<Rightarrow> (s, st'\<lparr>us_storeMutex := Sem_Free\<rparr>, f'))"
  using assms key_nonempty [OF assms(2)]
  by (auto simp: UserStore_Put_def user_put_def Let_def user_store_eta USER_STORE_MAX_USERS_def)

lemma UserStore_Delete_save:
  assumes "us_storeMutex st = Sem_Free"
  shows "UserStore_Delete st f n =
    (if userStore_Position (active_users (us_snapshot st)) n = unat (us_count (us_snapshot st))
     then (PLATFORM_STATUS_ERROR, st, f)
     else case userStore_Save (st\<lparr>us_storeMutex := Sem_Held\<rparr>) f (user_drop (us_snapshot st) n) of
       (s, st', f') \<Rightarrow> (s, st'\<lparr>us_storeMutex := Sem_Free\<rparr>, f'))"
  using assms
  by (auto simp: UserStore_Delete_def user_drop_def Let_def user_store_eta)

lemma position_full:
  "user_inv x \<Longrightarrow> userStore_Position (active_users x) n = unat (us_count x) \<longleftrightarrow> cstr n \<notin> dom (user_map x)"
  using userStore_Position_miss [of "active_users x" n] length_active_users [of x]
  by (simp add: user_map_def dom_map_of_conv_image_fst image_image)

lemma card_user_map: "user_inv x \<Longrightarrow> card (dom (user_map x)) = unat (us_count x)"
  using length_active_users [of x] distinct_card [of "map user_key (active_users x)"]
  by (simp add: user_map_def dom_map_of_conv_image_fst image_image user_inv_def)

section \<open>Properties\<close>

text \<open>
  What \<open>UserStore_Init\<close> needs of the flash to find the snapshot again: the newest valid image is
  the one in RAM, or there is none and RAM holds the empty store.
\<close>

definition user_synced :: "user_store \<Rightarrow> w25q64 \<Rightarrow> bool" where
  "user_synced st f \<longleftrightarrow>
     user_ab.newest (nor_mem f) = Some (us_snapshot st, us_activeAddress st)
     \<or> user_ab.newest (nor_mem f) = None \<and> us_snapshot st = zero_user_snapshot
        \<and> us_activeAddress st = user_sector_b"

lemma userStore_Save_ready:
  assumes "flash_ready f" and "user_inv c" and "us_generation c = us_generation (us_snapshot st)"
    and "us_generation (us_snapshot st) \<noteq> - 1" and "user_synced st f"
  shows "\<exists>f'. userStore_Save st f c = (PLATFORM_STATUS_OK, st\<lparr>us_snapshot := userStore_Seal c,
      us_activeAddress := ab_target user_sector_a user_sector_b (us_activeAddress st)\<rparr>, f')
    \<and> flash_ready f' \<and> user_ab.newest (nor_mem f')
        = Some (userStore_Seal c, ab_target user_sector_a user_sector_b (us_activeAddress st))"
proof -
  have "us_generation (us_snapshot st) < us_generation (us_snapshot st) + 1"
    using assms(4) by (rule u32_less_Suc)
  then have "user_ab.newest (nor_mem f) = Some (us_snapshot st, us_activeAddress st)
      \<and> us_generation (us_snapshot st) < us_generation (userStore_Seal c)
    \<or> user_ab.newest (nor_mem f) = None
      \<and> (us_activeAddress st = user_sector_a \<or> us_activeAddress st = user_sector_b)"
    using assms(3,5) by (auto simp: user_synced_def)
  then show ?thesis
    using user_ab.save_step [of f "userStore_Seal c" "us_snapshot st" "us_activeAddress st"] assms(1,2)
    by (auto simp: userStore_Save_ab user_inv_def userStore_IsValid_Seal USER_STORE_MAX_USERS_def)
qed

text \<open>
  Sequences of management operations and restarts, on the store and on the abstract map. A
  restart forgets RAM and runs \<open>UserStore_Init\<close>.
\<close>

datatype user_command = Cmd_Put UserStore_RecordTypeDef | Cmd_Delete string | Cmd_Restart

fun user_step :: "user_store \<times> w25q64 \<Rightarrow> user_command \<Rightarrow> user_store \<times> w25q64" where
  "user_step (st, f) (Cmd_Put r) = snd (UserStore_Put st f r)"
| "user_step (st, f) (Cmd_Delete n) = snd (UserStore_Delete st f n)"
| "user_step (st, f) Cmd_Restart =
     snd (UserStore_Init True \<lparr>us_snapshot = zero_user_snapshot, us_activeAddress = 0, us_storeMutex = Sem_Null\<rparr> f)"

fun user_step_spec ::
  "(string \<rightharpoonup> UserStore_RecordTypeDef) \<Rightarrow> user_command \<Rightarrow> string \<rightharpoonup> UserStore_RecordTypeDef" where
  "user_step_spec m (Cmd_Put r) =
     (if user_key r = [] \<or> user_key r \<notin> dom m \<and> 8 \<le> card (dom m) then m else m(user_key r \<mapsto> r))"
| "user_step_spec m (Cmd_Delete n) = m(cstr n := None)"
| "user_step_spec m Cmd_Restart = m"

fun user_command_wf :: "user_command \<Rightarrow> bool" where
  "user_command_wf (Cmd_Put r) \<longleftrightarrow> wf_user r"
| "user_command_wf _ \<longleftrightarrow> True"

text \<open>The state between two operations: \<open>n\<close> more saves are possible before the generation wraps.\<close>

definition user_ok :: "nat \<Rightarrow> user_store \<times> w25q64 \<Rightarrow> bool" where
  "user_ok n s \<longleftrightarrow> user_inv (us_snapshot (fst s)) \<and> us_storeMutex (fst s) = Sem_Free
     \<and> flash_ready (snd s) \<and> user_synced (fst s) (snd s)
     \<and> unat (us_generation (us_snapshot (fst s))) + n < 2 ^ 32"

lemma user_save_step:
  assumes "user_ok (Suc n) (st, f)" and "user_inv c"
    and "us_generation c = us_generation (us_snapshot st)"
    and "userStore_Save (st\<lparr>us_storeMutex := Sem_Held\<rparr>) f c = (s, st', f')"
  shows "user_ok n (st'\<lparr>us_storeMutex := Sem_Free\<rparr>, f')" and "user_map (us_snapshot st') = user_map c"
    and "s = PLATFORM_STATUS_OK"
proof -
  let ?st = "st\<lparr>us_storeMutex := Sem_Held\<rparr>"
  have gen: "us_generation (us_snapshot st) \<noteq> - 1"
    "unat (us_generation (us_snapshot st) + 1) + n < 2 ^ 32"
    using assms(1) generation_room by (auto simp: user_ok_def)
  have "user_synced ?st f" "flash_ready f"
    using assms(1) by (simp_all add: user_ok_def user_synced_def)
  then show "user_ok n (st'\<lparr>us_storeMutex := Sem_Free\<rparr>, f')" "user_map (us_snapshot st') = user_map c"
    "s = PLATFORM_STATUS_OK"
    using userStore_Save_ready [of f c ?st] assms(2-4) gen
    by (auto simp: user_ok_def user_synced_def)
qed

lemma user_ok_weaken: "user_ok (Suc n) s \<Longrightarrow> user_ok n s"
  by (simp add: user_ok_def)

lemma user_restart:
  assumes "user_ok n (st, f)"
  shows "\<exists>f'. UserStore_Init True st0 f = (PLATFORM_STATUS_OK, st, f')
    \<and> flash_ready f' \<and> nor_mem f' = nor_mem f"
proof -
  obtain f' where l: "user_ab.load f = (user_ab.newest (nor_mem f), f')" "flash_ready f'" "nor_mem f' = nor_mem f"
    using user_ab.load_ready assms by (auto simp: user_ok_def)
  have "st0\<lparr>us_storeMutex := Sem_Free, us_snapshot := us_snapshot st, us_activeAddress := us_activeAddress st\<rparr> = st"
    using assms by (cases st0, cases st) (simp add: user_ok_def)
  then show ?thesis
    using l assms by (auto simp: UserStore_Init_ab user_ok_def user_synced_def)
qed

lemma user_step_refines:
  assumes "user_ok (Suc n) s" and "user_command_wf cmd"
  shows "user_ok n (user_step s cmd)
    \<and> user_map (us_snapshot (fst (user_step s cmd))) = user_step_spec (user_map (us_snapshot (fst s))) cmd"
proof -
  obtain st f where s: "s = (st, f)"
    by (cases s)
  have inv: "user_inv (us_snapshot st)" and free: "us_storeMutex st = Sem_Free"
    using assms(1) s by (simp_all add: user_ok_def)
  note pos = position_full [OF inv] and room = card_user_map [OF inv]
  show ?thesis
  proof (cases cmd)
    case (Cmd_Put r)
    then have wf: "wf_user r" using assms(2) by simp
    obtain s1 st1 f1 where
      save: "userStore_Save (st\<lparr>us_storeMutex := Sem_Held\<rparr>) f (user_put (us_snapshot st) r) = (s1, st1, f1)"
      by (cases "userStore_Save (st\<lparr>us_storeMutex := Sem_Held\<rparr>) f (user_put (us_snapshot st) r)") auto
    have gen: "us_generation (user_put (us_snapshot st) r) = us_generation (us_snapshot st)"
      by (simp add: user_put_def Let_def)
    show ?thesis
    proof (cases "user_key r = [] \<or> user_key r \<notin> dom (user_map (us_snapshot st)) \<and> 8 \<le> unat (us_count (us_snapshot st))")
      case True
      then show ?thesis
        using user_ok_weaken [OF assms(1)] pos room
        by (auto simp: Cmd_Put s UserStore_Put_save [OF free wf])
    next
      case False
      then have put: "user_inv (user_put (us_snapshot st) r)"
        "user_map (user_put (us_snapshot st) r) = (user_map (us_snapshot st))(user_key r \<mapsto> r)"
        using user_put_spec [OF inv wf] pos by auto
      show ?thesis
        using False user_save_step [OF assms(1) [unfolded s] put(1) gen save] put(2) pos room save
        by (auto simp: Cmd_Put s UserStore_Put_save [OF free wf])
    qed
  next
    case (Cmd_Delete u)
    obtain s1 st1 f1 where
      save: "userStore_Save (st\<lparr>us_storeMutex := Sem_Held\<rparr>) f (user_drop (us_snapshot st) u) = (s1, st1, f1)"
      by (cases "userStore_Save (st\<lparr>us_storeMutex := Sem_Held\<rparr>) f (user_drop (us_snapshot st) u)") auto
    have gen: "us_generation (user_drop (us_snapshot st) u) = us_generation (us_snapshot st)"
      by (simp add: user_drop_def Let_def)
    show ?thesis
      using user_drop_spec [OF inv] user_save_step [OF assms(1) [unfolded s] _ gen save] pos [of u]
        user_ok_weaken [OF assms(1)] save
      by (auto simp: Cmd_Delete s UserStore_Delete_save [OF free] fun_upd_idem)
  next
    case Cmd_Restart
    show ?thesis
      using user_restart [OF assms(1) [unfolded s], of "\<lparr>us_snapshot = zero_user_snapshot,
          us_activeAddress = 0, us_storeMutex = Sem_Null\<rparr>"] assms(1)
      by (fastforce simp: Cmd_Restart s user_ok_def user_synced_def)
  qed
qed

text \<open>A store whose active sector, if it holds a valid image at all, holds the image of RAM.\<close>

definition user_backed :: "user_store \<Rightarrow> w25q64 \<Rightarrow> bool" where
  "user_backed st f \<longleftrightarrow> (us_activeAddress st = user_sector_a \<or> us_activeAddress st = user_sector_b)
     \<and> (let image = dec_user_snapshot (image_at (nor_mem f) (us_activeAddress st) user_snapshot_size)
        in userStore_IsValid image \<longrightarrow> image = us_snapshot st)"

lemma userStore_Save_frame:
  assumes "userStore_Save st f c = (s, st', f')" and "wf_user_snapshot c"
    and "i div nor_sector \<noteq> unat (ab_target user_sector_a user_sector_b (us_activeAddress st)) div nor_sector"
  shows "nor_mem f' i = nor_mem f i"
  using userStore_Save_outcome [OF assms(1)] assms(2,3) user_ab.save_frame
  by (metis wf_userStore_Seal)

lemma userStore_Save_restart:
  assumes "userStore_Save st f c = (PLATFORM_STATUS_OK, st', f')" and "wf_user_snapshot c"
    and "user_backed st f" and "us_generation c = us_generation (us_snapshot st)"
    and "us_generation (us_snapshot st) \<noteq> - 1"
  shows "user_ab.newest (nor_mem f') = Some (us_snapshot st', us_activeAddress st')"
proof -
  have saved: "user_ab.save f (us_activeAddress st) (userStore_Seal c) = (PLATFORM_STATUS_OK, f')"
    and st': "us_snapshot st' = userStore_Seal c"
      "us_activeAddress st' = ab_target user_sector_a user_sector_b (us_activeAddress st)"
    using userStore_Save_outcome [OF assms(1)] by auto
  have "us_generation c < us_generation (userStore_Seal c)"
    using assms(4,5) u32_less_Suc by simp
  then show ?thesis
    using user_ab.save_then_newest [OF saved] assms(2,3,4) st' by (auto simp: user_backed_def Let_def)
qed

lemma user_loaded:
  assumes "flash_ready g" and "user_ab.newest (nor_mem g) = Some (x, a)"
  shows "\<exists>st'' g'. UserStore_Init True st0 g = (PLATFORM_STATUS_OK, st'', g')
    \<and> us_snapshot st'' = x \<and> us_activeAddress st'' = a \<and> us_storeMutex st'' = Sem_Free"
  using user_ab.load_ready [OF assms(1)] assms(2) by (auto simp: UserStore_Init_ab)

text \<open>
  Writing any byte outside the two user-store sectors is impossible for an update, and an update
  that fails or is interrupted can only have changed the inactive sector.
\<close>

lemma UserStore_Put_frame:
  assumes "user_inv (us_snapshot st)" and "us_storeMutex st = Sem_Free" and "wf_user r"
    and "UserStore_Put st f r = (s, st', f')"
    and "i div nor_sector \<noteq> unat (ab_target user_sector_a user_sector_b (us_activeAddress st)) div nor_sector"
  shows "nor_mem f' i = nor_mem f i"
proof -
  have "wf_user_snapshot (user_put (us_snapshot st) r)"
    using assms(1,3) set_update_subset_insert [of "us_users (us_snapshot st)"]
    by (fastforce simp: user_inv_def user_put_def Let_def wf_user_snapshot_def list_all_iff)
  then show ?thesis
    using assms(4,5) userStore_Save_frame [of "st\<lparr>us_storeMutex := Sem_Held\<rparr>" f "user_put (us_snapshot st) r"]
    by (auto simp: UserStore_Put_save [OF assms(2,3)] split: if_splits prod.splits)
qed

lemma UserStore_Delete_frame:
  assumes "user_inv (us_snapshot st)" and "us_storeMutex st = Sem_Free"
    and "UserStore_Delete st f n = (s, st', f')"
    and "i div nor_sector \<noteq> unat (ab_target user_sector_a user_sector_b (us_activeAddress st)) div nor_sector"
  shows "nor_mem f' i = nor_mem f i"
proof (cases "userStore_Position (active_users (us_snapshot st)) n = unat (us_count (us_snapshot st))")
  case False
  then have "wf_user_snapshot (user_drop (us_snapshot st) n)"
    using user_drop_spec(1) [OF assms(1)] by (simp add: user_inv_def)
  then show ?thesis
    using False assms(3,4) userStore_Save_frame [of "st\<lparr>us_storeMutex := Sem_Held\<rparr>" f "user_drop (us_snapshot st) n"]
    by (auto simp: UserStore_Delete_save [OF assms(2)] split: prod.splits)
qed (use assms(3) in \<open>simp add: UserStore_Delete_save [OF assms(2)]\<close>)

text \<open>An update is a put or a delete; its frame, whatever faults the flash chip has meanwhile.\<close>

fun is_update :: "user_command \<Rightarrow> bool" where
  "is_update Cmd_Restart \<longleftrightarrow> False"
| "is_update _ \<longleftrightarrow> True"

lemma user_update_frame:
  assumes "user_inv (us_snapshot st)" and "us_storeMutex st = Sem_Free"
    and "is_update cmd" and "user_command_wf cmd" and "user_step (st, f) cmd = (st', f')"
    and "i div nor_sector \<noteq> unat (ab_target user_sector_a user_sector_b (us_activeAddress st)) div nor_sector"
  shows "nor_mem f' i = nor_mem f i"
proof (cases cmd)
  case (Cmd_Put r)
  obtain s where "UserStore_Put st f r = (s, st', f')"
    using assms(5) Cmd_Put by (cases "UserStore_Put st f r") auto
  then show ?thesis
    using UserStore_Put_frame assms(1,2,4,6) Cmd_Put by simp
next
  case (Cmd_Delete n)
  obtain s where "UserStore_Delete st f n = (s, st', f')"
    using assms(5) Cmd_Delete by (cases "UserStore_Delete st f n") auto
  then show ?thesis
    using UserStore_Delete_frame assms(1,2,6) by blast
qed (use assms(3) in simp)

text \<open>
  C9: any sequence of user updates, deletions and restarts on fault-free flash refines the
  abstract map of users: a put inserts or replaces (and is refused for an empty name or a ninth
  user), a delete removes, a restart changes nothing. The bound says that the 32-bit generation
  does not wrap during the sequence.
\<close>

theorem UserStore_sequence_refines_map:
  assumes "user_ok (length cmds) s" and "list_all user_command_wf cmds"
  shows "user_map (us_snapshot (fst (foldl user_step s cmds)))
      = foldl user_step_spec (user_map (us_snapshot (fst s))) cmds
    \<and> user_ok 0 (foldl user_step s cmds)"
  using assms
proof (induction cmds arbitrary: s)
  case (Cons cmd cmds)
  then show ?case
    using user_step_refines [of "length cmds" s cmd] by simp
qed simp

definition blank_flash :: w25q64 where
  "blank_flash = \<lparr>flashMutex = Some 0, nor_mem = (\<lambda>_. 0xFF), nor_wel = False, nor_busy = 0,
     spi_faults = [], busy_times = []\<rparr>"

definition empty_user_store :: user_store where
  "empty_user_store = \<lparr>us_snapshot = zero_user_snapshot, us_activeAddress = user_sector_b,
     us_storeMutex = Sem_Free\<rparr>"

definition alice :: UserStore_RecordTypeDef where
  "alice = zero_user\<lparr>usr_enabled := 1, usr_username := ''alice'' @ replicate 20 NUL\<rparr>"

lemma alice_simps [simp]: "wf_user alice" "cstr (usr_username alice) = ''alice''"
  by (simp_all add: alice_def wf_user_def zero_user_def cstr_def)

lemma blank_image: "image_at (nor_mem blank_flash) a z = replicate (unat z) 0xFF"
  by (auto simp: image_at_def blank_flash_def map_replicate_const)

lemma blank_user_image: "\<not> userStore_IsValid (dec_user_snapshot (replicate 656 0xFF))"
  by (simp add: userStore_IsValid_def dec_user_snapshot_def USER_STORE_MAGIC_def)

lemma empty_user_map: "user_map zero_user_snapshot = Map.empty" and user_inv_zero: "user_inv zero_user_snapshot"
  by (simp_all add: user_map_def active_users_def zero_user_snapshot_def user_inv_def
      wf_user_snapshot_def list_all_iff)

lemma user_ok_empty: "n < 2 ^ 32 \<Longrightarrow> user_ok n (empty_user_store, blank_flash)"
  using blank_user_image user_inv_zero
  by (simp add: user_ok_def empty_user_store_def user_synced_def blank_image user_snapshot_size_def
      ab_choose_def zero_user_snapshot_def, simp add: blank_flash_def flash_ready_def)

theorem UserStore_sequence_refines_map_witness:
  "user_map (us_snapshot (fst (foldl user_step (empty_user_store, blank_flash)
     [Cmd_Put alice, Cmd_Restart]))) = [''alice'' \<mapsto> alice]"
  using UserStore_sequence_refines_map [of "[Cmd_Put alice, Cmd_Restart]" "(empty_user_store, blank_flash)"]
    user_ok_empty [of "Suc (Suc 0)"]
  by (simp add: empty_user_store_def empty_user_map)

lemma UserStore_Put_spec:
  assumes "user_inv (us_snapshot st)" and "us_storeMutex st = Sem_Free" and "wf_user r"
    and "UserStore_Put st f r = (s, st', f')"
  shows "user_inv (us_snapshot st') \<and> us_storeMutex st' = Sem_Free
    \<and> (s = PLATFORM_STATUS_OK \<and> user_map (us_snapshot st') = (user_map (us_snapshot st))(user_key r \<mapsto> r)
       \<or> s = PLATFORM_STATUS_ERROR \<and> st' = st)"
proof (cases "user_key r = [] \<or> userStore_Position (active_users (us_snapshot st)) (usr_username r)
          = unat (us_count (us_snapshot st)) \<and> 8 \<le> unat (us_count (us_snapshot st))")
  case False
  obtain s1 st1 f1 where
    save: "userStore_Save (st\<lparr>us_storeMutex := Sem_Held\<rparr>) f (user_put (us_snapshot st) r) = (s1, st1, f1)"
    by (cases "userStore_Save (st\<lparr>us_storeMutex := Sem_Held\<rparr>) f (user_put (us_snapshot st) r)") auto
  have "user_inv (user_put (us_snapshot st) r)"
    "user_map (user_put (us_snapshot st) r) = (user_map (us_snapshot st))(user_key r \<mapsto> r)"
    using user_put_spec [OF assms(1,3)] False by auto
  then show ?thesis
    using userStore_Save_outcome [OF save] assms(1,4) False save
    by (auto simp: UserStore_Put_save [OF assms(2,3)] user_store_eta [OF assms(2)] assms(2))
qed (use assms in \<open>auto simp: UserStore_Put_save [OF assms(2,3)]\<close>)

text \<open>
  With arbitrary flash faults a put either reports success and has inserted or replaced
  exactly the record under its name, or reports an error and the store in RAM is exactly as
  before; in both cases the invariant holds and the mutex has been given back.
\<close>

theorem UserStore_Put_outcome:
  assumes "user_inv (us_snapshot st)" and "us_storeMutex st = Sem_Free" and "wf_user r"
    and "UserStore_Put st f r = (s, st', f')"
  shows "user_inv (us_snapshot st') \<and> us_storeMutex st' = Sem_Free
    \<and> (s = PLATFORM_STATUS_OK \<and> user_map (us_snapshot st') = (user_map (us_snapshot st))(user_key r \<mapsto> r)
       \<or> s = PLATFORM_STATUS_ERROR \<and> st' = st)"
  by (rule UserStore_Put_spec [OF assms])

theorem UserStore_Put_outcome_witness:
  "us_storeMutex (fst (snd (UserStore_Put empty_user_store (blank_flash\<lparr>spi_faults := [Some 0]\<rparr>) alice))) = Sem_Free"
  using UserStore_Put_outcome [of empty_user_store alice "blank_flash\<lparr>spi_faults := [Some 0]\<rparr>"] user_inv_zero
  by (cases "UserStore_Put empty_user_store (blank_flash\<lparr>spi_faults := [Some 0]\<rparr>) alice")
    (simp add: empty_user_store_def)

lemma UserStore_Delete_spec:
  assumes "user_inv (us_snapshot st)" and "us_storeMutex st = Sem_Free"
    and "UserStore_Delete st f n = (s, st', f')"
  shows "user_inv (us_snapshot st') \<and> us_storeMutex st' = Sem_Free
    \<and> (s = PLATFORM_STATUS_OK \<and> cstr n \<in> dom (user_map (us_snapshot st))
         \<and> user_map (us_snapshot st') = (user_map (us_snapshot st))(cstr n := None)
       \<or> s = PLATFORM_STATUS_ERROR \<and> st' = st)"
proof (cases "userStore_Position (active_users (us_snapshot st)) n = unat (us_count (us_snapshot st))")
  case False
  obtain s1 st1 f1 where
    save: "userStore_Save (st\<lparr>us_storeMutex := Sem_Held\<rparr>) f (user_drop (us_snapshot st) n) = (s1, st1, f1)"
    by (cases "userStore_Save (st\<lparr>us_storeMutex := Sem_Held\<rparr>) f (user_drop (us_snapshot st) n)") auto
  show ?thesis
    using userStore_Save_outcome [OF save] assms(1,3) False save user_drop_spec [OF assms(1) False]
      position_full [OF assms(1), of n]
    by (auto simp: UserStore_Delete_save [OF assms(2)] user_store_eta [OF assms(2)] assms(2))
qed (use assms in \<open>auto simp: UserStore_Delete_save [OF assms(2)]\<close>)

text \<open>
  With arbitrary flash faults a delete either reports success and has removed exactly that
  user, or reports an error and the store in RAM is exactly as before; the invariant holds and
  the mutex has been given back.
\<close>

theorem UserStore_Delete_outcome:
  assumes "user_inv (us_snapshot st)" and "us_storeMutex st = Sem_Free"
    and "UserStore_Delete st f n = (s, st', f')"
  shows "user_inv (us_snapshot st') \<and> us_storeMutex st' = Sem_Free
    \<and> (s = PLATFORM_STATUS_OK \<and> cstr n \<in> dom (user_map (us_snapshot st))
         \<and> user_map (us_snapshot st') = (user_map (us_snapshot st))(cstr n := None)
       \<or> s = PLATFORM_STATUS_ERROR \<and> st' = st)"
  by (rule UserStore_Delete_spec [OF assms])

theorem UserStore_Delete_outcome_witness:
  "snd (UserStore_Delete empty_user_store blank_flash ''bob'') = (empty_user_store, blank_flash)"
  using UserStore_Delete_outcome [of empty_user_store blank_flash "''bob''"] user_inv_zero
  by (simp add: UserStore_Delete_def empty_user_store_def zero_user_snapshot_def active_users_def)

text \<open>
  A put that reported success, whatever flash faults it met on the way, survives a restart:
  \<open>UserStore_Init\<close> on the same memory loads exactly the snapshot the put left in RAM.
\<close>

theorem UserStore_Put_survives_restart:
  assumes "user_inv (us_snapshot st)" and "us_storeMutex st = Sem_Free" and "wf_user r"
    and "user_backed st f" and "us_generation (us_snapshot st) \<noteq> - 1"
    and "UserStore_Put st f r = (PLATFORM_STATUS_OK, st', f')"
    and "flash_ready g" and "nor_mem g = nor_mem f'"
  shows "\<exists>g'. UserStore_Init True st0 g = (PLATFORM_STATUS_OK, st', g')"
proof -
  let ?st = "st\<lparr>us_storeMutex := Sem_Held\<rparr>" and ?c = "user_put (us_snapshot st) r"
  obtain st1 where save: "userStore_Save ?st f ?c = (PLATFORM_STATUS_OK, st1, f')"
    and st': "st' = st1\<lparr>us_storeMutex := Sem_Free\<rparr>" and ok: "user_key r \<noteq> []"
      "userStore_Position (active_users (us_snapshot st)) (usr_username r) = unat (us_count (us_snapshot st))
        \<Longrightarrow> unat (us_count (us_snapshot st)) < 8"
    using assms(6) by (auto simp: UserStore_Put_save [OF assms(2,3)] not_le split: if_splits prod.splits)
  have "wf_user_snapshot ?c"
    using user_put_spec(1) [OF assms(1,3) ok] by (simp add: user_inv_def)
  then have "user_ab.newest (nor_mem g) = Some (us_snapshot st', us_activeAddress st')"
    using userStore_Save_restart [OF save] assms(4,5,8) st'
    by (simp add: user_backed_def user_put_def Let_def)
  then obtain st'' g' where "UserStore_Init True st0 g = (PLATFORM_STATUS_OK, st'', g')"
    "us_snapshot st'' = us_snapshot st'" "us_activeAddress st'' = us_activeAddress st'" "us_storeMutex st'' = Sem_Free"
    using user_loaded [OF assms(7)] by blast
  moreover from this have "st'' = st'"
    using st' by (cases st'', cases st1) simp
  ultimately show ?thesis
    by blast
qed

lemma user_put_alice:
  "\<exists>st' f'. UserStore_Put empty_user_store blank_flash alice = (PLATFORM_STATUS_OK, st', f') \<and> flash_ready f'"
proof -
  have ok: "user_ok (Suc 0) (empty_user_store, blank_flash)"
    by (rule user_ok_empty) simp
  obtain s st' f' where put: "UserStore_Put empty_user_store blank_flash alice = (s, st', f')"
    by (cases "UserStore_Put empty_user_store blank_flash alice") auto
  have "user_ok 0 (st', f')" "user_map (us_snapshot st') ''alice'' = Some alice"
    using user_step_refines [OF ok, of "Cmd_Put alice"] put
    by (auto simp: empty_user_store_def empty_user_map)
  moreover have "s = PLATFORM_STATUS_OK"
  proof (rule ccontr)
    assume "s \<noteq> PLATFORM_STATUS_OK"
    then have "st' = empty_user_store"
      using put UserStore_Put_save [of empty_user_store alice blank_flash] userStore_Save_outcome
      by (auto simp: empty_user_store_def split: if_splits prod.splits) fastforce+
    then show False
      using calculation(2) by (simp add: empty_user_store_def empty_user_map)
  qed
  ultimately show ?thesis
    using put by (auto simp: user_ok_def)
qed

lemma user_backed_empty: "user_backed empty_user_store blank_flash"
  using blank_user_image
  by (simp add: user_backed_def empty_user_store_def blank_image user_snapshot_size_def)

theorem UserStore_Put_survives_restart_witness:
  "\<exists>st' f' g'. UserStore_Put empty_user_store blank_flash alice = (PLATFORM_STATUS_OK, st', f')
    \<and> UserStore_Init True empty_user_store f' = (PLATFORM_STATUS_OK, st', g')"
proof -
  obtain st' f' where put: "UserStore_Put empty_user_store blank_flash alice = (PLATFORM_STATUS_OK, st', f')"
    "flash_ready f'"
    using user_put_alice by blast
  have "us_generation zero_user_snapshot \<noteq> - 1"
    by (simp add: zero_user_snapshot_def)
  then show ?thesis
    using UserStore_Put_survives_restart [of empty_user_store alice blank_flash st' f' f' empty_user_store]
      put user_backed_empty user_inv_zero
    by (auto simp: empty_user_store_def)
qed

text \<open>
  An update that is cut off in the middle of a page: the other sector is erased, then a waiting
  loop of a byte of the first page times out.
\<close>

definition torn_transfers :: "nat option list" where
  "torn_transfers = [None, None, None, None, None, None, Some 22]"

lemma wait_ready_script:
  assumes "spi_faults f = None # None # faults" and "nor_busy f = 0" and "0 < ms"
  shows "w25q64_WaitReady f ms = (PLATFORM_STATUS_OK, f\<lparr>spi_faults := faults\<rparr>)"
  using assms by (cases ms) (simp_all add: w25q64_Command_def w25q64_Transfer_def Let_def)

lemma erase_script:
  assumes "flash_ready f" and "unat a mod nor_sector = 0" and "unat a < nor_capacity"
  shows "\<exists>f'. W25Q64_EraseSector (f\<lparr>spi_faults := None # None # None # None # faults\<rparr>) a = (PLATFORM_STATUS_OK, f')
    \<and> spi_faults f' = faults \<and> flashMutex f' \<noteq> None"
proof -
  obtain d where d: "flashMutex f = Some d"
    using assms(1) by (auto simp: flash_ready_def)
  let ?f1 = "f\<lparr>flashMutex := Some (Suc d), nor_wel := True, spi_faults := None # None # faults\<rparr>"
  obtain g where g: "nor_deselect ?f1 (address_command 0x20 a) = g" "spi_faults g = None # None # faults"
      "nor_busy g = 0" "flashMutex g = Some (Suc d)"
  proof -
    obtain m where "nor_deselect ?f1 (address_command 0x20 a) = nor_start ?f1 m"
      using nor_deselect_erase_start [of ?f1 a] by auto
    then show thesis
      using that [OF refl] assms(1) by (simp add: nor_start_def flash_ready_def)
  qed
  have aligned: "a mod W25Q64_SECTOR_SIZE = 0" and range: "\<not> W25Q64_CAPACITY_BYTES \<le> a"
    using assms(2,3) by (simp_all add: word_unat_eq_iff unat_mod_distrib W25Q64_SECTOR_SIZE_def
      capacity_unat not_le)
  show ?thesis
    using assms(1) d aligned range g
    by (simp add: W25Q64_EraseSector_def xSemaphoreTakeRecursive_def w25q64_WriteEnable_def
        w25q64_Command_def w25q64_Transfer_def wait_ready_script flash_ready_def Let_def)
qed

lemma transfer_loop_cut: "j < 2 * n \<Longrightarrow> fst (transfer_loop (Some j) n) = PLATFORM_STATUS_TIMEOUT"
proof (induction n arbitrary: j)
  case (Suc n)
  show ?case
  proof (cases "j < 2")
    case False
    then show ?thesis
      using Suc.IH [of "j - 2"] Suc.prems by (auto split: prod.split)
  qed (auto simp: less_2_cases_iff)
qed simp

lemma program_script:
  assumes "spi_faults f = [None, None, Some j]" and "flashMutex f \<noteq> None" and "unat a mod 256 = 0"
    and "j < 512" and "256 \<le> length d"
  shows "fst (W25Q64_Program f a d) \<noteq> PLATFORM_STATUS_OK"
proof -
  have "fst (transfer_loop (Some j) (min 256 (length d))) = PLATFORM_STATUS_TIMEOUT"
    using assms(4,5) by (intro transfer_loop_cut) (simp add: min_def)
  then have chunk: "fst (w25q64_ProgramChunk g a (take 256 d)) = PLATFORM_STATUS_TIMEOUT"
    if "spi_faults g = [None, None, Some j]" for g
    using that
    by (cases "transfer_loop (Some j) (min 256 (length d))")
      (simp add: w25q64_ProgramChunk_def w25q64_WriteEnable_def w25q64_Command_def w25q64_Transfer_def Let_def
        min.commute)
  have "fst (w25q64_ProgramLoop g a d) \<noteq> PLATFORM_STATUS_OK" if "spi_faults g = [None, None, Some j]" for g
  proof -
    have "min (unat (W25Q64_PAGE_SIZE - a mod W25Q64_PAGE_SIZE)) (length d) = 256"
      using assms(3,5) by (simp add: unat_page_rest)
    then show ?thesis
      using chunk [OF that] assms(5) by (subst w25q64_ProgramLoop.simps) (auto split: prod.split)
  qed
  then have "fst (w25q64_ProgramLoop (f\<lparr>flashMutex := Some (Suc y)\<rparr>) a d) \<noteq> PLATFORM_STATUS_OK" for y
    using assms(1) by simp
  then show ?thesis
    using assms(2) by (auto simp: W25Q64_Program_def xSemaphoreTakeRecursive_def Let_def case_prod_unfold)
qed

text \<open>
  C29: an interrupted update is harmless. Whatever faults the flash chip has while a user is stored or
  deleted, a loss of power after any transfer included, and whatever bytes of the sector that was being
  written are torn, the next start on working flash loads the snapshot from before the update, or one
  from the sector being written that passes the magic, version, count and CRC checks and is not older.
\<close>

theorem UserStore_torn_update:
  assumes "user_inv (us_snapshot st)" and "us_storeMutex st = Sem_Free"
    and "user_ab.newest (nor_mem f) = Some (us_snapshot st, us_activeAddress st)"
    and "is_update cmd" and "user_command_wf cmd" and "user_step (st, f) cmd = (st', f')"
    and "t = ab_target user_sector_a user_sector_b (us_activeAddress st)"
    and "\<And>i. i div nor_sector \<noteq> unat t div nor_sector \<Longrightarrow> nor_mem g i = nor_mem f' i"
    and "flash_ready g"
  shows "\<exists>st'' g'. UserStore_Init True st0 g = (PLATFORM_STATUS_OK, st'', g')
    \<and> (us_snapshot st'' = us_snapshot st \<and> us_activeAddress st'' = us_activeAddress st
       \<or> us_activeAddress st'' = t \<and> t \<noteq> us_activeAddress st
          \<and> us_snapshot st'' = dec_user_snapshot (image_at (nor_mem g) t user_snapshot_size)
          \<and> userStore_IsValid (us_snapshot st'')
          \<and> us_generation (us_snapshot st) \<le> us_generation (us_snapshot st''))"
proof -
  note old = user_ab.newest_active [OF assms(3)]
  have "nor_mem g i = nor_mem f i"
    if "i div nor_sector \<noteq> unat (ab_target user_sector_a user_sector_b (us_activeAddress st)) div nor_sector" for i
    using user_update_frame [OF assms(1,2,4-6) that] assms(7,8) that by simp
  note user_ab.power_loss [OF this old(3,1,2) assms(7) refl]
  moreover have "t \<noteq> us_activeAddress st"
    using old(3) assms(7) by (auto simp: ab_target_def)
  ultimately show ?thesis
    using user_loaded [OF assms(9)] by metis
qed

text \<open>The deletion of the one user fails in the middle of a page, and a further byte of it is torn.\<close>

lemma delete_alice_fails:
  assumes "user_inv (us_snapshot st)" and "us_storeMutex st = Sem_Free" and "user_map (us_snapshot st) ''alice'' = Some alice"
    and "flash_ready f"
  shows "fst (UserStore_Delete st (f\<lparr>spi_faults := torn_transfers\<rparr>) ''alice'') = PLATFORM_STATUS_ERROR"
proof -
  let ?x = "userStore_Seal (user_drop (us_snapshot st) ''alice'')" and ?t = "ab_target user_sector_a user_sector_b (us_activeAddress st)"
  have t: "unat ?t mod nor_sector = 0" "unat ?t < nor_capacity" "unat ?t mod 256 = 0"
    by (simp_all add: ab_target_def)
  obtain f1 where er: "W25Q64_EraseSector (f\<lparr>spi_faults := torn_transfers\<rparr>) ?t = (PLATFORM_STATUS_OK, f1)"
      "spi_faults f1 = [None, None, Some 22]" "flashMutex f1 \<noteq> None"
    using erase_script [OF assms(4) t(1,2)] unfolding torn_transfers_def by blast
  have pos: "userStore_Position (active_users (us_snapshot st)) ''alice'' \<noteq> unat (us_count (us_snapshot st))"
    using position_full [OF assms(1)] assms(3) by (auto simp: cstr_def)
  have "wf_user_snapshot ?x"
    using user_drop_spec(1) [OF assms(1) pos] by (simp add: user_inv_def)
  then have "256 \<le> length (enc_user_snapshot ?x)"
    using user_ab.length_enc by (simp add: user_snapshot_size_def)
  then have "fst (W25Q64_Program f1 ?t (enc_user_snapshot ?x)) \<noteq> PLATFORM_STATUS_OK"
    using program_script [OF er(2,3) t(3)] by simp
  then have "fst (user_ab.save (f\<lparr>spi_faults := torn_transfers\<rparr>) (us_activeAddress st) ?x) = PLATFORM_STATUS_ERROR"
    using er(1) by (auto simp: ab_save_def Let_def case_prod_unfold)
  then show ?thesis
    using pos by (simp add: UserStore_Delete_save [OF assms(2)] userStore_Save_ab case_prod_unfold)
qed

theorem UserStore_torn_update_witness:
  "\<exists>st f st' f' st'' g'. UserStore_Put empty_user_store blank_flash alice = (PLATFORM_STATUS_OK, st, f)
    \<and> UserStore_Delete st (f\<lparr>spi_faults := torn_transfers\<rparr>) ''alice'' = (PLATFORM_STATUS_ERROR, st', f')
    \<and> UserStore_Init True st (blank_flash\<lparr>nor_mem := (nor_mem f')(unat (ab_target user_sector_a user_sector_b (us_activeAddress st)) := 0x5A)\<rparr>)
        = (PLATFORM_STATUS_OK, st'', g')
    \<and> us_generation (us_snapshot st) \<le> us_generation (us_snapshot st'')"
proof -
  obtain st f where put: "UserStore_Put empty_user_store blank_flash alice = (PLATFORM_STATUS_OK, st, f)" "flash_ready f"
    using user_put_alice by blast
  have ok: "user_ok 0 (st, f) \<and> user_map (us_snapshot st) ''alice'' = Some alice"
    using user_step_refines [of 0 "(empty_user_store, blank_flash)" "Cmd_Put alice"] user_ok_empty [of "Suc 0"] put
    by (auto simp: empty_user_store_def empty_user_map)
  then have st: "user_inv (us_snapshot st)" "us_storeMutex st = Sem_Free"
      "user_ab.newest (nor_mem f) = Some (us_snapshot st, us_activeAddress st)"
    using empty_user_map by (auto simp: user_ok_def user_synced_def)
  let ?f = "f\<lparr>spi_faults := torn_transfers\<rparr>"
  obtain st' f' where del: "UserStore_Delete st ?f ''alice'' = (PLATFORM_STATUS_ERROR, st', f')"
    using delete_alice_fails [OF st(1,2) _ put(2)] ok by (cases "UserStore_Delete st ?f ''alice''") auto
  have step: "user_step (st, ?f) (Cmd_Delete ''alice'') = (st', f')"
    using del by simp
  let ?t = "ab_target user_sector_a user_sector_b (us_activeAddress st)"
  let ?g = "blank_flash\<lparr>nor_mem := (nor_mem f')(unat ?t := 0x5A)\<rparr>"
  have "nor_mem ?g i = nor_mem f' i" if "i div nor_sector \<noteq> unat ?t div nor_sector" for i
    using that by auto
  moreover have "flash_ready ?g"
    by (simp add: flash_ready_def blank_flash_def)
  moreover have "user_ab.newest (nor_mem ?f) = Some (us_snapshot st, us_activeAddress st)"
    using st(3) by simp
  ultimately obtain st'' g' where "UserStore_Init True st ?g = (PLATFORM_STATUS_OK, st'', g')"
      "us_generation (us_snapshot st) \<le> us_generation (us_snapshot st'')"
    using UserStore_torn_update [OF st(1,2) _ _ _ step refl, of ?g st] by fastforce
  then show ?thesis
    using put(1) del by blast
qed

end
