(* ===== verification/Tls_Platform.thy ===== *)
theory Tls_Platform
  imports Fw_Prelude
begin

text \<open>
  The crypto platform layer \<^verbatim>\<open>TLS/Src/tls_platform.c\<close>: the global recursive TLS lock and the
  hardware random source. The random-number generator is hardware: \<open>rng_words\<close> scripts its next
  results, \<open>None\<close> being a seed or clock error or a 100 ms timeout; an exhausted script counts as
  such an error too.
\<close>

record tls_platform =
  cryptoMutex :: "nat option"
  rng_words :: "u32 option list"

definition TlsPlatform_Lock :: "tls_platform \<Rightarrow> Platform_StatusTypeDef \<times> tls_platform" where
  "TlsPlatform_Lock t =
     (case cryptoMutex t of
        None \<Rightarrow> (PLATFORM_STATUS_ERROR, t)
      | Some d \<Rightarrow> (PLATFORM_STATUS_OK, t\<lparr>cryptoMutex := Some (Suc d)\<rparr>))"

definition TlsPlatform_Unlock :: "tls_platform \<Rightarrow> tls_platform" where
  "TlsPlatform_Unlock t =
     (case cryptoMutex t of None \<Rightarrow> t | Some d \<Rightarrow> t\<lparr>cryptoMutex := Some (d - 1)\<rparr>)"

text \<open>
  The bytes written to the output, whether the call returned 0, and the rest of the script. The
  loop consumes one random word per four bytes, the last one cut to the bytes still missing.
\<close>

function mbedtls_hardware_poll :: "u32 option list \<Rightarrow> nat \<Rightarrow> bool \<times> u8 list \<times> u32 option list" where
  "mbedtls_hardware_poll ws len =
     (if len = 0 then (True, [], ws)
      else case ws of
        [] \<Rightarrow> (False, [], [])
      | None # ws' \<Rightarrow> (False, [], ws')
      | Some randomValue # ws' \<Rightarrow>
          (let chunk = min len 4
           in case mbedtls_hardware_poll ws' (len - chunk) of
             (ok, rest, ws'') \<Rightarrow> (ok, take chunk (le32 randomValue) @ rest, ws'')))"
  by pat_completeness auto
termination
  by (relation "measure snd") auto

declare mbedtls_hardware_poll.simps [simp del]

definition TlsPlatform_Random :: "tls_platform \<Rightarrow> nat \<Rightarrow> Platform_StatusTypeDef \<times> u8 list \<times> tls_platform" where
  "TlsPlatform_Random t len =
     (case TlsPlatform_Lock t of
        (s, t1) \<Rightarrow>
          if s \<noteq> PLATFORM_STATUS_OK then (PLATFORM_STATUS_ERROR, [], t1)
          else (case mbedtls_hardware_poll (rng_words t1) len of
            (ok, output, ws) \<Rightarrow>
              (if ok \<and> length output = len then PLATFORM_STATUS_OK else PLATFORM_STATUS_ERROR, output,
               TlsPlatform_Unlock (t1\<lparr>rng_words := ws\<rparr>))))"

lemma mbedtls_hardware_poll_length:
  "mbedtls_hardware_poll ws len = (True, bs, ws') \<Longrightarrow> length bs = len"
proof (induction ws len arbitrary: bs ws' rule: mbedtls_hardware_poll.induct)
  case (1 ws len)
  then show ?case
    by (subst (asm) mbedtls_hardware_poll.simps)
      (fastforce simp: Let_def min_def split: if_splits list.splits option.splits prod.splits)
qed

text \<open>The crypto lock is balanced: after a random draw its depth is what it was.\<close>

lemma TlsPlatform_Random_mutex:
  "TlsPlatform_Random t len = (s, bs, t') \<Longrightarrow> cryptoMutex t' = cryptoMutex t"
  by (auto simp: TlsPlatform_Random_def TlsPlatform_Lock_def TlsPlatform_Unlock_def split: prod.splits option.splits if_splits)

lemma TlsPlatform_Random_length:
  "TlsPlatform_Random t len = (PLATFORM_STATUS_OK, bs, t') \<Longrightarrow> length bs = len"
  by (auto simp: TlsPlatform_Random_def split: prod.splits if_splits)

end
