(* ===== verification/Auth_Service.thy ===== *)
theory Auth_Service
  imports User_Store Tls_Platform
begin

text \<open>
  Authentication and sessions \<^verbatim>\<open>Srv/Src/auth_service.c\<close>: password verification against the stored
  verifier, the nine-slot session table with digests of access and refresh tokens, and the
  administrator operations on users. The cryptographic functions of mbedTLS (PBKDF2, SHA-256) are the
  parameter \<open>auth_crypto\<close>; \<open>now\<close> is
  \<open>Platform_GetTick()\<close>. The central invariant ties the session table to the user store: every
  active session belongs to the master account or to a stored, enabled user and carries that
  user's current role.
\<close>

section \<open>Data\<close>

definition AUTH_SERVICE_MASTER_USERNAME :: string where "AUTH_SERVICE_MASTER_USERNAME = ''master''"
definition AUTH_SERVICE_MAX_PASSWORD_LENGTH :: nat where "AUTH_SERVICE_MAX_PASSWORD_LENGTH = 128"
definition AUTH_SERVICE_MIN_PASSWORD_LENGTH :: nat where "AUTH_SERVICE_MIN_PASSWORD_LENGTH = 12"
definition AUTH_SERVICE_ACCESS_LIFETIME_SEC :: u32 where "AUTH_SERVICE_ACCESS_LIFETIME_SEC = 900"
definition AUTH_SERVICE_REFRESH_LIFETIME_SEC :: u32 where "AUTH_SERVICE_REFRESH_LIFETIME_SEC = 604800"
definition AUTH_SERVICE_TOKEN_BYTES :: nat where "AUTH_SERVICE_TOKEN_BYTES = 32"
definition AUTH_SERVICE_TOKEN_TEXT_SIZE :: nat where "AUTH_SERVICE_TOKEN_TEXT_SIZE = 65"
definition AUTH_SERVICE_SESSION_COUNT :: nat where "AUTH_SERVICE_SESSION_COUNT = USER_STORE_MAX_USERS + 1"
definition AUTH_SERVICE_USER_ITERATIONS :: u32 where "AUTH_SERVICE_USER_ITERATIONS = 100000"
definition USER_ROLE_USER :: u8 where "USER_ROLE_USER = 0"
definition USER_ROLE_ADMINISTRATOR :: u8 where "USER_ROLE_ADMINISTRATOR = 1"

lemmas auth_constants =
  AUTH_SERVICE_MAX_PASSWORD_LENGTH_def AUTH_SERVICE_MIN_PASSWORD_LENGTH_def
  AUTH_SERVICE_ACCESS_LIFETIME_SEC_def AUTH_SERVICE_REFRESH_LIFETIME_SEC_def
  AUTH_SERVICE_TOKEN_BYTES_def AUTH_SERVICE_TOKEN_TEXT_SIZE_def AUTH_SERVICE_SESSION_COUNT_def
  USER_STORE_MAX_USERS_def USER_STORE_USERNAME_SIZE_def

datatype AuthService_StatusTypeDef =
    AUTH_SERVICE_STATUS_OK
  | AUTH_SERVICE_STATUS_INVALID_PASSWORD
  | AUTH_SERVICE_STATUS_INVALID_ARGUMENT
  | AUTH_SERVICE_STATUS_CRYPTO_ERROR
  | AUTH_SERVICE_STATUS_NOT_FOUND
  | AUTH_SERVICE_STATUS_FORBIDDEN
  | AUTH_SERVICE_STATUS_STORAGE_ERROR

record AuthService_TokenPairTypeDef =
  accessToken :: string
  refreshToken :: string
  accessExpiresIn :: u32
  refreshExpiresIn :: u32

record AuthService_PrincipalTypeDef =
  ap_username :: string
  ap_role :: u8

record AuthService_SessionTypeDef =
  as_active :: bool
  as_role :: u8
  as_username :: string
  as_accessDigest :: "u8 list"
  as_refreshDigest :: "u8 list"
  as_accessIssuedAt :: u32
  as_refreshIssuedAt :: u32

record auth_service =
  sessions :: "AuthService_SessionTypeDef list"
  sessionMutex :: semaphore

text \<open>\<open>None\<close> is a nonzero result of the library function.\<close>

record auth_crypto =
  pbkdf2_hmac :: "u8 list \<Rightarrow> u8 list \<Rightarrow> u32 \<Rightarrow> u8 list option"
  sha256 :: "u8 list \<Rightarrow> u8 list option"

definition MASTER_PASSWORD_PBKDF2_ITERATIONS :: u32 where "MASTER_PASSWORD_PBKDF2_ITERATIONS = 100000"

definition masterPasswordSalt :: "u8 list" where
  "masterPasswordSalt =
    [0x1A, 0x5F, 0x0F, 0x46, 0x20, 0xA7, 0x35, 0x14, 0x88, 0x21, 0xB6, 0x29, 0x93, 0x36, 0x94, 0xD5]"

definition masterPasswordVerifier :: "u8 list" where
  "masterPasswordVerifier =
    [0x1A, 0xE4, 0x1B, 0x9F, 0x34, 0x97, 0x71, 0x88, 0xDA, 0xFD, 0x59, 0xC3, 0xC0, 0xAC, 0x56, 0xC5,
     0x44, 0xA1, 0x1A, 0x73, 0x93, 0x40, 0x6D, 0xCB, 0xC1, 0xC0, 0xD4, 0xF2, 0x5A, 0x98, 0x79, 0x8A]"

definition zero_session :: AuthService_SessionTypeDef where
  "zero_session = \<lparr>as_active = False, as_role = 0, as_username = replicate 25 NUL,
     as_accessDigest = replicate 32 0, as_refreshDigest = replicate 32 0,
     as_accessIssuedAt = 0, as_refreshIssuedAt = 0\<rparr>"

section \<open>Helpers\<close>

definition authService_IsAdministrator :: "AuthService_PrincipalTypeDef \<Rightarrow> bool" where
  "authService_IsAdministrator actor \<longleftrightarrow> ap_role actor = USER_ROLE_ADMINISTRATOR"

definition authService_Derive ::
  "auth_crypto \<Rightarrow> tls_platform \<Rightarrow> u8 list \<Rightarrow> u8 list \<Rightarrow> u32 \<Rightarrow>
     AuthService_StatusTypeDef \<times> u8 list \<times> tls_platform" where
  "authService_Derive c t password salt iterations =
     (case TlsPlatform_Lock t of
        (s, t1) \<Rightarrow>
          if s \<noteq> PLATFORM_STATUS_OK then (AUTH_SERVICE_STATUS_CRYPTO_ERROR, [], t1)
          else (case pbkdf2_hmac c password salt iterations of
            Some verifier \<Rightarrow> (AUTH_SERVICE_STATUS_OK, verifier, TlsPlatform_Unlock t1)
          | None \<Rightarrow> (AUTH_SERVICE_STATUS_CRYPTO_ERROR, [], TlsPlatform_Unlock t1)))"

definition hex_digit :: "u8 \<Rightarrow> char" where
  "hex_digit d = ''0123456789abcdef'' ! unat d"

definition authService_Hex :: "u8 list \<Rightarrow> string" where
  "authService_Hex input = concat (map (\<lambda>b. [hex_digit (drop_bit 4 b), hex_digit (b AND 0x0F)]) input)"

definition authService_HashToken :: "auth_crypto \<Rightarrow> string \<Rightarrow> u8 list option" where
  "authService_HashToken c token = sha256 c (map byte_of_char (cstr token))"

fun find_index :: "('a \<Rightarrow> bool) \<Rightarrow> 'a list \<Rightarrow> nat option" where
  "find_index P [] = None"
| "find_index P (x # xs) = (if P x then Some 0 else map_option Suc (find_index P xs))"

definition authService_FindSession :: "AuthService_SessionTypeDef list \<Rightarrow> string \<Rightarrow> nat option" where
  "authService_FindSession ss username =
     (case find_index (\<lambda>s. as_active s \<and> cstr (as_username s) = cstr username) ss of
        Some i \<Rightarrow> Some i
      | None \<Rightarrow> find_index (\<lambda>s. \<not> as_active s) ss)"

definition authService_Issue ::
  "auth_crypto \<Rightarrow> u32 \<Rightarrow> tls_platform \<Rightarrow> auth_service \<Rightarrow> string \<Rightarrow> u8 \<Rightarrow>
     AuthService_StatusTypeDef \<times> AuthService_TokenPairTypeDef option \<times> tls_platform \<times> auth_service" where
  "authService_Issue c now t st username role =
     (case TlsPlatform_Random t AUTH_SERVICE_TOKEN_BYTES of (s1, access, t1) \<Rightarrow>
      if s1 \<noteq> PLATFORM_STATUS_OK then (AUTH_SERVICE_STATUS_CRYPTO_ERROR, None, t1, st)
      else case TlsPlatform_Random t1 AUTH_SERVICE_TOKEN_BYTES of (s2, refresh, t2) \<Rightarrow>
      if s2 \<noteq> PLATFORM_STATUS_OK then (AUTH_SERVICE_STATUS_CRYPTO_ERROR, None, t2, st)
      else
        let accessText = authService_Hex access; refreshText = authService_Hex refresh
        in case (authService_HashToken c accessText, authService_HashToken c refreshText) of
          (Some accessDigest, Some refreshDigest) \<Rightarrow>
            (case authService_FindSession (sessions st) username of
               None \<Rightarrow> (AUTH_SERVICE_STATUS_CRYPTO_ERROR, None, t2, st)
             | Some i \<Rightarrow>
                 (AUTH_SERVICE_STATUS_OK,
                  Some \<lparr>accessToken = accessText, refreshToken = refreshText,
                    accessExpiresIn = AUTH_SERVICE_ACCESS_LIFETIME_SEC,
                    refreshExpiresIn = AUTH_SERVICE_REFRESH_LIFETIME_SEC\<rparr>,
                  t2,
                  st\<lparr>sessions := (sessions st)[i :=
                    \<lparr>as_active = True, as_role = role, as_username = strncpy (replicate 25 NUL) username 24,
                     as_accessDigest = accessDigest, as_refreshDigest = refreshDigest,
                     as_accessIssuedAt = now, as_refreshIssuedAt = now\<rparr>]\<rparr>))
        | _ \<Rightarrow> (AUTH_SERVICE_STATUS_CRYPTO_ERROR, None, t2, st))"

section \<open>Operations\<close>

definition AuthService_Init ::
  "bool \<Rightarrow> bool \<Rightarrow> auth_service \<Rightarrow> user_store \<Rightarrow> w25q64 \<Rightarrow>
     AuthService_StatusTypeDef \<times> auth_service \<times> user_store \<times> w25q64" where
  "AuthService_Init created storeCreated st us f =
     (if \<not> created then (AUTH_SERVICE_STATUS_STORAGE_ERROR, st\<lparr>sessionMutex := Sem_Null\<rparr>, us, f)
      else case UserStore_Init storeCreated us f of
        (s, us', f') \<Rightarrow>
          if s \<noteq> PLATFORM_STATUS_OK
          then (AUTH_SERVICE_STATUS_STORAGE_ERROR, st\<lparr>sessionMutex := Sem_Free\<rparr>, us', f')
          else (AUTH_SERVICE_STATUS_OK,
                st\<lparr>sessionMutex := Sem_Free, sessions := replicate AUTH_SERVICE_SESSION_COUNT zero_session\<rparr>,
                us', f'))"

definition AuthService_VerifyMasterPassword ::
  "auth_crypto \<Rightarrow> tls_platform \<Rightarrow> u8 list \<Rightarrow> AuthService_StatusTypeDef \<times> tls_platform" where
  "AuthService_VerifyMasterPassword c t password =
     (if length password = 0 \<or> length password > AUTH_SERVICE_MAX_PASSWORD_LENGTH
      then (AUTH_SERVICE_STATUS_INVALID_ARGUMENT, t)
      else case authService_Derive c t password masterPasswordSalt MASTER_PASSWORD_PBKDF2_ITERATIONS of
        (s, verifier, t') \<Rightarrow>
          (if s = AUTH_SERVICE_STATUS_OK
           then (if verifier = masterPasswordVerifier then AUTH_SERVICE_STATUS_OK
                 else AUTH_SERVICE_STATUS_INVALID_PASSWORD)
           else s, t'))"

definition AuthService_Login ::
  "auth_crypto \<Rightarrow> u32 \<Rightarrow> tls_platform \<Rightarrow> auth_service \<Rightarrow> user_store \<Rightarrow> string \<Rightarrow> u8 list \<Rightarrow>
     AuthService_StatusTypeDef \<times> AuthService_TokenPairTypeDef option
       \<times> tls_platform \<times> auth_service \<times> user_store" where
  "AuthService_Login c now t st us username password =
     (let issue = (\<lambda>status role t us.
        if status \<noteq> AUTH_SERVICE_STATUS_OK then (status, None, t, st, us)
        else case xSemaphoreTake (sessionMutex st) of
          None \<Rightarrow> (AUTH_SERVICE_STATUS_CRYPTO_ERROR, None, t, st, us)
        | Some m \<Rightarrow>
            (case authService_Issue c now t (st\<lparr>sessionMutex := m\<rparr>) username role of
               (s, tokens, t', st') \<Rightarrow> (s, tokens, t', st'\<lparr>sessionMutex := xSemaphoreGive m\<rparr>, us)))
      in if cstr username = AUTH_SERVICE_MASTER_USERNAME
         then (case AuthService_VerifyMasterPassword c t password of
           (s, t') \<Rightarrow> issue s USER_ROLE_ADMINISTRATOR t' us)
         else (case UserStore_Find us username of
           (s, found, us') \<Rightarrow>
             (case found of
                None \<Rightarrow> (AUTH_SERVICE_STATUS_INVALID_PASSWORD, None, t, st, us')
              | Some (rec, _) \<Rightarrow>
                  if s \<noteq> PLATFORM_STATUS_OK \<or> usr_enabled rec = 0
                  then (AUTH_SERVICE_STATUS_INVALID_PASSWORD, None, t, st, us')
                  else (case authService_Derive c t password (usr_salt rec) (usr_iterations rec) of
                    (s', verifier, t') \<Rightarrow>
                      issue (if s' = AUTH_SERVICE_STATUS_OK
                             then (if verifier = usr_verifier rec then AUTH_SERVICE_STATUS_OK
                                   else AUTH_SERVICE_STATUS_INVALID_PASSWORD)
                             else s') (usr_role rec) t' us'))))"

definition AuthService_Refresh ::
  "auth_crypto \<Rightarrow> u32 \<Rightarrow> tls_platform \<Rightarrow> auth_service \<Rightarrow> string \<Rightarrow>
     AuthService_StatusTypeDef \<times> AuthService_TokenPairTypeDef option \<times> tls_platform \<times> auth_service" where
  "AuthService_Refresh c now t st token =
     (if length (cstr token) \<noteq> AUTH_SERVICE_TOKEN_TEXT_SIZE - 1
      then (AUTH_SERVICE_STATUS_INVALID_ARGUMENT, None, t, st)
      else case authService_HashToken c token of
        None \<Rightarrow> (AUTH_SERVICE_STATUS_CRYPTO_ERROR, None, t, st)
      | Some digest \<Rightarrow>
          (case xSemaphoreTake (sessionMutex st) of
             None \<Rightarrow> (AUTH_SERVICE_STATUS_CRYPTO_ERROR, None, t, st)
           | Some m \<Rightarrow>
               (case find_index (\<lambda>s. as_active s
                    \<and> now - as_refreshIssuedAt s \<le> AUTH_SERVICE_REFRESH_LIFETIME_SEC * 1000
                    \<and> digest = as_refreshDigest s) (sessions st) of
                  None \<Rightarrow> (AUTH_SERVICE_STATUS_INVALID_PASSWORD, None, t, st\<lparr>sessionMutex := xSemaphoreGive m\<rparr>)
                | Some i \<Rightarrow>
                    (let session = sessions st ! i;
                         username = (strncpy (replicate 25 NUL) (as_username session) 25)[24 := NUL]
                     in case authService_Issue c now t (st\<lparr>sessionMutex := m\<rparr>) username (as_role session) of
                       (s, tokens, t', st') \<Rightarrow> (s, tokens, t', st'\<lparr>sessionMutex := xSemaphoreGive m\<rparr>)))))"

definition AuthService_Authorize ::
  "auth_crypto \<Rightarrow> u32 \<Rightarrow> auth_service \<Rightarrow> string \<Rightarrow>
     AuthService_StatusTypeDef \<times> AuthService_PrincipalTypeDef option \<times> auth_service" where
  "AuthService_Authorize c now st token =
     (if length (cstr token) \<noteq> AUTH_SERVICE_TOKEN_TEXT_SIZE - 1
      then (AUTH_SERVICE_STATUS_INVALID_ARGUMENT, None, st)
      else case authService_HashToken c token of
        None \<Rightarrow> (AUTH_SERVICE_STATUS_CRYPTO_ERROR, None, st)
      | Some digest \<Rightarrow>
          (case xSemaphoreTake (sessionMutex st) of
             None \<Rightarrow> (AUTH_SERVICE_STATUS_CRYPTO_ERROR, None, st)
           | Some m \<Rightarrow>
               (let st' = st\<lparr>sessionMutex := xSemaphoreGive m\<rparr>
                in case find_index (\<lambda>s. as_active s
                      \<and> now - as_accessIssuedAt s \<le> AUTH_SERVICE_ACCESS_LIFETIME_SEC * 1000
                      \<and> digest = as_accessDigest s) (sessions st) of
                     None \<Rightarrow> (AUTH_SERVICE_STATUS_INVALID_PASSWORD, None, st')
                   | Some i \<Rightarrow>
                       (AUTH_SERVICE_STATUS_OK,
                        Some \<lparr>ap_username = (strncpy (replicate 25 NUL) (as_username (sessions st ! i)) 25)[24 := NUL],
                              ap_role = as_role (sessions st ! i)\<rparr>, st'))))"

definition AuthService_Revoke ::
  "auth_crypto \<Rightarrow> u32 \<Rightarrow> auth_service \<Rightarrow> string \<Rightarrow> AuthService_StatusTypeDef \<times> auth_service" where
  "AuthService_Revoke c now st token =
     (case AuthService_Authorize c now st token of
        (s, Some who, st1) \<Rightarrow>
          (if s \<noteq> AUTH_SERVICE_STATUS_OK then (s, st1)
           else case xSemaphoreTake (sessionMutex st1) of
             None \<Rightarrow> (AUTH_SERVICE_STATUS_CRYPTO_ERROR, st1)
           | Some m \<Rightarrow>
               (AUTH_SERVICE_STATUS_OK,
                st1\<lparr>sessions := (case authService_FindSession (sessions st1) (ap_username who) of
                       None \<Rightarrow> sessions st1 | Some i \<Rightarrow> (sessions st1)[i := zero_session]),
                    sessionMutex := xSemaphoreGive m\<rparr>))
      | (s, None, st1) \<Rightarrow> (s, st1))"

text \<open>Forgetting the session of a user whose account was changed or deleted.\<close>

definition authService_DropSession :: "auth_service \<Rightarrow> string \<Rightarrow> auth_service" where
  "authService_DropSession st username =
     (case xSemaphoreTake (sessionMutex st) of
        None \<Rightarrow> st
      | Some m \<Rightarrow>
          (let ss = sessions st
           in st\<lparr>sessions := (case authService_FindSession ss username of
                   None \<Rightarrow> ss
                 | Some i \<Rightarrow> if as_active (ss ! i) \<and> cstr (as_username (ss ! i)) = cstr username
                             then ss[i := zero_session] else ss),
                 sessionMutex := xSemaphoreGive m\<rparr>))"

definition AuthService_PutUser ::
  "auth_crypto \<Rightarrow> tls_platform \<Rightarrow> auth_service \<Rightarrow> user_store \<Rightarrow> w25q64 \<Rightarrow> AuthService_PrincipalTypeDef \<Rightarrow>
     string \<Rightarrow> u8 list \<Rightarrow> u8 \<Rightarrow> u8 \<Rightarrow> bool \<Rightarrow>
     AuthService_StatusTypeDef \<times> tls_platform \<times> auth_service \<times> user_store \<times> w25q64" where
  "AuthService_PutUser c t st us f actor username password role enabled mustExist =
     (if \<not> authService_IsAdministrator actor
         \<or> length password < AUTH_SERVICE_MIN_PASSWORD_LENGTH
         \<or> length password > AUTH_SERVICE_MAX_PASSWORD_LENGTH
         \<or> length (cstr username) \<ge> USER_STORE_USERNAME_SIZE
         \<or> cstr username = AUTH_SERVICE_MASTER_USERNAME
      then (AUTH_SERVICE_STATUS_FORBIDDEN, t, st, us, f)
      else case UserStore_Find us username of (s, _, us1) \<Rightarrow>
        let exists = (s = PLATFORM_STATUS_OK)
        in if mustExist \<and> \<not> exists then (AUTH_SERVICE_STATUS_NOT_FOUND, t, st, us1, f)
           else if \<not> mustExist \<and> exists then (AUTH_SERVICE_STATUS_INVALID_ARGUMENT, t, st, us1, f)
           else case TlsPlatform_Random t USER_STORE_SALT_SIZE of (s2, salt, t2) \<Rightarrow>
             if s2 \<noteq> PLATFORM_STATUS_OK then (AUTH_SERVICE_STATUS_CRYPTO_ERROR, t2, st, us1, f)
             else case authService_Derive c t2 password salt AUTH_SERVICE_USER_ITERATIONS of (s3, verifier, t3) \<Rightarrow>
               if s3 \<noteq> AUTH_SERVICE_STATUS_OK then (s3, t3, st, us1, f)
               else case UserStore_Put us1 f
                   (zero_user\<lparr>usr_enabled := (if enabled \<noteq> 0 then 1 else 0), usr_role := role,
                     usr_iterations := AUTH_SERVICE_USER_ITERATIONS,
                     usr_username := strncpy (replicate 25 NUL) username 24,
                     usr_salt := salt, usr_verifier := verifier\<rparr>) of
                 (s4, us2, f') \<Rightarrow>
                   if s4 = PLATFORM_STATUS_OK
                   then (AUTH_SERVICE_STATUS_OK, t3, authService_DropSession st username, us2, f')
                   else (AUTH_SERVICE_STATUS_STORAGE_ERROR, t3, st, us2, f'))"

definition AuthService_DeleteUser ::
  "auth_service \<Rightarrow> user_store \<Rightarrow> w25q64 \<Rightarrow> AuthService_PrincipalTypeDef \<Rightarrow> string \<Rightarrow>
     AuthService_StatusTypeDef \<times> auth_service \<times> user_store \<times> w25q64" where
  "AuthService_DeleteUser st us f actor username =
     (if \<not> authService_IsAdministrator actor \<or> cstr username = AUTH_SERVICE_MASTER_USERNAME
      then (AUTH_SERVICE_STATUS_FORBIDDEN, st, us, f)
      else case UserStore_Find us username of (s, _, us1) \<Rightarrow>
        if s \<noteq> PLATFORM_STATUS_OK then (AUTH_SERVICE_STATUS_NOT_FOUND, st, us1, f)
        else case UserStore_Delete us1 f username of (s2, us2, f') \<Rightarrow>
          if s2 \<noteq> PLATFORM_STATUS_OK then (AUTH_SERVICE_STATUS_STORAGE_ERROR, st, us2, f')
          else (AUTH_SERVICE_STATUS_OK, authService_DropSession st username, us2, f'))"

definition AuthService_ListUsers ::
  "user_store \<Rightarrow> AuthService_PrincipalTypeDef \<Rightarrow> nat \<Rightarrow> UserStore_RecordTypeDef list \<times> user_store" where
  "AuthService_ListUsers us actor capacity =
     (if authService_IsAdministrator actor then UserStore_List us capacity else ([], us))"

section \<open>The session table\<close>

lemma find_index_Some:
  "find_index P xs = Some i \<Longrightarrow> i < length xs \<and> P (xs ! i)"
  by (induction xs arbitrary: i) (auto split: if_splits)

lemma find_index_None: "find_index P xs = None \<longleftrightarrow> (\<forall>x\<in>set xs. \<not> P x)"
  by (induction xs) auto

lemma find_index_unique:
  assumes "i < length xs" and "P (xs ! i)" and "\<And>j. j < length xs \<Longrightarrow> P (xs ! j) \<Longrightarrow> j = i"
  shows "find_index P xs = Some i"
proof (cases "find_index P xs")
  case None
  then show ?thesis using assms(1,2) nth_mem by (auto simp: find_index_None)
next
  case (Some j)
  then show ?thesis using find_index_Some [OF Some] assms(3) [of j] by simp
qed

abbreviation session_key :: "AuthService_SessionTypeDef \<Rightarrow> string" where
  "session_key s \<equiv> cstr (as_username s)"

text \<open>An active session belongs to the master account or to a stored, enabled user, and has that user's role.\<close>

definition account_role :: "UserStore_SnapshotTypeDef \<Rightarrow> string \<Rightarrow> u8 \<Rightarrow> bool" where
  "account_role x n role \<longleftrightarrow>
     (if n = AUTH_SERVICE_MASTER_USERNAME then role = USER_ROLE_ADMINISTRATOR
      else case user_map x n of None \<Rightarrow> False
        | Some r \<Rightarrow> usr_enabled r \<noteq> 0 \<and> usr_role r = role)"

definition sessions_ok :: "UserStore_SnapshotTypeDef \<Rightarrow> AuthService_SessionTypeDef list \<Rightarrow> bool" where
  "sessions_ok x ss \<longleftrightarrow> length ss = AUTH_SERVICE_SESSION_COUNT
     \<and> (\<forall>s\<in>set ss. as_active s \<longrightarrow> account_role x (session_key s) (as_role s)
          \<and> length (as_username s) = 25 \<and> length (session_key s) < 25)
     \<and> (\<forall>i<length ss. \<forall>j<length ss. as_active (ss ! i) \<and> as_active (ss ! j)
          \<and> session_key (ss ! i) = session_key (ss ! j) \<longrightarrow> i = j)"

definition auth_inv :: "auth_service \<Rightarrow> user_store \<Rightarrow> bool" where
  "auth_inv st us \<longleftrightarrow> sessionMutex st = Sem_Free \<and> us_storeMutex us = Sem_Free
     \<and> user_inv (us_snapshot us) \<and> (\<forall>n\<in>dom (user_map (us_snapshot us)). length n < 25)
     \<and> sessions_ok (us_snapshot us) (sessions st)"

lemma authService_FindSession_cases:
  assumes "authService_FindSession ss n = Some i"
  shows "i < length ss"
    and "as_active (ss ! i) \<Longrightarrow> session_key (ss ! i) = cstr n"
    and "\<not> as_active (ss ! i) \<Longrightarrow> s \<in> set ss \<Longrightarrow> as_active s \<Longrightarrow> session_key s \<noteq> cstr n"
  using assms
  by (auto simp: authService_FindSession_def find_index_None split: option.splits dest: find_index_Some)

lemma sessions_ok_unique:
  assumes "sessions_ok x ss" and "i < length ss" and "j < length ss" and "as_active (ss ! i)" and "as_active (ss ! j)"
    and "session_key (ss ! i) = session_key (ss ! j)"
  shows "i = j"
  using assms unfolding sessions_ok_def by blast

lemma FindSession_only:
  assumes "authService_FindSession ss n = Some i" and "sessions_ok x ss"
    and "j < length ss" and "j \<noteq> i" and "as_active (ss ! j)"
  shows "session_key (ss ! j) \<noteq> cstr n"
  using authService_FindSession_cases(1,2) [OF assms(1)] authService_FindSession_cases(3) [OF assms(1), of "ss ! j"]
    sessions_ok_unique [OF assms(2), of j i] assms(3-5)
  by (cases "as_active (ss ! i)") auto

text \<open>Issuing a session into the slot the search chose, and clearing slots, keep the table right.\<close>

lemma sessions_ok_issue:
  assumes "sessions_ok x ss" and "authService_FindSession ss n = Some i"
    and "as_active s'" and "session_key s' = cstr n" and "account_role x (cstr n) (as_role s')"
    and "length (as_username s') = 25" and "length (cstr n) < 25"
  shows "sessions_ok x (ss[i := s'])"
proof -
  have only: "session_key (ss ! j) \<noteq> cstr n" if "j < length ss" "j \<noteq> i" "as_active (ss ! j)" for j
    using FindSession_only [OF assms(2,1)] that by blast
  have i: "i < length ss"
    using authService_FindSession_cases(1) [OF assms(2)] .
  have "a = b" if "a < length ss" "b < length ss" "as_active (ss[i := s'] ! a)" "as_active (ss[i := s'] ! b)"
    "session_key (ss[i := s'] ! a) = session_key (ss[i := s'] ! b)" for a b
    using that only [of a] only [of b] assms(4) i sessions_ok_unique [OF assms(1), of a b]
    by (cases "a = i"; cases "b = i") auto
  moreover have "set (ss[i := s']) \<subseteq> insert s' (set ss)"
    by (rule set_update_subset_insert)
  ultimately show ?thesis
    using assms unfolding sessions_ok_def by (auto dest!: subsetD)
qed

lemma sessions_ok_clear:
  assumes "sessions_ok x ss"
  shows "sessions_ok x (ss[i := zero_session])"
proof -
  have "a = b" if "a < length ss" "b < length ss" "as_active (ss[i := zero_session] ! a)"
    "as_active (ss[i := zero_session] ! b)"
    "session_key (ss[i := zero_session] ! a) = session_key (ss[i := zero_session] ! b)" for a b
    using that sessions_ok_unique [OF assms, of a b]
    by (cases "a = i"; cases "b = i") (auto simp: zero_session_def)
  moreover have "set (ss[i := zero_session]) \<subseteq> insert zero_session (set ss)"
    by (rule set_update_subset_insert)
  ultimately show ?thesis
    using assms unfolding sessions_ok_def by (auto simp: zero_session_def dest!: subsetD)
qed

text \<open>Eight users and the master account never exhaust nine sessions.\<close>

lemma FindSession_total:
  assumes "sessions_ok x ss" and "user_inv x"
    and "cstr n = AUTH_SERVICE_MASTER_USERNAME \<or> cstr n \<in> dom (user_map x)"
  shows "\<exists>i. authService_FindSession ss n = Some i"
proof (rule ccontr)
  assume "\<nexists>i. authService_FindSession ss n = Some i"
  then have full: "as_active s" "session_key s \<noteq> cstr n" if "s \<in> set ss" for s
    using that by (auto simp: authService_FindSession_def find_index_None split: option.splits)
  let ?names = "insert AUTH_SERVICE_MASTER_USERNAME (dom (user_map x))"
  have keys: "set (map session_key ss) \<subseteq> ?names - {cstr n}"
    using full assms(1) by (fastforce simp: sessions_ok_def account_role_def split: if_splits option.splits)
  have "inj_on ((!) (map session_key ss)) {..<length ss}"
    using full assms(1) unfolding sessions_ok_def inj_on_def by auto
  then have "distinct (map session_key ss)"
    by (simp add: distinct_conv_nth inj_on_def) blast
  then have "card (set (map session_key ss)) = length ss"
    by (metis distinct_card length_map)
  moreover have "card (set (map session_key ss)) \<le> card (?names - {cstr n})"
    using keys by (intro card_mono) (auto simp: user_map_def finite_dom_map_of)
  moreover have "card (?names - {cstr n}) \<le> card (dom (user_map x))"
    using assms(3) by (auto simp: user_map_def finite_dom_map_of card_insert_if card_Diff_singleton_if)
  moreover have "card (dom (user_map x)) \<le> 8"
    using card_user_map [OF assms(2)] assms(2) by (simp add: user_inv_def)
  ultimately show False
    using assms(1) by (simp add: sessions_ok_def AUTH_SERVICE_SESSION_COUNT_def USER_STORE_MAX_USERS_def)
qed

section \<open>What the operations do to the table\<close>

definition new_session :: "u32 \<Rightarrow> string \<Rightarrow> u8 \<Rightarrow> u8 list \<Rightarrow> u8 list \<Rightarrow> AuthService_SessionTypeDef" where
  "new_session now n role a r =
     \<lparr>as_active = True, as_role = role, as_username = strncpy (replicate 25 NUL) n 24,
      as_accessDigest = a, as_refreshDigest = r, as_accessIssuedAt = now, as_refreshIssuedAt = now\<rparr>"

definition token_pair :: "u8 list \<Rightarrow> u8 list \<Rightarrow> AuthService_TokenPairTypeDef" where
  "token_pair a r = \<lparr>accessToken = authService_Hex a, refreshToken = authService_Hex r,
     accessExpiresIn = AUTH_SERVICE_ACCESS_LIFETIME_SEC,
     refreshExpiresIn = AUTH_SERVICE_REFRESH_LIFETIME_SEC\<rparr>"

lemma authService_Issue_cases:
  assumes "authService_Issue c now t st n role = (s, tokens, t', st')"
  shows "s = AUTH_SERVICE_STATUS_CRYPTO_ERROR \<and> tokens = None \<and> st' = st
    \<or> (\<exists>a r da dr i. s = AUTH_SERVICE_STATUS_OK \<and> tokens = Some (token_pair a r)
         \<and> length a = 32 \<and> length r = 32
         \<and> authService_HashToken c (authService_Hex a) = Some da
         \<and> authService_HashToken c (authService_Hex r) = Some dr
         \<and> authService_FindSession (sessions st) n = Some i
         \<and> st' = st\<lparr>sessions := (sessions st)[i := new_session now n role da dr]\<rparr>)"
proof -
  obtain s1 a t1 where 1: "TlsPlatform_Random t 32 = (s1, a, t1)"
    by (metis prod_cases3)
  obtain s2 r t2 where 2: "TlsPlatform_Random t1 32 = (s2, r, t2)"
    by (metis prod_cases3)
  show ?thesis
    using assms TlsPlatform_Random_length [of t 32 a t1] TlsPlatform_Random_length [of t1 32 r t2]
    by (auto simp: authService_Issue_def AUTH_SERVICE_TOKEN_BYTES_def Let_def 1 2 new_session_def token_pair_def
        split: if_splits option.splits)
qed

lemma session_name_copy:
  "length (cstr n) < 25 \<Longrightarrow> cstr (strncpy (replicate 25 NUL) n 24) = cstr n"
  by (rule cstr_strncpy) simp_all

lemma new_session_simps [simp]:
  "as_active (new_session now n role a r)" "as_role (new_session now n role a r) = role"
  "length (as_username (new_session now n role a r)) = 25"
  "length (cstr n) < 25 \<Longrightarrow> session_key (new_session now n role a r) = cstr n"
  "as_accessDigest (new_session now n role a r) = a" "as_refreshDigest (new_session now n role a r) = r"
  "as_accessIssuedAt (new_session now n role a r) = now"
  "as_refreshIssuedAt (new_session now n role a r) = now"
  by (simp_all add: new_session_def session_name_copy)

lemma authService_Issue_ok:
  assumes "authService_Issue c now t st n role = (s, tokens, t', st')"
    and "sessions_ok x (sessions st)" and "account_role x (cstr n) role" and "length (cstr n) < 25"
  shows "sessions_ok x (sessions st')" and "sessionMutex st' = sessionMutex st"
  using authService_Issue_cases [OF assms(1)] sessions_ok_issue [OF assms(2)] assms(2-4)
  by auto

lemma account_role_short:
  assumes "auth_inv st us" and "account_role (us_snapshot us) n role"
  shows "length n < 25"
  using assms
  by (auto simp: auth_inv_def account_role_def AUTH_SERVICE_MASTER_USERNAME_def split: if_splits option.splits)

text \<open>A login that succeeds has checked the password of an existing, enabled account.\<close>

definition password_ok :: "auth_crypto \<Rightarrow> UserStore_SnapshotTypeDef \<Rightarrow> string \<Rightarrow> u8 list \<Rightarrow> bool" where
  "password_ok c x n password \<longleftrightarrow>
     (if n = AUTH_SERVICE_MASTER_USERNAME
      then 0 < length password \<and> length password \<le> 128
        \<and> pbkdf2_hmac c password masterPasswordSalt MASTER_PASSWORD_PBKDF2_ITERATIONS
           = Some masterPasswordVerifier
      else case user_map x n of None \<Rightarrow> False
        | Some r \<Rightarrow> usr_enabled r \<noteq> 0
            \<and> pbkdf2_hmac c password (usr_salt r) (usr_iterations r) = Some (usr_verifier r))"

definition account_role_of :: "UserStore_SnapshotTypeDef \<Rightarrow> string \<Rightarrow> u8" where
  "account_role_of x n = (if n = AUTH_SERVICE_MASTER_USERNAME then USER_ROLE_ADMINISTRATOR
     else case user_map x n of None \<Rightarrow> 0 | Some r \<Rightarrow> usr_role r)"

lemma authService_Derive_eq:
  "cryptoMutex t = Some d \<Longrightarrow>
   authService_Derive c t pw salt it =
     (case pbkdf2_hmac c pw salt it of
        Some v \<Rightarrow> (AUTH_SERVICE_STATUS_OK, v, t) | None \<Rightarrow> (AUTH_SERVICE_STATUS_CRYPTO_ERROR, [], t))"
  by (cases t) (simp add: authService_Derive_def TlsPlatform_Lock_def TlsPlatform_Unlock_def split: option.splits)

lemma authService_Derive_no_mutex:
  "cryptoMutex t = None \<Longrightarrow> authService_Derive c t pw salt it = (AUTH_SERVICE_STATUS_CRYPTO_ERROR, [], t)"
  by (simp add: authService_Derive_def TlsPlatform_Lock_def)

lemma auth_service_eta: "sessionMutex st = Sem_Free \<Longrightarrow> st\<lparr>sessionMutex := Sem_Free\<rparr> = st"
  by (cases st) simp

text \<open>Login is: the account and its password are right, then a session is issued under the mutex.\<close>

lemma AuthService_Login_issue:
  assumes "auth_inv st us" and "cryptoMutex t = Some d" and "password_ok c (us_snapshot us) (cstr n) password"
  shows "AuthService_Login c now t st us n password =
    (case authService_Issue c now t (st\<lparr>sessionMutex := Sem_Held\<rparr>) n (account_role_of (us_snapshot us) (cstr n)) of
       (s, tokens, t', st') \<Rightarrow> (s, tokens, t', st'\<lparr>sessionMutex := Sem_Free\<rparr>, us))"
  using assms UserStore_Find_map [of us n]
  by (auto simp: AuthService_Login_def AuthService_VerifyMasterPassword_def authService_Derive_eq Let_def
      auth_inv_def password_ok_def account_role_of_def AUTH_SERVICE_MAX_PASSWORD_LENGTH_def
      split: if_splits option.splits)

lemma AuthService_Login_refused:
  assumes "auth_inv st us" and "cryptoMutex t = None \<or> \<not> password_ok c (us_snapshot us) (cstr n) password"
  shows "\<exists>s t'. AuthService_Login c now t st us n password = (s, None, t', st, us) \<and> s \<noteq> AUTH_SERVICE_STATUS_OK"
proof (cases "cryptoMutex t")
  case None
  then show ?thesis
    using assms(1) UserStore_Find_map [of us n]
    by (auto simp: AuthService_Login_def AuthService_VerifyMasterPassword_def authService_Derive_no_mutex Let_def
        auth_inv_def split: option.splits)
next
  case (Some d)
  then show ?thesis
    using assms UserStore_Find_map [of us n]
    by (auto simp: AuthService_Login_def AuthService_VerifyMasterPassword_def authService_Derive_eq Let_def
        auth_inv_def password_ok_def AUTH_SERVICE_MAX_PASSWORD_LENGTH_def split: option.splits)
qed

lemma password_ok_account:
  "password_ok c x n password \<Longrightarrow> account_role x n (account_role_of x n)"
  by (auto simp: password_ok_def account_role_def account_role_of_def split: if_splits option.splits)

text \<open>The name an operation copies out of a session is the session's name.\<close>

lemma session_name_out:
  assumes "length (cstr n) < 25"
  shows "cstr ((strncpy (replicate 25 NUL) n 25)[24 := NUL]) = cstr n"
proof -
  have "strncpy (replicate 25 NUL) n 25 = cstr n @ replicate (25 - length (cstr n)) NUL"
    using assms by (simp add: strncpy_def Let_def)
  moreover have "(replicate k NUL)[i := NUL] = replicate k NUL" for i k
    by (metis list_update_beyond list_update_id nth_replicate not_le length_replicate)
  moreover have "\<exists>k. replicate (25 - length (cstr n)) NUL = NUL # replicate k NUL"
    using assms by (metis Suc_diff_Suc replicate_Suc)
  ultimately show ?thesis
    using assms cstr_append_NUL [of "cstr n"] by (auto simp: list_update_append)
qed

text \<open>
  What the library functions promise: the verifier and the digest fill their 32-byte buffers.
\<close>

definition crypto_contract :: "auth_crypto \<Rightarrow> bool" where
  "crypto_contract c \<longleftrightarrow>
     (\<forall>pw salt it v. pbkdf2_hmac c pw salt it = Some v \<longrightarrow> length v = 32)
     \<and> (\<forall>m d. sha256 c m = Some d \<longrightarrow> length d = 32)"

lemma auth_inv_session:
  assumes "auth_inv st us" and "s \<in> set (sessions st)" and "as_active s"
  shows "account_role (us_snapshot us) (session_key s) (as_role s)" and "length (session_key s) < 25"
  using assms by (auto simp: auth_inv_def sessions_ok_def)

lemma auth_inv_Login:
  assumes "auth_inv st us" and "AuthService_Login c now t st us n pw = (s, tokens, t', st', us')"
  shows "auth_inv st' us'"
proof (cases "cryptoMutex t = None \<or> \<not> password_ok c (us_snapshot us) (cstr n) pw")
  case True
  then show ?thesis
    using AuthService_Login_refused [OF assms(1) True, of now] assms by auto
next
  case False
  then obtain d where d: "cryptoMutex t = Some d" and ok: "password_ok c (us_snapshot us) (cstr n) pw"
    by auto
  note acc = password_ok_account [OF ok]
  obtain s1 tk t1 st1 where issue: "authService_Issue c now t (st\<lparr>sessionMutex := Sem_Held\<rparr>) n
      (account_role_of (us_snapshot us) (cstr n)) = (s1, tk, t1, st1)"
    by (metis prod_cases4)
  have "sessions_ok (us_snapshot us) (sessions st1)"
    using authService_Issue_ok(1) [OF issue, of "us_snapshot us"] assms(1) acc
      account_role_short [OF assms(1) acc] by (simp add: auth_inv_def)
  then show ?thesis
    using assms AuthService_Login_issue [OF assms(1) d ok, of now] issue by (auto simp: auth_inv_def)
qed

lemma auth_inv_Refresh:
  assumes "auth_inv st us" and "AuthService_Refresh c now t st token = (s, tokens, t', st')"
  shows "auth_inv st' us"
proof -
  have "sessions_ok (us_snapshot us) (sessions st1)"
    if issue: "authService_Issue c now t (st\<lparr>sessionMutex := Sem_Held\<rparr>)
        ((strncpy (replicate 25 NUL) (as_username (sessions st ! i)) 25)[24 := NUL]) (as_role (sessions st ! i))
      = (s1, tk, t1, st1)" and i: "i < length (sessions st)" "as_active (sessions st ! i)" for i s1 tk t1 st1
    using authService_Issue_ok(1) [OF issue, of "us_snapshot us"] assms(1) i
      auth_inv_session [OF assms(1), of "sessions st ! i"] nth_mem [OF i(1)]
    by (simp add: session_name_out auth_inv_def)
  then show ?thesis
    using assms(2) assms(1)
    by (auto simp: AuthService_Refresh_def Let_def auth_inv_def
        split: if_splits option.splits prod.splits dest!: find_index_Some)
qed

lemma AuthService_Authorize_cases:
  assumes "AuthService_Authorize c now st token = (s, who, st')" and "sessionMutex st = Sem_Free"
  shows "st' = st \<and> (who = None \<and> s \<noteq> AUTH_SERVICE_STATUS_OK
    \<or> (\<exists>i digest. s = AUTH_SERVICE_STATUS_OK \<and> i < length (sessions st) \<and> as_active (sessions st ! i)
        \<and> length (cstr token) = 64 \<and> authService_HashToken c token = Some digest
        \<and> as_accessDigest (sessions st ! i) = digest
        \<and> now - as_accessIssuedAt (sessions st ! i) \<le> 900000
        \<and> who = Some \<lparr>ap_username = (strncpy (replicate 25 NUL) (as_username (sessions st ! i)) 25)[24 := NUL],
                      ap_role = as_role (sessions st ! i)\<rparr>))"
  using assms auth_service_eta [OF assms(2)]
  by (auto simp: AuthService_Authorize_def Let_def AUTH_SERVICE_TOKEN_TEXT_SIZE_def
      AUTH_SERVICE_ACCESS_LIFETIME_SEC_def
      split: if_splits option.splits dest!: find_index_Some)

lemma auth_inv_Revoke:
  assumes "auth_inv st us" and "AuthService_Revoke c now st token = (s, st')"
  shows "auth_inv st' us"
proof -
  obtain s1 who st1 where auth: "AuthService_Authorize c now st token = (s1, who, st1)"
    by (metis prod_cases3)
  have "st1 = st"
    using AuthService_Authorize_cases [OF auth] assms(1) by (simp add: auth_inv_def)
  then show ?thesis
    using assms auth
    by (auto simp: AuthService_Revoke_def auth_inv_def sessions_ok_clear split: option.splits if_splits)
qed

text \<open>
  Dropping the sessions of one account makes the table fit any user store that differs from the
  old one in that account only.
\<close>

lemma authService_DropSession_free:
  assumes "sessionMutex st = Sem_Free"
  shows "authService_DropSession st n = st\<lparr>sessions :=
    (case authService_FindSession (sessions st) n of None \<Rightarrow> sessions st
     | Some i \<Rightarrow> if as_active (sessions st ! i) then (sessions st)[i := zero_session] else sessions st)\<rparr>"
  using assms authService_FindSession_cases(2) [of "sessions st" n]
  by (cases st) (auto simp: authService_DropSession_def Let_def split: option.splits)

lemma dropped_session_gone:
  assumes "sessions_ok x (sessions st)" and "sessionMutex st = Sem_Free"
    and "s \<in> set (sessions (authService_DropSession st n))" and "as_active s"
  shows "session_key s \<noteq> cstr n"
proof (cases "authService_FindSession (sessions st) n")
  case None
  then show ?thesis
    using assms by (auto simp: authService_DropSession_free authService_FindSession_def find_index_None
        split: option.splits)
next
  case (Some i)
  show ?thesis
  proof (cases "as_active (sessions st ! i)")
    case True
    then obtain j where j: "j < length (sessions st)" "(sessions st)[i := zero_session] ! j = s"
      using assms(2,3) Some by (auto simp: authService_DropSession_free in_set_conv_nth)
    then have "j \<noteq> i" "as_active (sessions st ! j)" "sessions st ! j = s"
      using assms(4) by (cases "j = i"; auto simp: zero_session_def)+
    then show ?thesis
      using FindSession_only [OF Some assms(1) j(1)] by simp
  next
    case False
    then show ?thesis
      using authService_FindSession_cases(3) [OF Some False] assms(2-4) Some
      by (simp add: authService_DropSession_free)
  qed
qed

lemma sessions_ok_drop:
  assumes "sessions_ok x (sessions st)" and "sessionMutex st = Sem_Free"
    and "\<And>m. m \<noteq> cstr n \<Longrightarrow> user_map y m = user_map x m"
  shows "sessions_ok y (sessions (authService_DropSession st n))"
proof -
  have x: "sessions_ok x (sessions (authService_DropSession st n))"
    using assms(1,2) by (simp add: authService_DropSession_free sessions_ok_clear split: option.splits)
  have "account_role y (session_key s) (as_role s)"
    if "s \<in> set (sessions (authService_DropSession st n))" "as_active s" for s
    using that x dropped_session_gone [OF assms(1,2) that] assms(3) [of "session_key s"]
    by (simp add: sessions_ok_def account_role_def)
  then show ?thesis
    using x unfolding sessions_ok_def by blast
qed

lemma authService_DropSession_mutex:
  "sessionMutex st = Sem_Free \<Longrightarrow> sessionMutex (authService_DropSession st n) = Sem_Free"
  by (simp add: authService_DropSession_free)

text \<open>The two account operations on every branch.\<close>

definition new_user :: "string \<Rightarrow> u8 \<Rightarrow> u8 \<Rightarrow> u8 list \<Rightarrow> u8 list \<Rightarrow> UserStore_RecordTypeDef" where
  "new_user n role enabled salt v = zero_user\<lparr>usr_enabled := (if enabled \<noteq> 0 then 1 else 0), usr_role := role,
     usr_iterations := AUTH_SERVICE_USER_ITERATIONS, usr_username := strncpy (replicate 25 NUL) n 24,
     usr_salt := salt, usr_verifier := v\<rparr>"

lemma new_user_simps [simp]:
  "length salt = 16 \<Longrightarrow> length v = 32 \<Longrightarrow> wf_user (new_user n role enabled salt v)"
  "length (cstr n) < 25 \<Longrightarrow> user_key (new_user n role enabled salt v) = cstr n"
  "usr_enabled (new_user n role enabled salt v) = (if enabled \<noteq> 0 then 1 else 0)"
  "usr_role (new_user n role enabled salt v) = role"
  by (simp_all add: new_user_def wf_user_def zero_user_def session_name_copy)

lemma AuthService_PutUser_cases:
  assumes "auth_inv st us" and "crypto_contract c"
    and "AuthService_PutUser c t st us f actor n pw role enabled mustExist = (s, t', st', us', f')"
  shows "s \<noteq> AUTH_SERVICE_STATUS_OK \<and> st' = st \<and> us' = us
    \<or> s = AUTH_SERVICE_STATUS_OK \<and> ap_role actor = USER_ROLE_ADMINISTRATOR
        \<and> 12 \<le> length pw \<and> length pw \<le> 128 \<and> length (cstr n) < 25
        \<and> cstr n \<noteq> AUTH_SERVICE_MASTER_USERNAME
        \<and> (mustExist \<longleftrightarrow> cstr n \<in> dom (user_map (us_snapshot us)))
        \<and> st' = authService_DropSession st n \<and> us_storeMutex us' = Sem_Free \<and> user_inv (us_snapshot us')
        \<and> (\<exists>salt v. length salt = 16 \<and> pbkdf2_hmac c pw salt AUTH_SERVICE_USER_ITERATIONS = Some v
             \<and> user_map (us_snapshot us') = (user_map (us_snapshot us))(cstr n \<mapsto> new_user n role enabled salt v))"
proof -
  have us: "user_inv (us_snapshot us)" "us_storeMutex us = Sem_Free"
    using assms(1) by (simp_all add: auth_inv_def)
  obtain s2 salt t2 where rnd: "TlsPlatform_Random t USER_STORE_SALT_SIZE = (s2, salt, t2)"
    by (metis prod_cases3)
  obtain s3 v t3 where der: "authService_Derive c t2 pw salt AUTH_SERVICE_USER_ITERATIONS = (s3, v, t3)"
    by (metis prod_cases3)
  obtain s4 us2 f2 where put: "UserStore_Put us f (new_user n role enabled salt v) = (s4, us2, f2)"
    by (metis prod_cases3)
  have salt: "s2 = PLATFORM_STATUS_OK \<Longrightarrow> length salt = 16"
    using TlsPlatform_Random_length [of t USER_STORE_SALT_SIZE salt t2] rnd by (simp add: USER_STORE_SALT_SIZE_def)
  have v: "s3 = AUTH_SERVICE_STATUS_OK \<Longrightarrow> pbkdf2_hmac c pw salt AUTH_SERVICE_USER_ITERATIONS = Some v \<and> length v = 32"
    using der assms(2) by (auto simp: authService_Derive_def crypto_contract_def split: prod.splits if_splits option.splits)
  have stored: "user_inv (us_snapshot us2) \<and> us_storeMutex us2 = Sem_Free
    \<and> (s4 = PLATFORM_STATUS_OK
         \<and> user_map (us_snapshot us2) = (user_map (us_snapshot us))(cstr n \<mapsto> new_user n role enabled salt v)
       \<or> s4 = PLATFORM_STATUS_ERROR \<and> us2 = us)"
    if "s2 = PLATFORM_STATUS_OK" "s3 = AUTH_SERVICE_STATUS_OK" "length (cstr n) < 25"
    using UserStore_Put_spec [OF us _ put] salt v that by simp
  have eq: "(s, t', st', us', f') =
    (if ap_role actor \<noteq> USER_ROLE_ADMINISTRATOR \<or> length pw < 12 \<or> 128 < length pw \<or> 25 \<le> length (cstr n)
        \<or> cstr n = AUTH_SERVICE_MASTER_USERNAME then (AUTH_SERVICE_STATUS_FORBIDDEN, t, st, us, f)
     else if mustExist \<and> cstr n \<notin> dom (user_map (us_snapshot us)) then (AUTH_SERVICE_STATUS_NOT_FOUND, t, st, us, f)
     else if \<not> mustExist \<and> cstr n \<in> dom (user_map (us_snapshot us)) then (AUTH_SERVICE_STATUS_INVALID_ARGUMENT, t, st, us, f)
     else if s2 \<noteq> PLATFORM_STATUS_OK then (AUTH_SERVICE_STATUS_CRYPTO_ERROR, t2, st, us, f)
     else if s3 \<noteq> AUTH_SERVICE_STATUS_OK then (s3, t3, st, us, f)
     else if s4 = PLATFORM_STATUS_OK then (AUTH_SERVICE_STATUS_OK, t3, authService_DropSession st n, us2, f2)
     else (AUTH_SERVICE_STATUS_STORAGE_ERROR, t3, st, us2, f2))"
    unfolding assms(3) [symmetric] AuthService_PutUser_def UserStore_Find_map [OF us] Let_def
      new_user_def [symmetric] rnd
    by (simp add: der put authService_IsAdministrator_def AUTH_SERVICE_MIN_PASSWORD_LENGTH_def
        AUTH_SERVICE_MAX_PASSWORD_LENGTH_def USER_STORE_USERNAME_SIZE_def domIff split: option.split)
  show ?thesis
  proof (cases "s = AUTH_SERVICE_STATUS_OK")
    case True
    then have "ap_role actor = USER_ROLE_ADMINISTRATOR \<and> 12 \<le> length pw \<and> length pw \<le> 128
        \<and> length (cstr n) < 25 \<and> cstr n \<noteq> AUTH_SERVICE_MASTER_USERNAME
        \<and> (mustExist \<longleftrightarrow> cstr n \<in> dom (user_map (us_snapshot us)))
        \<and> s2 = PLATFORM_STATUS_OK \<and> s3 = AUTH_SERVICE_STATUS_OK \<and> s4 = PLATFORM_STATUS_OK
        \<and> st' = authService_DropSession st n \<and> us' = us2"
      using eq by (simp split: if_splits) blast
    then show ?thesis
      using stored salt v True by auto
  next
    case False
    then have "st' = st \<and> us' = us"
      using eq stored by (simp split: if_splits)
    then show ?thesis using False by simp
  qed
qed

lemma AuthService_DeleteUser_cases:
  assumes "auth_inv st us" and "AuthService_DeleteUser st us f actor n = (s, st', us', f')"
  shows "s \<noteq> AUTH_SERVICE_STATUS_OK \<and> st' = st \<and> us' = us
    \<or> s = AUTH_SERVICE_STATUS_OK \<and> ap_role actor = USER_ROLE_ADMINISTRATOR
        \<and> cstr n \<noteq> AUTH_SERVICE_MASTER_USERNAME \<and> cstr n \<in> dom (user_map (us_snapshot us))
        \<and> st' = authService_DropSession st n \<and> us_storeMutex us' = Sem_Free \<and> user_inv (us_snapshot us')
        \<and> user_map (us_snapshot us') = (user_map (us_snapshot us))(cstr n := None)"
proof -
  have us: "user_inv (us_snapshot us)" "us_storeMutex us = Sem_Free"
    using assms(1) by (simp_all add: auth_inv_def)
  obtain s2 us2 f2 where del: "UserStore_Delete us f n = (s2, us2, f2)"
    by (metis prod_cases3)
  show ?thesis
    using assms(2) UserStore_Delete_spec [OF us del]
    by (auto simp: AuthService_DeleteUser_def UserStore_Find_map [OF us] del authService_IsAdministrator_def
        split: if_splits option.splits)
qed

section \<open>Sequences of requests\<close>

datatype auth_command =
    Cmd_Login u32 string "u8 list"
  | Cmd_Refresh u32 string
  | Cmd_Authorize u32 string
  | Cmd_Revoke u32 string
  | Cmd_PutUser AuthService_PrincipalTypeDef string "u8 list" u8 u8 bool
  | Cmd_DeleteUser AuthService_PrincipalTypeDef string

type_synonym auth_world = "tls_platform \<times> auth_service \<times> user_store \<times> w25q64"

fun auth_step :: "auth_crypto \<Rightarrow> auth_world \<Rightarrow> auth_command \<Rightarrow> auth_world" where
  "auth_step c (t, st, us, f) (Cmd_Login now n pw) =
     (case AuthService_Login c now t st us n pw of (_, _, t', st', us') \<Rightarrow> (t', st', us', f))"
| "auth_step c (t, st, us, f) (Cmd_Refresh now token) =
     (case AuthService_Refresh c now t st token of (_, _, t', st') \<Rightarrow> (t', st', us, f))"
| "auth_step c (t, st, us, f) (Cmd_Authorize now token) =
     (case AuthService_Authorize c now st token of (_, _, st') \<Rightarrow> (t, st', us, f))"
| "auth_step c (t, st, us, f) (Cmd_Revoke now token) =
     (case AuthService_Revoke c now st token of (_, st') \<Rightarrow> (t, st', us, f))"
| "auth_step c (t, st, us, f) (Cmd_PutUser actor n pw role enabled mustExist) =
     snd (AuthService_PutUser c t st us f actor n pw role enabled mustExist)"
| "auth_step c (t, st, us, f) (Cmd_DeleteUser actor n) =
     (t, snd (AuthService_DeleteUser st us f actor n))"

definition auth_world_ok :: "auth_world \<Rightarrow> bool" where
  "auth_world_ok w = (case w of (t, st, us, f) \<Rightarrow> auth_inv st us)"

lemma auth_inv_PutUser:
  assumes "auth_inv st us" and "crypto_contract c"
    and "AuthService_PutUser c t st us f actor n pw role enabled mustExist = (s, t', st', us', f')"
  shows "auth_inv st' us'"
  using AuthService_PutUser_cases [OF assms] assms(1) sessions_ok_drop [of "us_snapshot us" st n "us_snapshot us'"]
  by (auto simp: auth_inv_def authService_DropSession_mutex split: if_splits)

lemma auth_inv_DeleteUser:
  assumes "auth_inv st us" and "AuthService_DeleteUser st us f actor n = (s, st', us', f')"
  shows "auth_inv st' us'"
  using AuthService_DeleteUser_cases [OF assms] assms(1) sessions_ok_drop [of "us_snapshot us" st n "us_snapshot us'"]
  by (auto simp: auth_inv_def authService_DropSession_mutex split: if_splits)

lemma auth_step_ok:
  assumes "crypto_contract c" and "auth_world_ok w"
  shows "auth_world_ok (auth_step c w cmd)"
proof -
  obtain t st us f where w: "w = (t, st, us, f)"
    by (metis prod_cases4)
  then have inv: "auth_inv st us"
    using assms(2) by (simp add: auth_world_ok_def)
  show ?thesis
  proof (cases cmd)
    case (Cmd_Authorize now token)
    then show ?thesis
      using inv AuthService_Authorize_cases [of c now st token]
      by (cases "AuthService_Authorize c now st token") (auto simp: w auth_world_ok_def auth_inv_def)
  next
    case (Cmd_PutUser actor n pw role enabled mustExist)
    then show ?thesis
      using auth_inv_PutUser [OF inv assms(1)]
      by (cases "AuthService_PutUser c t st us f actor n pw role enabled mustExist") (auto simp: w auth_world_ok_def)
  next
    case (Cmd_DeleteUser actor n)
    then show ?thesis
      using auth_inv_DeleteUser [OF inv]
      by (cases "AuthService_DeleteUser st us f actor n") (auto simp: w auth_world_ok_def)
  qed (auto simp: w auth_world_ok_def split: prod.split
      dest: auth_inv_Login [OF inv] auth_inv_Refresh [OF inv] auth_inv_Revoke [OF inv])
qed

lemma auth_steps_ok:
  assumes "crypto_contract c" and "auth_world_ok w"
  shows "auth_world_ok (foldl (auth_step c) w cmds)"
  using assms(2) by (induction cmds arbitrary: w) (simp_all add: auth_step_ok [OF assms(1)])

section \<open>Tokens\<close>

lemma length_authService_Hex [simp]: "length (authService_Hex bs) = 2 * length bs"
  by (induction bs) (simp_all add: authService_Hex_def)

lemma unat_nibble: "unat (b AND 0x0F :: u8) = unat b mod 16"
proof -
  have "b AND 0x0F = take_bit 4 b"
    by (simp add: take_bit_eq_mask mask_eq_exp_minus_1)
  then show ?thesis
    by (simp add: unat_mod take_bit_eq_mod)
qed

lemma unat_high_nibble: "unat (drop_bit 4 b :: u8) < 16"
proof -
  have "unat b < 16 * 16"
    using unat_u8_less [of b] by linarith
  then show ?thesis
    unfolding unat_drop_bit_div by (simp add: less_mult_imp_div_less)
qed

lemma hex_digit_not_NUL: "unat d < 16 \<Longrightarrow> hex_digit d \<noteq> NUL"
proof -
  assume "unat d < 16"
  then have "hex_digit d \<in> set ''0123456789abcdef''"
    unfolding hex_digit_def by (intro nth_mem) simp
  then show ?thesis
    by auto
qed

lemma cstr_authService_Hex [simp]: "cstr (authService_Hex bs) = authService_Hex bs"
proof (rule cstr_id)
  have "hex_digit (drop_bit 4 b) \<noteq> NUL" "hex_digit (b AND 0x0F) \<noteq> NUL" for b
    using hex_digit_not_NUL unat_high_nibble unat_nibble by simp_all
  then show "NUL \<notin> set (authService_Hex bs)"
    by (auto simp: authService_Hex_def) (metis)+
qed

lemma hardware_poll_words:
  "mbedtls_hardware_poll (map Some ws @ rest) (4 * length ws) = (True, concat (map le32 ws), rest)"
  by (induction ws) (subst mbedtls_hardware_poll.simps; simp add: Let_def)+

lemma TlsPlatform_Random_words:
  assumes "cryptoMutex t = Some d" and "rng_words t = map Some ws @ rest" and "len = 4 * length ws"
  shows "TlsPlatform_Random t len = (PLATFORM_STATUS_OK, concat (map le32 ws), t\<lparr>rng_words := rest\<rparr>)"
proof -
  have "length (concat (map le32 ws)) = 4 * length ws"
    by (induction ws) simp_all
  then show ?thesis
    using assms hardware_poll_words [of ws rest]
    by (cases t) (simp add: TlsPlatform_Random_def TlsPlatform_Lock_def TlsPlatform_Unlock_def)
qed

text \<open>An account with the right password always gets its tokens: there is always a session slot.\<close>

lemma AuthService_Login_succeeds:
  assumes "auth_inv st us" and "cryptoMutex t = Some d" and "rng_words t = map Some ws @ rest" and "length ws = 16"
    and "\<And>m. sha256 c m \<noteq> None" and "password_ok c (us_snapshot us) (cstr n) pw"
  shows "\<exists>tokens st'. AuthService_Login c now t st us n pw
    = (AUTH_SERVICE_STATUS_OK, Some tokens, t\<lparr>rng_words := rest\<rparr>, st', us)"
proof -
  have t: "rng_words t = map Some (take 8 ws) @ map Some (drop 8 ws) @ rest"
    by (metis append.assoc append_take_drop_id assms(3) map_append)
  have r1: "TlsPlatform_Random t 32 = (PLATFORM_STATUS_OK, concat (map le32 (take 8 ws)),
      t\<lparr>rng_words := map Some (drop 8 ws) @ rest\<rparr>)"
    using TlsPlatform_Random_words [OF assms(2) t] assms(4) by simp
  have r2: "TlsPlatform_Random (t\<lparr>rng_words := map Some (drop 8 ws) @ rest\<rparr>) 32
      = (PLATFORM_STATUS_OK, concat (map le32 (drop 8 ws)), t\<lparr>rng_words := rest\<rparr>)"
    using TlsPlatform_Random_words [of "t\<lparr>rng_words := map Some (drop 8 ws) @ rest\<rparr>" d "drop 8 ws" rest] assms(2,4)
    by simp
  have "cstr n = AUTH_SERVICE_MASTER_USERNAME \<or> cstr n \<in> dom (user_map (us_snapshot us))"
    using assms(6) by (auto simp: password_ok_def split: if_splits option.splits)
  then obtain i where i: "authService_FindSession (sessions st) n = Some i"
    using FindSession_total [of "us_snapshot us" "sessions st" n] assms(1) by (auto simp: auth_inv_def)
  have h: "\<exists>x. authService_HashToken c m = Some x" for m
    using assms(5) by (simp add: authService_HashToken_def)
  obtain x where x: "authService_HashToken c (authService_Hex (concat (map le32 (take 8 ws)))) = Some x"
    using h by blast
  obtain y where y: "authService_HashToken c (authService_Hex (concat (map le32 (drop 8 ws)))) = Some y"
    using h by blast
  show ?thesis
    unfolding AuthService_Login_issue [OF assms(1,2,6)]
    by (simp add: authService_Issue_def AUTH_SERVICE_TOKEN_BYTES_def r1 r2 i x y)
qed

section \<open>Properties\<close>

text \<open>
  C4: after any sequence of logins, refreshes, revocations and account changes, with any flash
  and random-number faults, a token that is accepted belongs to the master account or to a user
  who is in the store now, is enabled now, and has exactly the role reported: disabling,
  demoting or deleting a user takes effect on sessions that are already open. The access digest
  of the accepted token was issued at most 900 s ago as the wrapping millisecond clock counts,
  that is, modulo 2^32 ms: a session untouched for that long has its token accepted again.
\<close>

theorem AuthService_Authorize_current:
  assumes "crypto_contract c" and "auth_world_ok w"
    and "foldl (auth_step c) w cmds = (t, st, us, f)"
    and "AuthService_Authorize c now st token = (AUTH_SERVICE_STATUS_OK, Some p, st')"
  shows "auth_inv st us \<and> st' = st \<and> account_role (us_snapshot us) (cstr (ap_username p)) (ap_role p)
    \<and> (\<exists>s\<in>set (sessions st). as_active s \<and> session_key s = cstr (ap_username p)
         \<and> authService_HashToken c token = Some (as_accessDigest s)
         \<and> unat (now - as_accessIssuedAt s) \<le> 900000)"
proof -
  have inv: "auth_inv st us"
    using auth_steps_ok [OF assms(1,2), of cmds] assms(3) by (simp add: auth_world_ok_def)
  then obtain i where st: "st' = st" and i: "i < length (sessions st)" "as_active (sessions st ! i)"
    "authService_HashToken c token = Some (as_accessDigest (sessions st ! i))"
    "now - as_accessIssuedAt (sessions st ! i) \<le> 900000"
    "p = \<lparr>ap_username = (strncpy (replicate 25 NUL) (as_username (sessions st ! i)) 25)[24 := NUL],
          ap_role = as_role (sessions st ! i)\<rparr>"
    using AuthService_Authorize_cases [OF assms(4)] by (auto simp: auth_inv_def)
  note s = auth_inv_session [OF inv nth_mem [OF i(1)] i(2)]
  have "unat (now - as_accessIssuedAt (sessions st ! i)) \<le> 900000"
    using i(4) by (simp add: word_le_nat_alt)
  moreover have "cstr (ap_username p) = session_key (sessions st ! i)" "ap_role p = as_role (sessions st ! i)"
    using i(5) session_name_out [OF s(2)] by simp_all
  ultimately show ?thesis
    using inv st i s nth_mem [OF i(1)] by metis
qed

definition idle_auth :: auth_service where
  "idle_auth = \<lparr>sessions = replicate 9 zero_session, sessionMutex = Sem_Free\<rparr>"

text \<open>A stand-in for the crypto library, to apply the properties at a concrete input.\<close>

definition sample_crypto :: auth_crypto where
  "sample_crypto = \<lparr>pbkdf2_hmac = (\<lambda>pw salt it. Some (if pw = replicate 12 7 then masterPasswordVerifier
       else take 32 (pw @ replicate 32 0))),
     sha256 = (\<lambda>m. Some (take 32 (m @ replicate 32 0)))\<rparr>"

definition sample_platform :: tls_platform where
  "sample_platform = \<lparr>cryptoMutex = Some 0, rng_words = replicate 16 (Some 5)\<rparr>"

lemma sample_crypto_contract: "crypto_contract sample_crypto"
  by (auto simp: crypto_contract_def sample_crypto_def masterPasswordVerifier_def)

lemma idle_auth_inv: "auth_inv idle_auth empty_user_store"
  using user_inv_zero empty_user_map
  by (simp add: auth_inv_def idle_auth_def empty_user_store_def sessions_ok_def auth_constants zero_session_def)

lemma sample_master_password:
  "password_ok sample_crypto (us_snapshot empty_user_store) (cstr ''master'') (replicate 12 7)"
  by (simp add: password_ok_def sample_crypto_def AUTH_SERVICE_MASTER_USERNAME_def cstr_def)

lemma sample_login:
  "\<exists>tokens st'. AuthService_Login sample_crypto 0 sample_platform idle_auth empty_user_store ''master'' (replicate 12 7)
    = (AUTH_SERVICE_STATUS_OK, Some tokens, sample_platform\<lparr>rng_words := []\<rparr>, st', empty_user_store)"
  using AuthService_Login_succeeds [OF idle_auth_inv, of sample_platform 0 "replicate 16 5" "[]" sample_crypto]
    sample_master_password
  by (simp add: sample_platform_def sample_crypto_def)

text \<open>
  The round trip of a login: the new session is found again by its access token for 900 s, and
  not after. The fresh token must not collide with the token of another open session.
\<close>

lemma issued_session_found:
  assumes "i < length ss" and "as_accessDigest s = digest" and "as_active s" and "as_accessIssuedAt s = now"
    and "\<And>s. s \<in> set ss \<Longrightarrow> as_active s \<Longrightarrow> as_accessDigest s \<noteq> digest" and "e < 2 ^ 32"
  shows "find_index (\<lambda>s. as_active s \<and> (now + of_nat e) - as_accessIssuedAt s \<le> AUTH_SERVICE_ACCESS_LIFETIME_SEC * 1000
      \<and> digest = as_accessDigest s) (ss[i := s]) = (if e \<le> 900000 then Some i else None)"
proof -
  have e: "(now + of_nat e) - now \<le> AUTH_SERVICE_ACCESS_LIFETIME_SEC * 1000 \<longleftrightarrow> e \<le> 900000"
    using elapsed_ticks [OF assms(6), of now]
    by (simp add: word_le_nat_alt AUTH_SERVICE_ACCESS_LIFETIME_SEC_def)
  have other: "j = i" if "j < length ss" "as_active (ss[i := s] ! j)" "digest = as_accessDigest (ss[i := s] ! j)" for j
    using that assms(5) [of "ss ! j"] by (cases "j = i") auto
  show ?thesis
  proof (cases "e \<le> 900000")
    case True
    then show ?thesis
      using assms e other by (simp, intro find_index_unique) auto
  next
    case False
    have "\<not> (as_active x \<and> (now + of_nat e) - as_accessIssuedAt x \<le> AUTH_SERVICE_ACCESS_LIFETIME_SEC * 1000
        \<and> digest = as_accessDigest x)" if "x \<in> set (ss[i := s])" for x
      using that assms(4) assms(5) [of x] set_update_subset_insert [of ss i s] False e by (cases "x = s") auto
    then show ?thesis
      using False by (simp only: find_index_None if_False) blast
  qed
qed

lemma login_session:
  assumes "auth_inv st us" and "cryptoMutex t = Some d"
    and "AuthService_Login c now t st us n pw = (AUTH_SERVICE_STATUS_OK, Some tokens, t', st', us')"
  shows "\<exists>a r da dr i. password_ok c (us_snapshot us) (cstr n) pw \<and> tokens = token_pair a r
    \<and> length a = 32 \<and> length r = 32 \<and> authService_HashToken c (authService_Hex a) = Some da
    \<and> authService_HashToken c (authService_Hex r) = Some dr
    \<and> i < length (sessions st) \<and> authService_FindSession (sessions st) n = Some i \<and> us' = us
    \<and> st' = st\<lparr>sessions := (sessions st)[i := new_session now n (account_role_of (us_snapshot us) (cstr n)) da dr]\<rparr>"
proof -
  have ok: "password_ok c (us_snapshot us) (cstr n) pw"
    using AuthService_Login_refused [OF assms(1), of t c n pw now] assms(3) by auto
  obtain s1 tk t1 st1 where issue: "authService_Issue c now t (st\<lparr>sessionMutex := Sem_Held\<rparr>) n
      (account_role_of (us_snapshot us) (cstr n)) = (s1, tk, t1, st1)"
    by (metis prod_cases4)
  have "s1 = AUTH_SERVICE_STATUS_OK" "tk = Some tokens" "st' = st1\<lparr>sessionMutex := Sem_Free\<rparr>" "us' = us"
    using AuthService_Login_issue [OF assms(1,2) ok, of now] issue assms(3) by simp_all
  moreover from this obtain a r da dr i where "tokens = token_pair a r" "length a = 32" "length r = 32"
    "authService_HashToken c (authService_Hex a) = Some da" "authService_HashToken c (authService_Hex r) = Some dr"
    "authService_FindSession (sessions st) n = Some i"
    "st1 = st\<lparr>sessionMutex := Sem_Held,
       sessions := (sessions st)[i := new_session now n (account_role_of (us_snapshot us) (cstr n)) da dr]\<rparr>"
    using authService_Issue_cases [OF issue] by auto
  moreover have "st\<lparr>sessionMutex := Sem_Held, sessions := ss, sessionMutex := Sem_Free\<rparr> = st\<lparr>sessions := ss\<rparr>" for ss
    using assms(1) by (cases st) (simp add: auth_inv_def)
  ultimately show ?thesis
    using ok authService_FindSession_cases(1) [of "sessions st" n]
    by (intro exI [of _ a] exI [of _ r] exI [of _ da] exI [of _ dr] exI [of _ i]) simp
qed

lemma login_authorizes:
  assumes "auth_inv st us" and "cryptoMutex t = Some d"
    and "AuthService_Login c now t st us n pw = (AUTH_SERVICE_STATUS_OK, Some tokens, t', st', us')"
    and "\<And>s. s \<in> set (sessions st) \<Longrightarrow> as_active s \<Longrightarrow>
      authService_HashToken c (accessToken tokens) \<noteq> Some (as_accessDigest s)"
    and "e < 2 ^ 32"
  shows "password_ok c (us_snapshot us) (cstr n) pw
    \<and> (if e \<le> 900000
       then \<exists>p. AuthService_Authorize c (now + of_nat e) st' (accessToken tokens) = (AUTH_SERVICE_STATUS_OK, Some p, st')
              \<and> cstr (ap_username p) = cstr n \<and> ap_role p = account_role_of (us_snapshot us) (cstr n)
       else AuthService_Authorize c (now + of_nat e) st' (accessToken tokens)
              = (AUTH_SERVICE_STATUS_INVALID_PASSWORD, None, st'))"
proof -
  let ?role = "account_role_of (us_snapshot us) (cstr n)"
  obtain a r da dr i where l: "password_ok c (us_snapshot us) (cstr n) pw" "tokens = token_pair a r" "length a = 32"
    "authService_HashToken c (authService_Hex a) = Some da" "i < length (sessions st)"
    "st' = st\<lparr>sessions := (sessions st)[i := new_session now n ?role da dr]\<rparr>"
    using login_session [OF assms(1-3)] by blast
  have short: "length (cstr n) < 25"
    using account_role_short [OF assms(1) password_ok_account [OF l(1)]] .
  have mutex: "sessionMutex st = Sem_Free" "st'\<lparr>sessionMutex := Sem_Free\<rparr> = st'"
    using assms(1) l(6) by (cases st; simp add: auth_inv_def)+
  have token: "accessToken tokens = authService_Hex a" "length (cstr (accessToken tokens)) = 64"
    using l(2,3) by (simp_all add: token_pair_def)
  have fresh: "as_accessDigest s \<noteq> da" if "s \<in> set (sessions st)" "as_active s" for s
    using assms(4) [OF that] l(4) token(1) by auto
  note found = issued_session_found [OF l(5), of "new_session now n ?role da dr" da now e]
  have "find_index (\<lambda>s. as_active s \<and> (now + of_nat e) - as_accessIssuedAt s \<le> AUTH_SERVICE_ACCESS_LIFETIME_SEC * 1000
      \<and> da = as_accessDigest s) (sessions st') = (if e \<le> 900000 then Some i else None)"
    using found fresh assms(5) l(6) by simp
  then show ?thesis
    using l(1,4,5,6) mutex token short
    by (auto simp: AuthService_Authorize_def Let_def AUTH_SERVICE_TOKEN_TEXT_SIZE_def session_name_out)
qed

text \<open>
  C10: a login succeeds only with the right password of the master account or of an enabled user,
  and the access token it returns then authorizes exactly that account, with its role, at any
  time up to 900 s later (the millisecond clock may wrap in between) and is refused from then on
  until 2^32 ms have passed since the login. No other open session has the same token digest.
\<close>

theorem AuthService_Login_roundtrip:
  assumes "auth_inv st us" and "cryptoMutex t = Some d"
    and "AuthService_Login c now t st us n pw = (AUTH_SERVICE_STATUS_OK, Some tokens, t', st', us')"
    and "\<And>s. s \<in> set (sessions st) \<Longrightarrow> as_active s \<Longrightarrow>
      authService_HashToken c (accessToken tokens) \<noteq> Some (as_accessDigest s)"
    and "e < 2 ^ 32"
  shows "password_ok c (us_snapshot us) (cstr n) pw
    \<and> (if e \<le> 900000
       then \<exists>p. AuthService_Authorize c (now + of_nat e) st' (accessToken tokens) = (AUTH_SERVICE_STATUS_OK, Some p, st')
              \<and> cstr (ap_username p) = cstr n \<and> ap_role p = account_role_of (us_snapshot us) (cstr n)
       else AuthService_Authorize c (now + of_nat e) st' (accessToken tokens)
              = (AUTH_SERVICE_STATUS_INVALID_PASSWORD, None, st'))"
  by (rule login_authorizes [OF assms])

theorem AuthService_Login_roundtrip_witness:
  "\<exists>tokens t' st' us' p.
     AuthService_Login sample_crypto 0 sample_platform idle_auth empty_user_store ''master'' (replicate 12 7)
       = (AUTH_SERVICE_STATUS_OK, Some tokens, t', st', us')
     \<and> AuthService_Authorize sample_crypto 900000 st' (accessToken tokens) = (AUTH_SERVICE_STATUS_OK, Some p, st')
     \<and> cstr (ap_username p) = ''master''
     \<and> AuthService_Authorize sample_crypto 900001 st' (accessToken tokens)
       = (AUTH_SERVICE_STATUS_INVALID_PASSWORD, None, st')"
proof -
  obtain tokens st' where login: "AuthService_Login sample_crypto 0 sample_platform idle_auth empty_user_store
      ''master'' (replicate 12 7)
    = (AUTH_SERVICE_STATUS_OK, Some tokens, sample_platform\<lparr>rng_words := []\<rparr>, st', empty_user_store)"
    using sample_login by blast
  have m: "cryptoMutex sample_platform = Some 0"
    by (simp add: sample_platform_def)
  have fresh: "\<not> as_active s" if "s \<in> set (sessions idle_auth)" for s
    using that by (auto simp: idle_auth_def zero_session_def)
  have "cstr ''master'' = ''master''"
    by (simp add: cstr_def)
  then show ?thesis
    using AuthService_Login_roundtrip [OF idle_auth_inv m login, of 900000]
      AuthService_Login_roundtrip [OF idle_auth_inv m login, of 900001] fresh login
    by fastforce
qed

theorem AuthService_Authorize_current_witness:
  "\<exists>t st us f token p. foldl (auth_step sample_crypto) (sample_platform, idle_auth, empty_user_store, blank_flash)
       [Cmd_Login 0 ''master'' (replicate 12 7)] = (t, st, us, f)
     \<and> AuthService_Authorize sample_crypto 5 st token = (AUTH_SERVICE_STATUS_OK, Some p, st)
     \<and> account_role (us_snapshot us) (cstr (ap_username p)) (ap_role p)"
proof -
  obtain tokens st' where login: "AuthService_Login sample_crypto 0 sample_platform idle_auth empty_user_store
      ''master'' (replicate 12 7)
    = (AUTH_SERVICE_STATUS_OK, Some tokens, sample_platform\<lparr>rng_words := []\<rparr>, st', empty_user_store)"
    using sample_login by blast
  have m: "cryptoMutex sample_platform = Some 0"
    by (simp add: sample_platform_def)
  have fresh: "\<not> as_active s" if "s \<in> set (sessions idle_auth)" for s
    using that by (auto simp: idle_auth_def zero_session_def)
  obtain p where p: "AuthService_Authorize sample_crypto 5 st' (accessToken tokens) = (AUTH_SERVICE_STATUS_OK, Some p, st')"
    using login_authorizes [OF idle_auth_inv m login, of 5] fresh by auto
  have w: "auth_world_ok (sample_platform, idle_auth, empty_user_store, blank_flash)"
    using idle_auth_inv by (simp add: auth_world_ok_def)
  have run: "foldl (auth_step sample_crypto) (sample_platform, idle_auth, empty_user_store, blank_flash)
      [Cmd_Login 0 ''master'' (replicate 12 7)] = (sample_platform\<lparr>rng_words := []\<rparr>, st', empty_user_store, blank_flash)"
    using login by (simp del: replicate.simps)
  show ?thesis
    using AuthService_Authorize_current [OF sample_crypto_contract w run p] run p by blast
qed

text \<open>
  C28: logging in cannot be starved: the master account and every enabled user with the right
  password gets tokens, whoever else is logged in, as long as the random source and SHA-256
  deliver; the nine session slots are enough for eight users and the master.
\<close>

theorem AuthService_Login_live:
  assumes "auth_inv st us" and "cryptoMutex t = Some d" and "rng_words t = map Some ws @ rest" and "length ws = 16"
    and "\<And>m. sha256 c m \<noteq> None" and "password_ok c (us_snapshot us) (cstr n) pw"
  shows "\<exists>tokens st'. AuthService_Login c now t st us n pw
    = (AUTH_SERVICE_STATUS_OK, Some tokens, t\<lparr>rng_words := rest\<rparr>, st', us)"
  by (rule AuthService_Login_succeeds [OF assms])

theorem AuthService_Login_live_witness:
  "\<exists>tokens st'. AuthService_Login sample_crypto 4294967295 sample_platform idle_auth empty_user_store
      ''master'' (replicate 12 7)
    = (AUTH_SERVICE_STATUS_OK, Some tokens, sample_platform\<lparr>rng_words := []\<rparr>, st', empty_user_store)"
  using AuthService_Login_live [OF idle_auth_inv, of sample_platform 0 "replicate 16 5" "[]" sample_crypto]
    sample_master_password
  by (simp add: sample_platform_def sample_crypto_def)

text \<open>
  Creating or updating a user, with any flash and random faults, either changes nothing and
  reports why, or was requested by an administrator for a name other than the master's with an
  acceptable password, stores exactly that account with a fresh verifier of the password, leaves
  all other accounts alone, and leaves no open session of that user.
\<close>

theorem AuthService_PutUser_outcome:
  assumes "auth_inv st us" and "crypto_contract c"
    and "AuthService_PutUser c t st us f actor n pw role enabled mustExist = (s, t', st', us', f')"
  shows "auth_inv st' us' \<and>
    (s \<noteq> AUTH_SERVICE_STATUS_OK \<and> st' = st \<and> us' = us
     \<or> s = AUTH_SERVICE_STATUS_OK \<and> ap_role actor = USER_ROLE_ADMINISTRATOR
        \<and> cstr n \<noteq> AUTH_SERVICE_MASTER_USERNAME \<and> 12 \<le> length pw \<and> length pw \<le> 128
        \<and> (mustExist \<longleftrightarrow> cstr n \<in> dom (user_map (us_snapshot us)))
        \<and> (\<exists>salt v. pbkdf2_hmac c pw salt AUTH_SERVICE_USER_ITERATIONS = Some v
             \<and> user_map (us_snapshot us') = (user_map (us_snapshot us))(cstr n \<mapsto> new_user n role enabled salt v))
        \<and> (\<forall>x\<in>set (sessions st'). as_active x \<longrightarrow> session_key x \<noteq> cstr n))"
  using AuthService_PutUser_cases [OF assms] auth_inv_PutUser [OF assms] assms(1)
    dropped_session_gone [of "us_snapshot us" st _ n]
  unfolding auth_inv_def by blast

theorem AuthService_PutUser_outcome_witness:
  "us_storeMutex (fst (snd (snd (snd (AuthService_PutUser sample_crypto sample_platform idle_auth empty_user_store
     blank_flash \<lparr>ap_username = ''master'', ap_role = 1\<rparr> ''bob'' (replicate 12 9) 0 1 False))))) = Sem_Free"
proof -
  obtain s t' st' us' f' where put: "AuthService_PutUser sample_crypto sample_platform idle_auth empty_user_store
     blank_flash \<lparr>ap_username = ''master'', ap_role = 1\<rparr> ''bob'' (replicate 12 9) 0 1 False = (s, t', st', us', f')"
    by (metis prod_cases5)
  show ?thesis
    using AuthService_PutUser_outcome [OF idle_auth_inv sample_crypto_contract put] put
    by (simp add: auth_inv_def)
qed

text \<open>
  Deleting a user either changes nothing and reports why, or was requested by an
  administrator for an existing account other than the master's, removes exactly that account,
  and leaves no open session of that user.
\<close>

theorem AuthService_DeleteUser_outcome:
  assumes "auth_inv st us" and "AuthService_DeleteUser st us f actor n = (s, st', us', f')"
  shows "auth_inv st' us' \<and>
    (s \<noteq> AUTH_SERVICE_STATUS_OK \<and> st' = st \<and> us' = us
     \<or> s = AUTH_SERVICE_STATUS_OK \<and> ap_role actor = USER_ROLE_ADMINISTRATOR
        \<and> cstr n \<noteq> AUTH_SERVICE_MASTER_USERNAME \<and> cstr n \<in> dom (user_map (us_snapshot us))
        \<and> user_map (us_snapshot us') = (user_map (us_snapshot us))(cstr n := None)
        \<and> (\<forall>x\<in>set (sessions st'). as_active x \<longrightarrow> session_key x \<noteq> cstr n))"
  using AuthService_DeleteUser_cases [OF assms] auth_inv_DeleteUser [OF assms] assms(1)
    dropped_session_gone [of "us_snapshot us" st _ n]
  unfolding auth_inv_def by blast

theorem AuthService_DeleteUser_outcome_witness:
  "AuthService_DeleteUser idle_auth empty_user_store blank_flash \<lparr>ap_username = ''bob'', ap_role = 0\<rparr> ''alice''
     = (AUTH_SERVICE_STATUS_FORBIDDEN, idle_auth, empty_user_store, blank_flash)
   \<and> auth_inv idle_auth empty_user_store"
proof -
  have del: "AuthService_DeleteUser idle_auth empty_user_store blank_flash \<lparr>ap_username = ''bob'', ap_role = 0\<rparr> ''alice''
     = (AUTH_SERVICE_STATUS_FORBIDDEN, idle_auth, empty_user_store, blank_flash)"
    by (simp add: AuthService_DeleteUser_def authService_IsAdministrator_def USER_ROLE_ADMINISTRATOR_def)
  show ?thesis
    using AuthService_DeleteUser_outcome [OF idle_auth_inv del] del by simp
qed

text \<open>How a refresh moves the table: the session that owns the token is replaced in place.\<close>

lemma FindSession_active:
  assumes "sessions_ok x ss" and "i < length ss" and "as_active (ss ! i)" and "cstr n = session_key (ss ! i)"
  shows "authService_FindSession ss n = Some i"
proof -
  have "find_index (\<lambda>s. as_active s \<and> session_key s = cstr n) ss = Some i"
    using assms sessions_ok_unique [OF assms(1) _ assms(2) _ assms(3)] by (intro find_index_unique) auto
  then show ?thesis
    by (simp add: authService_FindSession_def)
qed

lemma AuthService_Refresh_cases:
  assumes "auth_inv st us" and "AuthService_Refresh c now t st token = (AUTH_SERVICE_STATUS_OK, Some tokens, t', st')"
  shows "\<exists>i da dr. i < length (sessions st) \<and> as_active (sessions st ! i)
    \<and> authService_HashToken c token = Some (as_refreshDigest (sessions st ! i))
    \<and> unat (now - as_refreshIssuedAt (sessions st ! i)) \<le> 604800000
    \<and> authService_HashToken c (accessToken tokens) = Some da
    \<and> authService_HashToken c (refreshToken tokens) = Some dr
    \<and> sessions st' = (sessions st)[i := new_session now
        ((strncpy (replicate 25 NUL) (as_username (sessions st ! i)) 25)[24 := NUL]) (as_role (sessions st ! i)) da dr]"
proof -
  have mutex: "sessionMutex st = Sem_Free"
    using assms(1) by (simp add: auth_inv_def)
  obtain i where i: "i < length (sessions st)" "as_active (sessions st ! i)"
    "authService_HashToken c token = Some (as_refreshDigest (sessions st ! i))"
    "now - as_refreshIssuedAt (sessions st ! i) \<le> AUTH_SERVICE_REFRESH_LIFETIME_SEC * 1000"
    and r: "\<exists>st1. authService_Issue c now t (st\<lparr>sessionMutex := Sem_Held\<rparr>)
        ((strncpy (replicate 25 NUL) (as_username (sessions st ! i)) 25)[24 := NUL]) (as_role (sessions st ! i))
      = (AUTH_SERVICE_STATUS_OK, Some tokens, t', st1) \<and> sessions st' = sessions st1"
    using assms(2) mutex
    by (auto simp: AuthService_Refresh_def Let_def split: if_splits option.splits prod.splits dest!: find_index_Some)
  let ?n = "(strncpy (replicate 25 NUL) (as_username (sessions st ! i)) 25)[24 := NUL]"
  have "cstr ?n = session_key (sessions st ! i)"
    using auth_inv_session(2) [OF assms(1) nth_mem [OF i(1)] i(2)] by (rule session_name_out)
  then have "authService_FindSession (sessions st) ?n = Some i"
    using FindSession_active [OF _ i(1,2)] assms(1) unfolding auth_inv_def by blast
  moreover have "unat (now - as_refreshIssuedAt (sessions st ! i)) \<le> 604800000"
    using i(4) by (simp add: AUTH_SERVICE_REFRESH_LIFETIME_SEC_def word_le_nat_alt)
  ultimately show ?thesis
    using i(1-3) r by (auto dest!: authService_Issue_cases simp: token_pair_def)
qed

text \<open>
  A refresh succeeds only with the refresh token of an open session that is at most seven
  days old, and rotates it: the same account with the same role gets new access and refresh
  digests, no other session of that account is left, so the old tokens are no longer in the
  table, and the sessions of the other accounts are untouched.
\<close>

theorem AuthService_Refresh_rotates:
  assumes "auth_inv st us" and "AuthService_Refresh c now t st token = (AUTH_SERVICE_STATUS_OK, Some tokens, t', st')"
  shows "\<exists>s\<in>set (sessions st). \<exists>s'\<in>set (sessions st'). as_active s \<and> as_active s'
    \<and> authService_HashToken c token = Some (as_refreshDigest s)
    \<and> unat (now - as_refreshIssuedAt s) \<le> 604800000
    \<and> session_key s' = session_key s \<and> as_role s' = as_role s
    \<and> authService_HashToken c (accessToken tokens) = Some (as_accessDigest s')
    \<and> authService_HashToken c (refreshToken tokens) = Some (as_refreshDigest s')
    \<and> (\<forall>x. as_active x \<longrightarrow>
         (x \<in> set (sessions st') \<longleftrightarrow> (if session_key x = session_key s then x = s' else x \<in> set (sessions st))))"
proof -
  obtain i da dr where i: "i < length (sessions st)" "as_active (sessions st ! i)"
    "authService_HashToken c token = Some (as_refreshDigest (sessions st ! i))"
    "unat (now - as_refreshIssuedAt (sessions st ! i)) \<le> 604800000"
    "authService_HashToken c (accessToken tokens) = Some da" "authService_HashToken c (refreshToken tokens) = Some dr"
    "sessions st' = (sessions st)[i := new_session now
        ((strncpy (replicate 25 NUL) (as_username (sessions st ! i)) 25)[24 := NUL]) (as_role (sessions st ! i)) da dr]"
    using AuthService_Refresh_cases [OF assms] by blast
  let ?s = "sessions st ! i"
  define s' where "s' = new_session now ((strncpy (replicate 25 NUL) (as_username ?s) 25)[24 := NUL]) (as_role ?s) da dr"
  have short: "length (session_key ?s) < 25"
    using auth_inv_session(2) [OF assms(1) nth_mem [OF i(1)] i(2)] .
  have s': "as_active s'" "session_key s' = session_key ?s" "as_role s' = as_role ?s"
    "as_accessDigest s' = da" "as_refreshDigest s' = dr"
    using session_name_out [OF short] short unfolding s'_def by simp_all
  have table: "sessions st' = (sessions st)[i := s']"
    using i(7) by (simp add: s'_def)
  have mem: "s' \<in> set (sessions st')"
    using table i(1) by (simp add: set_update_memI)
  have "x \<in> set (sessions st') \<longleftrightarrow> (if session_key x = session_key ?s then x = s' else x \<in> set (sessions st))"
    if "as_active x" for x
  proof -
    have "sessions_ok (us_snapshot us) (sessions st)"
      using assms(1) by (simp add: auth_inv_def)
    then have only: "j = i" if "j < length (sessions st)" "as_active (sessions st ! j)"
      "session_key (sessions st ! j) = session_key ?s" for j
      using sessions_ok_unique that i(1,2) by blast
    show ?thesis
      using that only s'(2) mem i(1) unfolding table in_set_conv_nth length_list_update
      by (metis nth_list_update)
  qed
  then show ?thesis
    using i mem s' by (intro bexI [of _ ?s] bexI [of _ s']) auto
qed

definition sample_session :: AuthService_SessionTypeDef where
  "sample_session = zero_session\<lparr>as_active := True, as_role := 1, as_username := ''master'' @ replicate 19 NUL,
     as_accessDigest := replicate 32 97, as_refreshDigest := replicate 32 98\<rparr>"

definition busy_auth :: auth_service where
  "busy_auth = \<lparr>sessions = sample_session # replicate 8 zero_session, sessionMutex = Sem_Free\<rparr>"

lemma busy_auth_inv: "auth_inv busy_auth empty_user_store"
proof -
  have "sessions_ok (us_snapshot empty_user_store) (sessions idle_auth)"
    using idle_auth_inv by (simp add: auth_inv_def)
  moreover have "authService_FindSession (sessions idle_auth) ''master'' = Some 0"
    by code_simp
  moreover have "cstr (''master'' @ replicate 19 NUL) = ''master''" "cstr ''master'' = ''master''"
    by (simp_all add: cstr_def)
  ultimately have "sessions_ok (us_snapshot empty_user_store) ((sessions idle_auth)[0 := sample_session])"
    by (intro sessions_ok_issue)
      (auto simp: sample_session_def account_role_def AUTH_SERVICE_MASTER_USERNAME_def USER_ROLE_ADMINISTRATOR_def)
  moreover have "(sessions idle_auth)[0 := sample_session] = sessions busy_auth"
    by (simp add: idle_auth_def busy_auth_def numeral_eq_Suc)
  ultimately show ?thesis
    using idle_auth_inv by (simp add: auth_inv_def busy_auth_def)
qed

theorem AuthService_Refresh_rotates_witness:
  "\<exists>tokens t' st'. AuthService_Refresh sample_crypto 604800000 sample_platform busy_auth (replicate 64 CHR ''b'')
      = (AUTH_SERVICE_STATUS_OK, Some tokens, t', st')
    \<and> (\<exists>s\<in>set (sessions st'). as_active s \<and> authService_HashToken sample_crypto (accessToken tokens) = Some (as_accessDigest s))"
proof -
  have "(case AuthService_Refresh sample_crypto 604800000 sample_platform busy_auth (replicate 64 CHR ''b'') of
     (s, tk, _) \<Rightarrow> s = AUTH_SERVICE_STATUS_OK \<and> tk \<noteq> None)"
    by code_simp
  then obtain tokens t' st' where r: "AuthService_Refresh sample_crypto 604800000 sample_platform busy_auth
      (replicate 64 CHR ''b'') = (AUTH_SERVICE_STATUS_OK, Some tokens, t', st')"
    by (auto split: prod.splits)
  show ?thesis
    using AuthService_Refresh_rotates [OF busy_auth_inv r] r by blast
qed

text \<open>
  Revoking with an accepted access token closes the session of exactly that account: no
  active session with its name is left and every other session is untouched. A token that is not
  accepted changes nothing.
\<close>

theorem AuthService_Revoke_closes:
  assumes "auth_inv st us" and "AuthService_Authorize c now st token = (s, who, st1)"
  shows "case who of
      None \<Rightarrow> AuthService_Revoke c now st token = (s, st) \<and> s \<noteq> AUTH_SERVICE_STATUS_OK
    | Some p \<Rightarrow> \<exists>st'. AuthService_Revoke c now st token = (AUTH_SERVICE_STATUS_OK, st') \<and> auth_inv st' us
        \<and> (\<forall>x. as_active x \<longrightarrow> (x \<in> set (sessions st') \<longleftrightarrow>
              x \<in> set (sessions st) \<and> session_key x \<noteq> cstr (ap_username p)))"
proof (cases who)
  case None
  then show ?thesis
    using AuthService_Authorize_cases [OF assms(2)] assms by (auto simp: AuthService_Revoke_def auth_inv_def)
next
  case (Some p)
  have ok: "sessions_ok (us_snapshot us) (sessions st)" and mutex: "sessionMutex st = Sem_Free"
    using assms(1) by (simp_all add: auth_inv_def)
  obtain i where i: "s = AUTH_SERVICE_STATUS_OK" "st1 = st" "i < length (sessions st)" "as_active (sessions st ! i)"
    "ap_username p = (strncpy (replicate 25 NUL) (as_username (sessions st ! i)) 25)[24 := NUL]"
    using AuthService_Authorize_cases [OF assms(2) mutex] Some by auto
  have key: "cstr (ap_username p) = session_key (sessions st ! i)"
    using session_name_out [OF auth_inv_session(2) [OF assms(1) nth_mem [OF i(3)] i(4)]] i(5) by simp
  then have find: "authService_FindSession (sessions st) (ap_username p) = Some i"
    using FindSession_active [OF ok i(3,4)] by simp
  define st' where "st' = st\<lparr>sessions := (sessions st)[i := zero_session]\<rparr>"
  have rev: "AuthService_Revoke c now st token = (AUTH_SERVICE_STATUS_OK, st')"
    using assms(2) i(1,2) Some find mutex by (cases st) (simp add: AuthService_Revoke_def st'_def)
  have only: "j = i" if "j < length (sessions st)" "as_active (sessions st ! j)"
    "session_key (sessions st ! j) = session_key (sessions st ! i)" for j
    using sessions_ok_unique [OF ok] that i(3,4) by blast
  have "\<not> as_active zero_session"
    by (simp add: zero_session_def)
  then have "x \<in> set (sessions st') \<longleftrightarrow> x \<in> set (sessions st) \<and> session_key x \<noteq> cstr (ap_username p)"
    if "as_active x" for x
    using that only i(3) key unfolding st'_def in_set_conv_nth
    by (simp, metis nth_list_update)
  then show ?thesis
    using Some rev auth_inv_Revoke [OF assms(1) rev] by auto
qed

theorem AuthService_Revoke_closes_witness:
  "\<exists>st'. AuthService_Revoke sample_crypto 900000 busy_auth (replicate 64 CHR ''a'') = (AUTH_SERVICE_STATUS_OK, st')
    \<and> auth_inv st' empty_user_store \<and> (\<forall>x\<in>set (sessions st'). as_active x \<longrightarrow> session_key x \<noteq> ''master'')"
proof -
  have "(case AuthService_Authorize sample_crypto 900000 busy_auth (replicate 64 CHR ''a'') of
     (s, who, _) \<Rightarrow> who \<noteq> None \<and> cstr (ap_username (the who)) = ''master'')"
    by code_simp
  then obtain s p st1 where a: "AuthService_Authorize sample_crypto 900000 busy_auth (replicate 64 CHR ''a'') = (s, Some p, st1)"
    and p: "cstr (ap_username p) = ''master''"
    by (auto split: prod.splits)
  show ?thesis
    using AuthService_Revoke_closes [OF busy_auth_inv a] p by auto
qed

end
