(* ===== verification/Health_Check_Config.thy ===== *)
theory Health_Check_Config
  imports User_Store
begin

text \<open>
  The health-check configuration \<^verbatim>\<open>Srv/Src/health_check_config.c\<close>: the checking period and three
  resource slots, kept in an A/B snapshot, with the one-time migration of version-1 snapshots and
  the compiled-in default. \<open>hc_pad\<close> is the two padding bytes the compiler puts before the CRC.
  The lemmas show what every operation does to the slots on every branch, that the strings a
  client passes are stored whole and NUL-terminated, and that start-up ends in a configuration
  that is also the newest one in flash, whatever the two sectors held before.
\<close>

section \<open>Data\<close>

definition HEALTH_CHECK_CONFIG_MAX_RESOURCES :: nat where "HEALTH_CHECK_CONFIG_MAX_RESOURCES = 3"
definition HEALTH_CHECK_CONFIG_HOST_SIZE :: nat where "HEALTH_CHECK_CONFIG_HOST_SIZE = 64"
definition HEALTH_CHECK_CONFIG_PATH_SIZE :: nat where "HEALTH_CHECK_CONFIG_PATH_SIZE = 80"
definition HEALTH_CHECK_CONFIG_MIN_PERIOD_SECONDS :: u32 where "HEALTH_CHECK_CONFIG_MIN_PERIOD_SECONDS = 60"
definition HEALTH_CHECK_CONFIG_MAX_PERIOD_SECONDS :: u32 where "HEALTH_CHECK_CONFIG_MAX_PERIOD_SECONDS = 1800"
definition HEALTH_CHECK_CONFIG_DEFAULT_PERIOD_SECONDS :: u32 where "HEALTH_CHECK_CONFIG_DEFAULT_PERIOD_SECONDS = 60"
definition HEALTH_CHECK_CONFIG_MAGIC :: u32 where "HEALTH_CHECK_CONFIG_MAGIC = 0x48434643"
definition HEALTH_CHECK_CONFIG_VERSION :: u16 where "HEALTH_CHECK_CONFIG_VERSION = 2"
definition HEALTH_CHECK_CONFIG_LEGACY_VERSION :: u16 where "HEALTH_CHECK_CONFIG_LEGACY_VERSION = 1"
definition TLS_TRUST_STORE_MAX_PERSISTED :: nat where "TLS_TRUST_STORE_MAX_PERSISTED = 3"

lemmas health_check_config_constants =
  HEALTH_CHECK_CONFIG_MAX_RESOURCES_def HEALTH_CHECK_CONFIG_HOST_SIZE_def HEALTH_CHECK_CONFIG_PATH_SIZE_def
  HEALTH_CHECK_CONFIG_MIN_PERIOD_SECONDS_def HEALTH_CHECK_CONFIG_MAX_PERIOD_SECONDS_def
  HEALTH_CHECK_CONFIG_DEFAULT_PERIOD_SECONDS_def TLS_TRUST_STORE_MAX_PERSISTED_def

datatype HealthCheckConfig_StatusTypeDef =
    HEALTH_CHECK_CONFIG_STATUS_OK
  | HEALTH_CHECK_CONFIG_STATUS_INVALID_ARGUMENT
  | HEALTH_CHECK_CONFIG_STATUS_NOT_FOUND
  | HEALTH_CHECK_CONFIG_STATUS_FULL
  | HEALTH_CHECK_CONFIG_STATUS_STORAGE_ERROR

record HealthCheckConfig_ResourceTypeDef =
  hr_occupied :: u8
  hr_enabled :: u8
  hr_trustAnchorId :: u8
  hr_reserved :: u8
  hr_port :: u16
  hr_host :: string
  hr_path :: string

record HealthCheckConfig_SnapshotTypeDef =
  hc_magic :: u32
  hc_version :: u16
  hc_reserved :: u16
  hc_generation :: u32
  hc_periodSeconds :: u32
  hc_resources :: "HealthCheckConfig_ResourceTypeDef list"
  hc_pad :: u16
  hc_crc :: u32

record HealthCheckConfig_LegacyResourceTypeDef =
  hl_occupied :: u8
  hl_enabled :: u8
  hl_port :: u16
  hl_host :: string
  hl_path :: string

record HealthCheckConfig_LegacySnapshotTypeDef =
  hl_magic :: u32
  hl_version :: u16
  hl_reserved :: u16
  hl_generation :: u32
  hl_periodSeconds :: u32
  hl_resources :: "HealthCheckConfig_LegacyResourceTypeDef list"
  hl_crc :: u32

record health_check_config =
  hc_snapshot :: HealthCheckConfig_SnapshotTypeDef
  hc_activeAddress :: u32
  hc_configMutex :: semaphore

abbreviation hc_sector_a :: u32 where "hc_sector_a \<equiv> FLASH_LAYOUT_HEALTH_CHECK_CONFIG_SECTOR_A"
abbreviation hc_sector_b :: u32 where "hc_sector_b \<equiv> FLASH_LAYOUT_HEALTH_CHECK_CONFIG_SECTOR_B"

definition zero_resource :: HealthCheckConfig_ResourceTypeDef where
  "zero_resource = \<lparr>hr_occupied = 0, hr_enabled = 0, hr_trustAnchorId = 0, hr_reserved = 0,
     hr_port = 0, hr_host = replicate 64 NUL, hr_path = replicate 80 NUL\<rparr>"

definition zero_hc_snapshot :: HealthCheckConfig_SnapshotTypeDef where
  "zero_hc_snapshot = \<lparr>hc_magic = 0, hc_version = 0, hc_reserved = 0, hc_generation = 0,
     hc_periodSeconds = 0, hc_resources = replicate 3 zero_resource, hc_pad = 0, hc_crc = 0\<rparr>"

section \<open>Memory images\<close>

definition enc_resource :: "HealthCheckConfig_ResourceTypeDef \<Rightarrow> u8 list" where
  "enc_resource r = [hr_occupied r, hr_enabled r, hr_trustAnchorId r, hr_reserved r] @ le16 (hr_port r)
     @ map byte_of_char (hr_host r) @ map byte_of_char (hr_path r)"

definition dec_resource :: "u8 list \<Rightarrow> HealthCheckConfig_ResourceTypeDef" where
  "dec_resource bs = \<lparr>hr_occupied = bs ! 0, hr_enabled = bs ! 1, hr_trustAnchorId = bs ! 2,
     hr_reserved = bs ! 3, hr_port = of_le16 (take 2 (drop 4 bs)),
     hr_host = map char_of_byte (take 64 (drop 6 bs)), hr_path = map char_of_byte (take 80 (drop 70 bs))\<rparr>"

definition hc_snapshot_body :: "HealthCheckConfig_SnapshotTypeDef \<Rightarrow> u8 list" where
  "hc_snapshot_body x = le32 (hc_magic x) @ le16 (hc_version x) @ le16 (hc_reserved x)
     @ le32 (hc_generation x) @ le32 (hc_periodSeconds x)
     @ concat (map enc_resource (hc_resources x)) @ le16 (hc_pad x)"

definition enc_hc_snapshot :: "HealthCheckConfig_SnapshotTypeDef \<Rightarrow> u8 list" where
  "enc_hc_snapshot x = hc_snapshot_body x @ le32 (hc_crc x)"

definition dec_hc_snapshot :: "u8 list \<Rightarrow> HealthCheckConfig_SnapshotTypeDef" where
  "dec_hc_snapshot bs = \<lparr>hc_magic = of_le32 (take 4 bs), hc_version = of_le16 (take 2 (drop 4 bs)),
     hc_reserved = of_le16 (take 2 (drop 6 bs)), hc_generation = of_le32 (take 4 (drop 8 bs)),
     hc_periodSeconds = of_le32 (take 4 (drop 12 bs)),
     hc_resources = map dec_resource (chunks 3 150 (drop 16 bs)),
     hc_pad = of_le16 (take 2 (drop 466 bs)), hc_crc = of_le32 (take 4 (drop 468 bs))\<rparr>"

definition hc_snapshot_size :: u32 where "hc_snapshot_size = 472"

definition enc_legacy_resource :: "HealthCheckConfig_LegacyResourceTypeDef \<Rightarrow> u8 list" where
  "enc_legacy_resource r = [hl_occupied r, hl_enabled r] @ le16 (hl_port r)
     @ map byte_of_char (hl_host r) @ map byte_of_char (hl_path r)"

definition dec_legacy_resource :: "u8 list \<Rightarrow> HealthCheckConfig_LegacyResourceTypeDef" where
  "dec_legacy_resource bs = \<lparr>hl_occupied = bs ! 0, hl_enabled = bs ! 1,
     hl_port = of_le16 (take 2 (drop 2 bs)),
     hl_host = map char_of_byte (take 64 (drop 4 bs)), hl_path = map char_of_byte (take 80 (drop 68 bs))\<rparr>"

definition hl_snapshot_body :: "HealthCheckConfig_LegacySnapshotTypeDef \<Rightarrow> u8 list" where
  "hl_snapshot_body x = le32 (hl_magic x) @ le16 (hl_version x) @ le16 (hl_reserved x)
     @ le32 (hl_generation x) @ le32 (hl_periodSeconds x)
     @ concat (map enc_legacy_resource (hl_resources x))"

definition dec_hl_snapshot :: "u8 list \<Rightarrow> HealthCheckConfig_LegacySnapshotTypeDef" where
  "dec_hl_snapshot bs = \<lparr>hl_magic = of_le32 (take 4 bs), hl_version = of_le16 (take 2 (drop 4 bs)),
     hl_reserved = of_le16 (take 2 (drop 6 bs)), hl_generation = of_le32 (take 4 (drop 8 bs)),
     hl_periodSeconds = of_le32 (take 4 (drop 12 bs)),
     hl_resources = map dec_legacy_resource (chunks 3 148 (drop 16 bs)),
     hl_crc = of_le32 (take 4 (drop 460 bs))\<rparr>"

definition hl_snapshot_size :: u32 where "hl_snapshot_size = 464"

section \<open>Integrity, migration, defaults\<close>

definition healthCheckConfig_Crc :: "u8 list \<Rightarrow> u32" where
  "healthCheckConfig_Crc bytes = crc32 bytes"

definition healthCheckConfig_IsValid :: "HealthCheckConfig_SnapshotTypeDef \<Rightarrow> bool" where
  "healthCheckConfig_IsValid candidate \<longleftrightarrow>
     hc_magic candidate = HEALTH_CHECK_CONFIG_MAGIC
     \<and> hc_version candidate = HEALTH_CHECK_CONFIG_VERSION
     \<and> hc_periodSeconds candidate \<ge> HEALTH_CHECK_CONFIG_MIN_PERIOD_SECONDS
     \<and> hc_periodSeconds candidate \<le> HEALTH_CHECK_CONFIG_MAX_PERIOD_SECONDS
     \<and> hc_crc candidate = healthCheckConfig_Crc (hc_snapshot_body candidate)"

definition healthCheckConfig_IsLegacyValid :: "HealthCheckConfig_LegacySnapshotTypeDef \<Rightarrow> bool" where
  "healthCheckConfig_IsLegacyValid candidate \<longleftrightarrow>
     hl_magic candidate = HEALTH_CHECK_CONFIG_MAGIC
     \<and> hl_version candidate = HEALTH_CHECK_CONFIG_LEGACY_VERSION
     \<and> hl_periodSeconds candidate \<ge> HEALTH_CHECK_CONFIG_MIN_PERIOD_SECONDS
     \<and> hl_periodSeconds candidate \<le> HEALTH_CHECK_CONFIG_MAX_PERIOD_SECONDS
     \<and> hl_crc candidate = healthCheckConfig_Crc (hl_snapshot_body candidate)"

definition healthCheckConfig_MigrateLegacy ::
  "HealthCheckConfig_LegacySnapshotTypeDef \<Rightarrow> HealthCheckConfig_SnapshotTypeDef" where
  "healthCheckConfig_MigrateLegacy legacy =
     zero_hc_snapshot\<lparr>hc_generation := hl_generation legacy,
       hc_periodSeconds := hl_periodSeconds legacy,
       hc_resources := map (\<lambda>r. zero_resource\<lparr>hr_occupied := hl_occupied r, hr_enabled := hl_enabled r,
           hr_trustAnchorId := 0, hr_port := hl_port r, hr_host := hl_host r, hr_path := hl_path r\<rparr>)
         (hl_resources legacy)\<rparr>"

definition healthCheckConfig_SetDefault :: HealthCheckConfig_SnapshotTypeDef where
  "healthCheckConfig_SetDefault =
     zero_hc_snapshot\<lparr>hc_periodSeconds := HEALTH_CHECK_CONFIG_DEFAULT_PERIOD_SECONDS,
       hc_resources := (hc_resources zero_hc_snapshot)[0 :=
         zero_resource\<lparr>hr_occupied := 1, hr_enabled := 1, hr_port := 443,
           hr_host := strncpy (hr_host zero_resource) ''pgw.intraclear.com'' 63,
           hr_path := strncpy (hr_path zero_resource) ''/'' 79\<rparr>]\<rparr>"

section \<open>Save and load\<close>

definition healthCheckConfig_Seal ::
  "HealthCheckConfig_SnapshotTypeDef \<Rightarrow> HealthCheckConfig_SnapshotTypeDef" where
  "healthCheckConfig_Seal candidate =
     (let c = candidate\<lparr>hc_magic := HEALTH_CHECK_CONFIG_MAGIC, hc_version := HEALTH_CHECK_CONFIG_VERSION,
                hc_generation := hc_generation candidate + 1\<rparr>
      in c\<lparr>hc_crc := healthCheckConfig_Crc (hc_snapshot_body c)\<rparr>)"

definition healthCheckConfig_Save ::
  "health_check_config \<Rightarrow> w25q64 \<Rightarrow> HealthCheckConfig_SnapshotTypeDef \<Rightarrow>
     Platform_StatusTypeDef \<times> health_check_config \<times> w25q64" where
  "healthCheckConfig_Save st f candidate0 =
     (let target = (if hc_activeAddress st = hc_sector_a then hc_sector_b else hc_sector_a);
          candidate = healthCheckConfig_Seal candidate0
      in case W25Q64_EraseSector f target of
        (s1, f1) \<Rightarrow>
          if s1 \<noteq> PLATFORM_STATUS_OK then (PLATFORM_STATUS_ERROR, st, f1)
          else (case W25Q64_Program f1 target (enc_hc_snapshot candidate) of
            (s2, f2) \<Rightarrow>
              if s2 \<noteq> PLATFORM_STATUS_OK then (PLATFORM_STATUS_ERROR, st, f2)
              else (case W25Q64_Read f2 target hc_snapshot_size of
                (s3, bytes, f3) \<Rightarrow>
                  (let verification = dec_hc_snapshot bytes
                   in if s3 \<noteq> PLATFORM_STATUS_OK \<or> \<not> healthCheckConfig_IsValid verification
                         \<or> hc_generation verification \<noteq> hc_generation candidate
                      then (PLATFORM_STATUS_ERROR, st, f3)
                      else (PLATFORM_STATUS_OK,
                            st\<lparr>hc_snapshot := candidate, hc_activeAddress := target\<rparr>, f3)))))"

text \<open>
  \<open>HealthCheckConfig_Init\<close> passes the address of \<open>snapshot\<close> itself to the save: the fields the
  save fills in are changed in place even when the save fails.
\<close>

definition healthCheckConfig_SaveInPlace ::
  "health_check_config \<Rightarrow> w25q64 \<Rightarrow> Platform_StatusTypeDef \<times> health_check_config \<times> w25q64" where
  "healthCheckConfig_SaveInPlace st f =
     (case healthCheckConfig_Save st f (hc_snapshot st) of
        (s, st', f') \<Rightarrow> (s, st'\<lparr>hc_snapshot := healthCheckConfig_Seal (hc_snapshot st)\<rparr>, f'))"

definition HealthCheckConfig_Init ::
  "bool \<Rightarrow> health_check_config \<Rightarrow> w25q64 \<Rightarrow> Platform_StatusTypeDef \<times> health_check_config \<times> w25q64" where
  "HealthCheckConfig_Init created st0 f =
     (if \<not> created then (PLATFORM_STATUS_ERROR, st0\<lparr>hc_configMutex := Sem_Null\<rparr>, f)
      else
        let st = st0\<lparr>hc_configMutex := Sem_Free\<rparr>
        in case W25Q64_Read f hc_sector_a hc_snapshot_size of (s1, b1, f1) \<Rightarrow>
           (case W25Q64_Read f1 hc_sector_b hc_snapshot_size of (s2, b2, f2) \<Rightarrow>
             (let first = dec_hc_snapshot b1; second = dec_hc_snapshot b2;
                  firstValid = (s1 = PLATFORM_STATUS_OK \<and> healthCheckConfig_IsValid first);
                  secondValid = (s2 = PLATFORM_STATUS_OK \<and> healthCheckConfig_IsValid second)
              in if firstValid \<and> (\<not> secondValid \<or> hc_generation first \<ge> hc_generation second)
                 then (PLATFORM_STATUS_OK, st\<lparr>hc_snapshot := first, hc_activeAddress := hc_sector_a\<rparr>, f2)
                 else if secondValid
                 then (PLATFORM_STATUS_OK, st\<lparr>hc_snapshot := second, hc_activeAddress := hc_sector_b\<rparr>, f2)
                 else
                   (case W25Q64_Read f2 hc_sector_a hl_snapshot_size of (s3, b3, f3) \<Rightarrow>
                    (case W25Q64_Read f3 hc_sector_b hl_snapshot_size of (s4, b4, f4) \<Rightarrow>
                      (let legacyFirst = dec_hl_snapshot b3; legacySecond = dec_hl_snapshot b4;
                           legacyFirstValid = (s3 = PLATFORM_STATUS_OK \<and> healthCheckConfig_IsLegacyValid legacyFirst);
                           legacySecondValid = (s4 = PLATFORM_STATUS_OK \<and> healthCheckConfig_IsLegacyValid legacySecond)
                       in if legacyFirstValid \<or> legacySecondValid then
                            (let useFirst = (legacyFirstValid \<and> (\<not> legacySecondValid
                                   \<or> hl_generation legacyFirst \<ge> hl_generation legacySecond));
                                 legacy = (if useFirst then legacyFirst else legacySecond)
                             in healthCheckConfig_SaveInPlace
                                  (st\<lparr>hc_activeAddress := (if useFirst then hc_sector_a else hc_sector_b),
                                      hc_snapshot := healthCheckConfig_MigrateLegacy legacy\<rparr>) f4)
                          else healthCheckConfig_SaveInPlace
                                 (st\<lparr>hc_snapshot := healthCheckConfig_SetDefault,
                                     hc_activeAddress := hc_sector_b\<rparr>) f4))))))"

section \<open>Operations\<close>

definition HealthCheckConfig_GetPeriodSeconds ::
  "health_check_config \<Rightarrow> u32 \<times> health_check_config" where
  "HealthCheckConfig_GetPeriodSeconds st =
     (case xSemaphoreTake (hc_configMutex st) of
        None \<Rightarrow> (HEALTH_CHECK_CONFIG_DEFAULT_PERIOD_SECONDS, st)
      | Some m \<Rightarrow> (hc_periodSeconds (hc_snapshot st), st\<lparr>hc_configMutex := xSemaphoreGive m\<rparr>))"

text \<open>The common tail of the updating operations: save, translate the status, give the mutex.\<close>

definition healthCheckConfig_Commit ::
  "health_check_config \<Rightarrow> semaphore \<Rightarrow> w25q64 \<Rightarrow> HealthCheckConfig_SnapshotTypeDef \<Rightarrow>
     HealthCheckConfig_StatusTypeDef \<times> health_check_config \<times> w25q64" where
  "healthCheckConfig_Commit st m f candidate =
     (case healthCheckConfig_Save st f candidate of
        (s, st', f') \<Rightarrow>
          (if s = PLATFORM_STATUS_OK then HEALTH_CHECK_CONFIG_STATUS_OK
           else HEALTH_CHECK_CONFIG_STATUS_STORAGE_ERROR,
           st'\<lparr>hc_configMutex := xSemaphoreGive m\<rparr>, f'))"

definition HealthCheckConfig_SetPeriodSeconds ::
  "health_check_config \<Rightarrow> w25q64 \<Rightarrow> u32 \<Rightarrow> HealthCheckConfig_StatusTypeDef \<times> health_check_config \<times> w25q64" where
  "HealthCheckConfig_SetPeriodSeconds st f periodSeconds =
     (if periodSeconds < HEALTH_CHECK_CONFIG_MIN_PERIOD_SECONDS
         \<or> periodSeconds > HEALTH_CHECK_CONFIG_MAX_PERIOD_SECONDS
      then (HEALTH_CHECK_CONFIG_STATUS_INVALID_ARGUMENT, st, f)
      else case xSemaphoreTake (hc_configMutex st) of
        None \<Rightarrow> (HEALTH_CHECK_CONFIG_STATUS_STORAGE_ERROR, st, f)
      | Some m \<Rightarrow> healthCheckConfig_Commit (st\<lparr>hc_configMutex := m\<rparr>) m f
                   ((hc_snapshot st)\<lparr>hc_periodSeconds := periodSeconds\<rparr>))"

text \<open>\<open>None\<close>: the caller's array is left as it was.\<close>

definition HealthCheckConfig_GetResources ::
  "health_check_config \<Rightarrow> HealthCheckConfig_ResourceTypeDef list option \<times> health_check_config" where
  "HealthCheckConfig_GetResources st =
     (case xSemaphoreTake (hc_configMutex st) of
        None \<Rightarrow> (None, st)
      | Some m \<Rightarrow> (Some (hc_resources (hc_snapshot st)), st\<lparr>hc_configMutex := xSemaphoreGive m\<rparr>))"

text \<open>The argument check that adding and updating share.\<close>

definition healthCheckConfig_ArgumentsValid :: "string \<Rightarrow> u16 \<Rightarrow> string \<Rightarrow> u8 \<Rightarrow> bool" where
  "healthCheckConfig_ArgumentsValid host port path trustAnchorId \<longleftrightarrow>
     \<not> (cstr host = [] \<or> (case cstr path of [] \<Rightarrow> True | c # _ \<Rightarrow> c \<noteq> CHR ''/'') \<or> port = 0
        \<or> unat trustAnchorId > TLS_TRUST_STORE_MAX_PERSISTED
        \<or> length (cstr host) \<ge> HEALTH_CHECK_CONFIG_HOST_SIZE
        \<or> length (cstr path) \<ge> HEALTH_CHECK_CONFIG_PATH_SIZE)"

fun healthCheckConfig_FreeSlot :: "HealthCheckConfig_ResourceTypeDef list \<Rightarrow> nat" where
  "healthCheckConfig_FreeSlot [] = 0"
| "healthCheckConfig_FreeSlot (r # rs) =
     (if hr_occupied r = 0 then 0 else Suc (healthCheckConfig_FreeSlot rs))"

definition HealthCheckConfig_AddResource ::
  "health_check_config \<Rightarrow> w25q64 \<Rightarrow> string \<Rightarrow> u16 \<Rightarrow> string \<Rightarrow> u8 \<Rightarrow> u8 \<Rightarrow>
     HealthCheckConfig_StatusTypeDef \<times> nat option \<times> health_check_config \<times> w25q64" where
  "HealthCheckConfig_AddResource st f host port path enabled trustAnchorId =
     (if \<not> healthCheckConfig_ArgumentsValid host port path trustAnchorId
      then (HEALTH_CHECK_CONFIG_STATUS_INVALID_ARGUMENT, None, st, f)
      else case xSemaphoreTake (hc_configMutex st) of
        None \<Rightarrow> (HEALTH_CHECK_CONFIG_STATUS_STORAGE_ERROR, None, st, f)
      | Some m \<Rightarrow>
          (let candidate = hc_snapshot st;
               index = healthCheckConfig_FreeSlot (hc_resources candidate)
           in if index = HEALTH_CHECK_CONFIG_MAX_RESOURCES
              then (HEALTH_CHECK_CONFIG_STATUS_FULL, None, st\<lparr>hc_configMutex := xSemaphoreGive m\<rparr>, f)
              else case healthCheckConfig_Commit (st\<lparr>hc_configMutex := m\<rparr>) m f
                  (candidate\<lparr>hc_resources := (hc_resources candidate)[index :=
                     zero_resource\<lparr>hr_occupied := 1, hr_enabled := (if enabled \<noteq> 0 then 1 else 0),
                       hr_trustAnchorId := trustAnchorId, hr_port := port,
                       hr_host := strncpy (replicate 64 NUL) host 63,
                       hr_path := strncpy (replicate 80 NUL) path 79\<rparr>]\<rparr>) of
                (s, st', f') \<Rightarrow>
                  (s, if s = HEALTH_CHECK_CONFIG_STATUS_OK then Some index else None, st', f')))"

definition HealthCheckConfig_UpdateResource ::
  "health_check_config \<Rightarrow> w25q64 \<Rightarrow> u8 \<Rightarrow> string \<Rightarrow> u16 \<Rightarrow> string \<Rightarrow> u8 \<Rightarrow> u8 \<Rightarrow>
     HealthCheckConfig_StatusTypeDef \<times> health_check_config \<times> w25q64" where
  "HealthCheckConfig_UpdateResource st f index host port path enabled trustAnchorId =
     (if unat index \<ge> HEALTH_CHECK_CONFIG_MAX_RESOURCES
         \<or> \<not> healthCheckConfig_ArgumentsValid host port path trustAnchorId
      then (HEALTH_CHECK_CONFIG_STATUS_INVALID_ARGUMENT, st, f)
      else case xSemaphoreTake (hc_configMutex st) of
        None \<Rightarrow> (HEALTH_CHECK_CONFIG_STATUS_STORAGE_ERROR, st, f)
      | Some m \<Rightarrow>
          (let candidate = hc_snapshot st; r = hc_resources candidate ! unat index
           in if hr_occupied r = 0
              then (HEALTH_CHECK_CONFIG_STATUS_NOT_FOUND, st\<lparr>hc_configMutex := xSemaphoreGive m\<rparr>, f)
              else healthCheckConfig_Commit (st\<lparr>hc_configMutex := m\<rparr>) m f
                  (candidate\<lparr>hc_resources := (hc_resources candidate)[unat index :=
                     r\<lparr>hr_enabled := (if enabled \<noteq> 0 then 1 else 0),
                       hr_trustAnchorId := trustAnchorId, hr_port := port,
                       hr_host := strncpy (replicate 64 NUL) host 63,
                       hr_path := strncpy (replicate 80 NUL) path 79\<rparr>]\<rparr>)))"

definition HealthCheckConfig_DeleteResource ::
  "health_check_config \<Rightarrow> w25q64 \<Rightarrow> u8 \<Rightarrow>
     HealthCheckConfig_StatusTypeDef \<times> health_check_config \<times> w25q64" where
  "HealthCheckConfig_DeleteResource st f index =
     (if unat index \<ge> HEALTH_CHECK_CONFIG_MAX_RESOURCES
      then (HEALTH_CHECK_CONFIG_STATUS_INVALID_ARGUMENT, st, f)
      else case xSemaphoreTake (hc_configMutex st) of
        None \<Rightarrow> (HEALTH_CHECK_CONFIG_STATUS_STORAGE_ERROR, st, f)
      | Some m \<Rightarrow>
          (let candidate = hc_snapshot st
           in if hr_occupied (hc_resources candidate ! unat index) = 0
              then (HEALTH_CHECK_CONFIG_STATUS_NOT_FOUND, st\<lparr>hc_configMutex := xSemaphoreGive m\<rparr>, f)
              else healthCheckConfig_Commit (st\<lparr>hc_configMutex := m\<rparr>) m f
                  (candidate\<lparr>hc_resources := (hc_resources candidate)[unat index := zero_resource]\<rparr>)))"

definition HealthCheckConfig_IsTrustAnchorInUse ::
  "health_check_config \<Rightarrow> u8 \<Rightarrow> bool \<times> health_check_config" where
  "HealthCheckConfig_IsTrustAnchorInUse st trustAnchorId =
     (case xSemaphoreTake (hc_configMutex st) of
        None \<Rightarrow> (False, st)
      | Some m \<Rightarrow>
          (list_ex (\<lambda>r. hr_occupied r \<noteq> 0 \<and> hr_trustAnchorId r = trustAnchorId)
             (hc_resources (hc_snapshot st)), st\<lparr>hc_configMutex := xSemaphoreGive m\<rparr>))"

section \<open>Memory images round-trip\<close>

definition wf_resource :: "HealthCheckConfig_ResourceTypeDef \<Rightarrow> bool" where
  "wf_resource r \<longleftrightarrow> length (hr_host r) = 64 \<and> length (hr_path r) = 80"

definition wf_hc_snapshot :: "HealthCheckConfig_SnapshotTypeDef \<Rightarrow> bool" where
  "wf_hc_snapshot x \<longleftrightarrow> length (hc_resources x) = 3 \<and> list_all wf_resource (hc_resources x)"

lemma length_enc_resource [simp]: "wf_resource r \<Longrightarrow> length (enc_resource r) = 150"
  by (simp add: enc_resource_def wf_resource_def)

lemma dec_enc_resource [simp]: "wf_resource r \<Longrightarrow> dec_resource (enc_resource r) = r"
  by (cases r) (simp add: enc_resource_def dec_resource_def wf_resource_def comp_def)

lemma wf_hc_snapshot_length:
  "wf_hc_snapshot x \<Longrightarrow> length (concat (map enc_resource (hc_resources x))) = 450"
  by (subst length_concat_fixed [where w = 150]) (auto simp: wf_hc_snapshot_def list_all_iff)

lemma length_enc_hc_snapshot:
  "wf_hc_snapshot x \<Longrightarrow> length (enc_hc_snapshot x) = unat hc_snapshot_size"
  by (simp add: enc_hc_snapshot_def hc_snapshot_body_def wf_hc_snapshot_length hc_snapshot_size_def)

lemma dec_enc_hc_snapshot:
  assumes "wf_hc_snapshot x"
  shows "dec_hc_snapshot (enc_hc_snapshot x) = x"
proof -
  have "chunks 3 150 (concat (map enc_resource (hc_resources x)) @ le16 (hc_pad x) @ le32 (hc_crc x))
      = map enc_resource (hc_resources x)"
    using assms by (intro chunks_concat_append) (auto simp: wf_hc_snapshot_def list_all_iff)
  moreover have "map dec_resource (map enc_resource (hc_resources x)) = hc_resources x"
    using assms by (auto simp: wf_hc_snapshot_def list_all_iff intro!: map_idI)
  moreover have "drop 450 (concat (map enc_resource (hc_resources x))) = []"
    "drop 452 (concat (map enc_resource (hc_resources x))) = []"
    using wf_hc_snapshot_length [OF assms] by simp_all
  ultimately show ?thesis
    using wf_hc_snapshot_length [OF assms]
    by (cases x) (simp add: dec_hc_snapshot_def enc_hc_snapshot_def hc_snapshot_body_def)
qed

lemma wf_zero_resource [simp]: "wf_resource zero_resource"
  by (simp add: wf_resource_def zero_resource_def)

lemma wf_zero_hc_snapshot [simp]: "wf_hc_snapshot zero_hc_snapshot"
  by (simp add: wf_hc_snapshot_def zero_hc_snapshot_def list_all_iff)

lemma wf_dec_hc_snapshot: "length bs = 472 \<Longrightarrow> wf_hc_snapshot (dec_hc_snapshot bs)"
  by (auto simp: wf_hc_snapshot_def dec_hc_snapshot_def list_all_iff wf_resource_def dec_resource_def
      dest: chunks_length)

lemma wf_migrate: "length bs = 464 \<Longrightarrow> wf_hc_snapshot (healthCheckConfig_MigrateLegacy (dec_hl_snapshot bs))"
  by (auto simp: wf_hc_snapshot_def healthCheckConfig_MigrateLegacy_def dec_hl_snapshot_def list_all_iff
      wf_resource_def dec_legacy_resource_def dest: chunks_length)

lemma wf_default: "wf_hc_snapshot healthCheckConfig_SetDefault"
  by (simp add: wf_hc_snapshot_def healthCheckConfig_SetDefault_def zero_hc_snapshot_def list_all_iff
      wf_resource_def zero_resource_def numeral_3_eq_3)

lemma healthCheckConfig_Seal_simps [simp]:
  "wf_hc_snapshot (healthCheckConfig_Seal x) = wf_hc_snapshot x"
  "hc_resources (healthCheckConfig_Seal x) = hc_resources x"
  "hc_periodSeconds (healthCheckConfig_Seal x) = hc_periodSeconds x"
  "hc_generation (healthCheckConfig_Seal x) = hc_generation x + 1"
  by (simp_all add: healthCheckConfig_Seal_def Let_def wf_hc_snapshot_def)

lemma healthCheckConfig_IsValid_Seal:
  "healthCheckConfig_IsValid (healthCheckConfig_Seal x) \<longleftrightarrow>
     HEALTH_CHECK_CONFIG_MIN_PERIOD_SECONDS \<le> hc_periodSeconds x
     \<and> hc_periodSeconds x \<le> HEALTH_CHECK_CONFIG_MAX_PERIOD_SECONDS"
  by (simp add: healthCheckConfig_IsValid_def healthCheckConfig_Seal_def Let_def hc_snapshot_body_def)

section \<open>The configuration is an A/B store\<close>

interpretation hc_ab: ab_store W25Q64_Read W25Q64_EraseSector W25Q64_Program nor_mem flash_ready
  dec_hc_snapshot healthCheckConfig_IsValid hc_generation hc_snapshot_size hc_sector_a hc_sector_b
  enc_hc_snapshot wf_hc_snapshot
proof unfold_locales
qed (simp_all add: length_enc_hc_snapshot dec_enc_hc_snapshot, simp_all add: hc_snapshot_size_def)

interpretation hc_legacy: ab_reader W25Q64_Read W25Q64_EraseSector W25Q64_Program nor_mem flash_ready
  dec_hl_snapshot healthCheckConfig_IsLegacyValid hl_generation hl_snapshot_size hc_sector_a hc_sector_b
proof unfold_locales
qed (simp_all add: hl_snapshot_size_def)

lemma healthCheckConfig_Save_ab:
  "healthCheckConfig_Save st f c =
     (case hc_ab.save f (hc_activeAddress st) (healthCheckConfig_Seal c) of
        (s, f') \<Rightarrow>
          (s, if s = PLATFORM_STATUS_OK
              then st\<lparr>hc_snapshot := healthCheckConfig_Seal c,
                      hc_activeAddress := ab_target hc_sector_a hc_sector_b (hc_activeAddress st)\<rparr>
              else st, f'))"
  by (simp add: healthCheckConfig_Save_def ab_save_def ab_target_def Let_def split: prod.splits)

lemma healthCheckConfig_Save_outcome:
  assumes "healthCheckConfig_Save st f c = (s, st', f')"
  shows "s = PLATFORM_STATUS_OK \<and> st' = st\<lparr>hc_snapshot := healthCheckConfig_Seal c,
           hc_activeAddress := ab_target hc_sector_a hc_sector_b (hc_activeAddress st)\<rparr>
         \<and> hc_ab.save f (hc_activeAddress st) (healthCheckConfig_Seal c) = (PLATFORM_STATUS_OK, f')
    \<or> s = PLATFORM_STATUS_ERROR \<and> st' = st
         \<and> hc_ab.save f (hc_activeAddress st) (healthCheckConfig_Seal c) = (PLATFORM_STATUS_ERROR, f')"
proof -
  obtain s1 f1 where save: "hc_ab.save f (hc_activeAddress st) (healthCheckConfig_Seal c) = (s1, f1)"
    by (cases "hc_ab.save f (hc_activeAddress st) (healthCheckConfig_Seal c)") auto
  show ?thesis
    using assms save ab_save_status [OF save] by (auto simp: healthCheckConfig_Save_ab)
qed

lemma hc_eta: "hc_configMutex st = Sem_Free \<Longrightarrow> st\<lparr>hc_configMutex := Sem_Free\<rparr> = st"
  by (cases st) simp

lemma healthCheckConfig_Commit_outcome:
  assumes "healthCheckConfig_Commit (st\<lparr>hc_configMutex := Sem_Held\<rparr>) Sem_Held f c = (s, st', f')"
    and "hc_configMutex st = Sem_Free"
  shows "s = HEALTH_CHECK_CONFIG_STATUS_OK \<and> st' = st\<lparr>hc_snapshot := healthCheckConfig_Seal c,
           hc_activeAddress := ab_target hc_sector_a hc_sector_b (hc_activeAddress st)\<rparr>
         \<and> hc_ab.save f (hc_activeAddress st) (healthCheckConfig_Seal c) = (PLATFORM_STATUS_OK, f')
    \<or> s = HEALTH_CHECK_CONFIG_STATUS_STORAGE_ERROR \<and> st' = st"
proof -
  let ?st = "st\<lparr>hc_configMutex := Sem_Held\<rparr>"
  obtain s1 st1 f1 where save: "healthCheckConfig_Save ?st f c = (s1, st1, f1)"
    by (cases "healthCheckConfig_Save ?st f c") auto
  have "st1\<lparr>hc_configMutex := Sem_Free\<rparr> = st\<lparr>hc_snapshot := healthCheckConfig_Seal c,
           hc_activeAddress := ab_target hc_sector_a hc_sector_b (hc_activeAddress st)\<rparr>" if "s1 = PLATFORM_STATUS_OK"
    using that healthCheckConfig_Save_outcome [OF save] assms(2) by (cases st) auto
  then show ?thesis
    using assms(1) save healthCheckConfig_Save_outcome [OF save] hc_eta [OF assms(2)]
    by (auto simp: healthCheckConfig_Commit_def)
qed

section \<open>Start-up\<close>

lemma healthCheckConfig_SaveInPlace_fresh:
  assumes "flash_ready f" and "wf_hc_snapshot (hc_snapshot st)"
    and "HEALTH_CHECK_CONFIG_MIN_PERIOD_SECONDS \<le> hc_periodSeconds (hc_snapshot st)"
    and "hc_periodSeconds (hc_snapshot st) \<le> HEALTH_CHECK_CONFIG_MAX_PERIOD_SECONDS"
    and "hc_ab.newest (nor_mem f) = None"
    and "hc_activeAddress st = hc_sector_a \<or> hc_activeAddress st = hc_sector_b"
  shows "\<exists>f'. healthCheckConfig_SaveInPlace st f = (PLATFORM_STATUS_OK,
      st\<lparr>hc_snapshot := healthCheckConfig_Seal (hc_snapshot st),
         hc_activeAddress := ab_target hc_sector_a hc_sector_b (hc_activeAddress st)\<rparr>, f')
    \<and> flash_ready f' \<and> hc_ab.newest (nor_mem f') = Some (healthCheckConfig_Seal (hc_snapshot st),
        ab_target hc_sector_a hc_sector_b (hc_activeAddress st))"
proof -
  obtain f' where f': "hc_ab.save f (hc_activeAddress st) (healthCheckConfig_Seal (hc_snapshot st)) = (PLATFORM_STATUS_OK, f')"
    "flash_ready f'" "hc_ab.newest (nor_mem f') = Some (healthCheckConfig_Seal (hc_snapshot st),
        ab_target hc_sector_a hc_sector_b (hc_activeAddress st))"
    using hc_ab.save_step [of f "healthCheckConfig_Seal (hc_snapshot st)" undefined "hc_activeAddress st"] assms
    by (auto simp: healthCheckConfig_IsValid_Seal)
  obtain s1 st1 f1 where save: "healthCheckConfig_Save st f (hc_snapshot st) = (s1, st1, f1)"
    by (cases "healthCheckConfig_Save st f (hc_snapshot st)") auto
  show ?thesis
    using healthCheckConfig_Save_outcome [OF save] f' save
    by (auto simp: healthCheckConfig_SaveInPlace_def)
qed

text \<open>The two loads of start-up, in terms of the memory.\<close>

lemma HealthCheckConfig_Init_ab:
  assumes "flash_ready f"
  shows "\<exists>f'. flash_ready f' \<and> nor_mem f' = nor_mem f \<and> HealthCheckConfig_Init True st0 f =
    (let st = st0\<lparr>hc_configMutex := Sem_Free\<rparr>
     in case hc_ab.newest (nor_mem f) of
       Some (x, a) \<Rightarrow> (PLATFORM_STATUS_OK, st\<lparr>hc_snapshot := x, hc_activeAddress := a\<rparr>, f')
     | None \<Rightarrow> healthCheckConfig_SaveInPlace
         (case hc_legacy.newest (nor_mem f) of
            Some (l, a) \<Rightarrow> st\<lparr>hc_activeAddress := a, hc_snapshot := healthCheckConfig_MigrateLegacy l\<rparr>
          | None \<Rightarrow> st\<lparr>hc_snapshot := healthCheckConfig_SetDefault, hc_activeAddress := hc_sector_b\<rparr>) f')"
proof -
  obtain s1 b1 f1 where r1: "W25Q64_Read f hc_sector_a hc_snapshot_size = (s1, b1, f1)"
    by (cases "W25Q64_Read f hc_sector_a hc_snapshot_size") auto
  obtain s2 b2 f2 where r2: "W25Q64_Read f1 hc_sector_b hc_snapshot_size = (s2, b2, f2)"
    by (cases "W25Q64_Read f1 hc_sector_b hc_snapshot_size") auto
  obtain s3 b3 f3 where r3: "W25Q64_Read f2 hc_sector_a hl_snapshot_size = (s3, b3, f3)"
    by (cases "W25Q64_Read f2 hc_sector_a hl_snapshot_size") auto
  obtain s4 b4 f4 where r4: "W25Q64_Read f3 hc_sector_b hl_snapshot_size = (s4, b4, f4)"
    by (cases "W25Q64_Read f3 hc_sector_b hl_snapshot_size") auto
  have l: "hc_ab.newest (nor_mem f) = fst (hc_ab.load f)" "flash_ready f2" "nor_mem f2 = nor_mem f"
    using hc_ab.load_ready [OF assms] r1 r2 by (auto simp: ab_load_def)
  have m: "hc_legacy.newest (nor_mem f) = fst (hc_legacy.load f2)" "flash_ready f4" "nor_mem f4 = nor_mem f"
    using hc_legacy.load_ready [OF l(2)] l(3) r3 r4 by (auto simp: ab_load_def)
  show ?thesis
    unfolding l(1) m(1) using l(2,3) m(2,3) r1 r2 r3 r4
    by (intro exI [of _ "if fst (hc_ab.load f) = None then f4 else f2"])
      (simp add: HealthCheckConfig_Init_def ab_load_def ab_choose_def Let_def)
qed

section \<open>The invariant\<close>

definition resource_ok :: "HealthCheckConfig_ResourceTypeDef \<Rightarrow> bool" where
  "resource_ok r \<longleftrightarrow> healthCheckConfig_ArgumentsValid (hr_host r) (hr_port r) (hr_path r) (hr_trustAnchorId r)"

definition hc_inv :: "HealthCheckConfig_SnapshotTypeDef \<Rightarrow> bool" where
  "hc_inv x \<longleftrightarrow> wf_hc_snapshot x
     \<and> HEALTH_CHECK_CONFIG_MIN_PERIOD_SECONDS \<le> hc_periodSeconds x
     \<and> hc_periodSeconds x \<le> HEALTH_CHECK_CONFIG_MAX_PERIOD_SECONDS
     \<and> list_all (\<lambda>r. hr_occupied r \<noteq> 0 \<longrightarrow> resource_ok r) (hc_resources x)"

lemma hc_inv_Seal [simp]: "hc_inv (healthCheckConfig_Seal x) = hc_inv x"
  by (simp add: hc_inv_def)

lemma stored_host:
  "length (cstr host) < 64 \<Longrightarrow> cstr (strncpy (replicate 64 NUL) host 63) = cstr host"
  using cstr_strncpy [of host 63 "replicate 64 NUL"] by (simp add: numeral_eq_Suc)

lemma stored_path:
  "length (cstr path) < 80 \<Longrightarrow> cstr (strncpy (replicate 80 NUL) path 79) = cstr path"
  using cstr_strncpy [of path 79 "replicate 80 NUL"] by (simp add: numeral_eq_Suc)

lemma ArgumentsValid_stored:
  assumes "healthCheckConfig_ArgumentsValid host port path a"
  shows "cstr (strncpy (replicate 64 NUL) host 63) = cstr host"
    and "cstr (strncpy (replicate 80 NUL) path 79) = cstr path"
    and "healthCheckConfig_ArgumentsValid (strncpy (replicate 64 NUL) host 63) port
           (strncpy (replicate 80 NUL) path 79) a"
proof -
  show h: "cstr (strncpy (replicate 64 NUL) host 63) = cstr host"
    and p: "cstr (strncpy (replicate 80 NUL) path 79) = cstr path"
    using assms stored_host stored_path
    by (auto simp: healthCheckConfig_ArgumentsValid_def health_check_config_constants)
  show "healthCheckConfig_ArgumentsValid (strncpy (replicate 64 NUL) host 63) port
           (strncpy (replicate 80 NUL) path 79) a"
    using assms by (simp add: healthCheckConfig_ArgumentsValid_def h p)
qed

text \<open>Replacing one slot by a well-formed resource keeps the invariant.\<close>

lemma hc_inv_update:
  assumes "hc_inv x" and "wf_resource r" and "hr_occupied r \<noteq> 0 \<longrightarrow> resource_ok r"
  shows "hc_inv (x\<lparr>hc_resources := (hc_resources x)[i := r]\<rparr>)"
  using assms set_update_subset_insert [of "hc_resources x" i r]
  by (auto simp: hc_inv_def wf_hc_snapshot_def list_all_iff)

lemma healthCheckConfig_FreeSlot_le: "healthCheckConfig_FreeSlot rs \<le> length rs"
  by (induction rs) simp_all

lemma healthCheckConfig_FreeSlot_spec:
  "healthCheckConfig_FreeSlot rs < length rs \<Longrightarrow> hr_occupied (rs ! healthCheckConfig_FreeSlot rs) = 0"
  "j < healthCheckConfig_FreeSlot rs \<Longrightarrow> hr_occupied (rs ! j) \<noteq> 0"
  by (induction rs arbitrary: j) (auto simp: nth_Cons split: nat.splits if_splits)

lemma hc_resources_length: "hc_inv x \<Longrightarrow> length (hc_resources x) = 3"
  by (simp add: hc_inv_def wf_hc_snapshot_def)

definition new_resource :: "string \<Rightarrow> u16 \<Rightarrow> string \<Rightarrow> u8 \<Rightarrow> u8 \<Rightarrow> HealthCheckConfig_ResourceTypeDef" where
  "new_resource host port path enabled trustAnchorId =
     \<lparr>hr_occupied = 1, hr_enabled = (if enabled \<noteq> 0 then 1 else 0), hr_trustAnchorId = trustAnchorId,
      hr_reserved = 0, hr_port = port, hr_host = strncpy (replicate 64 NUL) host 63,
      hr_path = strncpy (replicate 80 NUL) path 79\<rparr>"

lemma new_resource_ok:
  "healthCheckConfig_ArgumentsValid host port path a \<Longrightarrow>
     wf_resource (new_resource host port path e a) \<and> resource_ok (new_resource host port path e a)"
  using ArgumentsValid_stored by (simp add: new_resource_def wf_resource_def resource_ok_def)

section \<open>Properties\<close>

definition sample_hc :: health_check_config where
  "sample_hc = \<lparr>hc_snapshot = healthCheckConfig_SetDefault, hc_activeAddress = hc_sector_a, hc_configMutex = Sem_Free\<rparr>"

text \<open>
  C12: on readable flash start-up always succeeds and ends with a valid configuration that is also
  the newest one in flash, whatever the two sectors held: a version-2 snapshot is taken as it is,
  otherwise a version-1 snapshot is migrated with all its resources and its period, otherwise the
  compiled-in default is stored.
\<close>

theorem HealthCheckConfig_Init_total:
  assumes "flash_ready f"
  shows "\<exists>st f'. HealthCheckConfig_Init True st0 f = (PLATFORM_STATUS_OK, st, f')
    \<and> flash_ready f' \<and> hc_configMutex st = Sem_Free
    \<and> healthCheckConfig_IsValid (hc_snapshot st)
    \<and> hc_ab.newest (nor_mem f') = Some (hc_snapshot st, hc_activeAddress st)
    \<and> (case hc_ab.newest (nor_mem f) of
         Some (x, _) \<Rightarrow> hc_snapshot st = x
       | None \<Rightarrow> (case hc_legacy.newest (nor_mem f) of
           Some (l, _) \<Rightarrow> hc_periodSeconds (hc_snapshot st) = hl_periodSeconds l
             \<and> hc_resources (hc_snapshot st) = map (\<lambda>r. \<lparr>hr_occupied = hl_occupied r,
                 hr_enabled = hl_enabled r, hr_trustAnchorId = 0, hr_reserved = 0, hr_port = hl_port r,
                 hr_host = hl_host r, hr_path = hl_path r\<rparr>) (hl_resources l)
         | None \<Rightarrow> hc_periodSeconds (hc_snapshot st) = 60
             \<and> hc_resources (hc_snapshot st)
                 = [new_resource ''pgw.intraclear.com'' 443 ''/'' 1 0, zero_resource, zero_resource]))"
proof -
  obtain f1 where f1: "flash_ready f1" "nor_mem f1 = nor_mem f" and init: "HealthCheckConfig_Init True st0 f =
    (let st = st0\<lparr>hc_configMutex := Sem_Free\<rparr>
     in case hc_ab.newest (nor_mem f) of
       Some (x, a) \<Rightarrow> (PLATFORM_STATUS_OK, st\<lparr>hc_snapshot := x, hc_activeAddress := a\<rparr>, f1)
     | None \<Rightarrow> healthCheckConfig_SaveInPlace
         (case hc_legacy.newest (nor_mem f) of
            Some (l, a) \<Rightarrow> st\<lparr>hc_activeAddress := a, hc_snapshot := healthCheckConfig_MigrateLegacy l\<rparr>
          | None \<Rightarrow> st\<lparr>hc_snapshot := healthCheckConfig_SetDefault, hc_activeAddress := hc_sector_b\<rparr>) f1)"
    using HealthCheckConfig_Init_ab [OF assms] by blast
  show ?thesis
  proof (cases "hc_ab.newest (nor_mem f)")
    case (Some xa)
    obtain x a where xa: "xa = (x, a)" by (cases xa)
    show ?thesis
      using f1 init hc_ab.newest_active(2) [OF Some [unfolded xa]] Some
      by (auto simp: xa Let_def)
  next
    case None
    note empty = None [folded f1(2)]
    show ?thesis
    proof (cases "hc_legacy.newest (nor_mem f)")
      case (Some la)
      obtain l a where la: "la = (l, a)" by (cases la)
      note old = hc_legacy.newest_active [OF Some [unfolded la]]
      let ?st = "st0\<lparr>hc_configMutex := Sem_Free, hc_activeAddress := a,
        hc_snapshot := healthCheckConfig_MigrateLegacy l\<rparr>"
      have "wf_hc_snapshot (hc_snapshot ?st)"
        using wf_migrate [of "image_at (nor_mem f) a hl_snapshot_size"] old(1)
        by (simp add: image_at_def hl_snapshot_size_def)
      then show ?thesis
        using healthCheckConfig_SaveInPlace_fresh [of f1 ?st] f1 init None Some empty old(2,3)
        by (auto simp: la healthCheckConfig_IsLegacyValid_def healthCheckConfig_IsValid_Seal
            healthCheckConfig_MigrateLegacy_def zero_resource_def)
    next
      case none: None
      let ?st = "st0\<lparr>hc_configMutex := Sem_Free, hc_snapshot := healthCheckConfig_SetDefault,
        hc_activeAddress := hc_sector_b\<rparr>"
      have period: "hc_periodSeconds healthCheckConfig_SetDefault = 60"
        by (simp add: healthCheckConfig_SetDefault_def health_check_config_constants)
      have slots: "hc_resources healthCheckConfig_SetDefault
          = [new_resource ''pgw.intraclear.com'' 443 ''/'' 1 0, zero_resource, zero_resource]"
        by (simp add: healthCheckConfig_SetDefault_def zero_hc_snapshot_def new_resource_def
            zero_resource_def numeral_3_eq_3)
      show ?thesis
        using healthCheckConfig_SaveInPlace_fresh [of f1 ?st] f1 init None none empty wf_default
        by (auto simp: health_check_config_constants healthCheckConfig_IsValid_Seal period slots)
    qed
  qed
qed

theorem HealthCheckConfig_Init_total_witness:
  "\<exists>st f'. HealthCheckConfig_Init True sample_hc blank_flash = (PLATFORM_STATUS_OK, st, f')
    \<and> hc_configMutex st = Sem_Free"
  using HealthCheckConfig_Init_total [of blank_flash sample_hc] by (auto simp: blank_flash_def flash_ready_def)

text \<open>
  Adding a resource occupies the lowest free slot and no other, stores host and path whole,
  is refused as full exactly when all slots are taken, refuses bad arguments, and on every error
  leaves the configuration in RAM as it was.
\<close>

theorem HealthCheckConfig_AddResource_functional:
  assumes "hc_inv (hc_snapshot st)" and "hc_configMutex st = Sem_Free"
    and "HealthCheckConfig_AddResource st f host port path enabled anchor = (s, index, st', f')"
  shows "case s of
      HEALTH_CHECK_CONFIG_STATUS_OK \<Rightarrow> \<exists>i r. index = Some i \<and> i < 3
        \<and> hr_occupied (hc_resources (hc_snapshot st) ! i) = 0
        \<and> (\<forall>j<i. hr_occupied (hc_resources (hc_snapshot st) ! j) \<noteq> 0)
        \<and> hc_resources (hc_snapshot st') = (hc_resources (hc_snapshot st))[i := r]
        \<and> hr_occupied r = 1 \<and> cstr (hr_host r) = cstr host \<and> cstr (hr_path r) = cstr path
        \<and> hr_port r = port \<and> hr_trustAnchorId r = anchor \<and> (hr_enabled r \<noteq> 0 \<longleftrightarrow> enabled \<noteq> 0)
    | HEALTH_CHECK_CONFIG_STATUS_INVALID_ARGUMENT \<Rightarrow>
        \<not> healthCheckConfig_ArgumentsValid host port path anchor \<and> st' = st \<and> f' = f
    | HEALTH_CHECK_CONFIG_STATUS_FULL \<Rightarrow>
        (\<forall>i<3. hr_occupied (hc_resources (hc_snapshot st) ! i) \<noteq> 0) \<and> st' = st \<and> f' = f
    | HEALTH_CHECK_CONFIG_STATUS_STORAGE_ERROR \<Rightarrow> st' = st
    | HEALTH_CHECK_CONFIG_STATUS_NOT_FOUND \<Rightarrow> False"
proof -
  let ?rs = "hc_resources (hc_snapshot st)"
  define i where "i = healthCheckConfig_FreeSlot ?rs"
  define r where "r = new_resource host port path enabled anchor"
  define c where "c = (hc_snapshot st)\<lparr>hc_resources := ?rs[i := r]\<rparr>"
  have i: "i \<le> 3" "i < 3 \<Longrightarrow> hr_occupied (?rs ! i) = 0" "\<forall>j<i. hr_occupied (?rs ! j) \<noteq> 0"
    using healthCheckConfig_FreeSlot_le [of ?rs] healthCheckConfig_FreeSlot_spec [where rs = ?rs]
      hc_resources_length [OF assms(1)] by (auto simp: i_def)
  have r: "zero_resource\<lparr>hr_occupied := 1, hr_enabled := (if enabled \<noteq> 0 then 1 else 0),
      hr_trustAnchorId := anchor, hr_port := port, hr_host := strncpy (replicate 64 NUL) host 63,
      hr_path := strncpy (replicate 80 NUL) path 79\<rparr> = r"
    by (simp add: r_def new_resource_def zero_resource_def)
  obtain s1 st1 f1 where commit:
    "healthCheckConfig_Commit (st\<lparr>hc_configMutex := Sem_Held\<rparr>) Sem_Held f c = (s1, st1, f1)"
    by (cases "healthCheckConfig_Commit (st\<lparr>hc_configMutex := Sem_Held\<rparr>) Sem_Held f c") auto
  consider (invalid) "\<not> healthCheckConfig_ArgumentsValid host port path anchor"
    | (full) "healthCheckConfig_ArgumentsValid host port path anchor" "i = 3"
    | (room) "healthCheckConfig_ArgumentsValid host port path anchor" "i < 3"
    using i(1) by linarith
  then show ?thesis
  proof cases
    case invalid
    then show ?thesis using assms(3) by (auto simp: HealthCheckConfig_AddResource_def)
  next
    case full
    then show ?thesis
      using assms(2,3) i(3) hc_eta [OF assms(2)]
      by (auto simp: HealthCheckConfig_AddResource_def Let_def i_def HEALTH_CHECK_CONFIG_MAX_RESOURCES_def)
  next
    case room
    have "s = s1" "st' = st1" "index = (if s1 = HEALTH_CHECK_CONFIG_STATUS_OK then Some i else None)"
      using assms(2,3) room commit
      by (auto simp: HealthCheckConfig_AddResource_def Let_def HEALTH_CHECK_CONFIG_MAX_RESOURCES_def r
          simp flip: i_def c_def)
    moreover have "hr_occupied r = 1" "cstr (hr_host r) = cstr host" "cstr (hr_path r) = cstr path"
      "hr_port r = port" "hr_trustAnchorId r = anchor" "hr_enabled r \<noteq> 0 \<longleftrightarrow> enabled \<noteq> 0"
      using ArgumentsValid_stored [OF room(1)] by (simp_all add: r_def new_resource_def)
    ultimately show ?thesis
      using healthCheckConfig_Commit_outcome [OF commit assms(2)] i room
      by (auto simp: c_def intro!: exI [of _ r])
  qed
qed

lemma hc_inv_default: "hc_inv healthCheckConfig_SetDefault"
  using wf_default new_resource_ok [of "''pgw.intraclear.com''" 443 "''/''" 0 1]
  by (simp add: hc_inv_def healthCheckConfig_SetDefault_def zero_hc_snapshot_def
      health_check_config_constants numeral_3_eq_3 zero_resource_def new_resource_def
      healthCheckConfig_ArgumentsValid_def cstr_def)

theorem HealthCheckConfig_AddResource_functional_witness:
  "snd (snd (HealthCheckConfig_AddResource sample_hc blank_flash ''h'' 443 ''x'' 1 0)) = (sample_hc, blank_flash)"
proof -
  obtain s i st' f' where a: "HealthCheckConfig_AddResource sample_hc blank_flash ''h'' 443 ''x'' 1 0 = (s, i, st', f')"
    by (cases "HealthCheckConfig_AddResource sample_hc blank_flash ''h'' 443 ''x'' 1 0") auto
  have "s = HEALTH_CHECK_CONFIG_STATUS_INVALID_ARGUMENT"
    using a by (simp add: HealthCheckConfig_AddResource_def healthCheckConfig_ArgumentsValid_def cstr_def)
  then show ?thesis
    using HealthCheckConfig_AddResource_functional [OF _ _ a] a hc_inv_default
    by (simp add: sample_hc_def)
qed

text \<open>
  Updating a resource replaces the fields of exactly the addressed, occupied slot, stores host
  and path whole, and on every error leaves the configuration in RAM as it was.
\<close>

theorem HealthCheckConfig_UpdateResource_functional:
  assumes "hc_inv (hc_snapshot st)" and "hc_configMutex st = Sem_Free"
    and "HealthCheckConfig_UpdateResource st f index host port path enabled anchor = (s, st', f')"
  shows "case s of
      HEALTH_CHECK_CONFIG_STATUS_OK \<Rightarrow> \<exists>r. unat index < 3
        \<and> hr_occupied (hc_resources (hc_snapshot st) ! unat index) \<noteq> 0
        \<and> hc_resources (hc_snapshot st') = (hc_resources (hc_snapshot st))[unat index := r]
        \<and> hr_occupied r \<noteq> 0 \<and> cstr (hr_host r) = cstr host \<and> cstr (hr_path r) = cstr path
        \<and> hr_port r = port \<and> hr_trustAnchorId r = anchor \<and> (hr_enabled r \<noteq> 0 \<longleftrightarrow> enabled \<noteq> 0)
    | HEALTH_CHECK_CONFIG_STATUS_INVALID_ARGUMENT \<Rightarrow>
        (3 \<le> unat index \<or> \<not> healthCheckConfig_ArgumentsValid host port path anchor) \<and> st' = st \<and> f' = f
    | HEALTH_CHECK_CONFIG_STATUS_NOT_FOUND \<Rightarrow>
        hr_occupied (hc_resources (hc_snapshot st) ! unat index) = 0 \<and> st' = st \<and> f' = f
    | HEALTH_CHECK_CONFIG_STATUS_STORAGE_ERROR \<Rightarrow> st' = st
    | HEALTH_CHECK_CONFIG_STATUS_FULL \<Rightarrow> False"
proof -
  let ?rs = "hc_resources (hc_snapshot st)" and ?i = "unat index"
  define r where "r = (?rs ! ?i)\<lparr>hr_enabled := (if enabled \<noteq> 0 then 1 else 0),
      hr_trustAnchorId := anchor, hr_port := port, hr_host := strncpy (replicate 64 NUL) host 63,
      hr_path := strncpy (replicate 80 NUL) path 79\<rparr>"
  define c where "c = (hc_snapshot st)\<lparr>hc_resources := ?rs[?i := r]\<rparr>"
  obtain s1 st1 f1 where commit:
    "healthCheckConfig_Commit (st\<lparr>hc_configMutex := Sem_Held\<rparr>) Sem_Held f c = (s1, st1, f1)"
    by (cases "healthCheckConfig_Commit (st\<lparr>hc_configMutex := Sem_Held\<rparr>) Sem_Held f c") auto
  consider (invalid) "3 \<le> ?i \<or> \<not> healthCheckConfig_ArgumentsValid host port path anchor"
    | (free) "?i < 3" "healthCheckConfig_ArgumentsValid host port path anchor" "hr_occupied (?rs ! ?i) = 0"
    | (ok) "?i < 3" "healthCheckConfig_ArgumentsValid host port path anchor" "hr_occupied (?rs ! ?i) \<noteq> 0"
    by linarith
  then show ?thesis
  proof cases
    case invalid
    then show ?thesis
      using assms(3) by (auto simp: HealthCheckConfig_UpdateResource_def HEALTH_CHECK_CONFIG_MAX_RESOURCES_def)
  next
    case free
    then show ?thesis
      using assms(2,3) hc_eta [OF assms(2)]
      by (auto simp: HealthCheckConfig_UpdateResource_def HEALTH_CHECK_CONFIG_MAX_RESOURCES_def Let_def)
  next
    case ok
    have "s = s1" "st' = st1"
      using assms(2,3) ok commit
      by (auto simp: HealthCheckConfig_UpdateResource_def Let_def HEALTH_CHECK_CONFIG_MAX_RESOURCES_def
          simp flip: r_def c_def)
    moreover have "hr_occupied r \<noteq> 0" "cstr (hr_host r) = cstr host" "cstr (hr_path r) = cstr path"
      "hr_port r = port" "hr_trustAnchorId r = anchor" "hr_enabled r \<noteq> 0 \<longleftrightarrow> enabled \<noteq> 0"
      using ArgumentsValid_stored [OF ok(2)] ok(3) by (simp_all add: r_def)
    ultimately show ?thesis
      using healthCheckConfig_Commit_outcome [OF commit assms(2)] ok
      by (auto simp: c_def intro!: exI [of _ r])
  qed
qed

theorem HealthCheckConfig_UpdateResource_functional_witness:
  "snd (HealthCheckConfig_UpdateResource sample_hc blank_flash 2 ''h'' 443 ''/x'' 1 0) = (sample_hc, blank_flash)"
proof -
  obtain s st' f' where a: "HealthCheckConfig_UpdateResource sample_hc blank_flash 2 ''h'' 443 ''/x'' 1 0 = (s, st', f')"
    by (cases "HealthCheckConfig_UpdateResource sample_hc blank_flash 2 ''h'' 443 ''/x'' 1 0") auto
  have "s = HEALTH_CHECK_CONFIG_STATUS_NOT_FOUND"
    using a by (simp add: HealthCheckConfig_UpdateResource_def healthCheckConfig_ArgumentsValid_def cstr_def
        sample_hc_def healthCheckConfig_SetDefault_def zero_hc_snapshot_def zero_resource_def Let_def
        health_check_config_constants)
  then show ?thesis
    using HealthCheckConfig_UpdateResource_functional [OF _ _ a] a hc_inv_default
    by (simp add: sample_hc_def)
qed

text \<open>The updating operations, as commands.\<close>

datatype hc_command =
    HC_SetPeriod u32
  | HC_Add string u16 string u8 u8
  | HC_Update u8 string u16 string u8 u8
  | HC_Delete u8

fun hc_step :: "health_check_config \<times> w25q64 \<Rightarrow> hc_command \<Rightarrow> health_check_config \<times> w25q64" where
  "hc_step (st, f) (HC_SetPeriod p) = snd (HealthCheckConfig_SetPeriodSeconds st f p)"
| "hc_step (st, f) (HC_Add h p q e a) = snd (snd (HealthCheckConfig_AddResource st f h p q e a))"
| "hc_step (st, f) (HC_Update i h p q e a) = snd (HealthCheckConfig_UpdateResource st f i h p q e a)"
| "hc_step (st, f) (HC_Delete i) = snd (HealthCheckConfig_DeleteResource st f i)"

lemma healthCheckConfig_Commit_inv:
  assumes "hc_configMutex st = Sem_Free" and "hc_inv (hc_snapshot st)" and "hc_inv c"
  shows "hc_configMutex (fst (snd (healthCheckConfig_Commit (st\<lparr>hc_configMutex := Sem_Held\<rparr>) Sem_Held f c))) = Sem_Free
    \<and> hc_inv (hc_snapshot (fst (snd (healthCheckConfig_Commit (st\<lparr>hc_configMutex := Sem_Held\<rparr>) Sem_Held f c))))"
proof -
  obtain s1 st1 f1 where commit:
    "healthCheckConfig_Commit (st\<lparr>hc_configMutex := Sem_Held\<rparr>) Sem_Held f c = (s1, st1, f1)"
    by (cases "healthCheckConfig_Commit (st\<lparr>hc_configMutex := Sem_Held\<rparr>) Sem_Held f c") auto
  show ?thesis
    using healthCheckConfig_Commit_outcome [OF commit assms(1)] assms commit by auto
qed

lemma hc_step_inv:
  assumes "hc_configMutex st = Sem_Free" and "hc_inv (hc_snapshot st)"
  shows "hc_configMutex (fst (hc_step (st, f) cmd)) = Sem_Free \<and> hc_inv (hc_snapshot (fst (hc_step (st, f) cmd)))"
proof (cases cmd)
  case (HC_SetPeriod p)
  have "hc_inv ((hc_snapshot st)\<lparr>hc_periodSeconds := p\<rparr>)"
    if "HEALTH_CHECK_CONFIG_MIN_PERIOD_SECONDS \<le> p" "p \<le> HEALTH_CHECK_CONFIG_MAX_PERIOD_SECONDS"
    using that assms(2) by (simp add: hc_inv_def wf_hc_snapshot_def)
  then show ?thesis
    using healthCheckConfig_Commit_inv [OF assms] assms
    by (auto simp: HC_SetPeriod HealthCheckConfig_SetPeriodSeconds_def not_less)
next
  case (HC_Add h p q e a)
  let ?x = "hc_snapshot st"
  have new: "zero_resource\<lparr>hr_occupied := 1, hr_enabled := (if e \<noteq> 0 then 1 else 0),
      hr_trustAnchorId := a, hr_port := p, hr_host := strncpy (replicate 64 NUL) h 63,
      hr_path := strncpy (replicate 80 NUL) q 79\<rparr> = new_resource h p q e a"
    by (simp add: new_resource_def zero_resource_def)
  have "hc_inv (?x\<lparr>hc_resources := (hc_resources ?x)[i := new_resource h p q e a]\<rparr>)"
    if "healthCheckConfig_ArgumentsValid h p q a" for i
    using hc_inv_update [OF assms(2)] new_resource_ok [OF that] by simp
  then show ?thesis
    using healthCheckConfig_Commit_inv [OF assms] assms
    by (simp add: HC_Add HealthCheckConfig_AddResource_def new Let_def hc_eta split: prod.splits)
      (metis fst_conv snd_conv)
next
  case (HC_Update i h p q e a)
  let ?x = "hc_snapshot st" and ?r = "hc_resources (hc_snapshot st) ! unat i"
  have "hc_inv (?x\<lparr>hc_resources := (hc_resources ?x)[unat i := ?r\<lparr>hr_enabled := (if e \<noteq> 0 then 1 else 0),
      hr_trustAnchorId := a, hr_port := p, hr_host := strncpy (replicate 64 NUL) h 63,
      hr_path := strncpy (replicate 80 NUL) q 79\<rparr>]\<rparr>)" if "healthCheckConfig_ArgumentsValid h p q a"
    using hc_inv_update [OF assms(2)] ArgumentsValid_stored(3) [OF that]
    by (simp add: wf_resource_def resource_ok_def)
  then show ?thesis
    using healthCheckConfig_Commit_inv [OF assms] assms
    by (simp add: HC_Update HealthCheckConfig_UpdateResource_def Let_def hc_eta)
next
  case (HC_Delete i)
  have "hc_inv ((hc_snapshot st)\<lparr>hc_resources := (hc_resources (hc_snapshot st))[unat i := zero_resource]\<rparr>)"
    using hc_inv_update [OF assms(2) wf_zero_resource] by (simp add: zero_resource_def)
  then show ?thesis
    using healthCheckConfig_Commit_inv [OF assms] assms
    by (simp add: HC_Delete HealthCheckConfig_DeleteResource_def Let_def hc_eta)
qed

text \<open>
  C15: whatever flash faults occur, every sequence of configuration operations keeps the invariant
  (a period from 60 to 1800 seconds, and every occupied slot with a non-empty NUL-terminated host, a
  path starting with a slash, a nonzero port and a trust-anchor id in range) and gives the mutex back.
\<close>

theorem hc_sequence_invariant:
  assumes "hc_configMutex (fst s) = Sem_Free" and "hc_inv (hc_snapshot (fst s))"
  shows "hc_configMutex (fst (foldl hc_step s cmds)) = Sem_Free \<and> hc_inv (hc_snapshot (fst (foldl hc_step s cmds)))"
  using assms
proof (induction cmds arbitrary: s)
  case (Cons cmd cmds)
  then show ?case
    using hc_step_inv [of "fst s" "snd s" cmd] by simp
qed simp

theorem hc_sequence_invariant_witness:
  "hc_inv (hc_snapshot (fst (foldl hc_step (sample_hc, blank_flash) [HC_SetPeriod 300, HC_Delete 0])))"
  using hc_sequence_invariant [of "(sample_hc, blank_flash)" "[HC_SetPeriod 300, HC_Delete 0]"] hc_inv_default
  by (simp add: sample_hc_def)

end
