(* ===== verification/Callback_Config.thy ===== *)
theory Callback_Config
  imports Health_Check_Config
begin

text \<open>
  The callback destination \<^verbatim>\<open>Srv/Src/callback_config.c\<close>: one A/B snapshot with the host, path, port,
  method and trust anchor used to report failed checks. The lemmas characterise the two field
  validators as predicates on the stored strings, give the start-up and the set/get round trip
  (through a restart as well), and show that nothing stored can inject into a request line.
\<close>

section \<open>Data\<close>

definition CALLBACK_CONFIG_MAGIC :: u32 where "CALLBACK_CONFIG_MAGIC = 0x43424B43"
definition CALLBACK_CONFIG_VERSION :: u16 where "CALLBACK_CONFIG_VERSION = 1"
definition CALLBACK_CONFIG_HOST_SIZE :: nat where "CALLBACK_CONFIG_HOST_SIZE = 64"
definition CALLBACK_CONFIG_PATH_SIZE :: nat where "CALLBACK_CONFIG_PATH_SIZE = 80"
definition CALLBACK_METHOD_GET :: u8 where "CALLBACK_METHOD_GET = 0"
definition CALLBACK_METHOD_POST :: u8 where "CALLBACK_METHOD_POST = 1"

record CallbackConfig_TypeDef =
  cb_enabled :: u8
  cb_method :: u8
  cb_trustAnchorId :: u8
  cb_reserved :: u8
  cb_port :: u16
  cb_host :: string
  cb_path :: string

record CallbackConfig_SnapshotTypeDef =
  cs_magic :: u32
  cs_version :: u16
  cs_reserved :: u16
  cs_generation :: u32
  cs_config :: CallbackConfig_TypeDef
  cs_pad :: u16
  cs_crc :: u32

record callback_config =
  cb_snapshot :: CallbackConfig_SnapshotTypeDef
  cb_activeAddress :: u32
  callbackConfigMutex :: semaphore

abbreviation cb_sector_a :: u32 where "cb_sector_a \<equiv> FLASH_LAYOUT_CALLBACK_CONFIG_SECTOR_A"
abbreviation cb_sector_b :: u32 where "cb_sector_b \<equiv> FLASH_LAYOUT_CALLBACK_CONFIG_SECTOR_B"

definition zero_callback :: CallbackConfig_TypeDef where
  "zero_callback = \<lparr>cb_enabled = 0, cb_method = 0, cb_trustAnchorId = 0, cb_reserved = 0, cb_port = 0,
     cb_host = replicate 64 NUL, cb_path = replicate 80 NUL\<rparr>"

definition zero_cb_snapshot :: CallbackConfig_SnapshotTypeDef where
  "zero_cb_snapshot = \<lparr>cs_magic = 0, cs_version = 0, cs_reserved = 0, cs_generation = 0,
     cs_config = zero_callback, cs_pad = 0, cs_crc = 0\<rparr>"

section \<open>Memory images\<close>

definition enc_callback :: "CallbackConfig_TypeDef \<Rightarrow> u8 list" where
  "enc_callback c = [cb_enabled c, cb_method c, cb_trustAnchorId c, cb_reserved c] @ le16 (cb_port c)
     @ map byte_of_char (cb_host c) @ map byte_of_char (cb_path c)"

definition dec_callback :: "u8 list \<Rightarrow> CallbackConfig_TypeDef" where
  "dec_callback bs = \<lparr>cb_enabled = bs ! 0, cb_method = bs ! 1, cb_trustAnchorId = bs ! 2,
     cb_reserved = bs ! 3, cb_port = of_le16 (take 2 (drop 4 bs)),
     cb_host = map char_of_byte (take 64 (drop 6 bs)), cb_path = map char_of_byte (take 80 (drop 70 bs))\<rparr>"

definition cb_snapshot_body :: "CallbackConfig_SnapshotTypeDef \<Rightarrow> u8 list" where
  "cb_snapshot_body x = le32 (cs_magic x) @ le16 (cs_version x) @ le16 (cs_reserved x)
     @ le32 (cs_generation x) @ enc_callback (cs_config x) @ le16 (cs_pad x)"

definition enc_cb_snapshot :: "CallbackConfig_SnapshotTypeDef \<Rightarrow> u8 list" where
  "enc_cb_snapshot x = cb_snapshot_body x @ le32 (cs_crc x)"

definition dec_cb_snapshot :: "u8 list \<Rightarrow> CallbackConfig_SnapshotTypeDef" where
  "dec_cb_snapshot bs = \<lparr>cs_magic = of_le32 (take 4 bs), cs_version = of_le16 (take 2 (drop 4 bs)),
     cs_reserved = of_le16 (take 2 (drop 6 bs)), cs_generation = of_le32 (take 4 (drop 8 bs)),
     cs_config = dec_callback (take 150 (drop 12 bs)), cs_pad = of_le16 (take 2 (drop 162 bs)),
     cs_crc = of_le32 (take 4 (drop 164 bs))\<rparr>"

definition cb_snapshot_size :: u32 where "cb_snapshot_size = 168"

section \<open>Field validation\<close>

definition host_character :: "char \<Rightarrow> bool" where
  "host_character c \<longleftrightarrow>
     (let b = of_char c :: nat
      in (97 \<le> b \<and> b \<le> 122) \<or> (65 \<le> b \<and> b \<le> 90) \<or> (48 \<le> b \<and> b \<le> 57)
         \<or> c = CHR ''.'' \<or> c = CHR ''-'')"

fun callbackConfig_HostLoop :: "string \<Rightarrow> bool" where
  "callbackConfig_HostLoop [] = False"
| "callbackConfig_HostLoop (c # cs) =
     (if c = NUL then True else if \<not> host_character c then False else callbackConfig_HostLoop cs)"

definition callbackConfig_HostValid :: "string \<Rightarrow> bool" where
  "callbackConfig_HostValid host \<longleftrightarrow>
     (if host ! 0 = NUL then False else callbackConfig_HostLoop (take CALLBACK_CONFIG_HOST_SIZE host))"

definition path_character :: "char \<Rightarrow> bool" where
  "path_character c \<longleftrightarrow>
     \<not> ((of_char c :: nat) < 0x21 \<or> (of_char c :: nat) > 0x7E
        \<or> c = CHR 0x22 \<or> c = CHR 0x5C \<or> c = CHR ''#'')"

fun callbackConfig_PathLoop :: "string \<Rightarrow> bool" where
  "callbackConfig_PathLoop [] = False"
| "callbackConfig_PathLoop (c # cs) =
     (if c = NUL then True else if \<not> path_character c then False else callbackConfig_PathLoop cs)"

definition callbackConfig_PathValid :: "string \<Rightarrow> bool" where
  "callbackConfig_PathValid path \<longleftrightarrow>
     (if path ! 0 \<noteq> CHR ''/'' then False else callbackConfig_PathLoop (take CALLBACK_CONFIG_PATH_SIZE path))"

definition callbackConfig_Crc :: "u8 list \<Rightarrow> u32" where
  "callbackConfig_Crc bytes = crc32 bytes"

definition callbackConfig_FieldsValid :: "CallbackConfig_TypeDef \<Rightarrow> bool" where
  "callbackConfig_FieldsValid v \<longleftrightarrow> cb_enabled v \<le> 1 \<and> cb_method v \<le> CALLBACK_METHOD_POST \<and> cb_port v \<noteq> 0
     \<and> unat (cb_trustAnchorId v) \<le> TLS_TRUST_STORE_MAX_PERSISTED
     \<and> callbackConfig_HostValid (cb_host v) \<and> callbackConfig_PathValid (cb_path v)"

definition callbackConfig_Valid :: "CallbackConfig_SnapshotTypeDef \<Rightarrow> bool" where
  "callbackConfig_Valid v \<longleftrightarrow> cs_magic v = CALLBACK_CONFIG_MAGIC \<and> cs_version v = CALLBACK_CONFIG_VERSION
     \<and> callbackConfig_FieldsValid (cs_config v) \<and> cs_crc v = callbackConfig_Crc (cb_snapshot_body v)"

section \<open>Save, load and access\<close>

definition callbackConfig_Seal :: "CallbackConfig_SnapshotTypeDef \<Rightarrow> CallbackConfig_SnapshotTypeDef" where
  "callbackConfig_Seal candidate =
     (let c = candidate\<lparr>cs_magic := CALLBACK_CONFIG_MAGIC, cs_version := CALLBACK_CONFIG_VERSION,
                cs_generation := cs_generation candidate + 1\<rparr>
      in c\<lparr>cs_crc := callbackConfig_Crc (cb_snapshot_body c)\<rparr>)"

definition callbackConfig_Save ::
  "callback_config \<Rightarrow> w25q64 \<Rightarrow> CallbackConfig_SnapshotTypeDef \<Rightarrow>
     Platform_StatusTypeDef \<times> callback_config \<times> w25q64" where
  "callbackConfig_Save st f candidate0 =
     (let target = (if cb_activeAddress st = cb_sector_a then cb_sector_b else cb_sector_a);
          candidate = callbackConfig_Seal candidate0
      in case W25Q64_EraseSector f target of
        (s1, f1) \<Rightarrow>
          if s1 \<noteq> PLATFORM_STATUS_OK then (PLATFORM_STATUS_ERROR, st, f1)
          else (case W25Q64_Program f1 target (enc_cb_snapshot candidate) of
            (s2, f2) \<Rightarrow>
              if s2 \<noteq> PLATFORM_STATUS_OK then (PLATFORM_STATUS_ERROR, st, f2)
              else (case W25Q64_Read f2 target cb_snapshot_size of
                (s3, bytes, f3) \<Rightarrow>
                  (let verification = dec_cb_snapshot bytes
                   in if s3 \<noteq> PLATFORM_STATUS_OK \<or> \<not> callbackConfig_Valid verification
                         \<or> cs_generation verification \<noteq> cs_generation candidate
                      then (PLATFORM_STATUS_ERROR, st, f3)
                      else (PLATFORM_STATUS_OK,
                            st\<lparr>cb_snapshot := candidate, cb_activeAddress := target\<rparr>, f3)))))"

definition default_cb_snapshot :: CallbackConfig_SnapshotTypeDef where
  "default_cb_snapshot = zero_cb_snapshot\<lparr>cs_config := zero_callback\<lparr>cb_method := CALLBACK_METHOD_POST,
     cb_port := 443, cb_trustAnchorId := 0,
     cb_host := strncpy (replicate 64 NUL) ''loopback.intraclear.com'' 63,
     cb_path := strncpy (replicate 80 NUL) ''/'' 79\<rparr>\<rparr>"

text \<open>The default is saved in place: the save changes \<open>snapshot\<close> itself even when it fails.\<close>

definition CallbackConfig_Init ::
  "bool \<Rightarrow> callback_config \<Rightarrow> w25q64 \<Rightarrow> Platform_StatusTypeDef \<times> callback_config \<times> w25q64" where
  "CallbackConfig_Init created st0 f =
     (if \<not> created then (PLATFORM_STATUS_ERROR, st0\<lparr>callbackConfigMutex := Sem_Null\<rparr>, f)
      else
        let st = st0\<lparr>callbackConfigMutex := Sem_Free\<rparr>
        in case W25Q64_Read f cb_sector_a cb_snapshot_size of (s1, b1, f1) \<Rightarrow>
           (case W25Q64_Read f1 cb_sector_b cb_snapshot_size of (s2, b2, f2) \<Rightarrow>
             (let first = dec_cb_snapshot b1; second = dec_cb_snapshot b2;
                  firstValid = (s1 = PLATFORM_STATUS_OK \<and> callbackConfig_Valid first);
                  secondValid = (s2 = PLATFORM_STATUS_OK \<and> callbackConfig_Valid second)
              in if firstValid \<and> (\<not> secondValid \<or> cs_generation first \<ge> cs_generation second)
                 then (PLATFORM_STATUS_OK, st\<lparr>cb_snapshot := first, cb_activeAddress := cb_sector_a\<rparr>, f2)
                 else if secondValid
                 then (PLATFORM_STATUS_OK, st\<lparr>cb_snapshot := second, cb_activeAddress := cb_sector_b\<rparr>, f2)
                 else (case callbackConfig_Save
                     (st\<lparr>cb_snapshot := default_cb_snapshot, cb_activeAddress := cb_sector_b\<rparr>) f2 default_cb_snapshot of
                   (s, st', f') \<Rightarrow> (s, st'\<lparr>cb_snapshot := callbackConfig_Seal default_cb_snapshot\<rparr>, f')))))"

definition CallbackConfig_Get :: "callback_config \<Rightarrow> CallbackConfig_TypeDef \<times> callback_config" where
  "CallbackConfig_Get st =
     (case xSemaphoreTake (callbackConfigMutex st) of
        None \<Rightarrow> (zero_callback, st)
      | Some m \<Rightarrow> (cs_config (cb_snapshot st), st\<lparr>callbackConfigMutex := xSemaphoreGive m\<rparr>))"

definition CallbackConfig_Set ::
  "callback_config \<Rightarrow> w25q64 \<Rightarrow> CallbackConfig_TypeDef \<Rightarrow> Platform_StatusTypeDef \<times> callback_config \<times> w25q64" where
  "CallbackConfig_Set st f config =
     (if \<not> callbackConfig_FieldsValid config then (PLATFORM_STATUS_ERROR, st, f)
      else case xSemaphoreTake (callbackConfigMutex st) of
        None \<Rightarrow> (PLATFORM_STATUS_ERROR, st, f)
      | Some m \<Rightarrow>
          (case callbackConfig_Save (st\<lparr>callbackConfigMutex := m\<rparr>) f ((cb_snapshot st)\<lparr>cs_config := config\<rparr>) of
             (s, st', f') \<Rightarrow> (s, st'\<lparr>callbackConfigMutex := xSemaphoreGive m\<rparr>, f')))"

definition CallbackConfig_IsTrustAnchorInUse :: "callback_config \<Rightarrow> u8 \<Rightarrow> bool \<times> callback_config" where
  "CallbackConfig_IsTrustAnchorInUse st trustAnchorId =
     (case CallbackConfig_Get st of
        (config, st') \<Rightarrow> (cb_enabled config \<noteq> 0 \<and> cb_trustAnchorId config = trustAnchorId, st'))"

section \<open>Memory images round-trip\<close>

definition wf_callback :: "CallbackConfig_TypeDef \<Rightarrow> bool" where
  "wf_callback c \<longleftrightarrow> length (cb_host c) = 64 \<and> length (cb_path c) = 80"

lemma length_enc_callback [simp]: "wf_callback c \<Longrightarrow> length (enc_callback c) = 150"
  by (simp add: enc_callback_def wf_callback_def)

lemma dec_enc_callback [simp]: "wf_callback c \<Longrightarrow> dec_callback (enc_callback c) = c"
  by (cases c) (simp add: enc_callback_def dec_callback_def wf_callback_def comp_def)

lemma length_enc_cb_snapshot:
  "wf_callback (cs_config x) \<Longrightarrow> length (enc_cb_snapshot x) = unat cb_snapshot_size"
  by (simp add: enc_cb_snapshot_def cb_snapshot_body_def cb_snapshot_size_def)

lemma dec_enc_cb_snapshot:
  assumes "wf_callback (cs_config x)" shows "dec_cb_snapshot (enc_cb_snapshot x) = x"
  using assms length_enc_callback [OF assms]
  by (cases x) (simp add: dec_cb_snapshot_def enc_cb_snapshot_def cb_snapshot_body_def)

lemma wf_dec_cb_snapshot: "length bs = 168 \<Longrightarrow> wf_callback (cs_config (dec_cb_snapshot bs))"
  by (simp add: dec_cb_snapshot_def dec_callback_def wf_callback_def)

lemma callbackConfig_Seal_simps [simp]:
  "cs_config (callbackConfig_Seal x) = cs_config x"
  "cs_generation (callbackConfig_Seal x) = cs_generation x + 1"
  "callbackConfig_Valid (callbackConfig_Seal x) = callbackConfig_FieldsValid (cs_config x)"
  by (simp_all add: callbackConfig_Seal_def Let_def callbackConfig_Valid_def cb_snapshot_body_def)

interpretation cb_ab: ab_store W25Q64_Read W25Q64_EraseSector W25Q64_Program nor_mem flash_ready
  dec_cb_snapshot callbackConfig_Valid cs_generation cb_snapshot_size cb_sector_a cb_sector_b
  enc_cb_snapshot "\<lambda>x. wf_callback (cs_config x)"
proof unfold_locales
qed (simp_all add: length_enc_cb_snapshot dec_enc_cb_snapshot, simp_all add: cb_snapshot_size_def)

lemma callbackConfig_Save_ab:
  "callbackConfig_Save st f c =
     (case cb_ab.save f (cb_activeAddress st) (callbackConfig_Seal c) of
        (s, f') \<Rightarrow>
          (s, if s = PLATFORM_STATUS_OK
              then st\<lparr>cb_snapshot := callbackConfig_Seal c,
                      cb_activeAddress := ab_target cb_sector_a cb_sector_b (cb_activeAddress st)\<rparr>
              else st, f'))"
  by (simp add: callbackConfig_Save_def ab_save_def ab_target_def Let_def split: prod.splits)

section \<open>What the validators accept\<close>

lemma callbackConfig_HostLoop_iff:
  "callbackConfig_HostLoop s \<longleftrightarrow> NUL \<in> set s \<and> list_all host_character (cstr s)"
  by (induction s) (auto simp: cstr_def)

lemma callbackConfig_PathLoop_iff:
  "callbackConfig_PathLoop s \<longleftrightarrow> NUL \<in> set s \<and> list_all path_character (cstr s)"
  by (induction s) (auto simp: cstr_def)

lemma callbackConfig_HostValid_iff:
  assumes "length host = 64"
  shows "callbackConfig_HostValid host \<longleftrightarrow>
    cstr host \<noteq> [] \<and> length (cstr host) < 64 \<and> list_all host_character (cstr host)"
proof -
  have "NUL \<in> set host \<longleftrightarrow> length (cstr host) < 64"
    using assms by (simp add: NUL_in_array)
  moreover have "host ! 0 = NUL \<longleftrightarrow> cstr host = []"
    using assms by (cases host) (auto simp: cstr_def)
  ultimately show ?thesis
    using assms by (simp add: callbackConfig_HostValid_def callbackConfig_HostLoop_iff CALLBACK_CONFIG_HOST_SIZE_def CALLBACK_CONFIG_PATH_SIZE_def)
qed

lemma callbackConfig_PathValid_iff:
  assumes "length path = 80"
  shows "callbackConfig_PathValid path \<longleftrightarrow>
    (\<exists>rest. cstr path = CHR ''/'' # rest) \<and> length (cstr path) < 80 \<and> list_all path_character (cstr path)"
proof -
  have "NUL \<in> set path \<longleftrightarrow> length (cstr path) < 80"
    using assms by (simp add: NUL_in_array)
  moreover have "path ! 0 = CHR ''/'' \<longleftrightarrow> (\<exists>rest. cstr path = CHR ''/'' # rest)"
    using assms by (cases path) (auto simp: cstr_def)
  ultimately show ?thesis
    using assms by (simp add: callbackConfig_PathValid_def callbackConfig_PathLoop_iff CALLBACK_CONFIG_HOST_SIZE_def CALLBACK_CONFIG_PATH_SIZE_def)
qed

lemma default_callback: "callbackConfig_FieldsValid (cs_config default_cb_snapshot)"
    "wf_callback (cs_config default_cb_snapshot)"
proof -
  have host: "cstr (cb_host (cs_config default_cb_snapshot)) = ''loopback.intraclear.com''"
    using stored_host [of "''loopback.intraclear.com''"] by (simp add: default_cb_snapshot_def cstr_def)
  have path: "cstr (cb_path (cs_config default_cb_snapshot)) = ''/''"
    using stored_path [of "''/''"] by (simp add: default_cb_snapshot_def cstr_def)
  show wf: "wf_callback (cs_config default_cb_snapshot)"
    by (simp add: default_cb_snapshot_def wf_callback_def)
  show "callbackConfig_FieldsValid (cs_config default_cb_snapshot)"
    using wf unfolding callbackConfig_FieldsValid_def wf_callback_def
    by (simp add: callbackConfig_HostValid_iff callbackConfig_PathValid_iff host path
        host_character_def path_character_def)
      (simp add: default_cb_snapshot_def zero_callback_def CALLBACK_METHOD_POST_def TLS_TRUST_STORE_MAX_PERSISTED_def)
qed

section \<open>Properties\<close>

lemma CallbackConfig_Init_ready:
  assumes "flash_ready f"
  shows "\<exists>st f'. CallbackConfig_Init True st0 f = (PLATFORM_STATUS_OK, st, f') \<and> flash_ready f'
    \<and> callbackConfigMutex st = Sem_Free
    \<and> cb_ab.newest (nor_mem f') = Some (cb_snapshot st, cb_activeAddress st)
    \<and> (case cb_ab.newest (nor_mem f) of Some (x, a) \<Rightarrow> cb_snapshot st = x \<and> cb_activeAddress st = a
       | None \<Rightarrow> cs_config (cb_snapshot st) = cs_config default_cb_snapshot)"
proof -
  obtain s1 b1 f1 where r1: "W25Q64_Read f cb_sector_a cb_snapshot_size = (s1, b1, f1)"
    by (cases "W25Q64_Read f cb_sector_a cb_snapshot_size") auto
  obtain s2 b2 f2 where r2: "W25Q64_Read f1 cb_sector_b cb_snapshot_size = (s2, b2, f2)"
    by (cases "W25Q64_Read f1 cb_sector_b cb_snapshot_size") auto
  have l: "cb_ab.newest (nor_mem f) = fst (cb_ab.load f)" "flash_ready f2" "nor_mem f2 = nor_mem f"
    using cb_ab.load_ready [OF assms] r1 r2 by (auto simp: ab_load_def)
  let ?st = "st0\<lparr>callbackConfigMutex := Sem_Free\<rparr>"
  have init: "CallbackConfig_Init True st0 f = (case cb_ab.newest (nor_mem f) of
      Some (x, a) \<Rightarrow> (PLATFORM_STATUS_OK, ?st\<lparr>cb_snapshot := x, cb_activeAddress := a\<rparr>, f2)
    | None \<Rightarrow> (case callbackConfig_Save
         (?st\<lparr>cb_snapshot := default_cb_snapshot, cb_activeAddress := cb_sector_b\<rparr>) f2 default_cb_snapshot of
       (s, st', f') \<Rightarrow> (s, st'\<lparr>cb_snapshot := callbackConfig_Seal default_cb_snapshot\<rparr>, f')))"
    unfolding l(1) using r1 r2 by (simp add: CallbackConfig_Init_def ab_load_def ab_choose_def Let_def)
  show ?thesis
  proof (cases "cb_ab.newest (nor_mem f)")
    case (Some xa)
    then show ?thesis
      using init l(2,3) by (cases xa) simp
  next
    case None
    then show ?thesis
      using cb_ab.save_step [of f2 "callbackConfig_Seal default_cb_snapshot" undefined cb_sector_b]
        l(2,3) init default_callback
      by (auto simp: callbackConfig_Save_ab)
  qed
qed

text \<open>
  Setting the callback destination on fault-free flash stores exactly the given configuration:
  it is what a later get returns, and, as long as the generation counter has not reached its
  maximum, also what a get returns after a restart.
\<close>

theorem CallbackConfig_Set_roundtrip:
  assumes "flash_ready f" and "callbackConfigMutex st = Sem_Free"
    and "cb_ab.newest (nor_mem f) = Some (cb_snapshot st, cb_activeAddress st)"
    and "callbackConfig_FieldsValid c" and "wf_callback c" and "cs_generation (cb_snapshot st) \<noteq> - 1"
  shows "\<exists>st' f' st'' f''. CallbackConfig_Set st f c = (PLATFORM_STATUS_OK, st', f')
    \<and> CallbackConfig_Get st' = (c, st')
    \<and> CallbackConfig_Init True st0 f' = (PLATFORM_STATUS_OK, st'', f'') \<and> CallbackConfig_Get st'' = (c, st'')"
proof -
  let ?x = "(cb_snapshot st)\<lparr>cs_config := c\<rparr>" and ?st = "st\<lparr>callbackConfigMutex := Sem_Held\<rparr>"
  have "cs_generation (cb_snapshot st) < cs_generation (cb_snapshot st) + 1"
    using assms(6) by (rule u32_less_Suc)
  then obtain f' where f': "cb_ab.save f (cb_activeAddress st) (callbackConfig_Seal ?x) = (PLATFORM_STATUS_OK, f')"
    "flash_ready f'" "cb_ab.newest (nor_mem f')
      = Some (callbackConfig_Seal ?x, ab_target cb_sector_a cb_sector_b (cb_activeAddress st))"
    using cb_ab.save_step [of f "callbackConfig_Seal ?x" "cb_snapshot st" "cb_activeAddress st"] assms
    by auto
  define st' where "st' = st\<lparr>cb_snapshot := callbackConfig_Seal ?x,
      cb_activeAddress := ab_target cb_sector_a cb_sector_b (cb_activeAddress st)\<rparr>"
  have mutex: "y\<lparr>callbackConfigMutex := Sem_Free\<rparr> = y" if "callbackConfigMutex y = Sem_Free" for y :: callback_config
    using that by (cases y) simp
  have set: "CallbackConfig_Set st f c = (PLATFORM_STATUS_OK, st', f')"
    using f'(1) assms(2,4) by (cases st) (simp add: CallbackConfig_Set_def callbackConfig_Save_ab st'_def)
  have get: "CallbackConfig_Get y = (cs_config (cb_snapshot y), y)" if "callbackConfigMutex y = Sem_Free" for y
    using that mutex by (simp add: CallbackConfig_Get_def)
  obtain st'' f'' where "CallbackConfig_Init True st0 f' = (PLATFORM_STATUS_OK, st'', f'')"
    "callbackConfigMutex st'' = Sem_Free" "cb_snapshot st'' = callbackConfig_Seal ?x"
    using CallbackConfig_Init_ready [OF f'(2), of st0] f'(3) by auto
  then show ?thesis
    using set get [of st'] get [of st''] assms(2) by (auto simp: st'_def)
qed

definition sample_cb :: callback_config where
  "sample_cb = \<lparr>cb_snapshot = zero_cb_snapshot, cb_activeAddress = 0, callbackConfigMutex = Sem_Null\<rparr>"

lemma blank_ready: "flash_ready blank_flash"
  by (simp add: flash_ready_def blank_flash_def)

lemma blank_cb: "cb_ab.newest (nor_mem blank_flash) = None"
proof -
  have "\<not> callbackConfig_Valid (dec_cb_snapshot (replicate 168 0xFF))"
    by (simp add: callbackConfig_Valid_def dec_cb_snapshot_def CALLBACK_CONFIG_MAGIC_def)
  then show ?thesis
    by (simp add: ab_choose_def blank_image cb_snapshot_size_def)
qed

theorem CallbackConfig_Set_roundtrip_witness:
  "\<exists>st f st' f'. CallbackConfig_Init True sample_cb blank_flash = (PLATFORM_STATUS_OK, st, f)
    \<and> CallbackConfig_Set st f (cs_config default_cb_snapshot) = (PLATFORM_STATUS_OK, st', f')
    \<and> fst (CallbackConfig_Get st') = cs_config default_cb_snapshot"
proof -
  obtain f1 where f1: "cb_ab.load blank_flash = (None, f1)" "flash_ready f1" "nor_mem f1 = nor_mem blank_flash"
    using cb_ab.load_ready [OF blank_ready] blank_cb by auto
  obtain st f where init: "CallbackConfig_Init True sample_cb blank_flash = (PLATFORM_STATUS_OK, st, f)"
    "flash_ready f" "callbackConfigMutex st = Sem_Free"
    "cb_ab.newest (nor_mem f) = Some (cb_snapshot st, cb_activeAddress st)"
    using CallbackConfig_Init_ready [OF blank_ready, of sample_cb] by blast
  have "cs_generation (cb_snapshot st) = 1"
  proof -
    obtain s1 b1 g1 where r1: "W25Q64_Read blank_flash cb_sector_a cb_snapshot_size = (s1, b1, g1)"
      by (cases "W25Q64_Read blank_flash cb_sector_a cb_snapshot_size") auto
    obtain s2 b2 g2 where r2: "W25Q64_Read g1 cb_sector_b cb_snapshot_size = (s2, b2, g2)"
      by (cases "W25Q64_Read g1 cb_sector_b cb_snapshot_size") auto
    show ?thesis
      using init(1) f1(1) r1 r2
      by (auto simp: CallbackConfig_Init_def ab_load_def ab_choose_def Let_def default_cb_snapshot_def
          zero_cb_snapshot_def split: if_splits prod.splits)
  qed
  then show ?thesis
    using CallbackConfig_Set_roundtrip [of f st "cs_config default_cb_snapshot" sample_cb] init default_callback
    by fastforce
qed

text \<open>
  A configuration that passes validation cannot inject into the HTTP request built from it:
  its host consists of letters, digits, dots and hyphens, its path starts with a slash and consists
  of visible ASCII without quote, backslash and fragment characters, and both are terminated inside
  their arrays.
\<close>

theorem callbackConfig_FieldsValid_no_injection:
  assumes "callbackConfig_FieldsValid c" and "wf_callback c"
  shows "cstr (cb_host c) \<noteq> [] \<and> length (cstr (cb_host c)) < 64 \<and> length (cstr (cb_path c)) < 80
    \<and> hd (cstr (cb_path c)) = CHR ''/''
    \<and> list_all host_character (cstr (cb_host c)) \<and> list_all path_character (cstr (cb_path c))
    \<and> CHR 0x0D \<notin> set (cstr (cb_host c) @ cstr (cb_path c))
    \<and> CHR 0x0A \<notin> set (cstr (cb_host c) @ cstr (cb_path c))
    \<and> CHR '' '' \<notin> set (cstr (cb_host c) @ cstr (cb_path c))"
proof -
  have h: "callbackConfig_HostValid (cb_host c)" and p: "callbackConfig_PathValid (cb_path c)"
    using assms(1) by (simp_all add: callbackConfig_FieldsValid_def)
  have "\<not> host_character (CHR 0x0D)" "\<not> host_character (CHR 0x0A)" "\<not> host_character (CHR '' '')"
    "\<not> path_character (CHR 0x0D)" "\<not> path_character (CHR 0x0A)" "\<not> path_character (CHR '' '')"
    by (simp_all add: host_character_def path_character_def)
  then show ?thesis
    using h p assms(2) by (auto simp: callbackConfig_HostValid_iff callbackConfig_PathValid_iff wf_callback_def list_all_iff)
qed

theorem callbackConfig_FieldsValid_no_injection_witness:
  "CHR 0x0D \<notin> set (cstr (cb_host (cs_config default_cb_snapshot)) @ cstr (cb_path (cs_config default_cb_snapshot)))"
  using callbackConfig_FieldsValid_no_injection [of "cs_config default_cb_snapshot"] default_callback by simp

end
