(* ===== verification/Server_Credentials.thy ===== *)
theory Server_Credentials
  imports User_Store Tls_Platform
begin

text \<open>
  The HTTPS server credentials \<^verbatim>\<open>TLS/Src/tls_server_credentials.c\<close>: certificate and private key are
  uploaded one after the other, staged in RAM, and committed to an A/B snapshot once they form a
  pair. Mbed TLS is not part of the repository: what the code asks of it is the parameter
  \<open>mbedtls\<close> (did seeding the random generator, parsing the certificate, parsing the key and the
  pair check succeed). The compiled-in default credentials are generated by a tool and are
  parameters of the two getters.
\<close>

section \<open>Data\<close>

definition TLS_SERVER_CREDENTIALS_MAX_CERTIFICATE_SIZE :: nat where
  "TLS_SERVER_CREDENTIALS_MAX_CERTIFICATE_SIZE = 1152"
definition TLS_SERVER_CREDENTIALS_MAX_KEY_SIZE :: nat where
  "TLS_SERVER_CREDENTIALS_MAX_KEY_SIZE = 384"
definition TLS_SERVER_CREDENTIALS_MAGIC :: u32 where "TLS_SERVER_CREDENTIALS_MAGIC = 0x54534352"
definition TLS_SERVER_CREDENTIALS_VERSION :: u16 where "TLS_SERVER_CREDENTIALS_VERSION = 3"

lemmas server_credentials_constants =
  TLS_SERVER_CREDENTIALS_MAX_CERTIFICATE_SIZE_def TLS_SERVER_CREDENTIALS_MAX_KEY_SIZE_def

datatype TlsServerCredentials_StatusTypeDef =
    TLS_SERVER_CREDENTIALS_STATUS_ACTIVATED
  | TLS_SERVER_CREDENTIALS_STATUS_PENDING
  | TLS_SERVER_CREDENTIALS_STATUS_INVALID_DATA
  | TLS_SERVER_CREDENTIALS_STATUS_MISMATCH
  | TLS_SERVER_CREDENTIALS_STATUS_STORAGE_ERROR

record mbedtls =
  mb_seed :: bool
  mb_x509_crt_parse :: "u8 list \<Rightarrow> bool"
  mb_pk_parse_key :: "u8 list \<Rightarrow> bool"
  mb_pk_check_pair :: "u8 list \<Rightarrow> u8 list \<Rightarrow> bool"

record TlsServerCredentials_SnapshotTypeDef =
  sc_magic :: u32
  sc_version :: u16
  sc_reserved :: u16
  sc_generation :: u32
  sc_certificateLength :: u16
  sc_keyLength :: u16
  sc_certificate :: "u8 list"
  sc_key :: "u8 list"
  sc_crc :: u32

record server_credentials =
  sc_snapshot :: TlsServerCredentials_SnapshotTypeDef
  sc_activeAddress :: u32
  hasValidSnapshot :: bool
  pendingCertificate :: "u8 list"
  pendingCertificateLength :: nat
  certificateStaged :: bool
  pendingKey :: "u8 list"
  pendingKeyLength :: nat
  keyStaged :: bool

abbreviation sc_sector_a :: u32 where "sc_sector_a \<equiv> FLASH_LAYOUT_TLS_SERVER_CREDENTIALS_SECTOR_A"
abbreviation sc_sector_b :: u32 where "sc_sector_b \<equiv> FLASH_LAYOUT_TLS_SERVER_CREDENTIALS_SECTOR_B"

definition zero_sc_snapshot :: TlsServerCredentials_SnapshotTypeDef where
  "zero_sc_snapshot = \<lparr>sc_magic = 0, sc_version = 0, sc_reserved = 0, sc_generation = 0,
     sc_certificateLength = 0, sc_keyLength = 0, sc_certificate = replicate 1152 0,
     sc_key = replicate 384 0, sc_crc = 0\<rparr>"

definition sc_snapshot_body :: "TlsServerCredentials_SnapshotTypeDef \<Rightarrow> u8 list" where
  "sc_snapshot_body x = le32 (sc_magic x) @ le16 (sc_version x) @ le16 (sc_reserved x)
     @ le32 (sc_generation x) @ le16 (sc_certificateLength x) @ le16 (sc_keyLength x)
     @ sc_certificate x @ sc_key x"

definition enc_sc_snapshot :: "TlsServerCredentials_SnapshotTypeDef \<Rightarrow> u8 list" where
  "enc_sc_snapshot x = sc_snapshot_body x @ le32 (sc_crc x)"

definition dec_sc_snapshot :: "u8 list \<Rightarrow> TlsServerCredentials_SnapshotTypeDef" where
  "dec_sc_snapshot bs = \<lparr>sc_magic = of_le32 (take 4 bs), sc_version = of_le16 (take 2 (drop 4 bs)),
     sc_reserved = of_le16 (take 2 (drop 6 bs)), sc_generation = of_le32 (take 4 (drop 8 bs)),
     sc_certificateLength = of_le16 (take 2 (drop 12 bs)), sc_keyLength = of_le16 (take 2 (drop 14 bs)),
     sc_certificate = take 1152 (drop 16 bs), sc_key = take 384 (drop 1168 bs),
     sc_crc = of_le32 (take 4 (drop 1552 bs))\<rparr>"

definition sc_snapshot_size :: u32 where "sc_snapshot_size = 1556"

section \<open>Operations\<close>

definition tlsServerCredentials_ClearStaging :: "server_credentials \<Rightarrow> server_credentials" where
  "tlsServerCredentials_ClearStaging st =
     st\<lparr>pendingCertificate := replicate 1152 0, pendingKey := replicate 384 0,
        pendingCertificateLength := 0, pendingKeyLength := 0,
        certificateStaged := False, keyStaged := False\<rparr>"

definition tlsServerCredentials_Crc :: "u8 list \<Rightarrow> u32" where
  "tlsServerCredentials_Crc bytes = crc32 bytes"

definition tlsServerCredentials_IsValid :: "TlsServerCredentials_SnapshotTypeDef \<Rightarrow> bool" where
  "tlsServerCredentials_IsValid candidate \<longleftrightarrow>
     sc_magic candidate = TLS_SERVER_CREDENTIALS_MAGIC \<and> sc_version candidate = TLS_SERVER_CREDENTIALS_VERSION
     \<and> unat (sc_certificateLength candidate) \<le> TLS_SERVER_CREDENTIALS_MAX_CERTIFICATE_SIZE
     \<and> unat (sc_keyLength candidate) \<le> TLS_SERVER_CREDENTIALS_MAX_KEY_SIZE
     \<and> sc_crc candidate = tlsServerCredentials_Crc (sc_snapshot_body candidate)"

definition tlsServerCredentials_Seal ::
  "TlsServerCredentials_SnapshotTypeDef \<Rightarrow> TlsServerCredentials_SnapshotTypeDef" where
  "tlsServerCredentials_Seal candidate =
     (let c = candidate\<lparr>sc_magic := TLS_SERVER_CREDENTIALS_MAGIC, sc_version := TLS_SERVER_CREDENTIALS_VERSION,
                sc_generation := sc_generation candidate + 1\<rparr>
      in c\<lparr>sc_crc := tlsServerCredentials_Crc (sc_snapshot_body c)\<rparr>)"

definition tlsServerCredentials_Save ::
  "server_credentials \<Rightarrow> w25q64 \<Rightarrow> TlsServerCredentials_SnapshotTypeDef \<Rightarrow>
     Platform_StatusTypeDef \<times> server_credentials \<times> w25q64" where
  "tlsServerCredentials_Save st f candidate0 =
     (let target = (if sc_activeAddress st = sc_sector_a then sc_sector_b else sc_sector_a);
          candidate = tlsServerCredentials_Seal candidate0
      in case W25Q64_EraseSector f target of
        (s1, f1) \<Rightarrow>
          if s1 \<noteq> PLATFORM_STATUS_OK then (PLATFORM_STATUS_ERROR, st, f1)
          else (case W25Q64_Program f1 target (enc_sc_snapshot candidate) of
            (s2, f2) \<Rightarrow>
              if s2 \<noteq> PLATFORM_STATUS_OK then (PLATFORM_STATUS_ERROR, st, f2)
              else (case W25Q64_Read f2 target sc_snapshot_size of
                (s3, bytes, f3) \<Rightarrow>
                  (let verification = dec_sc_snapshot bytes
                   in if s3 \<noteq> PLATFORM_STATUS_OK \<or> \<not> tlsServerCredentials_IsValid verification
                         \<or> sc_generation verification \<noteq> sc_generation candidate
                      then (PLATFORM_STATUS_ERROR, st, f3)
                      else (PLATFORM_STATUS_OK,
                            st\<lparr>sc_snapshot := candidate, sc_activeAddress := target,
                               hasValidSnapshot := True\<rparr>, f3)))))"

text \<open>The certificate and key to attempt: staged ones first, then those of the snapshot.\<close>

definition credential_data :: "bool \<Rightarrow> u8 list \<Rightarrow> nat \<Rightarrow> bool \<Rightarrow> u8 list \<Rightarrow> nat \<Rightarrow> u8 list option" where
  "credential_data staged pending pendingLength valid stored storedLength =
     (if staged then Some (take pendingLength pending)
      else if valid then Some (take storedLength stored) else None)"

definition tlsServerCredentials_TryActivate ::
  "mbedtls \<Rightarrow> server_credentials \<Rightarrow> w25q64 \<Rightarrow>
     TlsServerCredentials_StatusTypeDef \<times> server_credentials \<times> w25q64" where
  "tlsServerCredentials_TryActivate mb st f =
     (let x = sc_snapshot st
      in case credential_data (certificateStaged st) (pendingCertificate st) (pendingCertificateLength st)
             (hasValidSnapshot st) (sc_certificate x) (unat (sc_certificateLength x)) of
        None \<Rightarrow> (TLS_SERVER_CREDENTIALS_STATUS_PENDING, st, f)
      | Some certificate \<Rightarrow>
          (case credential_data (keyStaged st) (pendingKey st) (pendingKeyLength st)
               (hasValidSnapshot st) (sc_key x) (unat (sc_keyLength x)) of
             None \<Rightarrow> (TLS_SERVER_CREDENTIALS_STATUS_PENDING, st, f)
           | Some key \<Rightarrow>
               (let result = (mb_seed mb \<and> mb_x509_crt_parse mb certificate \<and> mb_pk_parse_key mb key);
                    paired = (result \<and> mb_pk_check_pair mb certificate key)
                in if \<not> result
                   then (TLS_SERVER_CREDENTIALS_STATUS_INVALID_DATA, tlsServerCredentials_ClearStaging st, f)
                   else if \<not> paired
                   then (if \<not> certificateStaged st \<or> \<not> keyStaged st
                         then (TLS_SERVER_CREDENTIALS_STATUS_PENDING, st, f)
                         else (TLS_SERVER_CREDENTIALS_STATUS_MISMATCH, tlsServerCredentials_ClearStaging st, f))
                   else (case tlsServerCredentials_Save st f
                       (x\<lparr>sc_certificateLength := of_nat (length certificate),
                          sc_certificate := certificate @ replicate (1152 - length certificate) 0,
                          sc_keyLength := of_nat (length key),
                          sc_key := key @ replicate (384 - length key) 0\<rparr>) of
                     (s, st', f') \<Rightarrow>
                       (if s = PLATFORM_STATUS_OK then TLS_SERVER_CREDENTIALS_STATUS_ACTIVATED
                        else TLS_SERVER_CREDENTIALS_STATUS_STORAGE_ERROR,
                        tlsServerCredentials_ClearStaging st', f')))))"

text \<open>
  \<open>snapshot\<close> is the read buffer of the first sector: a failed first read leaves in it what the
  transfer delivered, but then one of the other two branches overwrites it.
\<close>

definition TlsServerCredentials_Init ::
  "server_credentials \<Rightarrow> w25q64 \<Rightarrow> Platform_StatusTypeDef \<times> server_credentials \<times> w25q64" where
  "TlsServerCredentials_Init st f =
     (case W25Q64_Read f sc_sector_a sc_snapshot_size of (s1, b1, f1) \<Rightarrow>
       (case W25Q64_Read f1 sc_sector_b sc_snapshot_size of (s2, b2, f2) \<Rightarrow>
         (let first = dec_sc_snapshot b1; second = dec_sc_snapshot b2;
              firstValid = (s1 = PLATFORM_STATUS_OK \<and> tlsServerCredentials_IsValid first);
              secondValid = (s2 = PLATFORM_STATUS_OK \<and> tlsServerCredentials_IsValid second)
          in (PLATFORM_STATUS_OK,
              if firstValid \<and> (\<not> secondValid \<or> sc_generation first \<ge> sc_generation second)
              then st\<lparr>sc_snapshot := first, sc_activeAddress := sc_sector_a, hasValidSnapshot := True\<rparr>
              else if secondValid
              then st\<lparr>sc_snapshot := second, sc_activeAddress := sc_sector_b, hasValidSnapshot := True\<rparr>
              else st\<lparr>sc_snapshot := zero_sc_snapshot, sc_activeAddress := sc_sector_b, hasValidSnapshot := False\<rparr>,
              f2))))"

definition TlsServerCredentials_StageCertificate ::
  "mbedtls \<Rightarrow> tls_platform \<Rightarrow> server_credentials \<Rightarrow> w25q64 \<Rightarrow> u8 list \<Rightarrow>
     TlsServerCredentials_StatusTypeDef \<times> tls_platform \<times> server_credentials \<times> w25q64" where
  "TlsServerCredentials_StageCertificate mb t st f der =
     (if length der = 0 \<or> length der > TLS_SERVER_CREDENTIALS_MAX_CERTIFICATE_SIZE
      then (TLS_SERVER_CREDENTIALS_STATUS_INVALID_DATA, t, st, f)
      else case TlsPlatform_Lock t of
        (s, t1) \<Rightarrow>
          if s \<noteq> PLATFORM_STATUS_OK then (TLS_SERVER_CREDENTIALS_STATUS_STORAGE_ERROR, t1, st, f)
          else (case tlsServerCredentials_TryActivate mb
              (st\<lparr>pendingCertificate := der @ drop (length der) (pendingCertificate st),
                  pendingCertificateLength := length der, certificateStaged := True\<rparr>) f of
            (status, st', f') \<Rightarrow> (status, TlsPlatform_Unlock t1, st', f')))"

definition TlsServerCredentials_StagePrivateKey ::
  "mbedtls \<Rightarrow> tls_platform \<Rightarrow> server_credentials \<Rightarrow> w25q64 \<Rightarrow> u8 list \<Rightarrow>
     TlsServerCredentials_StatusTypeDef \<times> tls_platform \<times> server_credentials \<times> w25q64" where
  "TlsServerCredentials_StagePrivateKey mb t st f der =
     (if length der = 0 \<or> length der > TLS_SERVER_CREDENTIALS_MAX_KEY_SIZE
      then (TLS_SERVER_CREDENTIALS_STATUS_INVALID_DATA, t, st, f)
      else case TlsPlatform_Lock t of
        (s, t1) \<Rightarrow>
          if s \<noteq> PLATFORM_STATUS_OK then (TLS_SERVER_CREDENTIALS_STATUS_STORAGE_ERROR, t1, st, f)
          else (case tlsServerCredentials_TryActivate mb
              (st\<lparr>pendingKey := der @ drop (length der) (pendingKey st),
                  pendingKeyLength := length der, keyStaged := True\<rparr>) f of
            (status, st', f') \<Rightarrow> (status, TlsPlatform_Unlock t1, st', f')))"

definition TlsServerCredentials_GetCertificate :: "u8 list \<Rightarrow> server_credentials \<Rightarrow> u8 list" where
  "TlsServerCredentials_GetCertificate managementServerCertificate st =
     (if hasValidSnapshot st
      then take (unat (sc_certificateLength (sc_snapshot st))) (sc_certificate (sc_snapshot st))
      else managementServerCertificate)"

definition TlsServerCredentials_GetPrivateKey :: "u8 list \<Rightarrow> server_credentials \<Rightarrow> u8 list" where
  "TlsServerCredentials_GetPrivateKey managementServerPrivateKey st =
     (if hasValidSnapshot st
      then take (unat (sc_keyLength (sc_snapshot st))) (sc_key (sc_snapshot st))
      else managementServerPrivateKey)"

section \<open>The snapshot is an A/B store\<close>

definition wf_sc_snapshot :: "TlsServerCredentials_SnapshotTypeDef \<Rightarrow> bool" where
  "wf_sc_snapshot x \<longleftrightarrow> length (sc_certificate x) = 1152 \<and> length (sc_key x) = 384"

lemma length_enc_sc_snapshot:
  "wf_sc_snapshot x \<Longrightarrow> length (enc_sc_snapshot x) = unat sc_snapshot_size"
  by (simp add: enc_sc_snapshot_def sc_snapshot_body_def wf_sc_snapshot_def sc_snapshot_size_def)

lemma dec_enc_sc_snapshot: "wf_sc_snapshot x \<Longrightarrow> dec_sc_snapshot (enc_sc_snapshot x) = x"
  by (cases x) (simp add: dec_sc_snapshot_def enc_sc_snapshot_def sc_snapshot_body_def wf_sc_snapshot_def)

interpretation sc_ab: ab_store W25Q64_Read W25Q64_EraseSector W25Q64_Program nor_mem flash_ready
  dec_sc_snapshot tlsServerCredentials_IsValid sc_generation sc_snapshot_size sc_sector_a sc_sector_b
  enc_sc_snapshot wf_sc_snapshot
proof unfold_locales
qed (simp_all add: length_enc_sc_snapshot dec_enc_sc_snapshot, simp_all add: sc_snapshot_size_def)

lemma tlsServerCredentials_Save_ab:
  "tlsServerCredentials_Save st f c =
     (case sc_ab.save f (sc_activeAddress st) (tlsServerCredentials_Seal c) of
        (s, f') \<Rightarrow>
          (s, if s = PLATFORM_STATUS_OK
              then st\<lparr>sc_snapshot := tlsServerCredentials_Seal c,
                      sc_activeAddress := ab_target sc_sector_a sc_sector_b (sc_activeAddress st),
                      hasValidSnapshot := True\<rparr>
              else st, f'))"
  by (simp add: tlsServerCredentials_Save_def ab_save_def ab_target_def Let_def split: prod.splits)

lemma tlsServerCredentials_Seal_simps [simp]:
  "sc_certificate (tlsServerCredentials_Seal x) = sc_certificate x"
  "sc_key (tlsServerCredentials_Seal x) = sc_key x"
  "sc_certificateLength (tlsServerCredentials_Seal x) = sc_certificateLength x"
  "sc_keyLength (tlsServerCredentials_Seal x) = sc_keyLength x"
  "sc_generation (tlsServerCredentials_Seal x) = sc_generation x + 1"
  by (simp_all add: tlsServerCredentials_Seal_def Let_def)

section \<open>Activation\<close>

abbreviation stored_certificate :: "server_credentials \<Rightarrow> u8 list" where
  "stored_certificate st \<equiv> take (unat (sc_certificateLength (sc_snapshot st))) (sc_certificate (sc_snapshot st))"

abbreviation stored_key :: "server_credentials \<Rightarrow> u8 list" where
  "stored_key st \<equiv> take (unat (sc_keyLength (sc_snapshot st))) (sc_key (sc_snapshot st))"

definition sc_inv :: "server_credentials \<Rightarrow> bool" where
  "sc_inv st \<longleftrightarrow> wf_sc_snapshot (sc_snapshot st)
     \<and> unat (sc_certificateLength (sc_snapshot st)) \<le> 1152 \<and> unat (sc_keyLength (sc_snapshot st)) \<le> 384
     \<and> length (pendingCertificate st) = 1152 \<and> pendingCertificateLength st \<le> 1152
     \<and> length (pendingKey st) = 384 \<and> pendingKeyLength st \<le> 384"

lemma sc_inv_ClearStaging [simp]: "sc_inv st \<Longrightarrow> sc_inv (tlsServerCredentials_ClearStaging st)"
  by (simp add: sc_inv_def tlsServerCredentials_ClearStaging_def)

lemma ClearStaging_simps [simp]:
  "sc_snapshot (tlsServerCredentials_ClearStaging st) = sc_snapshot st"
  "hasValidSnapshot (tlsServerCredentials_ClearStaging st) = hasValidSnapshot st"
  "\<not> certificateStaged (tlsServerCredentials_ClearStaging st)"
  "\<not> keyStaged (tlsServerCredentials_ClearStaging st)"
  by (simp_all add: tlsServerCredentials_ClearStaging_def)

lemma unat_of_nat_u16: "n < 65536 \<Longrightarrow> unat (of_nat n :: u16) = n"
  by (simp add: unat_of_nat)

text \<open>The two outcomes of an attempt: exactly the tried pair becomes active, or nothing changes.\<close>

lemma tlsServerCredentials_TryActivate_outcome:
  assumes "tlsServerCredentials_TryActivate mb st f = (s, st', f')" and "sc_inv st"
  shows "sc_inv st' \<and>
    (if s = TLS_SERVER_CREDENTIALS_STATUS_ACTIVATED
     then \<exists>c k. credential_data (certificateStaged st) (pendingCertificate st) (pendingCertificateLength st)
             (hasValidSnapshot st) (sc_certificate (sc_snapshot st)) (unat (sc_certificateLength (sc_snapshot st))) = Some c
         \<and> credential_data (keyStaged st) (pendingKey st) (pendingKeyLength st)
             (hasValidSnapshot st) (sc_key (sc_snapshot st)) (unat (sc_keyLength (sc_snapshot st))) = Some k
         \<and> mb_x509_crt_parse mb c \<and> mb_pk_parse_key mb k \<and> mb_pk_check_pair mb c k
         \<and> hasValidSnapshot st' \<and> stored_certificate st' = c \<and> stored_key st' = k
         \<and> \<not> certificateStaged st' \<and> \<not> keyStaged st'
     else sc_snapshot st' = sc_snapshot st \<and> hasValidSnapshot st' = hasValidSnapshot st)"
proof -
  let ?x = "sc_snapshot st"
  define cd where "cd = credential_data (certificateStaged st) (pendingCertificate st) (pendingCertificateLength st)
             (hasValidSnapshot st) (sc_certificate ?x) (unat (sc_certificateLength ?x))"
  define kd where "kd = credential_data (keyStaged st) (pendingKey st) (pendingKeyLength st)
             (hasValidSnapshot st) (sc_key ?x) (unat (sc_keyLength ?x))"
  show ?thesis
  proof (cases "\<exists>c k. cd = Some c \<and> kd = Some k \<and> mb_seed mb \<and> mb_x509_crt_parse mb c \<and> mb_pk_parse_key mb k
      \<and> mb_pk_check_pair mb c k")
    case True
    then obtain c k where ck: "cd = Some c" "kd = Some k" "mb_seed mb" "mb_x509_crt_parse mb c"
      "mb_pk_parse_key mb k" "mb_pk_check_pair mb c k" by blast
    have len: "length c \<le> 1152" "length k \<le> 384"
      using ck(1,2) assms(2) by (auto simp: cd_def kd_def credential_data_def sc_inv_def split: if_splits)
    define x' where "x' = ?x\<lparr>sc_certificateLength := of_nat (length c),
        sc_certificate := c @ replicate (1152 - length c) 0, sc_keyLength := of_nat (length k),
        sc_key := k @ replicate (384 - length k) 0\<rparr>"
    have attempt: "tlsServerCredentials_TryActivate mb st f = (case tlsServerCredentials_Save st f x' of
       (s, st', f') \<Rightarrow> (if s = PLATFORM_STATUS_OK then TLS_SERVER_CREDENTIALS_STATUS_ACTIVATED
          else TLS_SERVER_CREDENTIALS_STATUS_STORAGE_ERROR, tlsServerCredentials_ClearStaging st', f'))"
      using ck by (simp add: tlsServerCredentials_TryActivate_def Let_def x'_def flip: cd_def kd_def)
    have inv: "sc_inv (st\<lparr>sc_snapshot := tlsServerCredentials_Seal x', sc_activeAddress := a, hasValidSnapshot := True\<rparr>)" for a
      using assms(2) len by (simp add: sc_inv_def wf_sc_snapshot_def x'_def unat_of_nat_u16)
    have stored: "take (unat (sc_certificateLength x')) (sc_certificate x') = c"
      "take (unat (sc_keyLength x')) (sc_key x') = k"
      using len by (simp_all add: x'_def unat_of_nat_u16)
    show ?thesis
      using assms attempt inv stored ck by (auto simp: tlsServerCredentials_Save_ab simp flip: cd_def kd_def split: prod.splits if_splits)
  next
    case False
    then show ?thesis
      using assms by (auto simp: tlsServerCredentials_TryActivate_def Let_def simp flip: cd_def kd_def
          split: option.splits if_splits)
  qed
qed

lemma sc_inv_stage:
  assumes "sc_inv st"
  shows "length der \<le> 1152 \<Longrightarrow> sc_inv (st\<lparr>pendingCertificate := der @ drop (length der) (pendingCertificate st),
      pendingCertificateLength := length der, certificateStaged := True\<rparr>)"
    and "length der \<le> 384 \<Longrightarrow> sc_inv (st\<lparr>pendingKey := der @ drop (length der) (pendingKey st),
      pendingKeyLength := length der, keyStaged := True\<rparr>)"
  using assms by (simp_all add: sc_inv_def)

section \<open>Properties\<close>

text \<open>
  Staging a certificate activates exactly the uploaded certificate together with a private key
  it forms a verified pair with, and then clears the staging area; with every other result the
  certificate and key served to clients stay what they were. The TLS lock is given back.
\<close>

theorem TlsServerCredentials_StageCertificate_outcome:
  assumes "sc_inv st" and "TlsServerCredentials_StageCertificate mb t st f der = (s, t', st', f')"
  shows "sc_inv st' \<and> cryptoMutex t' = cryptoMutex t
    \<and> (if s = TLS_SERVER_CREDENTIALS_STATUS_ACTIVATED
       then TlsServerCredentials_GetCertificate d st' = der
         \<and> mb_x509_crt_parse mb der \<and> mb_pk_check_pair mb der (TlsServerCredentials_GetPrivateKey e st')
         \<and> \<not> certificateStaged st' \<and> \<not> keyStaged st'
       else TlsServerCredentials_GetCertificate d st' = TlsServerCredentials_GetCertificate d st
         \<and> TlsServerCredentials_GetPrivateKey e st' = TlsServerCredentials_GetPrivateKey e st)"
proof -
  let ?st = "st\<lparr>pendingCertificate := der @ drop (length der) (pendingCertificate st),
      pendingCertificateLength := length der, certificateStaged := True\<rparr>"
  obtain s1 st1 f1 where attempt: "tlsServerCredentials_TryActivate mb ?st f = (s1, st1, f1)"
    by (cases "tlsServerCredentials_TryActivate mb ?st f") auto
  show ?thesis
  proof (cases "length der = 0 \<or> length der > 1152 \<or> cryptoMutex t = None")
    case True
    then show ?thesis
      using assms by (auto simp: TlsServerCredentials_StageCertificate_def server_credentials_constants
          TlsPlatform_Lock_def split: if_splits)
  next
    case False
    then have "length der \<le> 1152" by simp
    note out = tlsServerCredentials_TryActivate_outcome [OF attempt sc_inv_stage(1) [OF assms(1) this]]
    have "s = s1" "st' = st1" "cryptoMutex t' = cryptoMutex t"
      using assms(2) attempt False
      by (auto simp: TlsServerCredentials_StageCertificate_def server_credentials_constants
          TlsPlatform_Lock_def TlsPlatform_Unlock_def split: if_splits)
    then show ?thesis
      using out by (auto simp: TlsServerCredentials_GetCertificate_def TlsServerCredentials_GetPrivateKey_def
          credential_data_def split: if_splits)
  qed
qed

definition toy_mbedtls :: mbedtls where
  "toy_mbedtls = \<lparr>mb_seed = True, mb_x509_crt_parse = (\<lambda>c. True), mb_pk_parse_key = (\<lambda>k. True),
     mb_pk_check_pair = (\<lambda>c k. length c = length k)\<rparr>"

definition blank_credentials :: server_credentials where
  "blank_credentials = \<lparr>sc_snapshot = zero_sc_snapshot, sc_activeAddress = sc_sector_b, hasValidSnapshot = False,
     pendingCertificate = replicate 1152 0, pendingCertificateLength = 0, certificateStaged = False,
     pendingKey = replicate 384 0, pendingKeyLength = 0, keyStaged = False\<rparr>"

lemma sc_inv_blank: "sc_inv blank_credentials"
  by (simp add: sc_inv_def blank_credentials_def wf_sc_snapshot_def zero_sc_snapshot_def)

theorem TlsServerCredentials_StageCertificate_outcome_witness:
  "sc_inv (fst (snd (snd (TlsServerCredentials_StageCertificate toy_mbedtls
     \<lparr>cryptoMutex = Some 0, rng_words = []\<rparr> blank_credentials blank_flash [1, 2]))))"
  using TlsServerCredentials_StageCertificate_outcome [OF sc_inv_blank]
  by (metis prod.collapse)

text \<open>The two uploads as commands, with the answers of the crypto library to each of them.\<close>

datatype sc_command = SC_Certificate bool "u8 list" | SC_Key bool "u8 list"

fun sc_step ::
  "mbedtls \<Rightarrow> tls_platform \<times> server_credentials \<times> w25q64 \<Rightarrow> sc_command \<Rightarrow>
     tls_platform \<times> server_credentials \<times> w25q64" where
  "sc_step mb (t, st, f) (SC_Certificate seed der) =
     snd (TlsServerCredentials_StageCertificate (mb\<lparr>mb_seed := seed\<rparr>) t st f der)"
| "sc_step mb (t, st, f) (SC_Key seed der) =
     snd (TlsServerCredentials_StagePrivateKey (mb\<lparr>mb_seed := seed\<rparr>) t st f der)"

definition sc_paired :: "mbedtls \<Rightarrow> server_credentials \<Rightarrow> bool" where
  "sc_paired mb st \<longleftrightarrow> sc_inv st \<and> (hasValidSnapshot st \<longrightarrow>
     mb_x509_crt_parse mb (stored_certificate st) \<and> mb_pk_parse_key mb (stored_key st)
     \<and> mb_pk_check_pair mb (stored_certificate st) (stored_key st))"

lemma sc_paired_activate:
  assumes "tlsServerCredentials_TryActivate (mb\<lparr>mb_seed := seed\<rparr>) st' f = (s, st'', f')" and "sc_inv st'"
    and "sc_paired mb st" and "sc_snapshot st' = sc_snapshot st" and "hasValidSnapshot st' = hasValidSnapshot st"
  shows "sc_paired mb st''"
  using tlsServerCredentials_TryActivate_outcome [OF assms(1,2)] assms(3-5)
  by (auto simp: sc_paired_def split: if_splits)

lemma sc_step_paired:
  assumes "sc_paired mb st" shows "sc_paired mb (fst (snd (sc_step mb (t, st, f) cmd)))"
proof -
  have inv: "sc_inv st" using assms by (simp add: sc_paired_def)
  show ?thesis
  proof (cases cmd)
    case (SC_Certificate seed der)
    let ?st = "st\<lparr>pendingCertificate := der @ drop (length der) (pendingCertificate st),
      pendingCertificateLength := length der, certificateStaged := True\<rparr>"
    obtain s1 st1 f1 where a: "tlsServerCredentials_TryActivate (mb\<lparr>mb_seed := seed\<rparr>) ?st f = (s1, st1, f1)"
      by (cases "tlsServerCredentials_TryActivate (mb\<lparr>mb_seed := seed\<rparr>) ?st f") auto
    then show ?thesis
      using sc_paired_activate [OF a _ assms] sc_inv_stage(1) [OF inv, of der] assms
      by (auto simp: SC_Certificate TlsServerCredentials_StageCertificate_def server_credentials_constants
          split: prod.splits)
  next
    case (SC_Key seed der)
    let ?st = "st\<lparr>pendingKey := der @ drop (length der) (pendingKey st),
      pendingKeyLength := length der, keyStaged := True\<rparr>"
    obtain s1 st1 f1 where a: "tlsServerCredentials_TryActivate (mb\<lparr>mb_seed := seed\<rparr>) ?st f = (s1, st1, f1)"
      by (cases "tlsServerCredentials_TryActivate (mb\<lparr>mb_seed := seed\<rparr>) ?st f") auto
    then show ?thesis
      using sc_paired_activate [OF a _ assms] sc_inv_stage(2) [OF inv, of der] assms
      by (auto simp: SC_Key TlsServerCredentials_StagePrivateKey_def server_credentials_constants
          split: prod.splits)
  qed
qed

text \<open>
  C14: whatever is uploaded in whatever order, with whatever flash faults and random-generator
  failures, an active snapshot always holds a certificate and a private key that both parse and
  form a pair.
\<close>

theorem server_credentials_always_paired:
  assumes "sc_paired mb (fst (snd s))"
  shows "sc_paired mb (fst (snd (foldl (sc_step mb) s cmds)))"
  using assms
proof (induction cmds arbitrary: s)
  case (Cons cmd cmds)
  then show ?case
    using sc_step_paired [of mb "fst (snd s)" "fst s" "snd (snd s)" cmd] by simp
qed simp

theorem server_credentials_always_paired_witness:
  "sc_paired toy_mbedtls (fst (snd (foldl (sc_step toy_mbedtls)
     (\<lparr>cryptoMutex = Some 0, rng_words = []\<rparr>, blank_credentials, blank_flash)
     [SC_Certificate True [1, 2], SC_Key True [3, 4]])))"
  by (rule server_credentials_always_paired) (use sc_inv_blank in \<open>simp add: sc_paired_def blank_credentials_def\<close>)

end
