(* ===== verification/Trust_Store.thy ===== *)
theory Trust_Store
  imports Health_Check_Config
begin

text \<open>
  The TLS trust anchors \<^verbatim>\<open>TLS/Src/tls_trust_store.c\<close>: four certificate slots in an A/B snapshot
  that spans a bank of three sectors. The code keeps a single copy of the snapshot in RAM, edits it
  in place and re-reads it from flash to verify a commit or to undo a failed one, so a read
  overwrites the received part of that copy; the model reads into the byte image of the snapshot.
  Version-1 images share the header and the first three anchors with version 2, the legacy view
  being the first 6556 bytes of the same memory. Mbed TLS is a parameter.
\<close>

section \<open>Data\<close>

definition TLS_TRUST_STORE_MAX_DER_SIZE :: nat where "TLS_TRUST_STORE_MAX_DER_SIZE = 2048"
definition TLS_TRUST_STORE_SUBJECT_SIZE :: nat where "TLS_TRUST_STORE_SUBJECT_SIZE = 128"
definition TLS_TRUST_STORE_MAX_ANCHORS :: nat where "TLS_TRUST_STORE_MAX_ANCHORS = 4"
definition TLS_TRUST_STORE_MAGIC :: u32 where "TLS_TRUST_STORE_MAGIC = 0x54525354"
definition TLS_TRUST_STORE_VERSION :: u16 where "TLS_TRUST_STORE_VERSION = 2"
definition TLS_TRUST_STORE_LEGACY_VERSION :: u16 where "TLS_TRUST_STORE_LEGACY_VERSION = 1"

lemmas trust_store_constants =
  TLS_TRUST_STORE_MAX_DER_SIZE_def TLS_TRUST_STORE_SUBJECT_SIZE_def TLS_TRUST_STORE_MAX_ANCHORS_def
  TLS_TRUST_STORE_MAX_PERSISTED_def

datatype TlsTrustStore_StatusTypeDef =
    TLS_TRUST_STORE_STATUS_OK
  | TLS_TRUST_STORE_STATUS_INVALID_ARGUMENT
  | TLS_TRUST_STORE_STATUS_INVALID_CERTIFICATE
  | TLS_TRUST_STORE_STATUS_NO_MEMORY
  | TLS_TRUST_STORE_STATUS_NOT_CA
  | TLS_TRUST_STORE_STATUS_NOT_FOUND
  | TLS_TRUST_STORE_STATUS_FULL
  | TLS_TRUST_STORE_STATUS_STORAGE_ERROR

record TlsTrustStore_AnchorTypeDef =
  ta_occupied :: u8
  ta_reserved :: u8
  ta_derLength :: u16
  ta_subject :: string
  ta_der :: "u8 list"

record TlsTrustStore_SnapshotTypeDef =
  ts_magic :: u32
  ts_version :: u16
  ts_reserved :: u16
  ts_generation :: u32
  ts_anchors :: "TlsTrustStore_AnchorTypeDef list"
  ts_crc :: u32

record TlsTrustStore_InfoTypeDef =
  ti_id :: u8
  ti_factory :: u8
  ti_derLength :: u16
  ti_subject :: string

record trust_store =
  trustStoreSnapshot :: TlsTrustStore_SnapshotTypeDef
  trustStoreActiveAddress :: u32
  trustStoreMutex :: semaphore

text \<open>
  What the code asks of Mbed TLS: the result of parsing DER bytes (0 is success), whether an error
  code means that memory ran out, whether the certificate is a CA that may sign certificates, the
  length and text that \<open>mbedtls_x509_dn_gets\<close> delivers for its subject, and whether
  \<open>mbedtls_x509_crt_parse\<close> accepts stored bytes.
\<close>

record trust_mbedtls =
  x509_parse_der :: "u8 list \<Rightarrow> int"
  x509_alloc_failed :: "int \<Rightarrow> bool"
  x509_is_ca :: "u8 list \<Rightarrow> bool"
  x509_key_cert_sign :: "u8 list \<Rightarrow> bool"
  x509_dn_gets :: "u8 list \<Rightarrow> int \<times> string"
  x509_crt_parse :: "u8 list \<Rightarrow> bool"

abbreviation ts_bank_a :: u32 where "ts_bank_a \<equiv> FLASH_LAYOUT_TLS_TRUST_STORE_BANK_A"
abbreviation ts_bank_b :: u32 where "ts_bank_b \<equiv> FLASH_LAYOUT_TLS_TRUST_STORE_BANK_B"

definition zero_anchor :: TlsTrustStore_AnchorTypeDef where
  "zero_anchor = \<lparr>ta_occupied = 0, ta_reserved = 0, ta_derLength = 0, ta_subject = replicate 128 NUL,
     ta_der = replicate 2048 0\<rparr>"

definition zero_ts_snapshot :: TlsTrustStore_SnapshotTypeDef where
  "zero_ts_snapshot = \<lparr>ts_magic = 0, ts_version = 0, ts_reserved = 0, ts_generation = 0,
     ts_anchors = replicate 4 zero_anchor, ts_crc = 0\<rparr>"

definition enc_anchor :: "TlsTrustStore_AnchorTypeDef \<Rightarrow> u8 list" where
  "enc_anchor a = [ta_occupied a, ta_reserved a] @ le16 (ta_derLength a) @ map byte_of_char (ta_subject a) @ ta_der a"

definition dec_anchor :: "u8 list \<Rightarrow> TlsTrustStore_AnchorTypeDef" where
  "dec_anchor bs = \<lparr>ta_occupied = bs ! 0, ta_reserved = bs ! 1, ta_derLength = of_le16 (take 2 (drop 2 bs)),
     ta_subject = map char_of_byte (take 128 (drop 4 bs)), ta_der = take 2048 (drop 132 bs)\<rparr>"

definition ts_snapshot_body :: "TlsTrustStore_SnapshotTypeDef \<Rightarrow> u8 list" where
  "ts_snapshot_body x = le32 (ts_magic x) @ le16 (ts_version x) @ le16 (ts_reserved x) @ le32 (ts_generation x)
     @ concat (map enc_anchor (ts_anchors x))"

definition enc_ts_snapshot :: "TlsTrustStore_SnapshotTypeDef \<Rightarrow> u8 list" where
  "enc_ts_snapshot x = ts_snapshot_body x @ le32 (ts_crc x)"

definition dec_ts_snapshot :: "u8 list \<Rightarrow> TlsTrustStore_SnapshotTypeDef" where
  "dec_ts_snapshot bs = \<lparr>ts_magic = of_le32 (take 4 bs), ts_version = of_le16 (take 2 (drop 4 bs)),
     ts_reserved = of_le16 (take 2 (drop 6 bs)), ts_generation = of_le32 (take 4 (drop 8 bs)),
     ts_anchors = map dec_anchor (chunks 4 2180 (drop 12 bs)), ts_crc = of_le32 (take 4 (drop 8732 bs))\<rparr>"

definition ts_snapshot_size :: u32 where "ts_snapshot_size = 8736"
definition tl_snapshot_size :: u32 where "tl_snapshot_size = 6556"

definition tlsTrustStore_DefaultPem :: "u8 list" where
  "tlsTrustStore_DefaultPem = map byte_of_char (concat (map (\<lambda>line. line @ [CHR 0x0A])
    [''-----BEGIN CERTIFICATE-----'',
     ''MIIFiTCCA3GgAwIBAgIQb77arXO9CEDii02+1PdbkTANBgkqhkiG9w0BAQsFADBO'',
     ''MQswCQYDVQQGEwJVUzEYMBYGA1UECgwPU1NMIENvcnBvcmF0aW9uMSUwIwYDVQQD'',
     ''DBxTU0wuY29tIFRMUyBSU0EgUm9vdCBDQSAyMDIyMB4XDTIyMDgyNTE2MzQyMloX'',
     ''DTQ2MDgxOTE2MzQyMVowTjELMAkGA1UEBhMCVVMxGDAWBgNVBAoMD1NTTCBDb3Jw'',
     ''b3JhdGlvbjElMCMGA1UEAwwcU1NMLmNvbSBUTFMgUlNBIFJvb3QgQ0EgMjAyMjCC'',
     ''AiIwDQYJKoZIhvcNAQEBBQADggIPADCCAgoCggIBANCkCXJPQIgSYT41I57u9nTP'',
     ''L3tYPc48DRAokC+X94xI2KDYJbFMsBFMF3NQ0CJKY7uB0ylu1bUJPiYYf7ISf5OY'',
     ''t6/wNr/y7hienDtSxUcZXXTzZGbVXcdotL8bHAajvI9AI7YexoS9UcQbOcGV0ins'',
     ''S657Lb85/bRi3pZ7QcacoOAGcvvwB5cJOYF0r/c0WRFXCsJbwST0MXMwgsadugL3'',
     ''PnxEX4MN8/HdIGkWCVDi1FW24IBydm5MR7d1VVm0U3TZlMZBrViKMWYPHqIbKUBO'',
     ''L9975hYsLfy/7PO0+r4Y9ptJ1O4Fbtk085zx7AGL0SDGD6C1vBdOSHtRwvzpXGk3'',
     ''R2azaPgVKPC506QVzFpPulJwoxJF3ca6TvvC0PeoUidtbnm1jPx7jMEWTO6Af77w'',
     ''dr5BUxIzrlo4QqvXDz5BjXYHMtWrifZOZ9mxQnUjbvPNQrL8VfVThxc7wDNY8VLS'',
     ''+YCk8OjwO4s4zKTGkH8PnP2L0aPP2oOnaclQNtVcBdIKQXTbYxE3waWglksejBYS'',
     ''d66UNHsef8JmAOSqg+qKkK3ONkRN0VHpvB/zagX9wHQfJRlAUW7qglFA35u5CCoG'',
     ''AtUjHBPW6dvbxrB6y3snm/vg1UYk7RBLY0ulBY+6uB0rpvqR4pJSvezrZ5dtmi2f'',
     ''gTIFZzL7SAg/2SW4BCUvAgMBAAGjYzBhMA8GA1UdEwEB/wQFMAMBAf8wHwYDVR0j'',
     ''BBgwFoAU+y437uOEeicuzRk1sTN8/9REQrkwHQYDVR0OBBYEFPsuN+7jhHonLs0Z'',
     ''NbEzfP/UREK5MA4GA1UdDwEB/wQEAwIBhjANBgkqhkiG9w0BAQsFAAOCAgEAjYlt'',
     ''hEUY8U+zoO9opMAdrDC8Z2awms22qyIZZtM7QbUQnRC6cm4pJCAcAZli05bg4vsM'',
     ''QtfhWsSWTVTNj8pDU/0quOr4ZcoBwq1gaAafORpR2eCNJvkLTqVTJXojpBzOCBvf'',
     ''R4iyrT7gJ4eLSYwfqUdYe5byiB0YrrPRpgqU+tvT5TgKa3kSM/tKWTcWQA673vWJ'',
     ''DPFs0/dRa1419dvAJuoSc06pkZCmF8NsLzjUo3KUQyxi4U5cMj29TH0ZR6LDSeeW'',
     ''P4+a0zvkEdiLA9z2tmBVGKaBUfPhqBVq6+AL8BQx1rmMRTqoENjwuSfr98t67wVy'',
     ''lrXEj5ZzxOhWc5y8aVFjvO9nHEMaX3cZHxj4HCUp+UmZKbaSPaKDN7EgkaibMOlq'',
     ''bLQjk2UEqxHzDh1TJElTHaE/nUiSEeJ9DU/1172iWD54nR4fK/4huxoTtrEoZP2w'',
     ''AgDHbICivRZQIA9ygV/MlP+7mea6kMvq+cYMwq7FGc4zoWtcu358NFcXrfA/rs3q'',
     ''r5nsLFR+jM4uElZI7xc7P0peYNLcdDa8pUNjyw9bowJWCZ4kLOGGgYz+qxcs+sji'',
     ''Mho6/4UIyYOf8kpIEFR3N+2ivEC+5BB09+Rbu7nzifmPQdjH5FCQNYA+HLhNkNPU'',
     ''98OwoX6EyneSMSy4kLGCenROmxMmtNVQZlR4rmA='',
     ''-----END CERTIFICATE-----'']) @ [NUL])"

definition tlsTrustStore_DefaultSubject :: string where
  "tlsTrustStore_DefaultSubject = ''CN=SSL.com TLS RSA Root CA 2022,O=SSL Corporation,C=US''"

section \<open>Integrity\<close>

definition tlsTrustStore_Crc :: "u8 list \<Rightarrow> u32" where
  "tlsTrustStore_Crc bytes = crc32 bytes"

definition anchor_valid :: "TlsTrustStore_AnchorTypeDef \<Rightarrow> bool" where
  "anchor_valid a \<longleftrightarrow> \<not> (ta_occupied a \<noteq> 0 \<and> (ta_derLength a = 0
     \<or> unat (ta_derLength a) > TLS_TRUST_STORE_MAX_DER_SIZE \<or> NUL \<notin> set (ta_subject a)))"

definition tlsTrustStore_IsSnapshotValid :: "TlsTrustStore_SnapshotTypeDef \<Rightarrow> bool" where
  "tlsTrustStore_IsSnapshotValid candidate \<longleftrightarrow>
     (if ts_magic candidate \<noteq> TLS_TRUST_STORE_MAGIC \<or> ts_version candidate \<noteq> TLS_TRUST_STORE_VERSION
         \<or> ts_crc candidate \<noteq> tlsTrustStore_Crc (ts_snapshot_body candidate) then False
      else list_all anchor_valid (ts_anchors candidate))"

text \<open>The legacy check on the shared memory: its CRC word lies where the fourth anchor starts.\<close>

definition tlsTrustStore_IsLegacySnapshotValid :: "TlsTrustStore_SnapshotTypeDef \<Rightarrow> bool" where
  "tlsTrustStore_IsLegacySnapshotValid candidate \<longleftrightarrow>
     ts_magic candidate = TLS_TRUST_STORE_MAGIC \<and> ts_version candidate = TLS_TRUST_STORE_LEGACY_VERSION
     \<and> of_le32 (take 4 (drop 6552 (enc_ts_snapshot candidate)))
         = tlsTrustStore_Crc (take 6552 (enc_ts_snapshot candidate))"

definition tlsTrustStore_SetDefaultAnchor :: TlsTrustStore_AnchorTypeDef where
  "tlsTrustStore_SetDefaultAnchor =
     zero_anchor\<lparr>ta_occupied := 1, ta_derLength := of_nat (length tlsTrustStore_DefaultPem),
       ta_der := tlsTrustStore_DefaultPem @ drop (length tlsTrustStore_DefaultPem) (ta_der zero_anchor),
       ta_subject := strncpy (ta_subject zero_anchor) tlsTrustStore_DefaultSubject 127\<rparr>"

section \<open>Reading and committing\<close>

text \<open>A read of \<open>n\<close> bytes into the snapshot: the bytes received replace the front of its image.\<close>

definition read_into ::
  "trust_store \<Rightarrow> w25q64 \<Rightarrow> u32 \<Rightarrow> u32 \<Rightarrow> Platform_StatusTypeDef \<times> trust_store \<times> w25q64" where
  "read_into st f address n =
     (case W25Q64_Read f address n of
        (s, bytes, f') \<Rightarrow>
          (s, st\<lparr>trustStoreSnapshot :=
             dec_ts_snapshot (bytes @ drop (length bytes) (enc_ts_snapshot (trustStoreSnapshot st)))\<rparr>, f'))"

definition tlsTrustStore_ReadSnapshot ::
  "trust_store \<Rightarrow> w25q64 \<Rightarrow> u32 \<Rightarrow> Platform_StatusTypeDef \<times> trust_store \<times> w25q64" where
  "tlsTrustStore_ReadSnapshot st f address =
     (case read_into st f address ts_snapshot_size of
        (s, st', f') \<Rightarrow>
          if s \<noteq> PLATFORM_STATUS_OK then (PLATFORM_STATUS_ERROR, st', f')
          else (if tlsTrustStore_IsSnapshotValid (trustStoreSnapshot st')
                then PLATFORM_STATUS_OK else PLATFORM_STATUS_ERROR, st', f'))"

text \<open>The erase loop over the sectors of a bank, stopping at the first failure.\<close>

fun tlsTrustStore_EraseLoop :: "w25q64 \<Rightarrow> u32 \<Rightarrow> nat list \<Rightarrow> Platform_StatusTypeDef \<times> w25q64" where
  "tlsTrustStore_EraseLoop f target [] = (PLATFORM_STATUS_OK, f)"
| "tlsTrustStore_EraseLoop f target (sector # sectors) =
     (case W25Q64_EraseSector f (target + of_nat sector * W25Q64_SECTOR_SIZE) of
        (s, f') \<Rightarrow>
          if s \<noteq> PLATFORM_STATUS_OK then (PLATFORM_STATUS_ERROR, f')
          else tlsTrustStore_EraseLoop f' target sectors)"

definition tlsTrustStore_Save ::
  "trust_store \<Rightarrow> w25q64 \<Rightarrow> Platform_StatusTypeDef \<times> trust_store \<times> w25q64" where
  "tlsTrustStore_Save st f =
     (let target = (if trustStoreActiveAddress st = ts_bank_a then ts_bank_b else ts_bank_a)
      in case tlsTrustStore_EraseLoop f target [0..<FLASH_LAYOUT_TLS_TRUST_STORE_BANK_SECTORS] of
        (s1, f1) \<Rightarrow>
          if s1 \<noteq> PLATFORM_STATUS_OK then (PLATFORM_STATUS_ERROR, st, f1)
          else (case W25Q64_Program f1 target (enc_ts_snapshot (trustStoreSnapshot st)) of
            (s2, f2) \<Rightarrow>
              if s2 \<noteq> PLATFORM_STATUS_OK then (PLATFORM_STATUS_ERROR, st, f2)
              else (case tlsTrustStore_ReadSnapshot st f2 target of
                (s3, st3, f3) \<Rightarrow>
                  if s3 \<noteq> PLATFORM_STATUS_OK then (PLATFORM_STATUS_ERROR, st3, f3)
                  else (PLATFORM_STATUS_OK, st3\<lparr>trustStoreActiveAddress := target\<rparr>, f3))))"

definition tlsTrustStore_Seal :: "TlsTrustStore_SnapshotTypeDef \<Rightarrow> TlsTrustStore_SnapshotTypeDef" where
  "tlsTrustStore_Seal x =
     (let c = x\<lparr>ts_magic := TLS_TRUST_STORE_MAGIC, ts_version := TLS_TRUST_STORE_VERSION, ts_reserved := 0,
                ts_generation := ts_generation x + 1\<rparr>
      in c\<lparr>ts_crc := tlsTrustStore_Crc (ts_snapshot_body c)\<rparr>)"

definition tlsTrustStore_CommitCandidate ::
  "trust_store \<Rightarrow> w25q64 \<Rightarrow> TlsTrustStore_StatusTypeDef \<times> trust_store \<times> w25q64" where
  "tlsTrustStore_CommitCandidate st f =
     (case tlsTrustStore_Save (st\<lparr>trustStoreSnapshot := tlsTrustStore_Seal (trustStoreSnapshot st)\<rparr>) f of
        (s, st1, f1) \<Rightarrow>
          if s = PLATFORM_STATUS_OK then (TLS_TRUST_STORE_STATUS_OK, st1, f1)
          else (case tlsTrustStore_ReadSnapshot st1 f1 (trustStoreActiveAddress st1) of
            (_, st2, f2) \<Rightarrow> (TLS_TRUST_STORE_STATUS_STORAGE_ERROR, st2, f2)))"

definition tlsTrustStore_ValidateDer ::
  "trust_mbedtls \<Rightarrow> u8 list \<Rightarrow> TlsTrustStore_StatusTypeDef \<times> TlsTrustStore_AnchorTypeDef option" where
  "tlsTrustStore_ValidateDer mb der =
     (if length der = 0 \<or> length der > TLS_TRUST_STORE_MAX_DER_SIZE
      then (TLS_TRUST_STORE_STATUS_INVALID_ARGUMENT, None)
      else let result = x509_parse_der mb der
        in if result \<noteq> 0
           then (if x509_alloc_failed mb result then TLS_TRUST_STORE_STATUS_NO_MEMORY
                 else TLS_TRUST_STORE_STATUS_INVALID_CERTIFICATE, None)
           else if \<not> x509_is_ca mb der \<or> \<not> x509_key_cert_sign mb der
           then (TLS_TRUST_STORE_STATUS_NOT_CA, None)
           else case x509_dn_gets mb der of (subjectLength, subject) \<Rightarrow>
             if subjectLength \<le> 0 \<or> nat subjectLength \<ge> TLS_TRUST_STORE_SUBJECT_SIZE
             then (TLS_TRUST_STORE_STATUS_INVALID_CERTIFICATE, None)
             else (TLS_TRUST_STORE_STATUS_OK,
               Some (zero_anchor\<lparr>ta_occupied := 1, ta_derLength := of_nat (length der),
                 ta_subject := take (nat subjectLength + 1) (subject @ [NUL])
                   @ drop (nat subjectLength + 1) (ta_subject zero_anchor),
                 ta_der := der @ drop (length der) (ta_der zero_anchor)\<rparr>)))"

section \<open>Start-up\<close>

text \<open>The loop that moves the legacy anchors one slot up, from the last one backwards.\<close>

definition tlsTrustStore_MigrateLoop :: "TlsTrustStore_AnchorTypeDef list \<Rightarrow> TlsTrustStore_AnchorTypeDef list" where
  "tlsTrustStore_MigrateLoop anchors = foldl (\<lambda>as index. as[index := as ! (index - 1)]) anchors [3, 2, 1]"

definition TlsTrustStore_Init ::
  "bool \<Rightarrow> trust_store \<Rightarrow> w25q64 \<Rightarrow> Platform_StatusTypeDef \<times> trust_store \<times> w25q64" where
  "TlsTrustStore_Init created st0 f =
     (if \<not> created then (PLATFORM_STATUS_ERROR, st0\<lparr>trustStoreMutex := Sem_Null\<rparr>, f)
      else
        case tlsTrustStore_ReadSnapshot (st0\<lparr>trustStoreMutex := Sem_Free\<rparr>) f ts_bank_a of (s1, st1, f1) \<Rightarrow>
        (case tlsTrustStore_ReadSnapshot st1 f1 ts_bank_b of (s2, st2, f2) \<Rightarrow>
          (let firstValid = (s1 = PLATFORM_STATUS_OK); secondValid = (s2 = PLATFORM_STATUS_OK)
           in if firstValid \<and> (\<not> secondValid \<or>
                ts_generation (trustStoreSnapshot st1) \<ge> ts_generation (trustStoreSnapshot st2))
              then (case tlsTrustStore_ReadSnapshot st2 f2 ts_bank_a of (s3, st3, f3) \<Rightarrow>
                if s3 \<noteq> PLATFORM_STATUS_OK then (PLATFORM_STATUS_ERROR, st3, f3)
                else (PLATFORM_STATUS_OK, st3\<lparr>trustStoreActiveAddress := ts_bank_a\<rparr>, f3))
              else if secondValid
              then (PLATFORM_STATUS_OK, st2\<lparr>trustStoreActiveAddress := ts_bank_b\<rparr>, f2)
              else
                case read_into st2 f2 FLASH_LAYOUT_TLS_TRUST_STORE_LEGACY_BANK_A tl_snapshot_size of (s3, st3, f3) \<Rightarrow>
                (case read_into st3 f3 FLASH_LAYOUT_TLS_TRUST_STORE_LEGACY_BANK_B tl_snapshot_size of (s4, st4, f4) \<Rightarrow>
                  (let legacyFirstValid = (s3 = PLATFORM_STATUS_OK \<and> tlsTrustStore_IsLegacySnapshotValid (trustStoreSnapshot st3));
                       legacySecondValid = (s4 = PLATFORM_STATUS_OK \<and> tlsTrustStore_IsLegacySnapshotValid (trustStoreSnapshot st4));
                       (candidate, f5) =
                         (if legacyFirstValid \<or> legacySecondValid then
                            (let useFirst = (legacyFirstValid \<and> (\<not> legacySecondValid \<or>
                                   ts_generation (trustStoreSnapshot st3) \<ge> ts_generation (trustStoreSnapshot st4)));
                                 (st5, f5) = (if useFirst
                                   then snd (read_into st4 f4 FLASH_LAYOUT_TLS_TRUST_STORE_LEGACY_BANK_A tl_snapshot_size)
                                   else (st4, f4));
                                 x = trustStoreSnapshot st5
                             in (x\<lparr>ts_anchors := tlsTrustStore_MigrateLoop (ts_anchors x)\<rparr>, f5))
                          else (zero_ts_snapshot, f4));
                       st6 = st4\<lparr>trustStoreSnapshot := candidate\<lparr>ts_anchors :=
                                  (ts_anchors candidate)[0 := tlsTrustStore_SetDefaultAnchor]\<rparr>,
                                trustStoreActiveAddress := ts_bank_b\<rparr>
                   in case tlsTrustStore_CommitCandidate st6 f5 of
                     (s, st7, f7) \<Rightarrow>
                       (if s = TLS_TRUST_STORE_STATUS_OK then PLATFORM_STATUS_OK else PLATFORM_STATUS_ERROR,
                        st7, f7))))))"

section \<open>Operations\<close>

definition TlsTrustStore_Exists :: "trust_store \<Rightarrow> u8 \<Rightarrow> bool \<times> trust_store" where
  "TlsTrustStore_Exists st i =
     (if unat i > TLS_TRUST_STORE_MAX_PERSISTED then (False, st)
      else case xSemaphoreTake (trustStoreMutex st) of
        None \<Rightarrow> (False, st)
      | Some m \<Rightarrow> (ta_occupied (ts_anchors (trustStoreSnapshot st) ! unat i) \<noteq> 0,
                   st\<lparr>trustStoreMutex := xSemaphoreGive m\<rparr>))"

text \<open>The listing loop; the scratch record is the caller's array element, cleared.\<close>

fun tlsTrustStore_ListLoop ::
  "TlsTrustStore_AnchorTypeDef list \<Rightarrow> nat \<Rightarrow> nat \<Rightarrow> TlsTrustStore_InfoTypeDef list" where
  "tlsTrustStore_ListLoop [] index capacity = []"
| "tlsTrustStore_ListLoop (anchor # anchors) index capacity =
     (if capacity = 0 then []
      else if ta_occupied anchor = 0 then tlsTrustStore_ListLoop anchors (Suc index) capacity
      else \<lparr>ti_id = of_nat index, ti_factory = 0, ti_derLength = ta_derLength anchor,
             ti_subject = (strncpy (replicate 128 NUL) (ta_subject anchor) 127)[127 := NUL]\<rparr>
           # tlsTrustStore_ListLoop anchors (Suc index) (capacity - 1))"

definition TlsTrustStore_List :: "trust_store \<Rightarrow> nat \<Rightarrow> TlsTrustStore_InfoTypeDef list \<times> trust_store" where
  "TlsTrustStore_List st capacity =
     (if capacity = 0 then ([], st)
      else case xSemaphoreTake (trustStoreMutex st) of
        None \<Rightarrow> ([], st)
      | Some m \<Rightarrow> (tlsTrustStore_ListLoop (ts_anchors (trustStoreSnapshot st)) 0 capacity,
                   st\<lparr>trustStoreMutex := xSemaphoreGive m\<rparr>))"

text \<open>On success the certificate that was handed to Mbed TLS.\<close>

definition TlsTrustStore_Parse ::
  "trust_mbedtls \<Rightarrow> trust_store \<Rightarrow> u8 \<Rightarrow> TlsTrustStore_StatusTypeDef \<times> u8 list option \<times> trust_store" where
  "TlsTrustStore_Parse mb st i =
     (if unat i > TLS_TRUST_STORE_MAX_PERSISTED \<or> trustStoreMutex st = Sem_Null
      then (TLS_TRUST_STORE_STATUS_NOT_FOUND, None, st)
      else case xSemaphoreTake (trustStoreMutex st) of
        None \<Rightarrow> (TLS_TRUST_STORE_STATUS_STORAGE_ERROR, None, st)
      | Some m \<Rightarrow>
          (let anchor = ts_anchors (trustStoreSnapshot st) ! unat i;
               data = take (unat (ta_derLength anchor)) (ta_der anchor);
               st' = st\<lparr>trustStoreMutex := xSemaphoreGive m\<rparr>
           in if ta_occupied anchor = 0 then (TLS_TRUST_STORE_STATUS_NOT_FOUND, None, st')
              else if x509_crt_parse mb data then (TLS_TRUST_STORE_STATUS_OK, Some data, st')
              else (TLS_TRUST_STORE_STATUS_INVALID_CERTIFICATE, None, st')))"

fun tlsTrustStore_FreeSlot :: "TlsTrustStore_AnchorTypeDef list \<Rightarrow> nat" where
  "tlsTrustStore_FreeSlot [] = 0"
| "tlsTrustStore_FreeSlot (a # as) = (if ta_occupied a = 0 then 0 else Suc (tlsTrustStore_FreeSlot as))"

text \<open>Validate into a slot of the live snapshot and commit, as adding and replacing do.\<close>

definition tlsTrustStore_PutAnchor ::
  "trust_mbedtls \<Rightarrow> trust_store \<Rightarrow> w25q64 \<Rightarrow> nat \<Rightarrow> u8 list \<Rightarrow>
     TlsTrustStore_StatusTypeDef \<times> trust_store \<times> w25q64" where
  "tlsTrustStore_PutAnchor mb st f index der =
     (case tlsTrustStore_ValidateDer mb der of
        (s, None) \<Rightarrow> (s, st, f)
      | (s, Some anchor) \<Rightarrow>
          (let x = trustStoreSnapshot st
           in tlsTrustStore_CommitCandidate
                (st\<lparr>trustStoreSnapshot := x\<lparr>ts_anchors := (ts_anchors x)[index := anchor]\<rparr>\<rparr>) f))"

definition TlsTrustStore_Add ::
  "trust_mbedtls \<Rightarrow> trust_store \<Rightarrow> w25q64 \<Rightarrow> u8 list \<Rightarrow>
     TlsTrustStore_StatusTypeDef \<times> nat option \<times> trust_store \<times> w25q64" where
  "TlsTrustStore_Add mb st f der =
     (case xSemaphoreTake (trustStoreMutex st) of
        None \<Rightarrow> (TLS_TRUST_STORE_STATUS_STORAGE_ERROR, None, st, f)
      | Some m \<Rightarrow>
          (let index = tlsTrustStore_FreeSlot (ts_anchors (trustStoreSnapshot st))
           in if index > TLS_TRUST_STORE_MAX_PERSISTED
              then (TLS_TRUST_STORE_STATUS_FULL, None, st\<lparr>trustStoreMutex := xSemaphoreGive m\<rparr>, f)
              else case tlsTrustStore_PutAnchor mb (st\<lparr>trustStoreMutex := m\<rparr>) f index der of
                (s, st', f') \<Rightarrow>
                  (s, if s = TLS_TRUST_STORE_STATUS_OK then Some index else None,
                   st'\<lparr>trustStoreMutex := xSemaphoreGive m\<rparr>, f')))"

definition TlsTrustStore_Replace ::
  "trust_mbedtls \<Rightarrow> trust_store \<Rightarrow> w25q64 \<Rightarrow> u8 \<Rightarrow> u8 list \<Rightarrow>
     TlsTrustStore_StatusTypeDef \<times> trust_store \<times> w25q64" where
  "TlsTrustStore_Replace mb st f i der =
     (if unat i > TLS_TRUST_STORE_MAX_PERSISTED \<or> trustStoreMutex st = Sem_Null
      then (TLS_TRUST_STORE_STATUS_NOT_FOUND, st, f)
      else case xSemaphoreTake (trustStoreMutex st) of
        None \<Rightarrow> (TLS_TRUST_STORE_STATUS_STORAGE_ERROR, st, f)
      | Some m \<Rightarrow>
          (if ta_occupied (ts_anchors (trustStoreSnapshot st) ! unat i) = 0
           then (TLS_TRUST_STORE_STATUS_NOT_FOUND, st\<lparr>trustStoreMutex := xSemaphoreGive m\<rparr>, f)
           else case tlsTrustStore_PutAnchor mb (st\<lparr>trustStoreMutex := m\<rparr>) f (unat i) der of
             (s, st', f') \<Rightarrow> (s, st'\<lparr>trustStoreMutex := xSemaphoreGive m\<rparr>, f')))"

definition TlsTrustStore_Delete ::
  "trust_store \<Rightarrow> w25q64 \<Rightarrow> u8 \<Rightarrow> TlsTrustStore_StatusTypeDef \<times> trust_store \<times> w25q64" where
  "TlsTrustStore_Delete st f i =
     (if unat i > TLS_TRUST_STORE_MAX_PERSISTED \<or> trustStoreMutex st = Sem_Null
      then (TLS_TRUST_STORE_STATUS_NOT_FOUND, st, f)
      else case xSemaphoreTake (trustStoreMutex st) of
        None \<Rightarrow> (TLS_TRUST_STORE_STATUS_STORAGE_ERROR, st, f)
      | Some m \<Rightarrow>
          (let x = trustStoreSnapshot st
           in if ta_occupied (ts_anchors x ! unat i) = 0
              then (TLS_TRUST_STORE_STATUS_NOT_FOUND, st\<lparr>trustStoreMutex := xSemaphoreGive m\<rparr>, f)
              else case tlsTrustStore_CommitCandidate (st\<lparr>trustStoreMutex := m,
                     trustStoreSnapshot := x\<lparr>ts_anchors := (ts_anchors x)[unat i := zero_anchor]\<rparr>\<rparr>) f of
                (s, st', f') \<Rightarrow> (s, st'\<lparr>trustStoreMutex := xSemaphoreGive m\<rparr>, f')))"

definition TlsTrustStore_Reset ::
  "trust_store \<Rightarrow> w25q64 \<Rightarrow> TlsTrustStore_StatusTypeDef \<times> trust_store \<times> w25q64" where
  "TlsTrustStore_Reset st f =
     (case xSemaphoreTake (trustStoreMutex st) of
        None \<Rightarrow> (TLS_TRUST_STORE_STATUS_STORAGE_ERROR, st, f)
      | Some m \<Rightarrow>
          (case tlsTrustStore_CommitCandidate (st\<lparr>trustStoreMutex := m, trustStoreSnapshot :=
               zero_ts_snapshot\<lparr>ts_generation := ts_generation (trustStoreSnapshot st)\<rparr>\<rparr>) f of
             (s, st', f') \<Rightarrow> (s, st'\<lparr>trustStoreMutex := xSemaphoreGive m\<rparr>, f')))"

section \<open>Memory images round-trip\<close>

definition wf_anchor :: "TlsTrustStore_AnchorTypeDef \<Rightarrow> bool" where
  "wf_anchor a \<longleftrightarrow> length (ta_subject a) = 128 \<and> length (ta_der a) = 2048"

definition wf_ts_snapshot :: "TlsTrustStore_SnapshotTypeDef \<Rightarrow> bool" where
  "wf_ts_snapshot x \<longleftrightarrow> length (ts_anchors x) = 4 \<and> list_all wf_anchor (ts_anchors x)"

lemma length_enc_anchor [simp]: "wf_anchor a \<Longrightarrow> length (enc_anchor a) = 2180"
  by (simp add: enc_anchor_def wf_anchor_def)

lemma dec_enc_anchor [simp]: "wf_anchor a \<Longrightarrow> dec_anchor (enc_anchor a) = a"
  by (cases a) (simp add: enc_anchor_def dec_anchor_def wf_anchor_def comp_def)

lemma wf_ts_snapshot_length:
  "wf_ts_snapshot x \<Longrightarrow> length (concat (map enc_anchor (ts_anchors x))) = 8720"
  by (subst length_concat_fixed [where w = 2180]) (auto simp: wf_ts_snapshot_def list_all_iff)

lemma length_enc_ts_snapshot: "wf_ts_snapshot x \<Longrightarrow> length (enc_ts_snapshot x) = 8736"
  by (simp add: enc_ts_snapshot_def ts_snapshot_body_def wf_ts_snapshot_length)

lemma dec_enc_ts_snapshot:
  assumes "wf_ts_snapshot x" shows "dec_ts_snapshot (enc_ts_snapshot x) = x"
proof -
  have "chunks 4 2180 (concat (map enc_anchor (ts_anchors x)) @ le32 (ts_crc x)) = map enc_anchor (ts_anchors x)"
    using assms by (intro chunks_concat_append) (auto simp: wf_ts_snapshot_def list_all_iff)
  moreover have "map dec_anchor (map enc_anchor (ts_anchors x)) = ts_anchors x"
    using assms by (auto simp: wf_ts_snapshot_def list_all_iff intro!: map_idI)
  moreover have "drop 8720 (concat (map enc_anchor (ts_anchors x))) = []"
    using wf_ts_snapshot_length [OF assms] by simp
  ultimately show ?thesis
    using wf_ts_snapshot_length [OF assms]
    by (cases x) (simp add: dec_ts_snapshot_def enc_ts_snapshot_def ts_snapshot_body_def)
qed

lemma wf_dec_ts_snapshot: "length bs = 8736 \<Longrightarrow> wf_ts_snapshot (dec_ts_snapshot bs)"
  by (auto simp: wf_ts_snapshot_def dec_ts_snapshot_def list_all_iff wf_anchor_def dec_anchor_def
      dest: chunks_length)

lemma wf_zero_anchor [simp]: "wf_anchor zero_anchor"
  by (simp add: wf_anchor_def zero_anchor_def)

lemma tlsTrustStore_Seal_simps [simp]:
  "ts_anchors (tlsTrustStore_Seal x) = ts_anchors x"
  "ts_generation (tlsTrustStore_Seal x) = ts_generation x + 1"
  "wf_ts_snapshot (tlsTrustStore_Seal x) = wf_ts_snapshot x"
  "tlsTrustStore_IsSnapshotValid (tlsTrustStore_Seal x) = list_all anchor_valid (ts_anchors x)"
  by (simp_all add: tlsTrustStore_Seal_def Let_def wf_ts_snapshot_def tlsTrustStore_IsSnapshotValid_def
      ts_snapshot_body_def)

section \<open>Erasing and programming a bank\<close>

definition in_bank :: "u32 \<Rightarrow> nat \<Rightarrow> bool" where
  "in_bank bank i \<longleftrightarrow> unat bank \<le> i \<and> i < unat bank + 12288"

lemma tlsTrustStore_EraseLoop_frame:
  assumes "tlsTrustStore_EraseLoop f t ss = (s, f')"
    and "\<forall>k\<in>set ss. i div nor_sector \<noteq> unat (t + of_nat k * W25Q64_SECTOR_SIZE) div nor_sector"
  shows "nor_mem f' i = nor_mem f i"
  using assms
proof (induction ss arbitrary: f)
  case (Cons a ss)
  obtain s1 f1 where e: "W25Q64_EraseSector f (t + of_nat a * W25Q64_SECTOR_SIZE) = (s1, f1)"
    by (cases "W25Q64_EraseSector f (t + of_nat a * W25Q64_SECTOR_SIZE)") auto
  have "nor_mem f1 i = nor_mem f i"
    using w25q64_driver.er_cases [OF e] Cons.prems(2) by (auto simp: nor_erase_def)
  moreover have "f' = f1 \<or> tlsTrustStore_EraseLoop f1 t ss = (s, f')"
    using Cons.prems(1) e by (auto split: if_splits)
  ultimately show ?case
    using Cons.IH [of f1] Cons.prems(2) by auto
qed simp

lemma tlsTrustStore_EraseLoop_erased:
  assumes "tlsTrustStore_EraseLoop f t ss = (PLATFORM_STATUS_OK, f')"
    and "\<exists>k\<in>set ss. i div nor_sector = unat (t + of_nat k * W25Q64_SECTOR_SIZE) div nor_sector"
  shows "nor_mem f' i = 0xFF"
  using assms
proof (induction ss arbitrary: f)
  case (Cons a ss)
  obtain s1 f1 where e: "W25Q64_EraseSector f (t + of_nat a * W25Q64_SECTOR_SIZE) = (s1, f1)"
    by (cases "W25Q64_EraseSector f (t + of_nat a * W25Q64_SECTOR_SIZE)") auto
  have ok: "s1 = PLATFORM_STATUS_OK" and rest: "tlsTrustStore_EraseLoop f1 t ss = (PLATFORM_STATUS_OK, f')"
    using Cons.prems(1) e by (auto split: if_splits)
  show ?case
  proof (cases "\<exists>k\<in>set ss. i div nor_sector = unat (t + of_nat k * W25Q64_SECTOR_SIZE) div nor_sector")
    case True
    then show ?thesis using Cons.IH [OF rest] by blast
  next
    case False
    then have "nor_mem f' i = nor_mem f1 i"
      using tlsTrustStore_EraseLoop_frame [OF rest] by blast
    then show ?thesis
      using False Cons.prems(2) w25q64_driver.er_ok [of f _ f1] e ok by (auto simp: nor_erase_def)
  qed
qed simp

text \<open>The sectors of a bank, for both banks.\<close>

lemma bank_sectors:
  assumes "bank = ts_bank_a \<or> bank = ts_bank_b" and "k < 3"
  shows "unat (bank + of_nat k * W25Q64_SECTOR_SIZE) = unat bank + k * 4096"
    and "unat bank mod nor_sector = 0" and "unat bank + 12288 \<le> nor_capacity"
proof -
  have "k = 0 \<or> k = 1 \<or> k = 2" using assms(2) by auto
  then show "unat (bank + of_nat k * W25Q64_SECTOR_SIZE) = unat bank + k * 4096"
    using assms(1) by (auto simp: flash_layout_defs)
  show "unat bank mod nor_sector = 0" "unat bank + 12288 \<le> nor_capacity"
    using assms(1) by auto
qed

lemma in_bank_sector:
  assumes "bank = ts_bank_a \<or> bank = ts_bank_b"
  shows "in_bank bank i \<longleftrightarrow>
    (\<exists>k\<in>set [0..<3]. i div nor_sector = unat (bank + of_nat k * W25Q64_SECTOR_SIZE) div nor_sector)"
proof -
  obtain q where q: "unat bank = q * 4096"
    using bank_sectors(2) [OF assms, of 0] by auto
  have "(\<exists>k\<in>set [0..<3]. i div nor_sector = unat (bank + of_nat k * W25Q64_SECTOR_SIZE) div nor_sector)
      \<longleftrightarrow> (\<exists>k<3. i div 4096 = q + k)"
    using bank_sectors(1) [OF assms] q by auto
  also have "\<dots> \<longleftrightarrow> q \<le> i div 4096 \<and> i div 4096 < q + 3"
    by (auto intro: exI [of _ "i div 4096 - q"])
  also have "\<dots> \<longleftrightarrow> q * 4096 \<le> i \<and> i < (q + 3) * 4096"
    by (simp add: less_eq_div_iff_mult_less_eq div_less_iff_less_mult)
  finally show ?thesis
    by (simp add: in_bank_def q)
qed

lemma tlsTrustStore_EraseLoop_bank:
  assumes "tlsTrustStore_EraseLoop f bank [0..<3] = (s, f')" and "bank = ts_bank_a \<or> bank = ts_bank_b"
  shows "\<not> in_bank bank i \<Longrightarrow> nor_mem f' i = nor_mem f i"
    and "s = PLATFORM_STATUS_OK \<Longrightarrow> in_bank bank i \<Longrightarrow> nor_mem f' i = 0xFF"
  using tlsTrustStore_EraseLoop_frame [OF assms(1), of i] tlsTrustStore_EraseLoop_erased [of f bank "[0..<3]" f' i]
    in_bank_sector [OF assms(2), of i] assms(1) by blast+

lemma tlsTrustStore_EraseLoop_ready:
  "flash_ready f \<Longrightarrow> bank = ts_bank_a \<or> bank = ts_bank_b \<Longrightarrow> list_all (\<lambda>k. k < 3) ss \<Longrightarrow>
     \<exists>f'. tlsTrustStore_EraseLoop f bank ss = (PLATFORM_STATUS_OK, f') \<and> flash_ready f'"
proof (induction ss arbitrary: f)
  case (Cons k ss)
  let ?a = "bank + of_nat k * W25Q64_SECTOR_SIZE"
  have "unat ?a < nor_capacity" "unat ?a mod nor_sector = 0"
    using bank_sectors [OF Cons.prems(2), of k] Cons.prems(3) by (auto simp: mod_add_eq [symmetric])
  then obtain f1 where "W25Q64_EraseSector f ?a = (PLATFORM_STATUS_OK, f1)" "flash_ready f1"
    using W25Q64_EraseSector_ready [OF Cons.prems(1), of ?a] by auto
  then show ?case
    using Cons by simp
qed simp

section \<open>Committing a snapshot\<close>

abbreviation ts_target :: "u32 \<Rightarrow> u32" where
  "ts_target active \<equiv> (if active = ts_bank_a then ts_bank_b else ts_bank_a)"

definition ts_image :: "w25q64 \<Rightarrow> u32 \<Rightarrow> u8 list" where
  "ts_image f bank = map (nor_mem f) [unat bank..<unat bank + 8736]"

lemma ts_image_cong: "(\<And>i. in_bank bank i \<Longrightarrow> nor_mem f i = nor_mem g i) \<Longrightarrow> ts_image f bank = ts_image g bank"
  by (auto simp: ts_image_def in_bank_def)

lemma banks_disjoint: "bank = ts_bank_a \<or> bank = ts_bank_b \<Longrightarrow> in_bank bank i \<Longrightarrow> \<not> in_bank (ts_target bank) i"
  by (auto simp: in_bank_def)

lemma read_into_mem:
  assumes "read_into st f bank n = (s, st', f')" and "unat bank + unat n \<le> nor_capacity"
  shows "nor_mem f' = nor_mem f" and "trustStoreActiveAddress st' = trustStoreActiveAddress st"
    and "trustStoreMutex st' = trustStoreMutex st"
  using assms w25q64_driver.rd_mem by (auto simp: read_into_def split: prod.splits)

lemma tlsTrustStore_ReadSnapshot_mem:
  assumes "tlsTrustStore_ReadSnapshot st f bank = (s, st', f')" and "bank = ts_bank_a \<or> bank = ts_bank_b"
  shows "nor_mem f' = nor_mem f" and "trustStoreActiveAddress st' = trustStoreActiveAddress st"
    and "trustStoreMutex st' = trustStoreMutex st"
proof -
  obtain s1 st1 f1 where r: "read_into st f bank ts_snapshot_size = (s1, st1, f1)"
    by (cases "read_into st f bank ts_snapshot_size") auto
  have "unat bank + unat ts_snapshot_size \<le> nor_capacity"
    using bank_sectors(3) [OF assms(2), of 0] by (simp add: ts_snapshot_size_def)
  note read_into_mem [OF r this]
  then show "nor_mem f' = nor_mem f" "trustStoreActiveAddress st' = trustStoreActiveAddress st"
    "trustStoreMutex st' = trustStoreMutex st"
    using assms(1) r by (auto simp: tlsTrustStore_ReadSnapshot_def split: if_splits)
qed

lemma tlsTrustStore_ReadSnapshot_ready:
  assumes "flash_ready f" and "bank = ts_bank_a \<or> bank = ts_bank_b" and "wf_ts_snapshot (trustStoreSnapshot st)"
  shows "\<exists>f'. flash_ready f' \<and> nor_mem f' = nor_mem f \<and> tlsTrustStore_ReadSnapshot st f bank =
    (if tlsTrustStore_IsSnapshotValid (dec_ts_snapshot (ts_image f bank)) then PLATFORM_STATUS_OK
     else PLATFORM_STATUS_ERROR, st\<lparr>trustStoreSnapshot := dec_ts_snapshot (ts_image f bank)\<rparr>, f')"
proof -
  have range: "unat bank + unat ts_snapshot_size \<le> nor_capacity"
    using bank_sectors(3) [OF assms(2), of 0] by (simp add: ts_snapshot_size_def)
  obtain bs f' where r: "W25Q64_Read f bank ts_snapshot_size = (PLATFORM_STATUS_OK, bs, f')" "flash_ready f'"
    using W25Q64_Read_ready [OF assms(1) _ range] by (auto simp: ts_snapshot_size_def)
  have "bs = ts_image f bank" "nor_mem f' = nor_mem f"
    using w25q64_driver.rd_ok [OF r(1) range] w25q64_driver.rd_mem [OF r(1) range]
    by (simp_all add: ts_image_def ts_snapshot_size_def)
  then show ?thesis
    using r length_enc_ts_snapshot [OF assms(3)]
    by (auto simp: tlsTrustStore_ReadSnapshot_def read_into_def ts_image_def)
qed

lemma tlsTrustStore_Save_frame:
  assumes "tlsTrustStore_Save st f = (s, st', f')" and "wf_ts_snapshot (trustStoreSnapshot st)"
  shows "\<not> in_bank (ts_target (trustStoreActiveAddress st)) i \<Longrightarrow> nor_mem f' i = nor_mem f i"
    and "trustStoreMutex st' = trustStoreMutex st"
    and "s \<noteq> PLATFORM_STATUS_OK \<Longrightarrow> trustStoreActiveAddress st' = trustStoreActiveAddress st"
proof -
  define t where "t = ts_target (trustStoreActiveAddress st)"
  have t: "t = ts_bank_a \<or> t = ts_bank_b" by (simp add: t_def)
  let ?d = "enc_ts_snapshot (trustStoreSnapshot st)"
  obtain s1 f1 where e: "tlsTrustStore_EraseLoop f t [0..<3] = (s1, f1)"
    by (cases "tlsTrustStore_EraseLoop f t [0..<3]") auto
  obtain s2 f2 where p: "W25Q64_Program f1 t ?d = (s2, f2)"
    by (cases "W25Q64_Program f1 t ?d") auto
  obtain s3 st3 f3 where r: "tlsTrustStore_ReadSnapshot st f2 t = (s3, st3, f3)"
    by (cases "tlsTrustStore_ReadSnapshot st f2 t") auto
  note rm = tlsTrustStore_ReadSnapshot_mem [OF r t]
  have out: "(f' = f1 \<or> f' = f2 \<or> f' = f3) \<and> (st' = st \<or> st' = st3 \<or> st' = st3\<lparr>trustStoreActiveAddress := t\<rparr>)
      \<and> (s \<noteq> PLATFORM_STATUS_OK \<longrightarrow> st' = st \<or> st' = st3)"
    using assms(1) e p r
    by (auto simp: tlsTrustStore_Save_def Let_def FLASH_LAYOUT_TLS_TRUST_STORE_BANK_SECTORS_def
        simp flip: t_def split: if_splits)
  show "trustStoreMutex st' = trustStoreMutex st"
    "s \<noteq> PLATFORM_STATUS_OK \<Longrightarrow> trustStoreActiveAddress st' = trustStoreActiveAddress st"
    using out rm by auto
  have range: "unat t + length ?d \<le> nor_capacity"
    using bank_sectors(3) [OF t, of 0] length_enc_ts_snapshot [OF assms(2)] by simp
  assume i: "\<not> in_bank (ts_target (trustStoreActiveAddress st)) i"
  obtain k where "nor_mem f2 = nor_write (nor_mem f1) (unat t) (take k ?d)"
    using w25q64_driver.pr_cases [OF p range] by blast
  then have "nor_mem f2 i = nor_mem f1 i"
    using i length_enc_ts_snapshot [OF assms(2)] by (auto simp: nor_write_def in_bank_def simp flip: t_def)
  then show "nor_mem f' i = nor_mem f i"
    using out rm(1) tlsTrustStore_EraseLoop_bank(1) [OF e t] i by (auto simp flip: t_def)
qed

lemma tlsTrustStore_Save_ready:
  assumes "flash_ready f" and "wf_ts_snapshot (trustStoreSnapshot st)"
    and "tlsTrustStore_IsSnapshotValid (trustStoreSnapshot st)"
  shows "\<exists>f'. tlsTrustStore_Save st f =
      (PLATFORM_STATUS_OK, st\<lparr>trustStoreActiveAddress := ts_target (trustStoreActiveAddress st)\<rparr>, f')
    \<and> flash_ready f' \<and> ts_image f' (ts_target (trustStoreActiveAddress st)) = enc_ts_snapshot (trustStoreSnapshot st)"
proof -
  define t where "t = ts_target (trustStoreActiveAddress st)"
  have t: "t = ts_bank_a \<or> t = ts_bank_b" by (simp add: t_def)
  let ?d = "enc_ts_snapshot (trustStoreSnapshot st)"
  have len: "length ?d = 8736" by (rule length_enc_ts_snapshot [OF assms(2)])
  have range: "unat t + length ?d \<le> nor_capacity"
    using bank_sectors(3) [OF t, of 0] len by simp
  obtain f1 where e: "tlsTrustStore_EraseLoop f t [0..<3] = (PLATFORM_STATUS_OK, f1)" "flash_ready f1"
    using tlsTrustStore_EraseLoop_ready [OF assms(1) t, of "[0..<3]"] by (auto simp: list_all_iff)
  obtain f2 where p: "W25Q64_Program f1 t ?d = (PLATFORM_STATUS_OK, f2)" "flash_ready f2"
    using W25Q64_Program_ready [OF e(2) _ range] len by (metis length_0_conv zero_neq_numeral)
  have mem: "nor_mem f2 = nor_write (nor_mem f1) (unat t) ?d"
    by (rule w25q64_driver.pr_ok [OF p(1) range])
  have image: "ts_image f2 t = ?d"
  proof (rule nth_equalityI)
    fix i assume "i < length (ts_image f2 t)"
    then have i: "i < 8736" by (simp add: ts_image_def)
    then have "nor_mem f1 (unat t + i) = 0xFF"
      using tlsTrustStore_EraseLoop_bank(2) [OF e(1) t] by (simp add: in_bank_def)
    then show "ts_image f2 t ! i = ?d ! i"
      using i len by (simp add: ts_image_def mem nor_write_def)
  qed (simp add: ts_image_def len)
  obtain f3 where "flash_ready f3" "nor_mem f3 = nor_mem f2"
    "tlsTrustStore_ReadSnapshot st f2 t = (PLATFORM_STATUS_OK, st, f3)"
    using tlsTrustStore_ReadSnapshot_ready [OF p(2) t assms(2)] image dec_enc_ts_snapshot [OF assms(2)] assms(3)
    by auto
  moreover from this have "ts_image f3 t = ?d"
    using image by (simp add: ts_image_def)
  ultimately show ?thesis
    using e(1) p(1)
    by (auto simp: tlsTrustStore_Save_def Let_def FLASH_LAYOUT_TLS_TRUST_STORE_BANK_SECTORS_def simp flip: t_def)
qed

definition ts_inv :: "TlsTrustStore_SnapshotTypeDef \<Rightarrow> bool" where
  "ts_inv x \<longleftrightarrow> wf_ts_snapshot x \<and> list_all anchor_valid (ts_anchors x)"

lemma ts_inv_Seal [simp]: "ts_inv (tlsTrustStore_Seal x) = ts_inv x"
  by (simp add: ts_inv_def)

lemma ts_inv_update:
  "ts_inv x \<Longrightarrow> wf_anchor a \<Longrightarrow> anchor_valid a \<Longrightarrow> ts_inv (x\<lparr>ts_anchors := (ts_anchors x)[i := a]\<rparr>)"
  using set_update_subset_insert [of "ts_anchors x" i a]
  by (auto simp: ts_inv_def wf_ts_snapshot_def list_all_iff)

lemma tlsTrustStore_CommitCandidate_ready:
  assumes "flash_ready f" and "ts_inv (trustStoreSnapshot st)"
  shows "\<exists>f'. tlsTrustStore_CommitCandidate st f = (TLS_TRUST_STORE_STATUS_OK,
      st\<lparr>trustStoreSnapshot := tlsTrustStore_Seal (trustStoreSnapshot st),
         trustStoreActiveAddress := ts_target (trustStoreActiveAddress st)\<rparr>, f')
    \<and> flash_ready f' \<and> ts_image f' (ts_target (trustStoreActiveAddress st))
        = enc_ts_snapshot (tlsTrustStore_Seal (trustStoreSnapshot st))"
  using tlsTrustStore_Save_ready [of f "st\<lparr>trustStoreSnapshot := tlsTrustStore_Seal (trustStoreSnapshot st)\<rparr>"] assms
  by (auto simp: tlsTrustStore_CommitCandidate_def ts_inv_def)

text \<open>What is assumed of \<open>mbedtls_x509_dn_gets\<close>: its positive result is the length of the text it wrote.\<close>

definition dn_gets_contract :: "trust_mbedtls \<Rightarrow> bool" where
  "dn_gets_contract mb \<longleftrightarrow>
     (\<forall>der. 0 < fst (x509_dn_gets mb der) \<longrightarrow> length (snd (x509_dn_gets mb der)) = nat (fst (x509_dn_gets mb der)))"

lemma tlsTrustStore_ValidateDer_anchor:
  assumes "tlsTrustStore_ValidateDer mb der = (s, Some a)" and "dn_gets_contract mb"
  shows "s = TLS_TRUST_STORE_STATUS_OK" and "wf_anchor a" and "anchor_valid a" and "ta_occupied a = 1"
    and "take (unat (ta_derLength a)) (ta_der a) = der"
proof -
  have dn: "0 < fst (x509_dn_gets mb der) \<Longrightarrow> length (snd (x509_dn_gets mb der)) = nat (fst (x509_dn_gets mb der))"
    using assms(2) by (simp add: dn_gets_contract_def)
  have ok: "s = TLS_TRUST_STORE_STATUS_OK" "0 < length der" "length der \<le> 2048"
    "0 < fst (x509_dn_gets mb der)" "nat (fst (x509_dn_gets mb der)) < 128"
    and a: "a = zero_anchor\<lparr>ta_occupied := 1, ta_derLength := of_nat (length der),
        ta_subject := snd (x509_dn_gets mb der) @ [NUL] @ drop (nat (fst (x509_dn_gets mb der)) + 1) (ta_subject zero_anchor),
        ta_der := der @ drop (length der) (ta_der zero_anchor)\<rparr>"
    using assms(1) dn by (auto simp: tlsTrustStore_ValidateDer_def Let_def trust_store_constants
        split: if_splits prod.splits)
  have len: "unat (of_nat (length der) :: u16) = length der"
    using ok(3) by (simp add: unat_of_nat)
  moreover have "(of_nat (length der) :: u16) \<noteq> 0"
    using len ok(2) by (metis less_numeral_extra(3) unat_0)
  ultimately show "s = TLS_TRUST_STORE_STATUS_OK" "wf_anchor a" "anchor_valid a" "ta_occupied a = 1"
    "take (unat (ta_derLength a)) (ta_der a) = der"
    using ok assms(2) by (auto simp: a wf_anchor_def anchor_valid_def zero_anchor_def trust_store_constants dn_gets_contract_def)
qed

lemma tlsTrustStore_ValidateDer_None:
  "snd (tlsTrustStore_ValidateDer mb der) = None \<longleftrightarrow> fst (tlsTrustStore_ValidateDer mb der) \<noteq> TLS_TRUST_STORE_STATUS_OK"
  by (auto simp: tlsTrustStore_ValidateDer_def Let_def split: prod.splits)

lemma tlsTrustStore_FreeSlot_spec:
  "tlsTrustStore_FreeSlot as \<le> length as"
  "tlsTrustStore_FreeSlot as < length as \<Longrightarrow> ta_occupied (as ! tlsTrustStore_FreeSlot as) = 0"
  "tlsTrustStore_FreeSlot as = length as \<longleftrightarrow> list_all (\<lambda>a. ta_occupied a \<noteq> 0) as"
  by (induction as) auto

lemma ts_eta: "trustStoreMutex st = Sem_Free \<Longrightarrow> st\<lparr>trustStoreMutex := Sem_Free\<rparr> = st"
  by (cases st) simp

section \<open>Properties\<close>

text \<open>
  Adding a trust anchor on fault-free flash is refused as full exactly when all four slots are
  taken, reports the validation error and changes nothing when the certificate is refused, and
  otherwise occupies a free slot, leaves the other slots alone, and hands exactly the uploaded DER
  bytes to the parser when that slot is used later.
\<close>

theorem TlsTrustStore_Add_functional:
  assumes "flash_ready f" and "ts_inv (trustStoreSnapshot st)" and "trustStoreMutex st = Sem_Free"
    and "dn_gets_contract mb" and "TlsTrustStore_Add mb st f der = (s, slot, st', f')"
  shows "trustStoreMutex st' = Sem_Free \<and> ts_inv (trustStoreSnapshot st') \<and> flash_ready f'
    \<and> (if list_all (\<lambda>a. ta_occupied a \<noteq> 0) (ts_anchors (trustStoreSnapshot st))
       then s = TLS_TRUST_STORE_STATUS_FULL \<and> st' = st
       else if fst (tlsTrustStore_ValidateDer mb der) \<noteq> TLS_TRUST_STORE_STATUS_OK
       then s = fst (tlsTrustStore_ValidateDer mb der) \<and> st' = st
       else s = TLS_TRUST_STORE_STATUS_OK
         \<and> (\<exists>i a. slot = Some i \<and> i < 4 \<and> ta_occupied (ts_anchors (trustStoreSnapshot st) ! i) = 0
            \<and> ts_anchors (trustStoreSnapshot st') = (ts_anchors (trustStoreSnapshot st))[i := a]
            \<and> ta_occupied a = 1
            \<and> (x509_crt_parse mb der \<longrightarrow>
                 TlsTrustStore_Parse mb st' (of_nat i) = (TLS_TRUST_STORE_STATUS_OK, Some der, st'))))"
proof -
  let ?as = "ts_anchors (trustStoreSnapshot st)"
  define i where "i = tlsTrustStore_FreeSlot ?as"
  have len: "length ?as = 4"
    using assms(2) by (simp add: ts_inv_def wf_ts_snapshot_def)
  note free = tlsTrustStore_FreeSlot_spec [of ?as, folded i_def, unfolded len]
  consider (full) "i = 4" | (refused) "i < 4" "snd (tlsTrustStore_ValidateDer mb der) = None"
    | (ok) a where "i < 4" "tlsTrustStore_ValidateDer mb der = (TLS_TRUST_STORE_STATUS_OK, Some a)"
    using free(1) tlsTrustStore_ValidateDer_anchor(1) [OF _ assms(4)]
    by (cases "tlsTrustStore_ValidateDer mb der") (metis le_neq_implies_less not_None_eq snd_conv)
  then show ?thesis
  proof cases
    case full
    then show ?thesis
      using assms free(3) ts_eta [OF assms(3)]
      by (auto simp: TlsTrustStore_Add_def Let_def trust_store_constants simp flip: i_def)
  next
    case refused
    then have "fst (tlsTrustStore_ValidateDer mb der) \<noteq> TLS_TRUST_STORE_STATUS_OK"
      by (simp add: tlsTrustStore_ValidateDer_None)
    then show ?thesis
      using assms refused free(3) ts_eta [OF assms(3)]
      by (cases "tlsTrustStore_ValidateDer mb der")
        (auto simp: TlsTrustStore_Add_def tlsTrustStore_PutAnchor_def Let_def trust_store_constants simp flip: i_def)
  next
    case ok
    note a = tlsTrustStore_ValidateDer_anchor [OF ok(2) assms(4)]
    let ?x = "(trustStoreSnapshot st)\<lparr>ts_anchors := ?as[i := a]\<rparr>"
    let ?st = "st\<lparr>trustStoreMutex := Sem_Held, trustStoreSnapshot := ?x\<rparr>"
    have inv: "ts_inv ?x" by (rule ts_inv_update [OF assms(2) a(2,3)])
    obtain f1 where commit: "tlsTrustStore_CommitCandidate ?st f = (TLS_TRUST_STORE_STATUS_OK,
        ?st\<lparr>trustStoreSnapshot := tlsTrustStore_Seal ?x,
           trustStoreActiveAddress := ts_target (trustStoreActiveAddress st)\<rparr>, f1)" "flash_ready f1"
      using tlsTrustStore_CommitCandidate_ready [of f ?st] assms(1) inv by auto
    have st': "s = TLS_TRUST_STORE_STATUS_OK" "slot = Some i" "f' = f1"
      "trustStoreSnapshot st' = tlsTrustStore_Seal ?x" "trustStoreMutex st' = Sem_Free"
      using assms(3,5) ok commit
      by (auto simp: TlsTrustStore_Add_def tlsTrustStore_PutAnchor_def Let_def trust_store_constants simp flip: i_def)
    have index: "unat (of_nat i :: u8) = i"
      using ok(1) by (simp add: unat_of_nat)
    have "TlsTrustStore_Parse mb st' (of_nat i) = (TLS_TRUST_STORE_STATUS_OK, Some der, st')" if "x509_crt_parse mb der"
      using that st' ok(1) a(4,5) index len ts_eta
      by (simp add: TlsTrustStore_Parse_def Let_def trust_store_constants)
    then show ?thesis
      using st' inv commit(2) ok free a(4) by auto
  qed
qed

definition toy_trust_mbedtls :: trust_mbedtls where
  "toy_trust_mbedtls = \<lparr>x509_parse_der = (\<lambda>d. 0), x509_alloc_failed = (\<lambda>r. False), x509_is_ca = (\<lambda>d. True),
     x509_key_cert_sign = (\<lambda>d. True), x509_dn_gets = (\<lambda>d. (4, ''CN=x'')), x509_crt_parse = (\<lambda>d. True)\<rparr>"

definition empty_trust_store :: trust_store where
  "empty_trust_store = \<lparr>trustStoreSnapshot = zero_ts_snapshot, trustStoreActiveAddress = ts_bank_b,
     trustStoreMutex = Sem_Free\<rparr>"

lemma ts_inv_zero: "ts_inv zero_ts_snapshot"
  by (simp add: ts_inv_def wf_ts_snapshot_def zero_ts_snapshot_def list_all_iff anchor_valid_def zero_anchor_def wf_anchor_def)

lemma dn_gets_contract_toy: "dn_gets_contract toy_trust_mbedtls"
  by (simp add: dn_gets_contract_def toy_trust_mbedtls_def)

theorem TlsTrustStore_Add_functional_witness:
  "fst (TlsTrustStore_Add toy_trust_mbedtls empty_trust_store blank_flash [0x30]) = TLS_TRUST_STORE_STATUS_OK"
proof -
  obtain s slot st' f' where add: "TlsTrustStore_Add toy_trust_mbedtls empty_trust_store blank_flash [0x30] = (s, slot, st', f')"
    by (cases "TlsTrustStore_Add toy_trust_mbedtls empty_trust_store blank_flash [0x30]") auto
  have "\<not> list_all (\<lambda>a. ta_occupied a \<noteq> 0) (ts_anchors (trustStoreSnapshot empty_trust_store))"
    by (simp add: empty_trust_store_def zero_ts_snapshot_def zero_anchor_def list_all_iff)
  moreover have "fst (tlsTrustStore_ValidateDer toy_trust_mbedtls [0x30]) = TLS_TRUST_STORE_STATUS_OK"
    by (simp add: tlsTrustStore_ValidateDer_def toy_trust_mbedtls_def trust_store_constants)
  moreover have "flash_ready blank_flash" "trustStoreMutex empty_trust_store = Sem_Free"
    "ts_inv (trustStoreSnapshot empty_trust_store)"
    using ts_inv_zero by (simp_all add: flash_ready_def blank_flash_def empty_trust_store_def)
  ultimately show ?thesis
    using TlsTrustStore_Add_functional [OF _ _ _ dn_gets_contract_toy add] add by simp
qed

text \<open>
  A commit of the trust store, successful or not, never touches memory outside the inactive
  bank; so after a failed commit the previous snapshot can still be read back from the active bank,
  byte for byte.
\<close>

theorem tlsTrustStore_CommitCandidate_safe:
  assumes "tlsTrustStore_CommitCandidate st f = (s, st', f')" and "wf_ts_snapshot (trustStoreSnapshot st)"
    and "trustStoreActiveAddress st = ts_bank_a \<or> trustStoreActiveAddress st = ts_bank_b"
  shows "(\<not> in_bank (ts_target (trustStoreActiveAddress st)) i \<longrightarrow> nor_mem f' i = nor_mem f i)
    \<and> ts_image f' (trustStoreActiveAddress st) = ts_image f (trustStoreActiveAddress st)
    \<and> (s \<noteq> TLS_TRUST_STORE_STATUS_OK \<longrightarrow> s = TLS_TRUST_STORE_STATUS_STORAGE_ERROR
        \<and> trustStoreActiveAddress st' = trustStoreActiveAddress st)"
proof -
  let ?st = "st\<lparr>trustStoreSnapshot := tlsTrustStore_Seal (trustStoreSnapshot st)\<rparr>"
  obtain s1 st1 f1 where save: "tlsTrustStore_Save ?st f = (s1, st1, f1)"
    by (cases "tlsTrustStore_Save ?st f") auto
  have wf: "wf_ts_snapshot (trustStoreSnapshot ?st)"
    using assms(2) by simp
  note fr = tlsTrustStore_Save_frame [OF save wf]
  have frame: "nor_mem f' i = nor_mem f i" if "\<not> in_bank (ts_target (trustStoreActiveAddress st)) i" for i
  proof (cases "s1 = PLATFORM_STATUS_OK")
    case True
    then show ?thesis using assms(1) save fr(1) that by (simp add: tlsTrustStore_CommitCandidate_def)
  next
    case False
    obtain s2 st2 f2 where r: "tlsTrustStore_ReadSnapshot st1 f1 (trustStoreActiveAddress st) = (s2, st2, f2)"
      by (cases "tlsTrustStore_ReadSnapshot st1 f1 (trustStoreActiveAddress st)") auto
    show ?thesis
      using assms(1) save False fr(1,3) that r tlsTrustStore_ReadSnapshot_mem(1) [OF r assms(3)]
      by (simp add: tlsTrustStore_CommitCandidate_def)
  qed
  moreover have "ts_image f' (trustStoreActiveAddress st) = ts_image f (trustStoreActiveAddress st)"
    using frame banks_disjoint [OF assms(3)] by (intro ts_image_cong) blast
  moreover have "s \<noteq> TLS_TRUST_STORE_STATUS_OK \<longrightarrow> s = TLS_TRUST_STORE_STATUS_STORAGE_ERROR
        \<and> trustStoreActiveAddress st' = trustStoreActiveAddress st"
    using assms(1,3) save fr(3) tlsTrustStore_ReadSnapshot_mem(2)
    by (auto simp: tlsTrustStore_CommitCandidate_def split: prod.splits if_splits)
  ultimately show ?thesis
    by blast
qed

theorem tlsTrustStore_CommitCandidate_safe_witness:
  "nor_mem (snd (snd (tlsTrustStore_CommitCandidate empty_trust_store blank_flash))) 0 = 0xFF"
proof -
  obtain s st' f' where c: "tlsTrustStore_CommitCandidate empty_trust_store blank_flash = (s, st', f')"
    by (cases "tlsTrustStore_CommitCandidate empty_trust_store blank_flash") auto
  have "wf_ts_snapshot (trustStoreSnapshot empty_trust_store)"
    "trustStoreActiveAddress empty_trust_store = ts_bank_b"
    using ts_inv_zero by (simp_all add: ts_inv_def empty_trust_store_def)
  then show ?thesis
    using tlsTrustStore_CommitCandidate_safe [OF c, of 0] c by (simp add: in_bank_def blank_flash_def)
qed

end
