(* ===== verification/Health_Check_Log.thy ===== *)
theory Health_Check_Log
  imports User_Store
begin

text \<open>
  The health-check result log \<^verbatim>\<open>Srv/Src/health_check_log.c\<close>: an append-only ring of 24-byte records
  over two flash sectors with 170 slots each. A record is programmed once into an erased slot; a
  sector is erased when the log rolls over into it. The invariant is that every slot of the active
  sector from the append position on is erased; appends keep it whatever flash faults occur, and
  start-up establishes it on log sectors without gaps. The result of
  a check (\<^verbatim>\<open>TLS/Inc/tls_transport.h\<close>) and the RTC reading are arguments.
\<close>

section \<open>Data\<close>

datatype TlsTransport_StatusTypeDef =
    TLS_TRANSPORT_OK
  | TLS_TRANSPORT_DNS_ERROR
  | TLS_TRANSPORT_CONNECT_ERROR
  | TLS_TRANSPORT_CONFIG_ERROR
  | TLS_TRANSPORT_CERTIFICATE_ERROR
  | TLS_TRANSPORT_HANDSHAKE_ERROR
  | TLS_TRANSPORT_IO_ERROR
  | TLS_TRANSPORT_PROTOCOL_ERROR

primrec tls_status_code :: "TlsTransport_StatusTypeDef \<Rightarrow> u8" where
  "tls_status_code TLS_TRANSPORT_OK = 0"
| "tls_status_code TLS_TRANSPORT_DNS_ERROR = 1"
| "tls_status_code TLS_TRANSPORT_CONNECT_ERROR = 2"
| "tls_status_code TLS_TRANSPORT_CONFIG_ERROR = 3"
| "tls_status_code TLS_TRANSPORT_CERTIFICATE_ERROR = 4"
| "tls_status_code TLS_TRANSPORT_HANDSHAKE_ERROR = 5"
| "tls_status_code TLS_TRANSPORT_IO_ERROR = 6"
| "tls_status_code TLS_TRANSPORT_PROTOCOL_ERROR = 7"

text \<open>\<open>detail\<close> is a 32-bit \<open>int\<close>, kept as its two's-complement word.\<close>

record TlsTransport_ResultTypeDef =
  tr_status :: TlsTransport_StatusTypeDef
  tr_detail :: u32
  tr_httpStatus :: u16
  tr_elapsedMs :: u32
  tr_certificateNotAfterUnix :: u32
  tr_tlsVersion :: string
  tr_cipherSuite :: string

record HealthCheckLog_EntryTypeDef =
  le_sequence :: u32
  le_timestampUnix :: u32
  le_elapsedMs :: u32
  le_detail :: u32
  le_httpStatus :: u16
  le_resourceIndex :: u8
  le_status :: u8

record healthCheckLog_RecordTypeDef =
  lr_sequence :: u32
  lr_timestampUnix :: u32
  lr_elapsedMs :: u32
  lr_detail :: u32
  lr_httpStatus :: u16
  lr_resourceIndex :: u8
  lr_status :: u8
  lr_crc :: u32

record health_check_log =
  activeSector :: u8
  nextSlot :: nat
  nextSequence :: u32
  logMutex :: semaphore

definition HEALTH_CHECK_LOG_ERASED_SEQUENCE :: u32 where "HEALTH_CHECK_LOG_ERASED_SEQUENCE = 0xFFFFFFFF"
definition HEALTH_CHECK_LOG_SLOTS_PER_SECTOR :: nat where "HEALTH_CHECK_LOG_SLOTS_PER_SECTOR = 4096 div 24"

lemma log_slots [simp]: "HEALTH_CHECK_LOG_SLOTS_PER_SECTOR = 170"
  by (simp add: HEALTH_CHECK_LOG_SLOTS_PER_SECTOR_def)

definition log_record_body :: "healthCheckLog_RecordTypeDef \<Rightarrow> u8 list" where
  "log_record_body r = le32 (lr_sequence r) @ le32 (lr_timestampUnix r) @ le32 (lr_elapsedMs r)
     @ le32 (lr_detail r) @ le16 (lr_httpStatus r) @ [lr_resourceIndex r, lr_status r]"

definition enc_log_record :: "healthCheckLog_RecordTypeDef \<Rightarrow> u8 list" where
  "enc_log_record r = log_record_body r @ le32 (lr_crc r)"

definition dec_log_record :: "u8 list \<Rightarrow> healthCheckLog_RecordTypeDef" where
  "dec_log_record bs = \<lparr>lr_sequence = of_le32 (take 4 bs), lr_timestampUnix = of_le32 (take 4 (drop 4 bs)),
     lr_elapsedMs = of_le32 (take 4 (drop 8 bs)), lr_detail = of_le32 (take 4 (drop 12 bs)),
     lr_httpStatus = of_le16 (take 2 (drop 16 bs)), lr_resourceIndex = bs ! 18, lr_status = bs ! 19,
     lr_crc = of_le32 (take 4 (drop 20 bs))\<rparr>"

definition entry_of :: "healthCheckLog_RecordTypeDef \<Rightarrow> HealthCheckLog_EntryTypeDef" where
  "entry_of r = \<lparr>le_sequence = lr_sequence r, le_timestampUnix = lr_timestampUnix r,
     le_elapsedMs = lr_elapsedMs r, le_detail = lr_detail r, le_httpStatus = lr_httpStatus r,
     le_resourceIndex = lr_resourceIndex r, le_status = lr_status r\<rparr>"

section \<open>Operations\<close>

definition healthCheckLog_SectorBase :: "u8 \<Rightarrow> u32" where
  "healthCheckLog_SectorBase sector =
     (if sector = 0 then FLASH_LAYOUT_HEALTH_CHECK_LOG_SECTOR_0 else FLASH_LAYOUT_HEALTH_CHECK_LOG_SECTOR_1)"

definition healthCheckLog_Crc :: "u8 list \<Rightarrow> u32" where
  "healthCheckLog_Crc bytes = crc32 bytes"

definition slot_address :: "u8 \<Rightarrow> nat \<Rightarrow> u32" where
  "slot_address sector slot = healthCheckLog_SectorBase sector + of_nat slot * 24"

text \<open>The scan loop: number of valid records, next slot, last sequence.\<close>

function healthCheckLog_ScanLoop ::
  "w25q64 \<Rightarrow> u8 \<Rightarrow> nat \<Rightarrow> nat \<Rightarrow> nat \<Rightarrow> u32 \<Rightarrow> nat \<times> nat \<times> u32 \<times> w25q64" where
  "healthCheckLog_ScanLoop f sector slot valid nextAvailable sequence =
     (if slot \<ge> HEALTH_CHECK_LOG_SLOTS_PER_SECTOR then (valid, nextAvailable, sequence, f)
      else case W25Q64_Read f (slot_address sector slot) 24 of
        (s, bytes, f') \<Rightarrow>
          (let rec = dec_log_record bytes
           in if s \<noteq> PLATFORM_STATUS_OK
              then healthCheckLog_ScanLoop f' sector (slot + 1) valid (slot + 1) sequence
              else if lr_sequence rec = HEALTH_CHECK_LOG_ERASED_SEQUENCE then (valid, slot, sequence, f')
              else if lr_crc rec \<noteq> healthCheckLog_Crc (log_record_body rec)
              then healthCheckLog_ScanLoop f' sector (slot + 1) valid (slot + 1) sequence
              else healthCheckLog_ScanLoop f' sector (slot + 1) (valid + 1) (slot + 1) (lr_sequence rec)))"
  by pat_completeness auto
termination
  by (relation "measure (\<lambda>(f, sector, slot, _). HEALTH_CHECK_LOG_SLOTS_PER_SECTOR - slot)") auto

declare healthCheckLog_ScanLoop.simps [simp del]

definition healthCheckLog_ScanSector :: "w25q64 \<Rightarrow> u8 \<Rightarrow> nat \<times> nat \<times> u32 \<times> w25q64" where
  "healthCheckLog_ScanSector f sector =
     healthCheckLog_ScanLoop f sector 0 0 HEALTH_CHECK_LOG_SLOTS_PER_SECTOR 0"

definition healthCheckLog_RollToSector ::
  "health_check_log \<Rightarrow> w25q64 \<Rightarrow> u8 \<Rightarrow> bool \<times> health_check_log \<times> w25q64" where
  "healthCheckLog_RollToSector st f sector =
     (case W25Q64_EraseSector f (healthCheckLog_SectorBase sector) of
        (s, f') \<Rightarrow>
          if s \<noteq> PLATFORM_STATUS_OK then (False, st, f')
          else (True, st\<lparr>activeSector := sector, nextSlot := 0\<rparr>, f'))"

definition HealthCheckLog_Init ::
  "bool \<Rightarrow> health_check_log \<Rightarrow> w25q64 \<Rightarrow> Platform_StatusTypeDef \<times> health_check_log \<times> w25q64" where
  "HealthCheckLog_Init created st0 f =
     (if \<not> created then (PLATFORM_STATUS_ERROR, st0\<lparr>logMutex := Sem_Null\<rparr>, f)
      else
        let st = st0\<lparr>logMutex := Sem_Free\<rparr>
        in case healthCheckLog_ScanSector f 0 of (count0, available0, last0, f1) \<Rightarrow>
        (case healthCheckLog_ScanSector f1 1 of (count1, available1, last1, f2) \<Rightarrow>
          if count0 = 0 \<and> count1 = 0
          then (case healthCheckLog_RollToSector (st\<lparr>nextSequence := 1\<rparr>) f2 0 of
            (ok, st', f') \<Rightarrow> (if ok then PLATFORM_STATUS_OK else PLATFORM_STATUS_ERROR, st', f'))
          else
            let active = (if last0 \<ge> last1 then 0 else 1 :: u8);
                available = (if active = 0 then available0 else available1);
                last = (if active = 0 then last0 else last1)
            in if available < HEALTH_CHECK_LOG_SLOTS_PER_SECTOR
               then (PLATFORM_STATUS_OK,
                     st\<lparr>activeSector := active, nextSlot := available, nextSequence := last + 1\<rparr>, f2)
               else (case healthCheckLog_RollToSector (st\<lparr>nextSequence := last + 1\<rparr>) f2 (active XOR 1) of
                 (ok, st', f') \<Rightarrow> (if ok then PLATFORM_STATUS_OK else PLATFORM_STATUS_ERROR, st', f'))))"

text \<open>The record an append writes; \<open>now\<close> is what \<open>Rtc_GetUnixTime\<close> delivered, if it succeeded.\<close>

definition log_new_record ::
  "u32 \<Rightarrow> u32 option \<Rightarrow> u8 \<Rightarrow> TlsTransport_ResultTypeDef \<Rightarrow> healthCheckLog_RecordTypeDef" where
  "log_new_record sequence now resourceIndex result =
     (let r = \<lparr>lr_sequence = sequence, lr_timestampUnix = (case now of None \<Rightarrow> 0 | Some t \<Rightarrow> t),
               lr_elapsedMs = tr_elapsedMs result, lr_detail = tr_detail result,
               lr_httpStatus = tr_httpStatus result, lr_resourceIndex = resourceIndex,
               lr_status = tls_status_code (tr_status result), lr_crc = 0\<rparr>
      in r\<lparr>lr_crc := healthCheckLog_Crc (log_record_body r)\<rparr>)"

definition healthCheckLog_MakeRoom ::
  "health_check_log \<Rightarrow> w25q64 \<Rightarrow> bool \<times> health_check_log \<times> w25q64" where
  "healthCheckLog_MakeRoom st f =
     (if nextSlot st \<ge> HEALTH_CHECK_LOG_SLOTS_PER_SECTOR
      then healthCheckLog_RollToSector st f (activeSector st XOR 1) else (True, st, f))"

definition HealthCheckLog_Append ::
  "health_check_log \<Rightarrow> w25q64 \<Rightarrow> u32 option \<Rightarrow> u8 \<Rightarrow> TlsTransport_ResultTypeDef \<Rightarrow>
     Platform_StatusTypeDef \<times> HealthCheckLog_EntryTypeDef option \<times> health_check_log \<times> w25q64" where
  "HealthCheckLog_Append st f now resourceIndex result =
     (case xSemaphoreTake (logMutex st) of
        None \<Rightarrow> (PLATFORM_STATUS_ERROR, None, st, f)
      | Some m \<Rightarrow>
          (case healthCheckLog_MakeRoom (st\<lparr>logMutex := m\<rparr>) f of
             (ok, st1, f1) \<Rightarrow>
               if \<not> ok then (PLATFORM_STATUS_ERROR, None, st1\<lparr>logMutex := xSemaphoreGive m\<rparr>, f1)
               else
                 let rec = log_new_record (nextSequence st1) now resourceIndex result;
                     address = slot_address (activeSector st1) (nextSlot st1);
                     st2 = st1\<lparr>nextSlot := nextSlot st1 + 1, nextSequence := nextSequence st1 + 1,
                              logMutex := xSemaphoreGive m\<rparr>
                 in case W25Q64_Program f1 address (enc_log_record rec) of
                   (s, f2) \<Rightarrow>
                     if s \<noteq> PLATFORM_STATUS_OK then (s, None, st2, f2)
                     else (case W25Q64_Read f2 address 24 of
                       (s', verification, f3) \<Rightarrow>
                         if s' \<noteq> PLATFORM_STATUS_OK \<or> verification \<noteq> enc_log_record rec
                         then (PLATFORM_STATUS_ERROR, None, st2, f3)
                         else (PLATFORM_STATUS_OK, Some (entry_of (dec_log_record verification)), st2, f3))))"

text \<open>One pass of the read-out: from slot \<open>remaining - 1\<close> down, stopping at a read error.\<close>

fun healthCheckLog_ReadLoop ::
  "w25q64 \<Rightarrow> u8 \<Rightarrow> nat \<Rightarrow> nat \<Rightarrow> HealthCheckLog_EntryTypeDef list \<times> w25q64" where
  "healthCheckLog_ReadLoop f sector 0 capacity = ([], f)"
| "healthCheckLog_ReadLoop f sector (Suc remaining) capacity =
     (if capacity = 0 then ([], f)
      else case W25Q64_Read f (slot_address sector remaining) 24 of
        (s, bytes, f') \<Rightarrow>
          (let rec = dec_log_record bytes
           in if s \<noteq> PLATFORM_STATUS_OK then ([], f')
              else if lr_sequence rec = HEALTH_CHECK_LOG_ERASED_SEQUENCE
                      \<or> lr_crc rec \<noteq> healthCheckLog_Crc (log_record_body rec)
              then healthCheckLog_ReadLoop f' sector remaining capacity
              else case healthCheckLog_ReadLoop f' sector remaining (capacity - 1) of
                (entries, f'') \<Rightarrow> (entry_of rec # entries, f'')))"

definition HealthCheckLog_GetRecent ::
  "health_check_log \<Rightarrow> w25q64 \<Rightarrow> nat \<Rightarrow> HealthCheckLog_EntryTypeDef list \<times> health_check_log \<times> w25q64" where
  "HealthCheckLog_GetRecent st f capacity =
     (if capacity = 0 then ([], st, f)
      else case xSemaphoreTake (logMutex st) of
        None \<Rightarrow> ([], st, f)
      | Some m \<Rightarrow>
          (case healthCheckLog_ScanSector f (activeSector st XOR 1) of (_, available, _, f1) \<Rightarrow>
           (case healthCheckLog_ReadLoop f1 (activeSector st) (nextSlot st) capacity of (first, f2) \<Rightarrow>
            (case (if length first < capacity
                   then healthCheckLog_ReadLoop f2 (activeSector st XOR 1) available (capacity - length first)
                   else ([], f2)) of
               (second, f3) \<Rightarrow> (first @ second, st\<lparr>logMutex := xSemaphoreGive m\<rparr>, f3)))))"

section \<open>Records and slots\<close>

lemma length_enc_log_record [simp]: "length (enc_log_record r) = 24"
  by (simp add: enc_log_record_def log_record_body_def)

lemma dec_enc_log_record [simp]: "dec_log_record (enc_log_record r) = r"
  by (cases r) (simp add: dec_log_record_def enc_log_record_def log_record_body_def nth_append)

lemma enc_log_record_inj: "enc_log_record r = enc_log_record r' \<longleftrightarrow> r = r'"
  by (metis dec_enc_log_record)

lemma log_new_record_crc:
  "lr_crc (log_new_record q now i res) = healthCheckLog_Crc (log_record_body (log_new_record q now i res))"
  "lr_sequence (log_new_record q now i res) = q"
  by (simp_all add: log_new_record_def Let_def log_record_body_def)

abbreviation log_base :: "u8 \<Rightarrow> nat" where
  "log_base sector \<equiv> unat (healthCheckLog_SectorBase sector)"

lemma log_base_cases: "log_base sector = (if sector = 0 then 8355840 else 8359936)"
  by (simp add: healthCheckLog_SectorBase_def)

lemma unat_slot_address: "slot < 170 \<Longrightarrow> unat (slot_address sector slot) = log_base sector + 24 * slot"
  by (simp add: slot_address_def unat_word_ariths unat_of_nat log_base_cases)

lemma slot_range: "slot < 170 \<Longrightarrow> unat (slot_address sector slot) + 24 \<le> nor_capacity"
  by (simp add: unat_slot_address log_base_cases)

text \<open>The 24 bytes of a slot.\<close>

definition slot_bytes :: "(nat \<Rightarrow> u8) \<Rightarrow> u8 \<Rightarrow> nat \<Rightarrow> u8 list" where
  "slot_bytes m sector slot = map m [log_base sector + 24 * slot..<log_base sector + 24 * slot + 24]"

definition log_sector_end :: "u8 \<Rightarrow> nat" where
  "log_sector_end sector = log_base sector + nor_sector"

definition log_inv :: "health_check_log \<Rightarrow> w25q64 \<Rightarrow> bool" where
  "log_inv st f \<longleftrightarrow> (activeSector st = 0 \<or> activeSector st = 1) \<and> nextSlot st \<le> 170
     \<and> (\<forall>i. log_base (activeSector st) + 24 * nextSlot st \<le> i \<longrightarrow> i < log_sector_end (activeSector st)
          \<longrightarrow> nor_mem f i = 0xFF)"

lemma other_sector: "s = 0 \<or> s = 1 \<Longrightarrow> (s XOR 1 :: u8) = (if s = 0 then 1 else 0)"
  by auto

lemma log_sectors_disjoint:
  "s = 0 \<or> s = 1 \<Longrightarrow> log_base s \<le> i \<Longrightarrow> i < log_sector_end s \<Longrightarrow>
     i div nor_sector = log_base s div nor_sector \<and> i div nor_sector \<noteq> log_base (s XOR 1) div nor_sector"
  by (auto simp: log_base_cases log_sector_end_def)

section \<open>Appending keeps the invariant\<close>

lemma healthCheckLog_RollToSector_inv:
  assumes "healthCheckLog_RollToSector st f (activeSector st XOR 1) = (ok, st', f')" and "log_inv st f"
  shows "log_inv st' f' \<and> logMutex st' = logMutex st \<and> nextSequence st' = nextSequence st
    \<and> (ok \<longrightarrow> nextSlot st' = 0 \<and> activeSector st' = activeSector st XOR 1) \<and> (\<not> ok \<longrightarrow> st' = st)"
proof -
  let ?t = "activeSector st XOR 1"
  obtain s1 where e: "W25Q64_EraseSector f (healthCheckLog_SectorBase ?t) = (s1, f')"
    and out: "ok = (s1 = PLATFORM_STATUS_OK)" "st' = (if ok then st\<lparr>activeSector := ?t, nextSlot := 0\<rparr> else st)"
    using assms(1) by (auto simp: healthCheckLog_RollToSector_def split: prod.splits if_splits)
  have sec: "activeSector st = 0 \<or> activeSector st = 1"
    using assms(2) by (simp add: log_inv_def)
  have t: "?t = 0 \<or> ?t = 1" "?t XOR 1 = activeSector st"
    using sec by auto
  show ?thesis
  proof (cases ok)
    case True
    then have "nor_mem f' = nor_erase (nor_mem f) (log_base ?t)"
      using w25q64_driver.er_ok [of f _ f'] e out by simp
    then have "nor_mem f' i = 0xFF" if "log_base ?t \<le> i" "i < log_sector_end ?t" for i
      using log_sectors_disjoint [OF t(1) that] by (simp add: nor_erase_def)
    then show ?thesis
      using True out t(1) by (simp add: log_inv_def)
  next
    case False
    have "nor_mem f' i = nor_mem f i" if "log_base (activeSector st) \<le> i" "i < log_sector_end (activeSector st)" for i
      using w25q64_driver.er_cases [OF e] log_sectors_disjoint [OF sec that] by (auto simp: nor_erase_def)
    then show ?thesis
      using False out assms(2) by (auto simp: log_inv_def)
  qed
qed

text \<open>A program at the append position, whatever its outcome, leaves the slots behind it alone.\<close>

lemma log_inv_program:
  assumes "W25Q64_Program f (slot_address (activeSector st) (nextSlot st)) d = (s, f')" and "log_inv st f"
    and "nextSlot st < 170" and "length d = 24"
  shows "log_inv (st\<lparr>nextSlot := nextSlot st + 1, nextSequence := q, logMutex := m\<rparr>) f'"
proof -
  have range: "unat (slot_address (activeSector st) (nextSlot st)) + length d \<le> nor_capacity"
    using slot_range [OF assms(3)] assms(4) by simp
  obtain k where "nor_mem f' = nor_write (nor_mem f) (unat (slot_address (activeSector st) (nextSlot st))) (take k d)"
    using w25q64_driver.pr_cases [OF assms(1) range] by blast
  then show ?thesis
    using assms(2,3,4) by (auto simp: log_inv_def nor_write_def unat_slot_address)
qed

lemma log_inv_mem: "nor_mem f' = nor_mem f \<Longrightarrow> log_inv st f' = log_inv st f"
  by (simp add: log_inv_def)

lemma log_inv_mutex [simp]: "log_inv (st\<lparr>logMutex := m\<rparr>) f = log_inv st f"
  by (simp add: log_inv_def)

text \<open>
  The slot an append uses: the next one, or the first one of the other sector after rolling over.
\<close>

lemma HealthCheckLog_Append_inv:
  assumes "log_inv st f" and "logMutex st = Sem_Free"
    and "HealthCheckLog_Append st f now i res = (s, e, st', f')"
  shows "log_inv st' f' \<and> logMutex st' = Sem_Free
    \<and> (s = PLATFORM_STATUS_OK \<longrightarrow> nextSequence st' = nextSequence st + 1)"
proof -
  let ?h = "st\<lparr>logMutex := Sem_Held\<rparr>"
  obtain ok st1 f1 where roll: "healthCheckLog_MakeRoom ?h f = (ok, st1, f1)"
    by (cases "healthCheckLog_MakeRoom ?h f") auto
  have inv1: "log_inv st1 f1" "logMutex st1 = Sem_Held" "nextSequence st1 = nextSequence st" "ok \<Longrightarrow> nextSlot st1 < 170"
    using roll assms(1) healthCheckLog_RollToSector_inv [of ?h f ok st1 f1]
    by (auto simp: healthCheckLog_MakeRoom_def split: if_splits)
  define rc where "rc = log_new_record (nextSequence st1) now i res"
  define a where "a = slot_address (activeSector st1) (nextSlot st1)"
  define st2 where "st2 = st1\<lparr>nextSlot := nextSlot st1 + 1, nextSequence := nextSequence st1 + 1, logMutex := Sem_Free\<rparr>"
  obtain s2 f2 where p: "W25Q64_Program f1 a (enc_log_record rc) = (s2, f2)"
    by (cases "W25Q64_Program f1 a (enc_log_record rc)") auto
  obtain s3 v f3 where r: "W25Q64_Read f2 a 24 = (s3, v, f3)"
    by (cases "W25Q64_Read f2 a 24") auto
  have app: "HealthCheckLog_Append st f now i res =
      (if \<not> ok then (PLATFORM_STATUS_ERROR, None, st1\<lparr>logMutex := Sem_Free\<rparr>, f1)
       else if s2 \<noteq> PLATFORM_STATUS_OK then (s2, None, st2, f2)
       else if s3 \<noteq> PLATFORM_STATUS_OK \<or> v \<noteq> enc_log_record rc then (PLATFORM_STATUS_ERROR, None, st2, f3)
       else (PLATFORM_STATUS_OK, Some (entry_of (dec_log_record v)), st2, f3))"
    using assms(2) p r by (simp add: HealthCheckLog_Append_def roll Let_def st2_def flip: rc_def a_def)
  have "nor_mem f3 = nor_mem f2" if ok
    using w25q64_driver.rd_mem [OF r] slot_range inv1(4) [OF that] by (simp add: a_def)
  moreover have "log_inv st2 f2" if ok
    using log_inv_program [OF p [unfolded a_def] inv1(1)] inv1(4) [OF that] by (simp add: st2_def)
  ultimately show ?thesis
    using inv1 log_inv_mem [of f3 f2] app assms(3) by (auto simp: st2_def split: if_splits)
qed

section \<open>Reading the log back\<close>

abbreviation slot_record :: "(nat \<Rightarrow> u8) \<Rightarrow> u8 \<Rightarrow> nat \<Rightarrow> healthCheckLog_RecordTypeDef" where
  "slot_record m sector slot \<equiv> dec_log_record (slot_bytes m sector slot)"

definition slot_erased :: "(nat \<Rightarrow> u8) \<Rightarrow> u8 \<Rightarrow> nat \<Rightarrow> bool" where
  "slot_erased m sector slot \<longleftrightarrow> lr_sequence (slot_record m sector slot) = HEALTH_CHECK_LOG_ERASED_SEQUENCE"

definition record_intact :: "healthCheckLog_RecordTypeDef \<Rightarrow> bool" where
  "record_intact r \<longleftrightarrow> lr_sequence r \<noteq> HEALTH_CHECK_LOG_ERASED_SEQUENCE \<and> lr_crc r = healthCheckLog_Crc (log_record_body r)"

text \<open>The intact records of the first \<open>n\<close> slots of a sector, newest first.\<close>

definition intact_entries :: "(nat \<Rightarrow> u8) \<Rightarrow> u8 \<Rightarrow> nat \<Rightarrow> HealthCheckLog_EntryTypeDef list" where
  "intact_entries m sector n = map entry_of (filter record_intact (map (slot_record m sector) (rev [0..<n])))"

definition used_slots :: "(nat \<Rightarrow> u8) \<Rightarrow> u8 \<Rightarrow> nat" where
  "used_slots m sector = length (takeWhile (\<lambda>k. \<not> slot_erased m sector k) [0..<170])"

text \<open>The abstract log: everything that can be read back, newest first.\<close>

definition log_view :: "health_check_log \<Rightarrow> w25q64 \<Rightarrow> HealthCheckLog_EntryTypeDef list" where
  "log_view st f = intact_entries (nor_mem f) (activeSector st) (nextSlot st)
     @ intact_entries (nor_mem f) (activeSector st XOR 1) (used_slots (nor_mem f) (activeSector st XOR 1))"

lemma used_slots_le: "used_slots m sector \<le> 170"
proof -
  have "used_slots m sector \<le> length [0..<170]"
    unfolding used_slots_def by (rule length_takeWhile_le)
  then show ?thesis by simp
qed

lemma slot_read:
  assumes "flash_ready f" and "slot < 170"
  shows "\<exists>f'. W25Q64_Read f (slot_address sector slot) 24 = (PLATFORM_STATUS_OK, slot_bytes (nor_mem f) sector slot, f')
    \<and> flash_ready f' \<and> nor_mem f' = nor_mem f"
proof -
  have range: "unat (slot_address sector slot) + unat (24 :: u32) \<le> nor_capacity"
    using slot_range [OF assms(2)] by simp
  obtain bs f' where r: "W25Q64_Read f (slot_address sector slot) 24 = (PLATFORM_STATUS_OK, bs, f')" "flash_ready f'"
    using W25Q64_Read_ready [OF assms(1) _ range] by auto
  then show ?thesis
    using w25q64_driver.rd_ok [OF r(1) range] w25q64_driver.rd_mem [OF r(1) range]
    by (auto simp: slot_bytes_def unat_slot_address [OF assms(2)])
qed

lemma healthCheckLog_ReadLoop_ready:
  "flash_ready f \<Longrightarrow> n \<le> 170 \<Longrightarrow> \<exists>f'. healthCheckLog_ReadLoop f sector n capacity =
     (take capacity (intact_entries (nor_mem f) sector n), f') \<and> flash_ready f' \<and> nor_mem f' = nor_mem f"
proof (induction n arbitrary: f capacity)
  case 0
  then show ?case by (simp add: intact_entries_def)
next
  case (Suc n)
  let ?r = "slot_record (nor_mem f) sector n"
  obtain f1 where f1: "W25Q64_Read f (slot_address sector n) 24 = (PLATFORM_STATUS_OK, slot_bytes (nor_mem f) sector n, f1)"
    "flash_ready f1" "nor_mem f1 = nor_mem f"
    using slot_read [OF Suc.prems(1), of n sector] Suc.prems(2) by auto
  have view: "intact_entries (nor_mem f) sector (Suc n) =
      (if record_intact ?r then [entry_of ?r] else []) @ intact_entries (nor_mem f) sector n"
    by (simp add: intact_entries_def)
  obtain f2 where f2: "healthCheckLog_ReadLoop f1 sector n capacity = (take capacity (intact_entries (nor_mem f) sector n), f2)"
    "flash_ready f2" "nor_mem f2 = nor_mem f"
    using Suc.IH [OF f1(2)] Suc.prems(2) f1(3) by auto
  obtain f3 where f3: "healthCheckLog_ReadLoop f1 sector n (capacity - 1)
      = (take (capacity - 1) (intact_entries (nor_mem f) sector n), f3)" "flash_ready f3" "nor_mem f3 = nor_mem f"
    using Suc.IH [OF f1(2), of "capacity - 1"] Suc.prems(2) f1(3) by auto
  show ?case
    using f1 f2 f3 Suc.prems(1) view
    by (cases capacity) (auto simp: Let_def record_intact_def split: if_splits)
qed

lemma healthCheckLog_ScanLoop_ready:
  "flash_ready f \<Longrightarrow> slot \<le> 170 \<Longrightarrow> (\<forall>k < slot. \<not> slot_erased (nor_mem f) sector k) \<Longrightarrow> slot = 170 \<longrightarrow> next = 170 \<Longrightarrow>
    \<exists>v q f'. healthCheckLog_ScanLoop f sector slot valid next sequence = (v, used_slots (nor_mem f) sector, q, f')
     \<and> flash_ready f' \<and> nor_mem f' = nor_mem f"
proof (induction f sector slot valid "next" sequence rule: healthCheckLog_ScanLoop.induct)
  case (1 f sector slot valid "next" sequence)
  show ?case
  proof (cases "slot = 170")
    case True
    then have "takeWhile (\<lambda>k. \<not> slot_erased (nor_mem f) sector k) [0..<170] = [0..<170]"
      using "1.prems"(3) by (intro takeWhile_eq_all_conv [THEN iffD2]) auto
    then have "used_slots (nor_mem f) sector = length [0..<170]"
      by (simp only: used_slots_def)
    then show ?thesis
      using True "1.prems" by (simp add: healthCheckLog_ScanLoop.simps)
  next
    case False
    then have slot: "slot < 170" using "1.prems"(2) by simp
    obtain f1 where f1: "W25Q64_Read f (slot_address sector slot) 24 = (PLATFORM_STATUS_OK, slot_bytes (nor_mem f) sector slot, f1)"
      "flash_ready f1" "nor_mem f1 = nor_mem f"
      using slot_read [OF "1.prems"(1) slot] by auto
    show ?thesis
    proof (cases "slot_erased (nor_mem f) sector slot")
      case True
      have "takeWhile (\<lambda>k. \<not> slot_erased (nor_mem f) sector k) [0..<170] = [0..<slot]"
        using "1.prems"(3) True by (intro takeWhile_upt [OF slot]) auto
      then have "used_slots (nor_mem f) sector = length [0..<slot]"
        by (simp only: used_slots_def)
      then show ?thesis
        using True slot f1 by (simp add: healthCheckLog_ScanLoop.simps [of f] slot_erased_def Let_def)
    next
      case False
      have all: "\<forall>k < slot + 1. \<not> slot_erased (nor_mem f1) sector k"
        using "1.prems"(3) False f1(3) by (auto simp: less_Suc_eq)
      show ?thesis
        using "1.IH"(2) [OF _ f1(1) [symmetric] refl refl] "1.IH"(3) [OF _ f1(1) [symmetric] refl refl]
          slot all f1 False
        by (simp add: healthCheckLog_ScanLoop.simps [of f] slot_erased_def Let_def)
    qed
  qed
qed

lemma HealthCheckLog_GetRecent_ready:
  assumes "flash_ready f" and "logMutex st = Sem_Free" and "nextSlot st \<le> 170"
  shows "\<exists>f'. HealthCheckLog_GetRecent st f capacity = (take capacity (log_view st f), st, f')
    \<and> flash_ready f' \<and> nor_mem f' = nor_mem f"
proof (cases "capacity = 0")
  case True
  then show ?thesis
    using assms by (simp add: HealthCheckLog_GetRecent_def)
next
  case False
  let ?o = "activeSector st XOR 1"
  obtain v q f1 where scan: "healthCheckLog_ScanSector f ?o = (v, used_slots (nor_mem f) ?o, q, f1)"
    "flash_ready f1" "nor_mem f1 = nor_mem f"
    using healthCheckLog_ScanLoop_ready [OF assms(1), of 0 ?o 170 0 0] by (auto simp: healthCheckLog_ScanSector_def)
  obtain f2 where r1: "healthCheckLog_ReadLoop f1 (activeSector st) (nextSlot st) capacity
      = (take capacity (intact_entries (nor_mem f) (activeSector st) (nextSlot st)), f2)"
    "flash_ready f2" "nor_mem f2 = nor_mem f"
    using healthCheckLog_ReadLoop_ready [OF scan(2) assms(3)] scan(3) by auto
  have used: "used_slots (nor_mem f) ?o \<le> 170"
    by (rule used_slots_le)
  let ?n = "capacity - length (take capacity (intact_entries (nor_mem f) (activeSector st) (nextSlot st)))"
  obtain f3 where r2: "healthCheckLog_ReadLoop f2 ?o (used_slots (nor_mem f) ?o) ?n
      = (take ?n (intact_entries (nor_mem f) ?o (used_slots (nor_mem f) ?o)), f3)"
    "flash_ready f3" "nor_mem f3 = nor_mem f"
    using healthCheckLog_ReadLoop_ready [OF r1(2) used] r1(3) by auto
  have "st\<lparr>logMutex := Sem_Free\<rparr> = st"
    using assms(2) by (cases st) simp
  then show ?thesis
    using False assms(2) scan r1 r2
    by (auto simp: HealthCheckLog_GetRecent_def log_view_def)
qed

section \<open>Properties\<close>

lemma intact_entries_cong:
  "(\<And>k. k < n \<Longrightarrow> slot_bytes m sector k = slot_bytes m' sector k) \<Longrightarrow> intact_entries m sector n = intact_entries m' sector n"
proof -
  assume "\<And>k. k < n \<Longrightarrow> slot_bytes m sector k = slot_bytes m' sector k"
  then have "map (slot_record m sector) (rev [0..<n]) = map (slot_record m' sector) (rev [0..<n])"
    by (intro map_cong) auto
  then show ?thesis by (simp only: intact_entries_def)
qed

lemma slot_bytes_cong:
  "slot < 170 \<Longrightarrow> (\<And>i. log_base sector + 24 * slot \<le> i \<Longrightarrow> i < log_base sector + 24 * slot + 24 \<Longrightarrow> m i = m' i)
    \<Longrightarrow> slot_bytes m sector slot = slot_bytes m' sector slot"
  by (simp add: slot_bytes_def)

lemma used_slots_cong:
  "(\<And>k. k < 170 \<Longrightarrow> slot_bytes m sector k = slot_bytes m' sector k) \<Longrightarrow> used_slots m sector = used_slots m' sector"
  unfolding used_slots_def slot_erased_def by (rule arg_cong [where f = length], rule takeWhile_cong) auto

text \<open>Slots of different sectors do not overlap; neither do different slots of one sector.\<close>

lemma other_sector_slot:
  assumes "s = 0 \<or> s = 1" and "k < 170" and "log_base (s XOR 1) + 24 * k \<le> i" and "i < log_base (s XOR 1) + 24 * k + 24"
  shows "\<not> (log_base s \<le> i \<and> i < log_sector_end s)"
  using assms by (auto simp: log_base_cases log_sector_end_def)

lemma append_slot_ready:
  assumes "flash_ready f" and "log_inv st f" and "nextSlot st < 170"
  shows "\<exists>f1 f2. W25Q64_Program f (slot_address (activeSector st) (nextSlot st)) (enc_log_record r) = (PLATFORM_STATUS_OK, f1)
    \<and> W25Q64_Read f1 (slot_address (activeSector st) (nextSlot st)) 24 = (PLATFORM_STATUS_OK, enc_log_record r, f2)
    \<and> flash_ready f2 \<and> slot_bytes (nor_mem f2) (activeSector st) (nextSlot st) = enc_log_record r
    \<and> (\<forall>k<nextSlot st. slot_bytes (nor_mem f2) (activeSector st) k = slot_bytes (nor_mem f) (activeSector st) k)
    \<and> (\<forall>k<170. slot_bytes (nor_mem f2) (activeSector st XOR 1) k = slot_bytes (nor_mem f) (activeSector st XOR 1) k)"
proof -
  let ?a = "slot_address (activeSector st) (nextSlot st)" and ?d = "enc_log_record r"
  let ?b = "log_base (activeSector st) + 24 * nextSlot st"
  have a: "unat ?a = ?b" by (rule unat_slot_address [OF assms(3)])
  have range: "unat ?a + length ?d \<le> nor_capacity"
    using slot_range [OF assms(3)] by simp
  obtain f1 where p: "W25Q64_Program f ?a ?d = (PLATFORM_STATUS_OK, f1)" "flash_ready f1"
    using W25Q64_Program_ready [OF assms(1) _ range] by (metis length_0_conv length_enc_log_record zero_neq_numeral)
  have mem: "nor_mem f1 = nor_write (nor_mem f) ?b ?d"
    using w25q64_driver.pr_ok [OF p(1) range] a by simp
  have sec: "activeSector st = 0 \<or> activeSector st = 1"
    using assms(2) by (simp add: log_inv_def)
  have new: "slot_bytes (nor_mem f1) (activeSector st) (nextSlot st) = ?d"
  proof (rule nth_equalityI)
    fix j assume "j < length (slot_bytes (nor_mem f1) (activeSector st) (nextSlot st))"
    then have j: "j < 24" by (simp add: slot_bytes_def)
    moreover have "nor_mem f (?b + j) = 0xFF"
      using assms(2,3) j by (auto simp: log_inv_def log_sector_end_def)
    ultimately show "slot_bytes (nor_mem f1) (activeSector st) (nextSlot st) ! j = ?d ! j"
      by (simp add: slot_bytes_def mem nor_write_def)
  qed (simp add: slot_bytes_def)
  have old: "slot_bytes (nor_mem f1) (activeSector st) k = slot_bytes (nor_mem f) (activeSector st) k" if "k < nextSlot st" for k
    using that assms(3) by (intro slot_bytes_cong) (auto simp: mem nor_write_def)
  have other: "slot_bytes (nor_mem f1) (activeSector st XOR 1) k = slot_bytes (nor_mem f) (activeSector st XOR 1) k" if "k < 170" for k
  proof (rule slot_bytes_cong [OF that])
    fix i assume "log_base (activeSector st XOR 1) + 24 * k \<le> i" "i < log_base (activeSector st XOR 1) + 24 * k + 24"
    then have "\<not> (log_base (activeSector st) \<le> i \<and> i < log_sector_end (activeSector st))"
      by (rule other_sector_slot [OF sec that])
    then show "nor_mem f1 i = nor_mem f i"
      using assms(3) by (auto simp: mem nor_write_def log_sector_end_def)
  qed
  obtain f2 where "W25Q64_Read f1 ?a 24 = (PLATFORM_STATUS_OK, ?d, f2)" "flash_ready f2" "nor_mem f2 = nor_mem f1"
    using slot_read [OF p(2) assms(3), of "activeSector st"] new by auto
  then show ?thesis
    using p(1) new old other by auto
qed

lemma HealthCheckLog_Append_step:
  assumes "flash_ready f" and "log_inv st f" and "logMutex st = Sem_Free" and "nextSlot st < 170"
    and "nextSequence st \<noteq> HEALTH_CHECK_LOG_ERASED_SEQUENCE"
    and "r = log_new_record (nextSequence st) now i res"
    and "healthCheckLog_MakeRoom (st0\<lparr>logMutex := Sem_Held\<rparr>) g = (True, st\<lparr>logMutex := Sem_Held\<rparr>, f)"
    and "logMutex st0 = Sem_Free"
  shows "\<exists>st' f'. HealthCheckLog_Append st0 g now i res = (PLATFORM_STATUS_OK, Some (entry_of r), st', f')
    \<and> flash_ready f' \<and> log_inv st' f' \<and> logMutex st' = Sem_Free
    \<and> log_view st' f' = entry_of r # log_view st f"
proof -
  obtain f1 f2 where w: "W25Q64_Program f (slot_address (activeSector st) (nextSlot st)) (enc_log_record r) = (PLATFORM_STATUS_OK, f1)"
    "W25Q64_Read f1 (slot_address (activeSector st) (nextSlot st)) 24 = (PLATFORM_STATUS_OK, enc_log_record r, f2)"
    "flash_ready f2" "slot_bytes (nor_mem f2) (activeSector st) (nextSlot st) = enc_log_record r"
    "\<forall>k<nextSlot st. slot_bytes (nor_mem f2) (activeSector st) k = slot_bytes (nor_mem f) (activeSector st) k"
    "\<forall>k<170. slot_bytes (nor_mem f2) (activeSector st XOR 1) k = slot_bytes (nor_mem f) (activeSector st XOR 1) k"
    using append_slot_ready [OF assms(1,2,4), of r] by blast
  define st' where "st' = st\<lparr>nextSlot := nextSlot st + 1, nextSequence := nextSequence st + 1, logMutex := Sem_Free\<rparr>"
  have app: "HealthCheckLog_Append st0 g now i res = (PLATFORM_STATUS_OK, Some (entry_of r), st', f2)"
    using w(1,2) assms(3,6,7,8) by (simp add: HealthCheckLog_Append_def Let_def st'_def)
  have "record_intact r"
    using assms(5) log_new_record_crc [of "nextSequence st" now i res] assms(6) by (simp add: record_intact_def)
  moreover have "intact_entries (nor_mem f2) (activeSector st) (nextSlot st) = intact_entries (nor_mem f) (activeSector st) (nextSlot st)"
    using w(5) by (intro intact_entries_cong) simp
  moreover have "used_slots (nor_mem f2) (activeSector st XOR 1) = used_slots (nor_mem f) (activeSector st XOR 1)"
    using w(6) by (intro used_slots_cong) simp
  moreover have "intact_entries (nor_mem f2) (activeSector st XOR 1) (used_slots (nor_mem f) (activeSector st XOR 1))
      = intact_entries (nor_mem f) (activeSector st XOR 1) (used_slots (nor_mem f) (activeSector st XOR 1))"
    using w(6) used_slots_le by (intro intact_entries_cong) (meson order_less_le_trans)
  ultimately have "log_view st' f2 = entry_of r # log_view st f"
    using w(4) by (simp add: log_view_def st'_def) (simp add: intact_entries_def)
  moreover have "log_inv st' f2"
    using log_inv_program [OF w(1) assms(2,4)] log_inv_mem [of f2 f1] w(2) slot_range [OF assms(4)]
      w25q64_driver.rd_mem [OF w(2)] by (simp add: st'_def)
  ultimately show ?thesis
    using app w(3) by (auto simp: st'_def)
qed

lemma healthCheckLog_Roll_ready:
  assumes "flash_ready f" and "log_inv st f" and "170 \<le> nextSlot st"
  shows "\<exists>st1 f1. healthCheckLog_MakeRoom st f = (True, st1, f1) \<and> flash_ready f1 \<and> log_inv st1 f1
    \<and> nextSlot st1 = 0 \<and> nextSequence st1 = nextSequence st \<and> logMutex st1 = logMutex st
    \<and> log_view st1 f1 = intact_entries (nor_mem f) (activeSector st) (used_slots (nor_mem f) (activeSector st))"
proof -
  let ?a = "activeSector st" and ?o = "activeSector st XOR 1"
  have sec: "?a = 0 \<or> ?a = 1" using assms(2) by (simp add: log_inv_def)
  then have twice: "?o XOR 1 = ?a" and base: "log_base ?o mod nor_sector = 0" "log_base ?o < nor_capacity"
    by (auto simp: log_base_cases)
  obtain f1 where e: "W25Q64_EraseSector f (healthCheckLog_SectorBase ?o) = (PLATFORM_STATUS_OK, f1)" "flash_ready f1"
    using W25Q64_EraseSector_ready [OF assms(1) base(2,1)] by auto
  let ?st1 = "st\<lparr>activeSector := ?o, nextSlot := 0\<rparr>"
  have room: "healthCheckLog_RollToSector st f ?o = (True, ?st1, f1)"
    using e(1) by (simp add: healthCheckLog_RollToSector_def)
  have same: "nor_mem f1 i = nor_mem f i" if "log_base ?a \<le> i" "i < log_sector_end ?a" for i
    using w25q64_driver.er_ok [OF e(1)] log_sectors_disjoint [OF sec that] by (simp add: nor_erase_def)
  have bytes: "slot_bytes (nor_mem f1) ?a k = slot_bytes (nor_mem f) ?a k" if "k < 170" for k
    using that by (intro slot_bytes_cong same) (auto simp: log_sector_end_def)
  have "used_slots (nor_mem f1) ?a = used_slots (nor_mem f) ?a"
    by (rule used_slots_cong) (rule bytes)
  moreover have "intact_entries (nor_mem f1) ?a (used_slots (nor_mem f) ?a) = intact_entries (nor_mem f) ?a (used_slots (nor_mem f) ?a)"
    using used_slots_le by (intro intact_entries_cong bytes) (meson order_less_le_trans)
  ultimately have "log_view ?st1 f1 = intact_entries (nor_mem f) ?a (used_slots (nor_mem f) ?a)"
    using twice by (simp add: log_view_def) (simp add: intact_entries_def)
  then show ?thesis
    using room healthCheckLog_RollToSector_inv [OF room assms(2)] e(2) assms(3)
    by (auto simp: healthCheckLog_MakeRoom_def)
qed

text \<open>
  C11: on fault-free flash an append always succeeds, reports the record it wrote, and puts it in
  front of everything that can be read back: nothing older is lost unless the log rolls over, and
  then only the sector it rolls into is given up. Reading back returns the newest entries first.
\<close>

theorem HealthCheckLog_Append_refines:
  assumes "flash_ready f" and "log_inv st f" and "logMutex st = Sem_Free"
    and "nextSequence st \<noteq> HEALTH_CHECK_LOG_ERASED_SEQUENCE"
    and "r = log_new_record (nextSequence st) now i res"
  shows "\<exists>st' f' f''. HealthCheckLog_Append st f now i res = (PLATFORM_STATUS_OK, Some (entry_of r), st', f')
    \<and> log_view st' f' = entry_of r #
        (if nextSlot st < 170 then log_view st f
         else intact_entries (nor_mem f) (activeSector st) (used_slots (nor_mem f) (activeSector st)))
    \<and> HealthCheckLog_GetRecent st' f' capacity = (take capacity (log_view st' f'), st', f'')"
proof -
  let ?h = "st\<lparr>logMutex := Sem_Held\<rparr>"
  have eta: "y\<lparr>logMutex := Sem_Held\<rparr>\<lparr>logMutex := Sem_Free\<rparr> = y" if "logMutex y = Sem_Free" for y :: health_check_log
    using that by (cases y) simp
  have "\<exists>st1 f1. healthCheckLog_MakeRoom ?h f = (True, st1\<lparr>logMutex := Sem_Held\<rparr>, f1) \<and> flash_ready f1
    \<and> log_inv st1 f1 \<and> nextSlot st1 < 170 \<and> nextSequence st1 = nextSequence st \<and> logMutex st1 = Sem_Free
    \<and> log_view st1 f1 = (if nextSlot st < 170 then log_view st f
         else intact_entries (nor_mem f) (activeSector st) (used_slots (nor_mem f) (activeSector st)))"
  proof (cases "nextSlot st < 170")
    case True
    then show ?thesis
      using assms by (auto simp: healthCheckLog_MakeRoom_def)
  next
    case False
    obtain st1 f1 where m: "healthCheckLog_MakeRoom ?h f = (True, st1, f1)" "flash_ready f1" "log_inv st1 f1"
      "nextSlot st1 = 0" "nextSequence st1 = nextSequence st" "logMutex st1 = Sem_Held"
      "log_view st1 f1 = intact_entries (nor_mem f) (activeSector st) (used_slots (nor_mem f) (activeSector st))"
      using healthCheckLog_Roll_ready [OF assms(1), of ?h] assms(2) False by auto
    have "st1\<lparr>logMutex := Sem_Free\<rparr>\<lparr>logMutex := Sem_Held\<rparr> = st1"
      using m(6) by (cases st1) simp
    then show ?thesis
      using m False by (intro exI [of _ "st1\<lparr>logMutex := Sem_Free\<rparr>"] exI [of _ f1]) (simp add: log_view_def)
  qed
  then obtain st1 f1 where m: "healthCheckLog_MakeRoom ?h f = (True, st1\<lparr>logMutex := Sem_Held\<rparr>, f1)" "flash_ready f1"
    "log_inv st1 f1" "nextSlot st1 < 170" "nextSequence st1 = nextSequence st" "logMutex st1 = Sem_Free"
    "log_view st1 f1 = (if nextSlot st < 170 then log_view st f
         else intact_entries (nor_mem f) (activeSector st) (used_slots (nor_mem f) (activeSector st)))"
    by blast
  obtain st' f' where a: "HealthCheckLog_Append st f now i res = (PLATFORM_STATUS_OK, Some (entry_of r), st', f')"
    "flash_ready f'" "log_inv st' f'" "logMutex st' = Sem_Free" "log_view st' f' = entry_of r # log_view st1 f1"
    using HealthCheckLog_Append_step [OF m(2,3,6,4), of r now i res st f] assms(3-5) m(1,5) by auto
  then show ?thesis
    using HealthCheckLog_GetRecent_ready [OF a(2,4), of capacity] m(7) by (auto simp: log_inv_def)
qed

definition sample_log :: health_check_log where
  "sample_log = \<lparr>activeSector = 0, nextSlot = 0, nextSequence = 1, logMutex = Sem_Free\<rparr>"

definition sample_result :: TlsTransport_ResultTypeDef where
  "sample_result = \<lparr>tr_status = TLS_TRANSPORT_OK, tr_detail = 0, tr_httpStatus = 200, tr_elapsedMs = 350,
     tr_certificateNotAfterUnix = 0, tr_tlsVersion = ''TLSv1.3'', tr_cipherSuite = []\<rparr>"

lemma sample_log_inv: "log_inv sample_log blank_flash" "flash_ready blank_flash"
  by (simp_all add: log_inv_def sample_log_def blank_flash_def flash_ready_def)

theorem HealthCheckLog_Append_refines_witness:
  "\<exists>e st' f'. HealthCheckLog_Append sample_log blank_flash (Some 1700000000) 0 sample_result
     = (PLATFORM_STATUS_OK, Some e, st', f') \<and> le_httpStatus e = 200 \<and> hd (log_view st' f') = e"
  using HealthCheckLog_Append_refines [OF sample_log_inv(2,1) _ _ refl, of "Some 1700000000" 0 sample_result 5]
  by (fastforce simp: sample_log_def HEALTH_CHECK_LOG_ERASED_SEQUENCE_def log_new_record_def Let_def entry_of_def sample_result_def)

section \<open>Start-up\<close>

text \<open>
  Sectors as an undisturbed log leaves them: behind the first erased slot nothing is written. Erased
  sectors are the simplest example.
\<close>

definition log_no_gap :: "(nat \<Rightarrow> u8) \<Rightarrow> bool" where
  "log_no_gap m \<longleftrightarrow> (\<forall>sector\<in>{0, 1}. \<forall>i. log_base sector + 24 * used_slots m sector \<le> i \<longrightarrow> i < log_sector_end sector
     \<longrightarrow> m i = 0xFF)"

lemma healthCheckLog_RollToSector_ready:
  assumes "flash_ready f" and "sector = 0 \<or> sector = 1"
  shows "\<exists>f'. healthCheckLog_RollToSector st f sector = (True, st\<lparr>activeSector := sector, nextSlot := 0\<rparr>, f')
    \<and> flash_ready f' \<and> nor_mem f' = nor_erase (nor_mem f) (log_base sector)"
proof -
  have base: "log_base sector mod nor_sector = 0" "log_base sector < nor_capacity"
    by (simp_all add: log_base_cases)
  obtain f' where e: "W25Q64_EraseSector f (healthCheckLog_SectorBase sector) = (PLATFORM_STATUS_OK, f')" "flash_ready f'"
    using W25Q64_EraseSector_ready [OF assms(1) base(2,1)] by blast
  then show ?thesis
    using w25q64_driver.er_ok [OF e(1)] by (simp add: healthCheckLog_RollToSector_def)
qed

lemma log_inv_erased:
  assumes "nor_mem f = nor_erase m (log_base sector)" and "sector = 0 \<or> sector = 1"
    and "activeSector st = sector" and "nextSlot st = 0"
  shows "log_inv st f"
proof -
  have "nor_mem f i = 0xFF" if "log_base sector \<le> i" "i < log_sector_end sector" for i
    using log_sectors_disjoint [OF assms(2) that] by (simp add: assms(1) nor_erase_def)
  then show ?thesis
    using assms(2-4) by (simp add: log_inv_def)
qed

lemma HealthCheckLog_Init_valid:
  assumes "flash_ready f"
  shows "\<exists>st f'. HealthCheckLog_Init True st0 f = (PLATFORM_STATUS_OK, st, f') \<and> flash_ready f'
    \<and> logMutex st = Sem_Free \<and> (activeSector st = 0 \<or> activeSector st = 1) \<and> nextSlot st < HEALTH_CHECK_LOG_SLOTS_PER_SECTOR
    \<and> (log_no_gap (nor_mem f) \<longrightarrow> log_inv st f')"
proof -
  obtain v0 q0 f1 where s0: "healthCheckLog_ScanSector f 0 = (v0, used_slots (nor_mem f) 0, q0, f1)" "flash_ready f1" "nor_mem f1 = nor_mem f"
    using healthCheckLog_ScanLoop_ready [OF assms, of 0 0 170 0 0] by (auto simp: healthCheckLog_ScanSector_def)
  obtain v1 q1 f2 where s1: "healthCheckLog_ScanSector f1 1 = (v1, used_slots (nor_mem f) 1, q1, f2)" "flash_ready f2" "nor_mem f2 = nor_mem f"
    using healthCheckLog_ScanLoop_ready [OF s0(2), of 0 1 170 0 0] s0(3) by (auto simp: healthCheckLog_ScanSector_def)
  have rolled: "\<exists>st f'. (case healthCheckLog_RollToSector (st0\<lparr>logMutex := Sem_Free, nextSequence := q\<rparr>) f2 sector of
        (ok, st', f') \<Rightarrow> (if ok then PLATFORM_STATUS_OK else PLATFORM_STATUS_ERROR, st', f')) = (PLATFORM_STATUS_OK, st, f')
      \<and> flash_ready f' \<and> logMutex st = Sem_Free \<and> (activeSector st = 0 \<or> activeSector st = 1)
      \<and> nextSlot st < HEALTH_CHECK_LOG_SLOTS_PER_SECTOR \<and> log_inv st f'" if sec: "sector = 0 \<or> sector = 1" for q sector
  proof -
    let ?st = "st0\<lparr>logMutex := Sem_Free, nextSequence := q\<rparr>"
    obtain f' where r: "healthCheckLog_RollToSector ?st f2 sector = (True, ?st\<lparr>activeSector := sector, nextSlot := 0\<rparr>, f')"
        "flash_ready f'" "nor_mem f' = nor_erase (nor_mem f2) (log_base sector)"
      using healthCheckLog_RollToSector_ready [OF s1(2) sec] by blast
    show ?thesis
      using r(1,2) log_inv_erased [OF r(3) sec] sec by auto
  qed
  let ?active = "if q1 \<le> q0 then 0 else 1 :: u8"
  have sectors: "?active XOR 1 = 0 \<or> ?active XOR 1 = 1" "?active \<in> {0, 1}"
    by auto
  show ?thesis
  proof (cases "v0 = 0 \<and> v1 = 0")
    case True
    then show ?thesis
      using rolled [of 0 1] s0(1) s1(1) by (auto simp: HealthCheckLog_Init_def)
  next
    case False
    note counted = False
    show ?thesis
    proof (cases "used_slots (nor_mem f) ?active < 170")
      case True
      let ?st = "st0\<lparr>logMutex := Sem_Free, activeSector := ?active, nextSlot := used_slots (nor_mem f) ?active,
          nextSequence := (if q1 \<le> q0 then q0 else q1) + 1\<rparr>"
      have "log_inv ?st f2" if "log_no_gap (nor_mem f)"
        using that sectors(2) True s1(3) by (auto simp: log_inv_def log_no_gap_def)
      moreover have "HealthCheckLog_Init True st0 f = (PLATFORM_STATUS_OK, ?st, f2)"
        using True counted s0(1) s1(1) by (auto simp: HealthCheckLog_Init_def Let_def)
      ultimately show ?thesis
        using True s1(2) sectors(2) by auto
    next
      case False
      then have "HealthCheckLog_Init True st0 f =
          (case healthCheckLog_RollToSector (st0\<lparr>logMutex := Sem_Free, nextSequence := (if q1 \<le> q0 then q0 else q1) + 1\<rparr>) f2 (?active XOR 1) of
            (ok, st', f') \<Rightarrow> (if ok then PLATFORM_STATUS_OK else PLATFORM_STATUS_ERROR, st', f'))"
        using counted s0(1) s1(1) by (auto simp: HealthCheckLog_Init_def Let_def)
      then show ?thesis
        using rolled [OF sectors(1)] by metis
    qed
  qed
qed

text \<open>On erased sectors the log starts at the first slot of sector 0, with nothing to read.\<close>

lemma HealthCheckLog_Init_erased:
  assumes "flash_ready f" and "\<And>sector i. log_base sector \<le> i \<Longrightarrow> i < log_sector_end sector \<Longrightarrow> nor_mem f i = 0xFF"
  shows "\<exists>st f'. HealthCheckLog_Init True st0 f = (PLATFORM_STATUS_OK, st, f') \<and> flash_ready f' \<and> logMutex st = Sem_Free
    \<and> activeSector st = 0 \<and> nextSlot st = 0 \<and> nextSequence st = 1 \<and> log_view st f' = []"
proof -
  have erased: "slot_erased m sector 0" if "\<And>i. log_base sector \<le> i \<Longrightarrow> i < log_sector_end sector \<Longrightarrow> m i = 0xFF" for m sector
  proof -
    have "slot_bytes m sector 0 = replicate 24 0xFF"
      using that by (auto simp: slot_bytes_def log_sector_end_def intro!: nth_equalityI)
    then show ?thesis
      by (simp add: slot_erased_def dec_log_record_def HEALTH_CHECK_LOG_ERASED_SEQUENCE_def)
  qed
  have scan: "\<exists>g'. healthCheckLog_ScanSector g sector = (0, 0, 0, g') \<and> flash_ready g' \<and> nor_mem g' = nor_mem g"
    if "flash_ready g" "nor_mem g = nor_mem f" for g sector
    using slot_read [OF that(1), of 0 sector] erased [OF assms(2), of sector] that(2)
    by (auto simp: healthCheckLog_ScanSector_def healthCheckLog_ScanLoop.simps [of g] slot_erased_def Let_def)
  obtain f1 where s0: "healthCheckLog_ScanSector f 0 = (0, 0, 0, f1)" "flash_ready f1" "nor_mem f1 = nor_mem f"
    using scan [OF assms(1)] by blast
  obtain f2 where s1: "healthCheckLog_ScanSector f1 1 = (0, 0, 0, f2)" "flash_ready f2" "nor_mem f2 = nor_mem f"
    using scan [OF s0(2,3)] s0(3) by auto
  let ?st = "st0\<lparr>logMutex := Sem_Free, nextSequence := 1\<rparr>"
  obtain f' where r: "healthCheckLog_RollToSector ?st f2 0 = (True, ?st\<lparr>activeSector := 0, nextSlot := 0\<rparr>, f')"
      "flash_ready f'" "nor_mem f' = nor_erase (nor_mem f2) (log_base 0)"
    using healthCheckLog_RollToSector_ready [OF s1(2), of 0] by blast
  have "slot_erased (nor_mem f') 1 0"
    using assms(2) [of 1] by (intro erased) (auto simp: r(3) s1(3) nor_erase_def)
  then have "used_slots (nor_mem f') 1 = 0"
    by (simp add: used_slots_def upt_rec)
  then show ?thesis
    using s0(1) s1(1) r(1,2) by (simp add: HealthCheckLog_Init_def log_view_def intact_entries_def)
qed

section \<open>Append-only\<close>

text \<open>What an append changes in memory, whatever fails.\<close>

lemma slot_program_frame:
  assumes "W25Q64_Program f (slot_address sector slot) (enc_log_record r) = (s, f')" and "slot < 170"
    and "nor_mem f' i \<noteq> nor_mem f i"
  shows "log_base sector + 24 * slot \<le> i \<and> i < log_base sector + 24 * slot + 24"
proof -
  have "unat (slot_address sector slot) + length (enc_log_record r) \<le> nor_capacity"
    using slot_range [OF assms(2)] by simp
  then obtain k where "nor_mem f' = nor_write (nor_mem f) (unat (slot_address sector slot)) (take k (enc_log_record r))"
    using w25q64_driver.pr_cases [OF assms(1)] by blast
  then show ?thesis
    using assms(3) by (auto simp: nor_write_def unat_slot_address [OF assms(2)] split: if_splits)
qed

definition append_target :: "health_check_log \<Rightarrow> nat set" where
  "append_target st =
     (if nextSlot st < 170
      then {log_base (activeSector st) + 24 * nextSlot st ..< log_base (activeSector st) + 24 * nextSlot st + 24}
      else {log_base (activeSector st XOR 1) ..< log_sector_end (activeSector st XOR 1)})"

lemma log_inv_target:
  assumes "log_inv st f" and "j \<in> append_target st" and "nextSlot st < 170"
  shows "nor_mem f j = 0xFF"
proof -
  have j: "log_base (activeSector st) + 24 * nextSlot st \<le> j" "j < log_base (activeSector st) + 24 * nextSlot st + 24"
    using assms(2,3) by (simp_all add: append_target_def)
  then have "j < log_sector_end (activeSector st)"
    using assms(3) by (simp add: log_sector_end_def)
  then show ?thesis
    using assms(1) j(1) by (simp add: log_inv_def)
qed

lemma HealthCheckLog_Append_frame:
  assumes "log_inv st f" and "logMutex st = Sem_Free" and "HealthCheckLog_Append st f now i res = (s, e, st', f')"
    and "nor_mem f' j \<noteq> nor_mem f j"
  shows "j \<in> append_target st"
proof -
  let ?h = "st\<lparr>logMutex := Sem_Held\<rparr>" and ?o = "activeSector st XOR 1"
  obtain ok st1 f1 where room: "healthCheckLog_MakeRoom ?h f = (ok, st1, f1)"
    by (cases "healthCheckLog_MakeRoom ?h f") auto
  have sec: "?o = 0 \<or> ?o = 1" "?o XOR 1 = activeSector st"
    using assms(1) by (auto simp: log_inv_def)
  have st1: "if nextSlot st < 170 then ok \<and> st1 = ?h \<and> f1 = f
      else (ok \<longrightarrow> activeSector st1 = ?o \<and> nextSlot st1 = 0) \<and> (nor_mem f1 j \<noteq> nor_mem f j \<longrightarrow> j \<in> append_target st)"
  proof (cases "nextSlot st < 170")
    case False
    then obtain s1 where er: "W25Q64_EraseSector f (healthCheckLog_SectorBase ?o) = (s1, f1)"
        and st1: "ok \<Longrightarrow> activeSector st1 = ?o \<and> nextSlot st1 = 0"
      using room by (auto simp: healthCheckLog_MakeRoom_def healthCheckLog_RollToSector_def split: prod.splits if_splits)
    have "j div nor_sector = log_base ?o div nor_sector" if "nor_mem f1 j \<noteq> nor_mem f j"
      using that w25q64_driver.er_cases [OF er] by (auto simp: nor_erase_def split: if_splits)
    then show ?thesis
      using False st1 by (auto simp: append_target_def log_base_cases log_sector_end_def split: if_splits)
  qed (use room in \<open>auto simp: healthCheckLog_MakeRoom_def\<close>)
  define a where "a = slot_address (activeSector st1) (nextSlot st1)"
  obtain s2 f2 where p: "W25Q64_Program f1 a (enc_log_record (log_new_record (nextSequence st1) now i res)) = (s2, f2)"
    by fastforce
  obtain s3 v f3 where r: "W25Q64_Read f2 a 24 = (s3, v, f3)"
    by (metis prod_cases3)
  have slot: "nextSlot st1 < 170" if ok
    using st1 that by (auto split: if_splits)
  have "nor_mem f3 = nor_mem f2" if ok
    using w25q64_driver.rd_mem [OF r] slot_range [OF slot [OF that]] by (simp add: a_def)
  then consider "nor_mem f' j = nor_mem f1 j" | "ok" "nor_mem f' j = nor_mem f2 j"
    using assms(2,3) room p r by (auto simp: HealthCheckLog_Append_def Let_def simp flip: a_def split: if_splits)
  then show ?thesis
  proof cases
    case 1
    then show ?thesis
      using st1 assms(4) by (auto split: if_splits)
  next
    case 2
    show ?thesis
    proof (cases "nor_mem f2 j = nor_mem f1 j")
      case True
      then show ?thesis
        using 2 st1 assms(4) by (auto split: if_splits)
    next
      case False
      then show ?thesis
        using slot_program_frame [OF p [unfolded a_def] slot [OF 2(1)] False] 2(1) st1
        by (auto simp: append_target_def log_sector_end_def split: if_splits)
    qed
  qed
qed

text \<open>An append during which the given faults of the flash chip occur.\<close>

fun log_append ::
  "health_check_log \<times> w25q64 \<Rightarrow> nat option list \<times> nat list \<times> u32 option \<times> u8 \<times> TlsTransport_ResultTypeDef \<Rightarrow>
     health_check_log \<times> w25q64" where
  "log_append (st, f) (faults, busy, now, i, res) =
     snd (snd (HealthCheckLog_Append st (f\<lparr>spi_faults := faults, busy_times := busy\<rparr>) now i res))"

lemma log_append_step:
  assumes "log_inv st f" and "logMutex st = Sem_Free" and "log_append (st, f) x = (st', f')"
  shows "log_inv st' f' \<and> logMutex st' = Sem_Free \<and> (\<forall>j. nor_mem f' j \<noteq> nor_mem f j \<longrightarrow> j \<in> append_target st)"
proof -
  obtain faults busy now i res where x: "x = (faults, busy, now, i, res)"
    by (cases x)
  let ?f = "f\<lparr>spi_faults := faults, busy_times := busy\<rparr>"
  obtain s e where a: "HealthCheckLog_Append st ?f now i res = (s, e, st', f')"
    using assms(3) by (cases "HealthCheckLog_Append st ?f now i res") (auto simp: x)
  have "log_inv st ?f"
    using assms(1) by (simp add: log_inv_def)
  then show ?thesis
    using HealthCheckLog_Append_inv [OF _ assms(2) a] HealthCheckLog_Append_frame [OF _ assms(2) a] by auto
qed

lemma log_appends_inv:
  "log_inv st f \<Longrightarrow> logMutex st = Sem_Free \<Longrightarrow> foldl log_append (st, f) xs = (st', f') \<Longrightarrow> log_inv st' f' \<and> logMutex st' = Sem_Free"
proof (induction xs arbitrary: st f)
  case (Cons x xs)
  obtain st1 f1 where "log_append (st, f) x = (st1, f1)"
    by fastforce
  then show ?case
    using log_append_step [of st f x st1 f1] Cons by auto
qed simp

text \<open>
  What limits this to one run of the device: a fault before the first byte is sent leaves the slot
  erased while the append position moves on, and the scan of the next start-up stops at such a slot
  although written ones follow, so the appends after it program slots that are already written.
\<close>

lemma log_append_leaves_gap:
  assumes "logMutex st = Sem_Free" and "nextSlot st < 170" and "flashMutex f \<noteq> None"
    and "log_append (st, f) ([Some 0], busy, now, i, res) = (st', f')"
  shows "nor_mem f' = nor_mem f" and "nextSlot st' = nextSlot st + 1"
proof -
  let ?f = "f\<lparr>spi_faults := [Some 0], busy_times := busy\<rparr>" and ?a = "slot_address (activeSector st) (nextSlot st)"
  let ?d = "enc_log_record (log_new_record (nextSequence st) now i res)"
  obtain s f1 where p: "W25Q64_Program ?f ?a ?d = (s, f1)"
    by fastforce
  have range: "\<not> ?a > W25Q64_CAPACITY_BYTES - of_nat (length ?d)"
    using slot_range [OF assms(2), of "activeSector st"] by (subst range_guard) simp_all
  have chunk: "fst (w25q64_ProgramChunk g a c) = PLATFORM_STATUS_TIMEOUT \<and> nor_mem (snd (w25q64_ProgramChunk g a c)) = nor_mem g"
    if "spi_faults g = [Some 0]" for g a c
    using that by (simp add: w25q64_ProgramChunk_def w25q64_WriteEnable_def w25q64_Command_def w25q64_Transfer_def Let_def)
  have "?d \<noteq> []"
    using length_enc_log_record by (metis length_0_conv zero_neq_numeral)
  then have loop: "fst (w25q64_ProgramLoop g ?a ?d) = PLATFORM_STATUS_TIMEOUT \<and> nor_mem (snd (w25q64_ProgramLoop g ?a ?d)) = nor_mem g"
    if "spi_faults g = [Some 0]" for g
    using chunk [OF that] by (subst (1 2) w25q64_ProgramLoop.simps) (simp add: Let_def case_prod_unfold)
  obtain d where "flashMutex f = Some d"
    using assms(3) by auto
  then have "s = PLATFORM_STATUS_TIMEOUT \<and> nor_mem f1 = nor_mem f"
    using p range loop [of "?f\<lparr>flashMutex := Some (Suc d)\<rparr>"]
    by (auto simp: W25Q64_Program_def xSemaphoreTakeRecursive_def Let_def case_prod_unfold)
  then show "nor_mem f' = nor_mem f" and "nextSlot st' = nextSlot st + 1"
    using assms p by (auto simp: HealthCheckLog_Append_def healthCheckLog_MakeRoom_def Let_def)
qed

lemma log_gap_rewinds:
  assumes "flash_ready f" and "record_intact (slot_record (nor_mem f) 0 0)" and "slot_erased (nor_mem f) 0 1"
    and "slot_erased (nor_mem f) 1 0"
  shows "\<exists>st f'. HealthCheckLog_Init True st0 f = (PLATFORM_STATUS_OK, st, f') \<and> nor_mem f' = nor_mem f
    \<and> activeSector st = 0 \<and> nextSlot st = 1 \<and> nextSequence st = lr_sequence (slot_record (nor_mem f) 0 0) + 1"
proof -
  obtain f1 where f1: "W25Q64_Read f (slot_address 0 0) 24 = (PLATFORM_STATUS_OK, slot_bytes (nor_mem f) 0 0, f1)"
      "flash_ready f1" "nor_mem f1 = nor_mem f"
    using slot_read [OF assms(1), of 0 0] by auto
  obtain f2 where f2: "W25Q64_Read f1 (slot_address 0 1) 24 = (PLATFORM_STATUS_OK, slot_bytes (nor_mem f) 0 1, f2)"
      "flash_ready f2" "nor_mem f2 = nor_mem f"
    using slot_read [OF f1(2), of 1 0] f1(3) by auto
  obtain f3 where f3: "W25Q64_Read f2 (slot_address 1 0) 24 = (PLATFORM_STATUS_OK, slot_bytes (nor_mem f) 1 0, f3)"
      "nor_mem f3 = nor_mem f"
    using slot_read [OF f2(2), of 0 1] f2(3) by auto
  have "healthCheckLog_ScanSector f 0 = (1, 1, lr_sequence (slot_record (nor_mem f) 0 0), f2)"
    using f1(1) f2(1) assms(2,3)
    by (simp add: healthCheckLog_ScanSector_def healthCheckLog_ScanLoop.simps [of f] healthCheckLog_ScanLoop.simps [of f1]
        record_intact_def slot_erased_def Let_def)
  moreover have "healthCheckLog_ScanSector f2 1 = (0, 0, 0, f3)"
    using f3(1) assms(4)
    by (simp add: healthCheckLog_ScanSector_def healthCheckLog_ScanLoop.simps [of f2] slot_erased_def Let_def)
  ultimately show ?thesis
    using f3(2) by (simp add: HealthCheckLog_Init_def)
qed

text \<open>
  C30: from one start-up on working flash without gaps in its log sectors to the next start-up, the log
  is append-only whatever flash faults its appends meet: an append, failed or not, changes only bytes
  of the slot at the append position, all of them erased before, or, when the sector is full, bytes of
  the other sector; the bytes from the new append position on are erased again, and the mutex has been
  given back. (A slot that a fault left erased is such a gap for the next start-up, see
  \<open>log_gap_rewinds\<close>.)
\<close>

theorem HealthCheckLog_append_only:
  assumes "flash_ready f0" and "log_no_gap (nor_mem f0)" and "HealthCheckLog_Init True st0 f0 = (s, st, f)"
    and "foldl log_append (st, f) before = (st1, f1)" and "log_append (st1, f1) x = (st2, f2)"
  shows "s = PLATFORM_STATUS_OK \<and> log_inv st1 f1 \<and> log_inv st2 f2 \<and> logMutex st2 = Sem_Free
    \<and> (\<forall>j. nor_mem f2 j \<noteq> nor_mem f1 j \<longrightarrow>
         (if nextSlot st1 < 170
          then nor_mem f1 j = 0xFF \<and> log_base (activeSector st1) + 24 * nextSlot st1 \<le> j
             \<and> j < log_base (activeSector st1) + 24 * nextSlot st1 + 24
          else log_base (activeSector st1 XOR 1) \<le> j \<and> j < log_sector_end (activeSector st1 XOR 1)))"
proof -
  have init: "s = PLATFORM_STATUS_OK" "log_inv st f" "logMutex st = Sem_Free"
    using HealthCheckLog_Init_valid [OF assms(1), of st0] assms(2,3) by auto
  have inv: "log_inv st1 f1" "logMutex st1 = Sem_Free"
    using log_appends_inv [OF init(2,3) assms(4)] by simp_all
  note step = log_append_step [OF inv assms(5)]
  have "if nextSlot st1 < 170
      then nor_mem f1 j = 0xFF \<and> log_base (activeSector st1) + 24 * nextSlot st1 \<le> j
         \<and> j < log_base (activeSector st1) + 24 * nextSlot st1 + 24
      else log_base (activeSector st1 XOR 1) \<le> j \<and> j < log_sector_end (activeSector st1 XOR 1)"
    if "nor_mem f2 j \<noteq> nor_mem f1 j" for j
  proof -
    have "j \<in> append_target st1"
      using step that by blast
    then show ?thesis
      using log_inv_target [OF inv(1), of j] by (cases "nextSlot st1 < 170") (simp_all add: append_target_def)
  qed
  then show ?thesis
    using init(1) inv(1) step by blast
qed

text \<open>A failed append, whose page is programmed in part, and one after it.\<close>

definition torn_append :: "nat option list \<times> nat list \<times> u32 option \<times> u8 \<times> TlsTransport_ResultTypeDef" where
  "torn_append = ([None, None, Some 9], [], None, 0, sample_result)"

theorem HealthCheckLog_append_only_witness:
  "\<exists>st f st1 f1 st2 f2. HealthCheckLog_Init True sample_log blank_flash = (PLATFORM_STATUS_OK, st, f)
    \<and> log_append (st, f) torn_append = (st1, f1) \<and> log_append (st1, f1) torn_append = (st2, f2)
    \<and> log_inv st2 f2 \<and> (\<forall>j. nor_mem f2 j \<noteq> nor_mem f1 j \<longrightarrow> nextSlot st1 < 170 \<longrightarrow> nor_mem f1 j = 0xFF)"
proof -
  obtain s st f where init: "HealthCheckLog_Init True sample_log blank_flash = (s, st, f)"
    by (metis prod_cases3)
  obtain st1 f1 where a1: "log_append (st, f) torn_append = (st1, f1)"
    by fastforce
  obtain st2 f2 where a2: "log_append (st1, f1) torn_append = (st2, f2)"
    by fastforce
  have gap: "log_no_gap (nor_mem blank_flash)"
    by (simp add: log_no_gap_def blank_flash_def)
  have run: "foldl log_append (st, f) [torn_append] = (st1, f1)"
    using a1 by simp
  note result = HealthCheckLog_append_only [OF sample_log_inv(2) gap init run a2]
  then have "\<forall>j. nor_mem f2 j \<noteq> nor_mem f1 j \<longrightarrow> nextSlot st1 < 170 \<longrightarrow> nor_mem f1 j = 0xFF"
    by metis
  then show ?thesis
    using result init a1 a2 by blast
qed

end
