(* ===== verification/Temperature.thy ===== *)
theory Temperature
  imports Onewire "HOL-Library.Signed_Division"
begin

text \<open>
  The temperature sensor driver \<^verbatim>\<open>Periph/Src/ds18b20.c\<close> and the service that polls it,
  \<^verbatim>\<open>Srv/Src/temperature_service.c\<close>, over any one-wire bus environment.
\<close>

section \<open>Sensor driver\<close>

datatype DS18B20_StatusTypeDef = DS18B20_STATUS_OK | DS18B20_STATUS_BUS | DS18B20_STATUS_TIMEOUT | DS18B20_STATUS_CRC

record DS18B20_MeasurementTypeDef =
  ms_rom :: "u8 list"
  ms_temperatureCentiDegrees :: u16
  ms_status :: DS18B20_StatusTypeDef

definition DS18B20_COMMAND_CONVERT_T :: u8 where "DS18B20_COMMAND_CONVERT_T = 0x44"
definition DS18B20_COMMAND_READ_SCRATCHPAD :: u8 where "DS18B20_COMMAND_READ_SCRATCHPAD = 0xBE"
definition DS18B20_CONVERSION_TIMEOUT_MS :: nat where "DS18B20_CONVERSION_TIMEOUT_MS = 750"

text \<open>
  Polling for the end of the conversion. Every iteration delays the task by one tick; \<open>bus_delays\<close>
  scripts how many further ticks pass before the task runs again.
\<close>

function ds18b20_WaitLoop :: "onewire_bus \<Rightarrow> nat \<Rightarrow> nat \<Rightarrow> ErrorStatus \<times> onewire_bus" where
  "ds18b20_WaitLoop b elapsed timeout =
     (case OneWire_ReadBit b of (v, b1) \<Rightarrow>
        if v then (SUCCESS, b1)
        else
          let extra = (case bus_delays b1 of [] \<Rightarrow> 0 | d # _ \<Rightarrow> d);
              b2 = b1\<lparr>bus_delays := drop 1 (bus_delays b1)\<rparr>;
              elapsed' = elapsed + 1 + extra
          in if elapsed' < timeout then ds18b20_WaitLoop b2 elapsed' timeout else (ERROR, b2))"
  by pat_completeness auto
termination
  by (relation "measure (\<lambda>(_, elapsed, timeout). timeout - elapsed)") (auto simp: Let_def)

declare ds18b20_WaitLoop.simps [simp del]

definition ds18b20_WaitForConversion :: "onewire_bus \<Rightarrow> nat \<Rightarrow> ErrorStatus \<times> onewire_bus" where
  "ds18b20_WaitForConversion b timeoutMs = ds18b20_WaitLoop b 0 timeoutMs"

fun ds18b20_ReadScratchpad :: "onewire_bus \<Rightarrow> u8 \<Rightarrow> u8 list \<Rightarrow> nat list \<Rightarrow> u8 \<times> u8 list \<times> onewire_bus" where
  "ds18b20_ReadScratchpad b crc pad [] = (crc, pad, b)"
| "ds18b20_ReadScratchpad b crc pad (index # rest) =
     (case OneWire_ReadByte b of (v, b') \<Rightarrow> ds18b20_ReadScratchpad b' (OneWire_CRC8 crc v) (pad[index := v]) rest)"

definition ds18b20_MeasureDevice ::
  "onewire_bus \<Rightarrow> OneWireDevice_TypeDef \<Rightarrow> DS18B20_StatusTypeDef \<times> OneWireDevice_TypeDef \<times> onewire_bus" where
  "ds18b20_MeasureDevice b device =
     (case OneWire_ReadPowerSupply b (ow_rom device) of (s1, isParasitic, b1) \<Rightarrow>
      if s1 \<noteq> SUCCESS then (DS18B20_STATUS_BUS, device, b1)
      else case OneWire_MatchRom b1 (ow_rom device) of (s2, b2) \<Rightarrow>
      if s2 \<noteq> SUCCESS then (DS18B20_STATUS_BUS, device, b2)
      else
        let b3 = OneWire_WriteByte b2 DS18B20_COMMAND_CONVERT_T;
            (s4, b4) = (if isParasitic then (SUCCESS, OneWire_StrongPullupDisable (OneWire_StrongPullupEnable b3))
                        else ds18b20_WaitForConversion b3 DS18B20_CONVERSION_TIMEOUT_MS)
        in if s4 \<noteq> SUCCESS then (DS18B20_STATUS_TIMEOUT, device, b4)
           else case OneWire_MatchRom b4 (ow_rom device) of (s5, b5) \<Rightarrow>
             if s5 \<noteq> SUCCESS then (DS18B20_STATUS_BUS, device, b5)
             else case ds18b20_ReadScratchpad (OneWire_WriteByte b5 DS18B20_COMMAND_READ_SCRATCHPAD) 0
                 (ow_scratchpad device) [0..<9] of
               (crc, pad, b6) \<Rightarrow>
                 (if crc = 0 then DS18B20_STATUS_OK else DS18B20_STATUS_CRC, device\<lparr>ow_scratchpad := pad\<rparr>, b6))"

text \<open>
  \<open>(int16_t)(((int32_t)raw * 100) / 16)\<close>, the division truncating towards zero and the result
  stored in 16 bits.
\<close>

definition ds18b20_CentiDegrees :: "u8 list \<Rightarrow> u16" where
  "ds18b20_CentiDegrees pad =
     (let raw = push_bit 8 (ucast (pad ! 1)) OR ucast (pad ! 0) :: u16
      in word_of_int (sint raw * 100 sdiv 16))"

fun ds18b20_MeasureLoop ::
  "onewire_bus \<Rightarrow> OneWireDevice_TypeDef list \<Rightarrow> DS18B20_MeasurementTypeDef list \<times> OneWireDevice_TypeDef list \<times> onewire_bus" where
  "ds18b20_MeasureLoop b [] = ([], [], b)"
| "ds18b20_MeasureLoop b (device # devices) =
     (case ds18b20_MeasureDevice b device of (status, device', b') \<Rightarrow>
      case ds18b20_MeasureLoop b' devices of (ms, devices', b'') \<Rightarrow>
        (\<lparr>ms_rom = ow_rom device,
          ms_temperatureCentiDegrees =
            (if status = DS18B20_STATUS_OK then ds18b20_CentiDegrees (ow_scratchpad device') else 0),
          ms_status = status\<rparr> # ms, device' # devices', b''))"

definition DS18B20_Measure ::
  "onewire \<Rightarrow> nat \<Rightarrow> ErrorStatus \<times> DS18B20_MeasurementTypeDef list \<times> onewire" where
  "DS18B20_Measure st capacity =
     (if capacity = 0 then (ERROR, [], st)
      else case OneWire_Lock st of
        None \<Rightarrow> (ERROR, [], st)
      | Some st1 \<Rightarrow>
          let readCount = min (OneWire_GetDeviceCount st1) capacity; devices = OneWire_GetDevices st1
          in case ds18b20_MeasureLoop (ow_bus st1) (take readCount devices) of
            (ms, devices', b) \<Rightarrow>
              (if 0 < readCount then SUCCESS else ERROR, ms,
               OneWire_Unlock (st1\<lparr>ow_bus := b, oneWireDevices := devices' @ drop readCount devices\<rparr>)))"

section \<open>Polling service\<close>

text \<open>
  \<open>measurements\<close> are the \<open>measurementCount\<close> entries of the published array; the entries behind
  them are never read.
\<close>

record temperature_service =
  tp_onewire :: onewire
  measurements :: "DS18B20_MeasurementTypeDef list"
  temperatureMutex :: semaphore
  lastSearchTick :: u32

definition ONEWIRE_SEARCH_PERIOD_MS :: u32 where "ONEWIRE_SEARCH_PERIOD_MS = 60000"

definition TemperatureService_Init :: "temperature_service \<Rightarrow> bool \<Rightarrow> bool \<Rightarrow> bool \<Rightarrow> ErrorStatus \<times> temperature_service" where
  "TemperatureService_Init st created busCreated taskCreated =
     (let st1 = st\<lparr>temperatureMutex := (if created then Sem_Free else Sem_Null)\<rparr>
      in if \<not> created then (ERROR, st1)
         else case OneWire_Init (tp_onewire st1) busCreated of (s, ow) \<Rightarrow>
           let st2 = st1\<lparr>tp_onewire := ow\<rparr>
           in if s \<noteq> SUCCESS then (ERROR, st2)
              else (if taskCreated then SUCCESS else ERROR, st2\<lparr>lastSearchTick := 0\<rparr>))"

text \<open>One iteration of the task, at tick \<open>now\<close>.\<close>

definition temperatureService_Task :: "u32 \<Rightarrow> temperature_service \<Rightarrow> temperature_service" where
  "temperatureService_Task now st =
     (let st1 = (if OneWire_GetDeviceCount (tp_onewire st) = 0 \<or> now - lastSearchTick st \<ge> ONEWIRE_SEARCH_PERIOD_MS
                 then st\<lparr>tp_onewire := snd (OneWire_Search (tp_onewire st)), lastSearchTick := now\<rparr>
                 else st)
      in case DS18B20_Measure (tp_onewire st1) ONEWIRE_MAX_DEVICES of
        (conversionStatus, latest, ow) \<Rightarrow>
          let st2 = st1\<lparr>tp_onewire := ow\<rparr>
          in if conversionStatus = SUCCESS
             then (case xSemaphoreTake (temperatureMutex st2) of
                     None \<Rightarrow> st2
                   | Some m \<Rightarrow> st2\<lparr>measurements := latest, temperatureMutex := xSemaphoreGive m\<rparr>)
             else st2)"

definition TemperatureService_GetMeasurements ::
  "temperature_service \<Rightarrow> nat \<Rightarrow> DS18B20_MeasurementTypeDef list \<times> temperature_service" where
  "TemperatureService_GetMeasurements st capacity =
     (if capacity = 0 then ([], st)
      else case xSemaphoreTake (temperatureMutex st) of
        None \<Rightarrow> ([], st)
      | Some m \<Rightarrow>
          (let count = min (length (measurements st)) capacity
           in (take count (measurements st), st\<lparr>temperatureMutex := xSemaphoreGive m\<rparr>)))"

section \<open>Properties\<close>

text \<open>Every operation on the bus leaves the environment in place and keeps the pin mode, whatever the line answers.\<close>

lemma oneWire_WriteBits_frame [simp]:
  "bus_env (oneWire_WriteBits b v n) = bus_env b" "bus_push_pull (oneWire_WriteBits b v n) = bus_push_pull b"
  by (induction b v n rule: oneWire_WriteBits.induct) (simp_all add: oneWire_WriteBit_def)

lemma OneWire_WriteByte_frame [simp]:
  "bus_env (OneWire_WriteByte b v) = bus_env b" "bus_push_pull (OneWire_WriteByte b v) = bus_push_pull b"
  by (simp_all add: OneWire_WriteByte_def)

lemma OneWire_WriteBytes_push_pull [simp]: "bus_push_pull (foldl OneWire_WriteByte b vs) = bus_push_pull b"
  by (induction vs arbitrary: b) simp_all

lemma OneWire_MatchRom_push_pull: "OneWire_MatchRom b rom = (s, b') \<Longrightarrow> bus_push_pull b' = bus_push_pull b"
  by (auto simp: OneWire_MatchRom_def OneWire_Reset_def Let_def split: if_splits)

lemma OneWire_ReadPowerSupply_push_pull:
  "OneWire_ReadPowerSupply b rom = (s, p, b') \<Longrightarrow> bus_push_pull b' = bus_push_pull b"
  by (auto simp: OneWire_ReadPowerSupply_def OneWire_ReadBit_def Let_def split: if_splits prod.splits
      dest: OneWire_MatchRom_push_pull)

lemma oneWire_ReadBits_push_pull: "oneWire_ReadBits b v ks = (v', b') \<Longrightarrow> bus_push_pull b' = bus_push_pull b"
  by (induction b v ks rule: oneWire_ReadBits.induct) (auto simp: OneWire_ReadBit_def Let_def split: prod.splits)

lemma ds18b20_WaitLoop_push_pull: "ds18b20_WaitLoop b t n = (s, b') \<Longrightarrow> bus_push_pull b' = bus_push_pull b"
proof (induction b t n rule: ds18b20_WaitLoop.induct)
  case (1 b t n)
  show ?case
    using 1(2) by (subst (asm) ds18b20_WaitLoop.simps)
      (auto simp: OneWire_ReadBit_def Let_def split: if_splits dest: 1(1) [rotated -1])
qed

lemma ds18b20_ReadScratchpad_spec:
  assumes "ds18b20_ReadScratchpad b crc pad [i..<length pad] = (crc', pad', b')"
  shows "bus_push_pull b' = bus_push_pull b" and "length pad' = length pad"
    and "take i pad' = take i pad" and "i \<le> length pad \<Longrightarrow> crc' = foldl OneWire_CRC8 crc (drop i pad')"
proof -
  have "bus_push_pull b' = bus_push_pull b \<and> length pad' = length pad \<and> take i pad' = take i pad
      \<and> (i \<le> length pad \<longrightarrow> crc' = foldl OneWire_CRC8 crc (drop i pad'))"
    using assms
  proof (induction "length pad - i" arbitrary: i b crc pad)
    case 0
    then show ?case
      by (cases "i = length pad") auto
  next
    case (Suc n)
    then have i: "i < length pad"
      by simp
    obtain v b1 where v: "OneWire_ReadByte b = (v, b1)"
      by fastforce
    have run: "ds18b20_ReadScratchpad b1 (OneWire_CRC8 crc v) (pad[i := v]) [Suc i..<length (pad[i := v])] = (crc', pad', b')"
      using Suc.prems i v by (simp add: upt_rec [of i])
    have IH: "bus_push_pull b' = bus_push_pull b1 \<and> length pad' = length pad \<and> take (Suc i) pad' = take (Suc i) (pad[i := v])
        \<and> crc' = foldl OneWire_CRC8 (OneWire_CRC8 crc v) (drop (Suc i) pad')"
      using Suc.hyps(1) [OF _ run] Suc.hyps(2) i by simp
    then have "pad' ! i = v" "take i pad' = take i pad" "i < length pad'"
      using i by (metis length_list_update lessI nth_list_update_eq nth_take,
          metis take_take min.absorb1 le_SucI order_refl take_update_cancel, simp)
    moreover have "bus_push_pull b1 = bus_push_pull b"
      using v by (auto simp: OneWire_ReadByte_def dest: oneWire_ReadBits_push_pull)
    ultimately show ?case
      using IH by (simp add: Cons_nth_drop_Suc [symmetric])
  qed
  then show "bus_push_pull b' = bus_push_pull b" "length pad' = length pad" "take i pad' = take i pad"
    "i \<le> length pad \<Longrightarrow> crc' = foldl OneWire_CRC8 crc (drop i pad')"
    by auto
qed

text \<open>
  What one measurement promises whatever the bus answers: the pin ends in open-drain mode again,
  the device keeps its ROM code, and an OK status means that the stored scratchpad has a valid
  checksum.
\<close>

definition measured :: "DS18B20_MeasurementTypeDef \<Rightarrow> OneWireDevice_TypeDef \<Rightarrow> OneWireDevice_TypeDef \<Rightarrow> bool" where
  "measured m device device' \<longleftrightarrow>
     ms_rom m = ow_rom device \<and> ow_rom device' = ow_rom device \<and> length (ow_scratchpad device') = 9
     \<and> (if ms_status m = DS18B20_STATUS_OK
        then foldl OneWire_CRC8 0 (ow_scratchpad device') = 0
             \<and> ms_temperatureCentiDegrees m = ds18b20_CentiDegrees (ow_scratchpad device')
        else ms_temperatureCentiDegrees m = 0)"

lemma ds18b20_MeasureDevice_spec:
  assumes run: "ds18b20_MeasureDevice b device = (status, device', b')" and len: "length (ow_scratchpad device) = 9"
    and pin: "\<not> bus_push_pull b"
  shows "\<not> bus_push_pull b'" and "ow_rom device' = ow_rom device" and "length (ow_scratchpad device') = 9"
    and "status = DS18B20_STATUS_OK \<Longrightarrow> foldl OneWire_CRC8 0 (ow_scratchpad device') = 0"
proof -
  obtain s1 parasitic b1 where e1: "OneWire_ReadPowerSupply b (ow_rom device) = (s1, parasitic, b1)"
    by (metis prod_cases3)
  obtain s2 b2 where e2: "OneWire_MatchRom b1 (ow_rom device) = (s2, b2)"
    by fastforce
  define b3 where "b3 = OneWire_WriteByte b2 DS18B20_COMMAND_CONVERT_T"
  obtain s4 b4 where e4: "(if parasitic then (SUCCESS, OneWire_StrongPullupDisable (OneWire_StrongPullupEnable b3))
      else ds18b20_WaitForConversion b3 DS18B20_CONVERSION_TIMEOUT_MS) = (s4, b4)"
    by fastforce
  obtain s5 b5 where e5: "OneWire_MatchRom b4 (ow_rom device) = (s5, b5)"
    by fastforce
  obtain crc pad b6 where e6: "ds18b20_ReadScratchpad (OneWire_WriteByte b5 DS18B20_COMMAND_READ_SCRATCHPAD) 0
      (ow_scratchpad device) [0..<9] = (crc, pad, b6)"
    by (metis prod_cases3)
  have p1: "\<not> bus_push_pull b1" "\<not> bus_push_pull b2" "\<not> bus_push_pull b3"
    using pin OneWire_ReadPowerSupply_push_pull [OF e1] OneWire_MatchRom_push_pull [OF e2] by (simp_all add: b3_def)
  then have p4: "\<not> bus_push_pull b4"
    using e4 ds18b20_WaitLoop_push_pull [of b3 0]
    by (auto simp: ds18b20_WaitForConversion_def OneWire_StrongPullupDisable_def split: if_splits)
  then have p5: "\<not> bus_push_pull b5"
    using OneWire_MatchRom_push_pull [OF e5] by simp
  have run': "(status, device', b') = (if s1 \<noteq> SUCCESS then (DS18B20_STATUS_BUS, device, b1)
      else if s2 \<noteq> SUCCESS then (DS18B20_STATUS_BUS, device, b2)
      else if s4 \<noteq> SUCCESS then (DS18B20_STATUS_TIMEOUT, device, b4)
      else if s5 \<noteq> SUCCESS then (DS18B20_STATUS_BUS, device, b5)
      else (if crc = 0 then DS18B20_STATUS_OK else DS18B20_STATUS_CRC, device\<lparr>ow_scratchpad := pad\<rparr>, b6))"
    using run unfolding ds18b20_MeasureDevice_def
    by (simp only: e1 e2 e4 [unfolded b3_def] e5 e6 prod.case Let_def)
  note pad = ds18b20_ReadScratchpad_spec [of _ _ "ow_scratchpad device" 0, unfolded len, OF e6]
  show "\<not> bus_push_pull b'" "ow_rom device' = ow_rom device" "length (ow_scratchpad device') = 9"
    "status = DS18B20_STATUS_OK \<Longrightarrow> foldl OneWire_CRC8 0 (ow_scratchpad device') = 0"
    using run' p1 p4 p5 pad len by (auto split: if_splits)
qed

lemma ds18b20_MeasureLoop_spec:
  assumes "ds18b20_MeasureLoop b devices = (ms, devices', b')" and "\<not> bus_push_pull b"
    and "\<forall>d\<in>set devices. length (ow_scratchpad d) = 9"
  shows "length ms = length devices \<and> length devices' = length devices \<and> \<not> bus_push_pull b'
    \<and> (\<forall>i<length devices. measured (ms ! i) (devices ! i) (devices' ! i))"
  using assms
proof (induction devices arbitrary: b ms devices' b')
  case (Cons device devices)
  obtain status device1 b1 where one: "ds18b20_MeasureDevice b device = (status, device1, b1)"
    by (metis prod_cases3)
  obtain ms2 devices2 b2 where rest: "ds18b20_MeasureLoop b1 devices = (ms2, devices2, b2)"
    by (metis prod_cases3)
  note spec = ds18b20_MeasureDevice_spec [OF one _ Cons.prems(2)]
  note IH = Cons.IH [OF rest]
  show ?case
    using Cons.prems(1,3) spec IH by (auto simp: one rest measured_def nth_Cons split: nat.splits)
qed simp

text \<open>
  C35: whatever the devices on the bus answer, a measurement round returns one entry per known
  device (up to the caller's capacity) carrying that device's ROM code, an entry is OK only when
  the scratchpad read has a valid checksum and then holds the temperature of that scratchpad, any
  other entry holds zero, the pin is back in open-drain mode and the bus mutex is free again.
\<close>

theorem DS18B20_Measure_outcome:
  assumes "DS18B20_Measure st capacity = (status, ms, st')" and "0 < capacity" and "oneWireMutex st = Sem_Free"
    and "\<not> bus_push_pull (ow_bus st)" and "oneWireDeviceCount st \<le> length (oneWireDevices st)"
    and "\<forall>d\<in>set (oneWireDevices st). length (ow_scratchpad d) = 9"
  shows "length ms = min (oneWireDeviceCount st) capacity \<and> (status = SUCCESS \<longleftrightarrow> 0 < oneWireDeviceCount st)
    \<and> (\<forall>i<length ms. measured (ms ! i) (oneWireDevices st ! i) (oneWireDevices st' ! i))
    \<and> (\<forall>i. length ms \<le> i \<longrightarrow> i < length (oneWireDevices st) \<longrightarrow> oneWireDevices st' ! i = oneWireDevices st ! i)
    \<and> length (oneWireDevices st') = length (oneWireDevices st) \<and> oneWireDeviceCount st' = oneWireDeviceCount st
    \<and> \<not> bus_push_pull (ow_bus st') \<and> oneWireMutex st' = Sem_Free"
proof -
  let ?n = "min (oneWireDeviceCount st) capacity"
  obtain ms1 devices b where loop: "ds18b20_MeasureLoop (ow_bus st) (take ?n (oneWireDevices st)) = (ms1, devices, b)"
    by (metis prod_cases3)
  have spec: "length ms1 = ?n" "length devices = ?n" "\<not> bus_push_pull b"
      "\<forall>i<?n. measured (ms1 ! i) (oneWireDevices st ! i) (devices ! i)"
    using ds18b20_MeasureLoop_spec [OF loop assms(4)] assms(5,6) by (auto dest: in_set_takeD)
  have res: "status = (if 0 < ?n then SUCCESS else ERROR)" "ms = ms1"
      "st' = st\<lparr>oneWireMutex := Sem_Free, ow_bus := b, oneWireDevices := devices @ drop ?n (oneWireDevices st)\<rparr>"
    using assms(1,2,3) loop
    by (auto simp: DS18B20_Measure_def OneWire_Lock_def OneWire_GetDeviceCount_def OneWire_GetDevices_def OneWire_Unlock_def Let_def)
  show ?thesis
    unfolding res using spec assms(2,5) by (auto simp: nth_append)
qed

definition sensor_bus :: "onewire" where
  "sensor_bus = \<lparr>ow_bus = \<lparr>bus_history = [], bus_env = (\<lambda>h. hd h \<noteq> Bus_Reset), bus_push_pull = False, bus_delays = []\<rparr>,
     oneWireDevices = [\<lparr>ow_rom = [0x28, 1, 0, 0, 0, 0, 0, 0x29], ow_scratchpad = replicate 9 0\<rparr>],
     oneWireDeviceCount = 1, oneWireMutex = Sem_Free\<rparr>"

theorem DS18B20_Measure_outcome_witness:
  "length (fst (snd (DS18B20_Measure sensor_bus 6))) = 1
   \<and> ms_rom (fst (snd (DS18B20_Measure sensor_bus 6)) ! 0) = [0x28, 1, 0, 0, 0, 0, 0, 0x29]
   \<and> oneWireMutex (snd (snd (DS18B20_Measure sensor_bus 6))) = Sem_Free"
  using DS18B20_Measure_outcome [of sensor_bus 6 "fst (DS18B20_Measure sensor_bus 6)"
      "fst (snd (DS18B20_Measure sensor_bus 6))" "snd (snd (DS18B20_Measure sensor_bus 6))"]
  by (simp add: sensor_bus_def measured_def)

section \<open>Conversion of the reading\<close>

definition ds18b20_raw :: "u8 list \<Rightarrow> int" where
  "ds18b20_raw pad = sint (push_bit 8 (ucast (pad ! 1)) OR ucast (pad ! 0) :: u16)"

text \<open>
  The temperature in hundredths of a degree is the raw sixteenths scaled and truncated towards
  zero exactly when the raw value lies between -5243 and 5242, which includes the whole range of
  the sensor; beyond it the 16-bit result wraps around.
\<close>

theorem ds18b20_CentiDegrees_exact:
  "sint (ds18b20_CentiDegrees pad) = ds18b20_raw pad * 100 sdiv 16 \<longleftrightarrow> - 5243 \<le> ds18b20_raw pad \<and> ds18b20_raw pad \<le> 5242"
proof -
  have "sint (ds18b20_CentiDegrees pad) = signed_take_bit 15 (ds18b20_raw pad * 100 sdiv 16)"
    by (simp add: ds18b20_CentiDegrees_def ds18b20_raw_def Let_def sint_uint unsigned_of_int signed_take_bit_take_bit)
  moreover have "signed_take_bit 15 k = k \<longleftrightarrow> - 32768 \<le> k \<and> k < 32768" for k :: int
    by (simp add: signed_take_bit_int_eq_self_iff)
  moreover have "- 32768 \<le> r * 100 sdiv 16 \<and> r * 100 sdiv 16 < 32768 \<longleftrightarrow> - 5243 \<le> r \<and> r \<le> 5242" for r :: int
    by (cases "0 \<le> r") (auto simp: signed_divide_int_def sgn_if abs_if)
  ultimately show ?thesis
    by simp
qed

section \<open>A shorted bus\<close>

definition shorted_bus :: "onewire" where
  "shorted_bus = \<lparr>ow_bus = \<lparr>bus_history = [], bus_env = (\<lambda>_. False), bus_push_pull = False, bus_delays = []\<rparr>,
     oneWireDevices = [], oneWireDeviceCount = 0, oneWireMutex = Sem_Free\<rparr>"

lemma shorted_ReadBits:
  "bus_env b = (\<lambda>_. False) \<Longrightarrow> \<exists>b'. oneWire_ReadBits b v ks = (v, b') \<and> bus_env b' = (\<lambda>_. False)"
  by (induction ks arbitrary: b) (simp_all add: OneWire_ReadBit_def Let_def)

lemma shorted_MatchRom:
  "bus_env b = (\<lambda>_. False) \<Longrightarrow> \<exists>b'. OneWire_MatchRom b rom = (SUCCESS, b') \<and> bus_env b' = (\<lambda>_. False)"
proof -
  have "bus_env (foldl OneWire_WriteByte b vs) = bus_env b" for b vs
    by (induction vs arbitrary: b) simp_all
  then show "bus_env b = (\<lambda>_. False) \<Longrightarrow> \<exists>b'. OneWire_MatchRom b rom = (SUCCESS, b') \<and> bus_env b' = (\<lambda>_. False)"
    by (simp add: OneWire_MatchRom_def OneWire_Reset_def Let_def)
qed

lemma shorted_ReadScratchpad:
  "bus_env b = (\<lambda>_. False) \<Longrightarrow> \<exists>b'. ds18b20_ReadScratchpad b 0 (replicate n 0) is = (0, replicate n 0, b')"
proof (induction "is" arbitrary: b)
  case (Cons i "is")
  obtain b1 where "OneWire_ReadByte b = (0, b1)" "bus_env b1 = (\<lambda>_. False)"
    using shorted_ReadBits [OF Cons.prems] by (auto simp: OneWire_ReadByte_def)
  moreover have "OneWire_CRC8 0 0 = 0"
    by code_simp
  moreover have "(replicate n 0)[i := 0 :: u8] = replicate n 0"
    by (cases "i < n") (simp_all add: list_update_same_conv list_update_beyond)
  ultimately show ?case
    using Cons.IH by simp
qed simp

lemma shorted_MeasureDevice:
  assumes "bus_env b = (\<lambda>_. False)" and "ow_scratchpad device = replicate 9 0"
  shows "\<exists>b'. ds18b20_MeasureDevice b device = (DS18B20_STATUS_OK, device, b')"
proof -
  obtain b1 where b1: "OneWire_ReadPowerSupply b (ow_rom device) = (SUCCESS, True, b1)" "bus_env b1 = (\<lambda>_. False)"
    using shorted_MatchRom [OF assms(1), of "ow_rom device"]
    by (auto simp: OneWire_ReadPowerSupply_def OneWire_ReadBit_def Let_def)
  obtain b2 where b2: "OneWire_MatchRom b1 (ow_rom device) = (SUCCESS, b2)" "bus_env b2 = (\<lambda>_. False)"
    using shorted_MatchRom [OF b1(2)] by blast
  define b3 where "b3 = OneWire_StrongPullupDisable (OneWire_StrongPullupEnable (OneWire_WriteByte b2 DS18B20_COMMAND_CONVERT_T))"
  have "bus_env b3 = (\<lambda>_. False)"
    by (simp add: b3_def OneWire_StrongPullupDisable_def OneWire_StrongPullupEnable_def b2)
  then obtain b4 where b4: "OneWire_MatchRom b3 (ow_rom device) = (SUCCESS, b4)" "bus_env b4 = (\<lambda>_. False)"
    using shorted_MatchRom by blast
  then obtain b5 where b5: "ds18b20_ReadScratchpad (OneWire_WriteByte b4 DS18B20_COMMAND_READ_SCRATCHPAD) 0 (replicate 9 0) [0..<9]
      = (0, replicate 9 0, b5)"
    using shorted_ReadScratchpad [of "OneWire_WriteByte b4 DS18B20_COMMAND_READ_SCRATCHPAD" 9 "[0..<9]"] by auto
  have "device\<lparr>ow_scratchpad := replicate 9 0\<rparr> = device"
    using assms(2) by (cases device) simp
  then show ?thesis
    unfolding ds18b20_MeasureDevice_def assms(2)
    by (simp only: b1 b2 Let_def prod.case if_True simp_thms if_False b3_def [symmetric] b4 b5) simp
qed

lemma oneWire_SearchBits_env: "bus_env (snd (snd (snd (oneWire_SearchBits b rom l d k)))) = bus_env b"
proof (induction "65 - k" arbitrary: b rom d k)
  case 0
  then show ?case
    by (subst oneWire_SearchBits.simps) simp
next
  case (Suc n)
  then have "n = 65 - Suc k"
    by simp
  then show ?case
    by (subst oneWire_SearchBits.simps) (simp add: OneWire_ReadBit_def Let_def oneWire_WriteBit_def Suc.hyps(1))
qed

lemma OneWire_Search_env: "bus_env (ow_bus (snd (OneWire_Search st))) = bus_env (ow_bus st)"
proof -
  have loop: "bus_env (ow_bus (oneWire_SearchLoop st rom l)) = bus_env (ow_bus st)" for st rom l
  proof (induction st rom l rule: oneWire_SearchLoop.induct)
    case (1 st rom l)
    obtain b1 s where reset: "OneWire_Reset (ow_bus st) = (s, b1)" "bus_env b1 = bus_env (ow_bus st)"
      by (simp add: OneWire_Reset_def Let_def)
    obtain c rom' d b2 where bits: "oneWire_SearchBits (OneWire_WriteByte b1 ONEWIRE_COMMAND_SEARCH_ROM) rom l 0 1 = (c, rom', d, b2)"
      by (metis prod_cases4)
    then have "bus_env b2 = bus_env b1"
      using oneWire_SearchBits_env [of "OneWire_WriteByte b1 ONEWIRE_COMMAND_SEARCH_ROM" rom l 0 1] by simp
    then show ?case
      using 1 [OF _ reset(1) [symmetric] _ bits [symmetric] refl refl _ _ refl refl] reset bits
      by (subst oneWire_SearchLoop.simps) (simp add: Let_def)
  qed
  show ?thesis
    by (auto simp: OneWire_Search_def OneWire_Lock_def oneWire_SearchUnlocked_def OneWire_Unlock_def loop Let_def
        split: option.splits)
qed

text \<open>
  With the data line shorted to ground the search reports success with one device whose ROM
  code is all zero (its checksum is valid), and measuring it returns an OK reading of 0.00 degrees.
\<close>

theorem shorted_bus_reads_zero:
  "fst (OneWire_Search shorted_bus) = SUCCESS
   \<and> fst (snd (DS18B20_Measure (snd (OneWire_Search shorted_bus)) ONEWIRE_MAX_DEVICES))
       = [\<lparr>ms_rom = replicate 8 0, ms_temperatureCentiDegrees = 0, ms_status = DS18B20_STATUS_OK\<rparr>]"
proof -
  let ?st = "snd (OneWire_Search shorted_bus)"
  have "(\<lambda>(s, st). (s, oneWireMutex st, oneWireDeviceCount st, map ow_rom (take 1 (oneWireDevices st)), map ow_scratchpad (take 1 (oneWireDevices st))))
      (OneWire_Search shorted_bus) = (SUCCESS, Sem_Free, 1, [[0, 0, 0, 0, 0, 0, 0, 0]], [[0, 0, 0, 0, 0, 0, 0, 0, 0]])"
    unfolding shorted_bus_def by code_simp
  then have search: "fst (OneWire_Search shorted_bus) = SUCCESS" "oneWireMutex ?st = Sem_Free" "oneWireDeviceCount ?st = 1"
      "take 1 (oneWireDevices ?st) = [\<lparr>ow_rom = replicate 8 0, ow_scratchpad = replicate 9 0\<rparr>]"
    by (auto simp: case_prod_beta map_eq_Cons_conv numeral_eq_Suc)
  have "bus_env (ow_bus ?st) = (\<lambda>_. False)"
    unfolding OneWire_Search_env by (simp add: shorted_bus_def)
  then obtain b where "ds18b20_MeasureDevice (ow_bus ?st) \<lparr>ow_rom = replicate 8 0, ow_scratchpad = replicate 9 0\<rparr>
      = (DS18B20_STATUS_OK, \<lparr>ow_rom = replicate 8 0, ow_scratchpad = replicate 9 0\<rparr>, b)"
    using shorted_MeasureDevice [of "ow_bus ?st"] by fastforce
  moreover have "ds18b20_CentiDegrees (replicate 9 0) = 0"
    by (simp add: ds18b20_CentiDegrees_def)
  ultimately show ?thesis
    using search by (simp add: DS18B20_Measure_def OneWire_Lock_def OneWire_GetDeviceCount_def OneWire_GetDevices_def
        OneWire_Unlock_def ONEWIRE_MAX_DEVICES_def Let_def)
qed

end
