(* ===== verification/Rtc.thy ===== *)
theory Rtc
  imports Fw_Prelude
begin

text \<open>
  The real-time clock driver \<^verbatim>\<open>Periph/Src/rtc.c\<close>: binary-coded-decimal packing, the conversion
  between Unix seconds and the calendar registers, and the write-protected initialisation mode of
  the peripheral. The peripheral is a record of the registers the driver uses; \<open>rtc_waits\<close> scripts
  the outcomes of the next waits for a status flag (\<open>False\<close> is the 1 s time-out, an exhausted
  script means the flag comes in time); \<open>rtc_init_mode\<close> is the INIT bit of the status register. Reading the month table outside its twelve entries is
  \<open>None\<close>. The main result is that every time from 2000 to 2099 survives the trip through the
  registers.
\<close>

section \<open>Registers\<close>

record rtc =
  rtc_unlocked :: bool
  rtc_init_mode :: bool
  rtc_tr :: u32
  rtc_dr :: u32
  rtc_prer :: u32
  rtc_cr :: u32
  rtc_bkp0r :: u32
  rcc_bdcr :: u32
  rtc_waits :: "bool list"

record Rtc_DateTimeTypeDef =
  dt_year :: u16
  dt_month :: u8
  dt_day :: u8
  dt_hour :: u8
  dt_minute :: u8
  dt_second :: u8

definition RTC_SYNC_MARKER :: u32 where "RTC_SYNC_MARKER = 0x52544353"
definition RTC_SECONDS_PER_DAY :: nat where "RTC_SECONDS_PER_DAY = 86400"
definition RTC_UNIX_YEAR_2000 :: u32 where "RTC_UNIX_YEAR_2000 = 946684800"
definition RTC_UNIX_YEAR_2100 :: u32 where "RTC_UNIX_YEAR_2100 = 4102444800"
definition RCC_BDCR_RTCSEL :: u32 where "RCC_BDCR_RTCSEL = 0x300"
definition RCC_BDCR_RTCSEL_0 :: u32 where "RCC_BDCR_RTCSEL_0 = 0x100"
definition RCC_BDCR_RTCEN :: u32 where "RCC_BDCR_RTCEN = 0x8000"
definition RCC_BDCR_BDRST :: u32 where "RCC_BDCR_BDRST = 0x10000"
definition RCC_BDCR_LSEON :: u32 where "RCC_BDCR_LSEON = 0x1"
definition RTC_CR_FMT :: u32 where "RTC_CR_FMT = 0x40"
definition RTC_CR_OSEL :: u32 where "RTC_CR_OSEL = 0x600000"

text \<open>The calendar registers accept writes only while unlocked and in initialisation mode.\<close>

definition rtc_write :: "rtc \<Rightarrow> (rtc \<Rightarrow> rtc) \<Rightarrow> rtc" where
  "rtc_write h w = (if rtc_unlocked h \<and> rtc_init_mode h then w h else h)"

section \<open>Helpers\<close>

definition rtc_ToBcd :: "u8 \<Rightarrow> u8" where
  "rtc_ToBcd value = push_bit 4 (value div 10) OR (value mod 10)"

definition rtc_FromBcd :: "u8 \<Rightarrow> u8" where
  "rtc_FromBcd value = drop_bit 4 value * 10 + (value AND 0x0F)"

definition rtc_Unlock :: "rtc \<Rightarrow> rtc" where
  "rtc_Unlock h = h\<lparr>rtc_unlocked := True\<rparr>"

definition rtc_Lock :: "rtc \<Rightarrow> rtc" where
  "rtc_Lock h = h\<lparr>rtc_unlocked := False\<rparr>"

definition rtc_WaitForFlag :: "rtc \<Rightarrow> Platform_StatusTypeDef \<times> rtc" where
  "rtc_WaitForFlag h =
     (case rtc_waits h of
        [] \<Rightarrow> (PLATFORM_STATUS_OK, h)
      | ok # ws \<Rightarrow> (if ok then PLATFORM_STATUS_OK else PLATFORM_STATUS_TIMEOUT, h\<lparr>rtc_waits := ws\<rparr>))"

definition rtc_WaitForLse :: "rtc \<Rightarrow> Platform_StatusTypeDef \<times> rtc" where
  "rtc_WaitForLse h = rtc_WaitForFlag h"

definition rtc_EnterInitMode :: "rtc \<Rightarrow> Platform_StatusTypeDef \<times> rtc" where
  "rtc_EnterInitMode h =
     rtc_WaitForFlag (h\<lparr>rtc_init_mode := (if rtc_unlocked h then True else rtc_init_mode h)\<rparr>)"

definition rtc_LeaveInitMode :: "rtc \<Rightarrow> Platform_StatusTypeDef \<times> rtc" where
  "rtc_LeaveInitMode h = rtc_WaitForFlag (h\<lparr>rtc_init_mode := (if rtc_unlocked h then False else rtc_init_mode h)\<rparr>)"

definition rtc_IsLeapYear :: "nat \<Rightarrow> bool" where
  "rtc_IsLeapYear year \<longleftrightarrow> year mod 4 = 0 \<and> (year mod 100 \<noteq> 0 \<or> year mod 400 = 0)"

definition rtc_days :: "nat list" where
  "rtc_days = [31, 28, 31, 30, 31, 30, 31, 31, 30, 31, 30, 31]"

definition rtc_DaysInMonth :: "nat \<Rightarrow> nat \<Rightarrow> nat option" where
  "rtc_DaysInMonth year month =
     (if month = 2 \<and> rtc_IsLeapYear year then Some 29
      else if 1 \<le> month \<and> month \<le> length rtc_days then Some (rtc_days ! (month - 1)) else None)"

definition rtc_DaysInYear :: "nat \<Rightarrow> nat" where
  "rtc_DaysInYear year = (if rtc_IsLeapYear year then 366 else 365)"

section \<open>Setting the clock\<close>

text \<open>The two counting loops of \<open>Rtc_SetUnixTime\<close>.\<close>

function rtc_YearLoop :: "nat \<Rightarrow> nat \<Rightarrow> nat \<times> nat" where
  "rtc_YearLoop days year =
     (if rtc_DaysInYear year \<le> days then rtc_YearLoop (days - rtc_DaysInYear year) (year + 1) else (days, year))"
  by pat_completeness auto
termination
  by (relation "measure fst") (auto simp: rtc_DaysInYear_def)

declare rtc_YearLoop.simps [simp del]

lemma rtc_DaysInMonth_pos: "rtc_DaysInMonth year month = Some n \<Longrightarrow> 0 < n"
proof -
  have "list_all (\<lambda>d. 0 < d) rtc_days"
    by (simp add: rtc_days_def)
  then show "rtc_DaysInMonth year month = Some n \<Longrightarrow> 0 < n"
    by (auto simp: rtc_DaysInMonth_def list_all_length split: if_splits)
qed

function rtc_MonthLoop :: "nat \<Rightarrow> nat \<Rightarrow> nat \<Rightarrow> (nat \<times> nat) option" where
  "rtc_MonthLoop year days month =
     (case rtc_DaysInMonth year month of
        None \<Rightarrow> None
      | Some n \<Rightarrow> if n \<le> days then rtc_MonthLoop year (days - n) (month + 1) else Some (days, month))"
  by pat_completeness auto
termination
  by (relation "measure (\<lambda>(_, days, _). days)") (auto dest: rtc_DaysInMonth_pos)

declare rtc_MonthLoop.simps [simp del]

definition rtc_TimeRegister :: "u8 \<Rightarrow> u8 \<Rightarrow> u8 \<Rightarrow> u32" where
  "rtc_TimeRegister hours minutes seconds =
     push_bit 16 (ucast (rtc_ToBcd hours)) OR push_bit 8 (ucast (rtc_ToBcd minutes)) OR ucast (rtc_ToBcd seconds)"

definition rtc_DateRegister :: "u8 \<Rightarrow> u8 \<Rightarrow> u8 \<Rightarrow> u8 \<Rightarrow> u32" where
  "rtc_DateRegister year weekday month day =
     push_bit 16 (ucast (rtc_ToBcd year)) OR push_bit 13 (ucast weekday) OR push_bit 8 (ucast (rtc_ToBcd month))
     OR ucast (rtc_ToBcd day)"

definition Rtc_SetUnixTime :: "rtc \<Rightarrow> u32 \<Rightarrow> (Platform_StatusTypeDef \<times> rtc) option" where
  "Rtc_SetUnixTime h unixTime =
     (if unixTime < RTC_UNIX_YEAR_2000 \<or> unixTime \<ge> RTC_UNIX_YEAR_2100 then Some (PLATFORM_STATUS_ERROR, h)
      else
        let seconds = unat unixTime mod RTC_SECONDS_PER_DAY
        in case rtc_YearLoop (unat unixTime div RTC_SECONDS_PER_DAY) 1970 of
          (days, year) \<Rightarrow>
            (case rtc_MonthLoop year days 1 of
               None \<Rightarrow> None
             | Some (days', month) \<Rightarrow>
                 let hours = of_nat (seconds div 3600) :: u8;
                     minutes = of_nat (seconds mod 3600 div 60) :: u8;
                     secondsValue = of_nat (seconds mod 60) :: u8;
                     weekday = of_nat ((unat unixTime div RTC_SECONDS_PER_DAY + 3) mod 7 + 1) :: u8
                 in case rtc_EnterInitMode (rtc_Unlock h) of
                   (s, h1) \<Rightarrow>
                     if s \<noteq> PLATFORM_STATUS_OK then Some (PLATFORM_STATUS_TIMEOUT, rtc_Lock h1)
                     else
                       let h2 = rtc_write h1 (\<lambda>h. h\<lparr>rtc_tr := rtc_TimeRegister hours minutes secondsValue\<rparr>);
                           h3 = rtc_write h2 (\<lambda>h. h\<lparr>rtc_dr := rtc_DateRegister (of_nat (year - 2000)) weekday
                                  (of_nat month) (of_nat (days' + 1))\<rparr>)
                       in case rtc_LeaveInitMode h3 of
                         (s2, h4) \<Rightarrow>
                           if s2 \<noteq> PLATFORM_STATUS_OK then Some (s2, rtc_Lock h4)
                           else Some (PLATFORM_STATUS_OK, (rtc_Lock h4)\<lparr>rtc_bkp0r := RTC_SYNC_MARKER\<rparr>)))"

section \<open>Reading the clock\<close>

definition Rtc_GetDateTime :: "rtc \<Rightarrow> Rtc_DateTimeTypeDef" where
  "Rtc_GetDateTime h =
     (let time = rtc_tr h; date = rtc_dr h
      in \<lparr>dt_year = 2000 + ucast (rtc_FromBcd (ucast (drop_bit 16 date))),
          dt_month = rtc_FromBcd (ucast (drop_bit 8 (date AND 0x1F00))),
          dt_day = rtc_FromBcd (ucast (date AND 0x3F)),
          dt_hour = rtc_FromBcd (ucast (drop_bit 16 (time AND 0x3F0000))),
          dt_minute = rtc_FromBcd (ucast (drop_bit 8 (time AND 0x7F00))),
          dt_second = rtc_FromBcd (ucast (time AND 0x7F))\<rparr>)"

definition rtc_YearSum :: "nat \<Rightarrow> nat" where
  "rtc_YearSum year = sum_list (map rtc_DaysInYear [1970..<year])"

fun rtc_MonthSum :: "nat \<Rightarrow> nat list \<Rightarrow> nat option" where
  "rtc_MonthSum year [] = Some 0"
| "rtc_MonthSum year (month # ms) =
     (case rtc_DaysInMonth year month of
        None \<Rightarrow> None
      | Some n \<Rightarrow> map_option (\<lambda>k. n + k) (rtc_MonthSum year ms))"

definition Rtc_GetUnixTime :: "rtc \<Rightarrow> u32 option" where
  "Rtc_GetUnixTime h =
     (let dateTime = Rtc_GetDateTime h
      in case rtc_MonthSum (unat (dt_year dateTime)) [1..<unat (dt_month dateTime)] of
        None \<Rightarrow> None
      | Some monthDays \<Rightarrow>
          let days = of_nat (rtc_YearSum (unat (dt_year dateTime))) + of_nat monthDays
                + (ucast (dt_day dateTime) - 1) :: u32
          in Some (days * of_nat RTC_SECONDS_PER_DAY + ucast (dt_hour dateTime) * 3600
               + ucast (dt_minute dateTime) * 60 + ucast (dt_second dateTime)))"

definition Rtc_IsSynchronized :: "rtc \<Rightarrow> bool" where
  "Rtc_IsSynchronized h \<longleftrightarrow> rtc_bkp0r h = RTC_SYNC_MARKER"

definition Rtc_Init :: "rtc \<Rightarrow> Platform_StatusTypeDef \<times> rtc" where
  "Rtc_Init h =
     (let selectedClock = rcc_bdcr h AND RCC_BDCR_RTCSEL;
          rest = (\<lambda>h.
            let h1 = h\<lparr>rcc_bdcr := (rcc_bdcr h AND NOT RCC_BDCR_RTCSEL) OR RCC_BDCR_RTCSEL_0 OR RCC_BDCR_RTCEN\<rparr>
            in case rtc_EnterInitMode (rtc_Unlock h1) of
              (s, h2) \<Rightarrow>
                if s \<noteq> PLATFORM_STATUS_OK then (PLATFORM_STATUS_TIMEOUT, rtc_Lock h2)
                else
                  let h3 = rtc_write h2 (\<lambda>h. h\<lparr>rtc_cr := rtc_cr h AND NOT (RTC_CR_FMT OR RTC_CR_OSEL),
                             rtc_prer := 255 OR push_bit 16 127\<rparr>)
                  in case rtc_LeaveInitMode h3 of (s2, h4) \<Rightarrow> (s2, rtc_Lock h4))
      in if selectedClock \<noteq> 0 \<and> selectedClock \<noteq> RCC_BDCR_RTCSEL_0
         then (let h0 = h\<lparr>rcc_bdcr := RCC_BDCR_LSEON, rtc_tr := 0, rtc_dr := 0x2101, rtc_cr := 0,
                        rtc_prer := 0x7F00FF, rtc_bkp0r := 0\<rparr>
               in case rtc_WaitForLse h0 of
                 (s, h1) \<Rightarrow> if s \<noteq> PLATFORM_STATUS_OK then (PLATFORM_STATUS_TIMEOUT, h1) else rest h1)
         else rest h)"

section \<open>Calendar arithmetic\<close>

lemma rtc_YearLoop_sum:
  assumes "rtc_YearLoop days year = (d, y)" and "1970 \<le> year"
  shows "year \<le> y \<and> d < rtc_DaysInYear y \<and> rtc_YearSum year + days = rtc_YearSum y + d"
  using assms
proof (induction days year arbitrary: d y rule: rtc_YearLoop.induct)
  case (1 days year)
  show ?case
  proof (cases "rtc_DaysInYear year \<le> days")
    case True
    then have "rtc_YearLoop (days - rtc_DaysInYear year) (year + 1) = (d, y)"
      using 1(2) by (simp add: rtc_YearLoop.simps)
    then show ?thesis
      using 1(1) [OF True] 1(3) True by (simp add: rtc_YearSum_def)
  next
    case False
    then show ?thesis
      using 1(2) by (simp add: rtc_YearLoop.simps)
  qed
qed

text \<open>The days of a year are the days of its months.\<close>

lemma rtc_MonthSum_year: "rtc_MonthSum year [1..<13] = Some (rtc_DaysInYear year)"
proof -
  have "[1..<13] = [1, 2, 3, 4, 5, 6, 7, 8, 9, 10, 11, 12 :: nat]"
    by (simp add: upt_rec)
  then show ?thesis
    by (simp add: rtc_DaysInMonth_def rtc_days_def rtc_DaysInYear_def)
qed

lemma rtc_MonthSum_append:
  "rtc_MonthSum year (ms @ ns) =
     (case rtc_MonthSum year ms of None \<Rightarrow> None | Some a \<Rightarrow> map_option (\<lambda>b. a + b) (rtc_MonthSum year ns))"
  by (induction ms) (auto split: option.splits simp: option.map_comp comp_def map_option_case algebra_simps)

lemma rtc_DaysInMonth_Some: "1 \<le> m \<Longrightarrow> m \<le> 12 \<Longrightarrow> \<exists>n. rtc_DaysInMonth year m = Some n \<and> n \<le> 31"
proof -
  have "list_all (\<lambda>d. d \<le> 31) rtc_days" "length rtc_days = 12"
    by (simp_all add: rtc_days_def)
  then show "1 \<le> m \<Longrightarrow> m \<le> 12 \<Longrightarrow> \<exists>n. rtc_DaysInMonth year m = Some n \<and> n \<le> 31"
    by (auto simp: rtc_DaysInMonth_def list_all_length)
qed

lemma rtc_MonthLoop_sum:
  assumes "1 \<le> month" and "month \<le> 12" and "rtc_MonthSum year [1..<month] = Some k"
    and "k + days < rtc_DaysInYear year"
  shows "\<exists>d m j n. rtc_MonthLoop year days month = Some (d, m) \<and> month \<le> m \<and> m \<le> 12
    \<and> rtc_DaysInMonth year m = Some n \<and> d < n \<and> rtc_MonthSum year [1..<m] = Some j \<and> j + d = k + days"
  using assms
proof (induction year days month arbitrary: k rule: rtc_MonthLoop.induct)
  case (1 year days month)
  obtain n where n: "rtc_DaysInMonth year month = Some n"
    using rtc_DaysInMonth_Some 1(2,3) by blast
  show ?case
  proof (cases "n \<le> days")
    case True
    have step: "rtc_MonthSum year [1..<month + 1] = Some (k + n)"
      using 1(2,4) n by (simp add: rtc_MonthSum_append)
    have "month \<noteq> 12"
    proof
      assume "month = 12"
      then have "month + 1 = 13"
        by simp
      then show False
        using step rtc_MonthSum_year [of year] 1(5) True by (simp only: option.inject)
    qed
    then show ?thesis
      using 1(1) [OF n True _ _ step] 1(2,3,5) True n by (fastforce simp: rtc_MonthLoop.simps [of year days])
  next
    case False
    then show ?thesis
      using n 1(2,3,4) by (simp add: rtc_MonthLoop.simps)
  qed
qed

section \<open>Binary-coded decimals in the registers\<close>

lemma bcd_table:
  "list_all (\<lambda>x. rtc_FromBcd (rtc_ToBcd (of_nat x)) = of_nat x) [0..<100]"
  "list_all (\<lambda>x. rtc_ToBcd (of_nat x) AND 0x7F = rtc_ToBcd (of_nat x)) [0..<80]"
  "list_all (\<lambda>x. rtc_ToBcd (of_nat x) AND 0x3F = rtc_ToBcd (of_nat x)) [0..<40]"
  "list_all (\<lambda>x. rtc_ToBcd (of_nat x) AND 0x1F = rtc_ToBcd (of_nat x)) [0..<20]"
  by code_simp+

lemma bcd_facts:
  "x < 100 \<Longrightarrow> rtc_FromBcd (rtc_ToBcd (of_nat x)) = of_nat x"
  "x < 80 \<Longrightarrow> rtc_ToBcd (of_nat x) AND 0x7F = rtc_ToBcd (of_nat x)"
  "x < 40 \<Longrightarrow> rtc_ToBcd (of_nat x) AND 0x3F = rtc_ToBcd (of_nat x)"
  "x < 20 \<Longrightarrow> rtc_ToBcd (of_nat x) AND 0x1F = rtc_ToBcd (of_nat x)"
  using bcd_table unfolding list_all_iff by simp_all

lemma u8_bit_cases: "n < LENGTH(8) \<Longrightarrow> n = 0 \<or> n = 1 \<or> n = 2 \<or> n = 3 \<or> n = 4 \<or> n = 5 \<or> n = 6 \<or> n = 7"
  by (simp, linarith)

lemma time_fields:
  "ucast (drop_bit 16 ((push_bit 16 (ucast a) OR push_bit 8 (ucast b) OR ucast c :: u32) AND 0x3F0000)) = (a :: u8) AND 0x3F"
  "ucast (drop_bit 8 ((push_bit 16 (ucast a) OR push_bit 8 (ucast b) OR ucast c :: u32) AND 0x7F00)) = (b :: u8) AND 0x7F"
  "ucast ((push_bit 16 (ucast a) OR push_bit 8 (ucast b) OR ucast c :: u32) AND 0x7F) = (c :: u8) AND 0x7F"
  by (rule bit_word_eqI; drule u8_bit_cases; auto simp: bit_simps)+

lemma date_fields:
  assumes "w AND 7 = (w :: u8)" and "m AND 0x1F = (m :: u8)"
  shows "ucast (drop_bit 16 (push_bit 16 (ucast y) OR push_bit 13 (ucast w) OR push_bit 8 (ucast m) OR ucast d :: u32)) = (y :: u8)"
    "ucast (drop_bit 8 ((push_bit 16 (ucast y) OR push_bit 13 (ucast w) OR push_bit 8 (ucast m) OR ucast d :: u32) AND 0x1F00)) = m"
    "ucast ((push_bit 16 (ucast y) OR push_bit 13 (ucast w) OR push_bit 8 (ucast m) OR ucast d :: u32) AND 0x3F) = (d :: u8) AND 0x3F"
proof -
  have "\<not> bit (w AND 7) n" if "3 \<le> n" "n < 8" for n
    using that u8_bit_cases [of n] by (auto simp: bit_simps)
  then have w: "\<not> bit w n" if "3 \<le> n" for n
    using that assms(1) by (cases "n < 8") auto
  have "\<not> bit (m AND 0x1F) n" if "5 \<le> n" "n < 8" for n
    using that u8_bit_cases [of n] by (auto simp: bit_simps)
  then have m: "\<not> bit m n" if "5 \<le> n" for n
    using that assms(2) by (cases "n < 8") auto
  show "ucast (drop_bit 16 (push_bit 16 (ucast y) OR push_bit 13 (ucast w) OR push_bit 8 (ucast m) OR ucast d :: u32)) = (y :: u8)"
    by (rule bit_word_eqI; drule u8_bit_cases; auto simp: bit_simps w)
  show "ucast (drop_bit 8 ((push_bit 16 (ucast y) OR push_bit 13 (ucast w) OR push_bit 8 (ucast m) OR ucast d :: u32) AND 0x1F00)) = m"
    by (rule bit_word_eqI; drule u8_bit_cases; auto simp: bit_simps w m)
  show "ucast ((push_bit 16 (ucast y) OR push_bit 13 (ucast w) OR push_bit 8 (ucast m) OR ucast d :: u32) AND 0x3F) = (d :: u8) AND 0x3F"
    by (rule bit_word_eqI; drule u8_bit_cases; auto simp: bit_simps w)
qed

lemma read_back:
  assumes "h < 24" and "mi < 60" and "se < 60" and "y < 100" and "w < 8" and "mo < 13" and "d < 32"
    and "rtc_tr r = rtc_TimeRegister (of_nat h) (of_nat mi) (of_nat se)"
    and "rtc_dr r = rtc_DateRegister (of_nat y) (of_nat w) (of_nat mo) (of_nat d)"
  shows "Rtc_GetDateTime r = \<lparr>dt_year = 2000 + of_nat y, dt_month = of_nat mo, dt_day = of_nat d,
    dt_hour = of_nat h, dt_minute = of_nat mi, dt_second = of_nat se\<rparr>"
proof -
  have "list_all (\<lambda>x. (of_nat x :: u8) AND 7 = of_nat x) [0..<8]"
    by code_simp
  then have w: "(of_nat w :: u8) AND 7 = of_nat w"
    using assms(5) unfolding list_all_iff by simp
  have bcd: "rtc_ToBcd (of_nat h) AND 0x3F = rtc_ToBcd (of_nat h)" "rtc_ToBcd (of_nat mi) AND 0x7F = rtc_ToBcd (of_nat mi)"
    "rtc_ToBcd (of_nat se) AND 0x7F = rtc_ToBcd (of_nat se)" "rtc_ToBcd (of_nat mo) AND 0x1F = rtc_ToBcd (of_nat mo)"
    "rtc_ToBcd (of_nat d) AND 0x3F = rtc_ToBcd (of_nat d)"
    using assms(1-7) by (simp_all add: bcd_facts)
  have from_bcd: "rtc_FromBcd (rtc_ToBcd (of_nat x)) = of_nat x" if "x \<in> {h, mi, se, y, mo, d}" for x
    using that assms(1-7) by (intro bcd_facts(1)) auto
  have "ucast (of_nat y :: u8) = (of_nat y :: u16)"
    using assms(4) by (simp add: word_unat_eq_iff unsigned_ucast_eq unat_of_nat take_bit_eq_mod)
  then show ?thesis
    unfolding Rtc_GetDateTime_def Let_def assms(8,9) rtc_TimeRegister_def rtc_DateRegister_def
      time_fields date_fields [OF w bcd(4)] bcd
    by (simp add: from_bcd)
qed

lemma seconds_split:
  "s = s div 3600 * 3600 + s mod 3600 div 60 * 60 + s mod (60 :: nat)"
proof -
  have "s mod 3600 mod 60 = s mod 60"
    by (simp add: mod_mod_cancel)
  then show ?thesis
    using div_mult_mod_eq [of s 3600] div_mult_mod_eq [of "s mod 3600" 60] by linarith
qed

text \<open>The calendar that \<open>Rtc_SetUnixTime\<close> computes lies in the range the registers hold.\<close>

lemma year_sums: "rtc_YearSum 2000 = 10957" "rtc_YearSum 2100 = 47482"
  by (simp_all add: rtc_YearSum_def upt_rec_numeral rtc_DaysInYear_def rtc_IsLeapYear_def)

lemma rtc_YearSum_mono: "a \<le> b \<Longrightarrow> rtc_YearSum a \<le> rtc_YearSum b"
  unfolding rtc_YearSum_def
  by (induction b) (auto simp: le_Suc_eq)

lemma calendar_of:
  assumes "10957 \<le> days" and "days < 47482"
  shows "\<exists>y d d' m j. rtc_YearLoop days 1970 = (d, y) \<and> 2000 \<le> y \<and> y < 2100 \<and> rtc_MonthLoop y d 1 = Some (d', m)
    \<and> 1 \<le> m \<and> m \<le> 12 \<and> d' < 31 \<and> rtc_MonthSum y [1..<m] = Some j \<and> rtc_YearSum y + j + d' = days"
proof -
  obtain d y where loop: "rtc_YearLoop days 1970 = (d, y)"
    by (cases "rtc_YearLoop days 1970") auto
  have y: "1970 \<le> y" "d < rtc_DaysInYear y" "days = rtc_YearSum y + d"
    using rtc_YearLoop_sum [OF loop] by (auto simp: rtc_YearSum_def)
  have "y < 2100"
    using rtc_YearSum_mono [of 2100 y] y(3) assms(2) year_sums by (cases "y < 2100") auto
  moreover have "2000 \<le> y"
  proof (rule ccontr)
    assume "\<not> 2000 \<le> y"
    then have "rtc_YearSum (Suc y) \<le> 10957"
      using rtc_YearSum_mono [of "Suc y" 2000] year_sums by simp
    then show False
      using y assms(1) by (simp add: rtc_YearSum_def)
  qed
  moreover obtain d' m j n where "rtc_MonthLoop y d 1 = Some (d', m)" "1 \<le> m" "m \<le> 12"
    "rtc_DaysInMonth y m = Some n" "d' < n" "rtc_MonthSum y [1..<m] = Some j" "j + d' = d"
    using rtc_MonthLoop_sum [of 1 y 0 d] y(2) by auto
  moreover from this have "d' < 31"
    using rtc_DaysInMonth_Some [of m y] by auto
  ultimately show ?thesis
    using loop y(3) by (intro exI [of _ y] exI [of _ d] exI [of _ d'] exI [of _ m] exI [of _ j]) auto
qed

lemma ucast_small: "x < 256 \<Longrightarrow> (ucast (of_nat x :: u8) :: u32) = of_nat x"
  by (simp add: word_unat_eq_iff unsigned_ucast_eq unat_of_nat take_bit_eq_mod)

lemma year_in_register: "2000 \<le> y \<Longrightarrow> y < 2100 \<Longrightarrow> unat (2000 + of_nat (y - 2000) :: u16) = y"
proof -
  assume "2000 \<le> y" "y < 2100"
  then have "(2000 + of_nat (y - 2000) :: u16) = of_nat y"
    by (simp add: of_nat_diff)
  then show "unat (2000 + of_nat (y - 2000) :: u16) = y"
    using \<open>y < 2100\<close> by (simp add: unat_of_nat)
qed

text \<open>What the registers hold after the clock was set, and what is read from them.\<close>

lemma read_unixtime:
  assumes "2000 \<le> y" and "y < 2100" and "1 \<le> m" and "m \<le> 12" and "d < 31" and "w < 8" and "s < 86400"
    and "rtc_MonthSum y [1..<m] = Some j"
    and "rtc_tr r = rtc_TimeRegister (of_nat (s div 3600)) (of_nat (s mod 3600 div 60)) (of_nat (s mod 60))"
    and "rtc_dr r = rtc_DateRegister (of_nat (y - 2000)) (of_nat w) (of_nat m) (of_nat (d + 1))"
  shows "Rtc_GetUnixTime r = Some (of_nat ((rtc_YearSum y + j + d) * 86400 + s))"
proof -
  have bounds: "s div 3600 < 24" "s mod 3600 div 60 < 60" "s mod 60 < 60"
    using assms(7) by (auto simp: less_mult_imp_div_less)
  have dt: "Rtc_GetDateTime r = \<lparr>dt_year = 2000 + of_nat (y - 2000), dt_month = of_nat m, dt_day = of_nat (d + 1),
    dt_hour = of_nat (s div 3600), dt_minute = of_nat (s mod 3600 div 60), dt_second = of_nat (s mod 60)\<rparr>"
    using assms bounds by (intro read_back [where w = w]) auto
  have m: "unat (of_nat m :: u8) = m"
    using assms(4) by (simp add: unat_of_nat)
  have small: "(ucast (of_nat x :: u8) :: u32) = of_nat x" if "x \<in> {d + 1, s div 3600, s mod 3600 div 60, s mod 60}" for x
    using that bounds assms(5) by (intro ucast_small) auto
  have "of_nat (d + 1) - 1 = (of_nat d :: u32)"
    by simp
  moreover have "of_nat (s div 3600) * 3600 + of_nat (s mod 3600 div 60) * 60 + of_nat (s mod 60) = (of_nat s :: u32)"
    by (metis (no_types) of_nat_add of_nat_mult of_nat_numeral seconds_split)
  ultimately show ?thesis
    using assms(8)
    by (simp add: Rtc_GetUnixTime_def dt m year_in_register [OF assms(1,2)] small RTC_SECONDS_PER_DAY_def
        algebra_simps del: of_nat_Suc)
qed

lemma Rtc_SetUnixTime_registers:
  assumes "RTC_UNIX_YEAR_2000 \<le> t" and "t < RTC_UNIX_YEAR_2100"
  shows "\<exists>y d m j w. 2000 \<le> y \<and> y < 2100 \<and> 1 \<le> m \<and> m \<le> 12 \<and> d < 31 \<and> w < 8
    \<and> rtc_MonthSum y [1..<m] = Some j \<and> (rtc_YearSum y + j + d) * 86400 + unat t mod 86400 = unat t
    \<and> Rtc_SetUnixTime h t =
      (case rtc_EnterInitMode (rtc_Unlock h) of
         (s, h1) \<Rightarrow>
           if s \<noteq> PLATFORM_STATUS_OK then Some (PLATFORM_STATUS_TIMEOUT, rtc_Lock h1)
           else
             (case rtc_LeaveInitMode (rtc_write (rtc_write h1
                (\<lambda>h. h\<lparr>rtc_tr := rtc_TimeRegister (of_nat (unat t mod 86400 div 3600))
                       (of_nat (unat t mod 86400 mod 3600 div 60)) (of_nat (unat t mod 86400 mod 60))\<rparr>))
                (\<lambda>h. h\<lparr>rtc_dr := rtc_DateRegister (of_nat (y - 2000)) (of_nat w) (of_nat m) (of_nat (d + 1))\<rparr>)) of
              (s2, h4) \<Rightarrow>
                if s2 \<noteq> PLATFORM_STATUS_OK then Some (s2, rtc_Lock h4)
                else Some (PLATFORM_STATUS_OK, (rtc_Lock h4)\<lparr>rtc_bkp0r := RTC_SYNC_MARKER\<rparr>)))"
proof -
  let ?days = "unat t div 86400"
  have "946684800 \<le> unat t" "unat t < 4102444800"
    using assms by (simp_all add: word_le_nat_alt word_less_nat_alt RTC_UNIX_YEAR_2000_def RTC_UNIX_YEAR_2100_def)
  then have "10957 \<le> ?days" "?days < 47482"
    by (auto simp: less_mult_imp_div_less)
  then obtain y d d' m j where cal: "rtc_YearLoop ?days 1970 = (d, y)" "2000 \<le> y" "y < 2100"
    "rtc_MonthLoop y d 1 = Some (d', m)" "1 \<le> m" "m \<le> 12" "d' < 31" "rtc_MonthSum y [1..<m] = Some j"
    "rtc_YearSum y + j + d' = ?days"
    using calendar_of by blast
  have "(rtc_YearSum y + j + d') * 86400 + unat t mod 86400 = unat t"
    using cal(9) by (metis div_mult_mod_eq)
  moreover have "(?days + 3) mod 7 + 1 < 8"
    by simp
  moreover have "\<not> t < RTC_UNIX_YEAR_2000" "\<not> RTC_UNIX_YEAR_2100 \<le> t"
    using assms by auto
  ultimately show ?thesis
    using cal unfolding Rtc_SetUnixTime_def Let_def RTC_SECONDS_PER_DAY_def
    by (intro exI [of _ y] exI [of _ d'] exI [of _ m] exI [of _ j] exI [of _ "(?days + 3) mod 7 + 1"]) simp
qed

section \<open>Properties\<close>

text \<open>
  C31: every second from the start of 2000 to the end of 2099 survives the clock: setting it
  through the binary-coded calendar registers and reading it back gives the same Unix time, the
  clock then counts as synchronized, and the registers are write-protected again.
\<close>

theorem Rtc_unixtime_roundtrip:
  assumes "RTC_UNIX_YEAR_2000 \<le> t" and "t < RTC_UNIX_YEAR_2100" and "rtc_waits h = []"
  shows "\<exists>h'. Rtc_SetUnixTime h t = Some (PLATFORM_STATUS_OK, h') \<and> Rtc_GetUnixTime h' = Some t
    \<and> Rtc_IsSynchronized h' \<and> \<not> rtc_unlocked h'"
proof -
  obtain y d m j w where c: "2000 \<le> y" "y < 2100" "1 \<le> m" "m \<le> 12" "d < 31" "w < 8" "rtc_MonthSum y [1..<m] = Some j"
    "(rtc_YearSum y + j + d) * 86400 + unat t mod 86400 = unat t"
    and "Rtc_SetUnixTime h t = Some (PLATFORM_STATUS_OK, h\<lparr>rtc_unlocked := False, rtc_init_mode := False,
      rtc_tr := rtc_TimeRegister (of_nat (unat t mod 86400 div 3600))
        (of_nat (unat t mod 86400 mod 3600 div 60)) (of_nat (unat t mod 86400 mod 60)),
      rtc_dr := rtc_DateRegister (of_nat (y - 2000)) (of_nat w) (of_nat m) (of_nat (d + 1)),
      rtc_bkp0r := RTC_SYNC_MARKER\<rparr>)" (is "_ = Some (_, ?h')")
    using Rtc_SetUnixTime_registers [OF assms(1,2), of h] assms(3)
    by (auto simp: rtc_EnterInitMode_def rtc_LeaveInitMode_def rtc_WaitForFlag_def rtc_Unlock_def rtc_Lock_def rtc_write_def)
  moreover have "Rtc_GetUnixTime ?h' = Some (of_nat ((rtc_YearSum y + j + d) * 86400 + unat t mod 86400))"
    using c(1-7) by (intro read_unixtime) simp_all
  ultimately show ?thesis
    by (simp add: Rtc_IsSynchronized_def)
qed

definition fresh_rtc :: rtc where
  "fresh_rtc = \<lparr>rtc_unlocked = False, rtc_init_mode = False, rtc_tr = 0, rtc_dr = 0x2101, rtc_prer = 0x7F00FF,
     rtc_cr = 0, rtc_bkp0r = 0, rcc_bdcr = 0, rtc_waits = []\<rparr>"

theorem Rtc_unixtime_roundtrip_witness:
  "\<exists>h'. Rtc_SetUnixTime fresh_rtc 1709164800 = Some (PLATFORM_STATUS_OK, h') \<and> Rtc_GetUnixTime h' = Some 1709164800"
  using Rtc_unixtime_roundtrip [of 1709164800 fresh_rtc]
  by (auto simp: RTC_UNIX_YEAR_2000_def RTC_UNIX_YEAR_2100_def fresh_rtc_def)

text \<open>
  Whatever the peripheral does, setting the clock never reads outside the month table and
  leaves the registers write-protected; unless it reports success it neither marks the clock as
  synchronized nor unmarks it, and it refuses exactly the times the registers cannot hold.
\<close>

theorem Rtc_SetUnixTime_safe:
  assumes "\<not> rtc_unlocked h"
  shows "\<exists>s h'. Rtc_SetUnixTime h t = Some (s, h') \<and> \<not> rtc_unlocked h'
    \<and> (s \<noteq> PLATFORM_STATUS_OK \<longrightarrow> rtc_bkp0r h' = rtc_bkp0r h)
    \<and> (s = PLATFORM_STATUS_ERROR \<longleftrightarrow> t < RTC_UNIX_YEAR_2000 \<or> RTC_UNIX_YEAR_2100 \<le> t)"
proof (cases "RTC_UNIX_YEAR_2000 \<le> t \<and> t < RTC_UNIX_YEAR_2100")
  case True
  then show ?thesis
    using Rtc_SetUnixTime_registers [of t h]
    by (auto simp: rtc_EnterInitMode_def rtc_LeaveInitMode_def rtc_WaitForFlag_def rtc_write_def rtc_Lock_def
        rtc_Unlock_def split: list.splits)
next
  case False
  then show ?thesis
    using assms by (auto simp: Rtc_SetUnixTime_def not_le not_less)
qed

theorem Rtc_SetUnixTime_safe_witness:
  "\<exists>s h'. Rtc_SetUnixTime (fresh_rtc\<lparr>rtc_waits := [True, False]\<rparr>) 4102444799 = Some (s, h') \<and> \<not> rtc_unlocked h'"
  using Rtc_SetUnixTime_safe [of "fresh_rtc\<lparr>rtc_waits := [True, False]\<rparr>" 4102444799]
  by (auto simp: fresh_rtc_def)

end
