(* ===== verification/Time_Service.thy ===== *)
theory Time_Service
  imports Rtc
begin

text \<open>
  Network time \<^verbatim>\<open>Srv/Src/time_service.c\<close>: the once-a-second task body, the callbacks that run in
  the TCP/IP thread (start of a request, DNS answer, datagram received) and the validation of an
  NTP reply. A system state is the service's variables and the clock; steps are one task iteration
  or one callback, in any order. What the network stack answers is an argument of the step. The
  lemmas show that the clock is only ever set to the time of an accepted server reply, and that on
  a working network the service keeps asking whatever happens to its requests.
\<close>

section \<open>Data\<close>

definition TIME_WAIT_REPORT_SECONDS :: u32 where "TIME_WAIT_REPORT_SECONDS = 5"
definition TIME_NTP_RETRY_SECONDS :: u32 where "TIME_NTP_RETRY_SECONDS = 60"
definition TIME_NTP_RESYNC_SECONDS :: u32 where "TIME_NTP_RESYNC_SECONDS = 3600"
definition TIME_NTP_TIMEOUT_SECONDS :: u32 where "TIME_NTP_TIMEOUT_SECONDS = 10"
definition TIME_REPORT_SECONDS :: u32 where "TIME_REPORT_SECONDS = 60"
definition TIME_NTP_PORT :: u16 where "TIME_NTP_PORT = 123"
definition TIME_NTP_PACKET_SIZE :: nat where "TIME_NTP_PACKET_SIZE = 48"
definition TIME_NTP_UNIX_EPOCH_OFFSET :: u32 where "TIME_NTP_UNIX_EPOCH_OFFSET = 2208988800"

lemmas time_constants = TIME_WAIT_REPORT_SECONDS_def TIME_NTP_RETRY_SECONDS_def TIME_NTP_RESYNC_SECONDS_def
  TIME_NTP_TIMEOUT_SECONDS_def TIME_REPORT_SECONDS_def

datatype TimeService_SyncStateTypeDef = TIME_SYNC_IDLE | TIME_SYNC_PENDING | TIME_SYNC_RECEIVED | TIME_SYNC_FAILED

text \<open>
  \<open>ts_queued\<close> counts the start callbacks posted to the TCP/IP thread and not yet run; \<open>ts_sent\<close>
  collects the datagrams handed to the stack.
\<close>

record time_service =
  syncState :: TimeService_SyncStateTypeDef
  receivedUnixTime :: u32
  ntpPcb :: bool
  retrySeconds :: u32
  reportSeconds :: u32
  requestSeconds :: u32
  waitingReportSeconds :: u32
  ts_queued :: nat
  ts_sent :: "u8 list list"

datatype dns_result = DNS_OK | DNS_INPROGRESS | DNS_FAILED

text \<open>What the stack answers while a request is sent: \<open>udp_connect\<close>, \<open>pbuf_alloc\<close> and \<open>udp_send\<close> succeed.\<close>

record udp_outcome =
  udp_connected :: bool
  udp_allocated :: bool
  udp_sent :: bool

section \<open>Operations\<close>

definition TimeService_Init :: "time_service \<Rightarrow> bool \<Rightarrow> bool \<times> time_service" where
  "TimeService_Init st created = (created, st\<lparr>syncState := TIME_SYNC_IDLE, receivedUnixTime := 0\<rparr>)"

text \<open>The local variables of the task before its loop.\<close>

definition timeService_TaskStart :: "time_service \<Rightarrow> time_service" where
  "timeService_TaskStart st = st\<lparr>retrySeconds := 0, reportSeconds := TIME_REPORT_SECONDS,
     requestSeconds := 0, waitingReportSeconds := 0\<rparr>"

definition ntp_request :: "u8 list" where
  "ntp_request = 0x23 # replicate 47 0"

definition timeService_SendRequest :: "time_service \<Rightarrow> udp_outcome \<Rightarrow> time_service" where
  "timeService_SendRequest st net =
     (if \<not> udp_connected net then st\<lparr>syncState := TIME_SYNC_FAILED\<rparr>
      else if \<not> udp_allocated net then st\<lparr>syncState := TIME_SYNC_FAILED\<rparr>
      else if \<not> udp_sent net then st\<lparr>syncState := TIME_SYNC_FAILED\<rparr>
      else st\<lparr>ts_sent := ts_sent st @ [ntp_request]\<rparr>)"

definition timeService_StartRequest :: "time_service \<Rightarrow> bool \<Rightarrow> dns_result \<Rightarrow> udp_outcome \<Rightarrow> time_service" where
  "timeService_StartRequest st created dns net =
     (if \<not> ntpPcb st \<and> \<not> created then st\<lparr>syncState := TIME_SYNC_FAILED\<rparr>
      else
        let st1 = st\<lparr>ntpPcb := True\<rparr>
        in case dns of
             DNS_OK \<Rightarrow> timeService_SendRequest st1 net
           | DNS_INPROGRESS \<Rightarrow> st1
           | DNS_FAILED \<Rightarrow> st1\<lparr>syncState := TIME_SYNC_FAILED\<rparr>)"

definition timeService_DnsCallback :: "time_service \<Rightarrow> bool \<Rightarrow> udp_outcome \<Rightarrow> time_service" where
  "timeService_DnsCallback st resolved net =
     (if \<not> resolved then st\<lparr>syncState := TIME_SYNC_FAILED\<rparr> else timeService_SendRequest st net)"

definition pbuf_copy_partial :: "u8 list \<Rightarrow> nat \<Rightarrow> nat \<Rightarrow> u8 list" where
  "pbuf_copy_partial packet len offset = take len (drop offset packet)"

definition lwip_ntohl :: "u32 \<Rightarrow> u32" where
  "lwip_ntohl w = of_le32 (rev (le32 w))"

definition timeService_Receive :: "time_service \<Rightarrow> u8 list option \<Rightarrow> u16 \<Rightarrow> time_service" where
  "timeService_Receive st packet port =
     (case packet of
        None \<Rightarrow> st\<lparr>syncState := TIME_SYNC_FAILED\<rparr>
      | Some p \<Rightarrow>
          let header = pbuf_copy_partial p 4 0; networkBytes = pbuf_copy_partial p 4 40
          in if port \<noteq> TIME_NTP_PORT \<or> length p < TIME_NTP_PACKET_SIZE \<or> length header \<noteq> 4
                \<or> drop_bit 6 (header ! 0) = 3 \<or> header ! 0 AND 0x07 \<noteq> 4
                \<or> header ! 1 = 0 \<or> header ! 1 > 15 \<or> length networkBytes \<noteq> 4
             then st\<lparr>syncState := TIME_SYNC_FAILED\<rparr>
             else
               let ntpSeconds = lwip_ntohl (of_le32 networkBytes)
               in if ntpSeconds \<le> TIME_NTP_UNIX_EPOCH_OFFSET then st\<lparr>syncState := TIME_SYNC_FAILED\<rparr>
                  else st\<lparr>receivedUnixTime := ntpSeconds - TIME_NTP_UNIX_EPOCH_OFFSET,
                          syncState := TIME_SYNC_RECEIVED\<rparr>)"

text \<open>
  The clock as the task sees it: the reads of the month table are in range
  (\<open>Rtc_SetUnixTime_safe\<close>), so the \<open>None\<close> branch does not arise.
\<close>

definition set_clock :: "rtc \<Rightarrow> u32 \<Rightarrow> Platform_StatusTypeDef \<times> rtc" where
  "set_clock h t = (case Rtc_SetUnixTime h t of Some r \<Rightarrow> r | None \<Rightarrow> (PLATFORM_STATUS_ERROR, h))"

definition timeService_Accept :: "time_service \<times> rtc \<Rightarrow> time_service \<times> rtc" where
  "timeService_Accept = (\<lambda>(st, h).
     if syncState st = TIME_SYNC_RECEIVED \<and> receivedUnixTime st \<noteq> 0
     then (case set_clock h (receivedUnixTime st) of
             (s, h') \<Rightarrow>
               if s = PLATFORM_STATUS_OK
               then (st\<lparr>receivedUnixTime := 0, syncState := TIME_SYNC_IDLE, retrySeconds := TIME_NTP_RESYNC_SECONDS,
                       requestSeconds := 0, reportSeconds := TIME_REPORT_SECONDS\<rparr>, h')
               else (st\<lparr>receivedUnixTime := 0, syncState := TIME_SYNC_FAILED\<rparr>, h'))
     else (st, h))"

definition timeService_Fail :: "time_service \<Rightarrow> time_service" where
  "timeService_Fail st =
     (if syncState st = TIME_SYNC_FAILED
      then st\<lparr>syncState := TIME_SYNC_IDLE, retrySeconds := TIME_NTP_RETRY_SECONDS, requestSeconds := 0\<rparr>
      else st)"

definition timeService_Begin :: "time_service \<Rightarrow> bool \<Rightarrow> time_service" where
  "timeService_Begin st posted =
     (if retrySeconds st = 0 \<and> syncState st = TIME_SYNC_IDLE
      then (let st1 = st\<lparr>syncState := TIME_SYNC_PENDING, requestSeconds := 0\<rparr>
            in if posted then st1\<lparr>ts_queued := Suc (ts_queued st1)\<rparr> else st1\<lparr>syncState := TIME_SYNC_FAILED\<rparr>)
      else if retrySeconds st > 0 then st\<lparr>retrySeconds := retrySeconds st - 1\<rparr>
      else st)"

definition timeService_Timeout :: "time_service \<Rightarrow> time_service" where
  "timeService_Timeout st =
     (if syncState st = TIME_SYNC_PENDING
      then (let st1 = st\<lparr>requestSeconds := requestSeconds st + 1\<rparr>
            in if requestSeconds st1 \<ge> TIME_NTP_TIMEOUT_SECONDS then st1\<lparr>syncState := TIME_SYNC_FAILED\<rparr> else st1)
      else st)"

definition timeService_Report :: "time_service \<Rightarrow> rtc \<Rightarrow> time_service" where
  "timeService_Report st h =
     (if Rtc_IsSynchronized h
      then st\<lparr>reportSeconds := (if reportSeconds st \<ge> TIME_REPORT_SECONDS then 0 else reportSeconds st) + 1\<rparr>
      else st)"

text \<open>One iteration of \<open>timeService_Task\<close>; \<open>ready\<close> is \<open>Lwip_IsReady()\<close>, \<open>posted\<close> the result of \<open>tcpip_callback\<close>.\<close>

definition timeService_Task :: "bool \<Rightarrow> bool \<Rightarrow> time_service \<times> rtc \<Rightarrow> time_service \<times> rtc" where
  "timeService_Task ready posted = (\<lambda>(st, h).
     if \<not> ready
     then (let w = (if waitingReportSeconds st = 0 then TIME_WAIT_REPORT_SECONDS else waitingReportSeconds st) - 1
           in (timeService_Report (st\<lparr>waitingReportSeconds := w\<rparr>) h, h))
     else (case timeService_Accept (st\<lparr>waitingReportSeconds := 0\<rparr>, h) of
             (st1, h1) \<Rightarrow> (timeService_Report (timeService_Timeout (timeService_Begin (timeService_Fail st1) posted)) h1, h1)))"

section \<open>The system\<close>

inductive time_step :: "u32 set \<Rightarrow> time_service \<times> rtc \<Rightarrow> u32 set \<Rightarrow> time_service \<times> rtc \<Rightarrow> bool" where
  step_task: "time_step A c A (timeService_Task ready posted c)"
| step_start: "ts_queued st = Suc n \<Longrightarrow>
    time_step A (st, h) A (timeService_StartRequest (st\<lparr>ts_queued := n\<rparr>) created dns net, h)"
| step_dns: "time_step A (st, h) A (timeService_DnsCallback st resolved net, h)"
| step_reject: "syncState (timeService_Receive st packet port) = TIME_SYNC_FAILED \<Longrightarrow>
    time_step A (st, h) A (timeService_Receive st packet port, h)"
| step_accept: "syncState (timeService_Receive st packet port) = TIME_SYNC_RECEIVED \<Longrightarrow>
    time_step A (st, h) (insert (receivedUnixTime (timeService_Receive st packet port)) A)
      (timeService_Receive st packet port, h)"

inductive_cases time_stepE: "time_step A c A' c'"

inductive time_reachable :: "time_service \<times> rtc \<Rightarrow> u32 set \<Rightarrow> time_service \<times> rtc \<Rightarrow> bool" for c0 where
  reach_init: "time_reachable c0 {} c0"
| reach_step: "time_reachable c0 A c \<Longrightarrow> time_step A c A' c' \<Longrightarrow> time_reachable c0 A' c'"

section \<open>Invariant\<close>

definition time_inv :: "u32 set \<Rightarrow> time_service \<Rightarrow> bool" where
  "time_inv A st \<longleftrightarrow> (receivedUnixTime st = 0 \<or> receivedUnixTime st \<in> A) \<and> 0 \<notin> A
     \<and> (syncState st = TIME_SYNC_RECEIVED \<longrightarrow> receivedUnixTime st \<noteq> 0)
     \<and> retrySeconds st \<le> TIME_NTP_RESYNC_SECONDS
     \<and> (syncState st = TIME_SYNC_PENDING \<longrightarrow> retrySeconds st = 0 \<and> requestSeconds st < TIME_NTP_TIMEOUT_SECONDS)"

lemmas time_service_defs = timeService_SendRequest_def timeService_StartRequest_def timeService_DnsCallback_def

lemma time_inv_Accept: "time_inv A st \<Longrightarrow> time_inv A (fst (timeService_Accept (st, h)))
    \<and> syncState (fst (timeService_Accept (st, h))) \<noteq> TIME_SYNC_RECEIVED"
  by (auto simp: timeService_Accept_def time_inv_def time_constants split: prod.split)

lemma time_inv_Fail: "time_inv A st \<Longrightarrow> time_inv A (timeService_Fail st)"
  by (auto simp: timeService_Fail_def time_inv_def time_constants)

lemma u32_pred: "(0 :: u32) < r \<Longrightarrow> unat (r - 1) = unat r - 1"
  by (metis One_nat_def Suc_leI unat_1 unat_sub word_le_nat_alt word_less_nat_alt unat_0)

lemma u32_pred_le: "(0 :: u32) < r \<Longrightarrow> r \<le> k \<Longrightarrow> r - 1 \<le> k"
  by (simp add: word_le_nat_alt u32_pred)

lemma time_inv_Begin: "time_inv A st \<Longrightarrow> time_inv A (timeService_Begin st posted)"
  using u32_pred_le [of "retrySeconds st" TIME_NTP_RESYNC_SECONDS]
  by (auto simp: timeService_Begin_def time_inv_def Let_def TIME_NTP_TIMEOUT_SECONDS_def word_gt_0)

lemma time_inv_Timeout: "time_inv A st \<Longrightarrow> time_inv A (timeService_Timeout st)"
  by (auto simp: timeService_Timeout_def time_inv_def Let_def)

lemma time_inv_Report: "time_inv A (timeService_Report st h) = time_inv A st"
  by (simp add: timeService_Report_def time_inv_def)

lemma time_inv_waiting: "time_inv A (st\<lparr>waitingReportSeconds := w\<rparr>) = time_inv A st"
  by (simp add: time_inv_def)

lemma time_inv_Task:
  assumes "time_inv A st"
  shows "time_inv A (fst (timeService_Task ready posted (st, h)))"
  using assms time_inv_Accept [of A "st\<lparr>waitingReportSeconds := 0\<rparr>" h]
  by (auto simp: timeService_Task_def time_inv_Report time_inv_waiting Let_def
      intro!: time_inv_Timeout time_inv_Begin time_inv_Fail split: prod.split)

lemma time_inv_mono: "time_inv A st \<Longrightarrow> 0 \<notin> B \<Longrightarrow> A \<subseteq> B \<Longrightarrow> time_inv B st"
  by (auto simp: time_inv_def)

lemma timeService_Receive_state:
  "syncState (timeService_Receive st packet port) = TIME_SYNC_RECEIVED
      \<and> receivedUnixTime (timeService_Receive st packet port) \<noteq> 0
   \<or> timeService_Receive st packet port = st\<lparr>syncState := TIME_SYNC_FAILED\<rparr>"
  by (auto simp: timeService_Receive_def Let_def split: option.split)

lemma timeService_Receive_frame:
  "retrySeconds (timeService_Receive st packet port) = retrySeconds st"
  by (auto simp: timeService_Receive_def Let_def split: option.split)

lemma time_inv_step:
  assumes "time_step A c A' c'" and "time_inv A (fst c)"
  shows "time_inv A' (fst c')"
  using assms
proof (cases rule: time_step.cases)
  case (step_task ready posted)
  then show ?thesis
    using assms(2) by (cases c) (simp add: time_inv_Task)
next
  case (step_accept st packet port h)
  then show ?thesis
    using assms(2) timeService_Receive_state [of st packet port] timeService_Receive_frame [of st packet port]
    by (auto simp: time_inv_def)
next
  case (step_reject st packet port h)
  then show ?thesis
    using assms(2) timeService_Receive_state [of st packet port] by (auto simp: time_inv_def)
qed (use assms(2) in \<open>auto simp: time_service_defs time_inv_def Let_def split: dns_result.splits\<close>)

lemma time_inv_reachable:
  assumes "time_reachable c0 A c" and "time_inv {} (fst c0)"
  shows "time_inv A (fst c)"
  using assms by (induction rule: time_reachable.induct) (auto dest: time_inv_step)

section \<open>Progress\<close>

text \<open>The seconds until the task starts its next request, if no reply comes.\<close>

definition time_left :: "time_service \<Rightarrow> nat" where
  "time_left st = (case syncState st of
       TIME_SYNC_IDLE \<Rightarrow> unat (retrySeconds st) + 1
     | TIME_SYNC_PENDING \<Rightarrow> (10 - unat (requestSeconds st)) + 61
     | TIME_SYNC_FAILED \<Rightarrow> 61
     | TIME_SYNC_RECEIVED \<Rightarrow> 3601)"

lemma time_left_bound: "time_inv A st \<Longrightarrow> time_left st \<le> 3601"
  by (auto simp: time_left_def time_inv_def time_constants word_le_nat_alt split: TimeService_SyncStateTypeDef.split)

abbreviation time_tick :: "time_service \<times> rtc \<Rightarrow> time_service \<times> rtc" where
  "time_tick \<equiv> timeService_Task True True"

lemma timeService_Report_simps [simp]:
  "syncState (timeService_Report st h) = syncState st" "ts_queued (timeService_Report st h) = ts_queued st"
  "retrySeconds (timeService_Report st h) = retrySeconds st"
  "requestSeconds (timeService_Report st h) = requestSeconds st"
  by (simp_all add: timeService_Report_def)

lemma tick_progress:
  assumes "time_inv A st"
  shows "ts_queued (fst (time_tick (st, h))) = Suc (ts_queued st)
    \<or> ts_queued (fst (time_tick (st, h))) = ts_queued st \<and> time_left (fst (time_tick (st, h))) < time_left st"
proof -
  have pos: "unat (r - 1) + 1 < unat r + 1" if "r \<noteq> (0 :: u32)" for r
    using that u32_pred [of r] by (simp add: word_gt_0 unat_gt_0)
  have inc: "10 - unat (q + 1) < 10 - unat q" if "q < 10" for q :: u32
  proof -
    have "q \<noteq> - 1" "unat q < 10"
      using that by (auto simp: word_less_nat_alt unat_u32_max)
    then show ?thesis
      using u32_Suc [of q] by simp
  qed
  have q: "unat q < 10" if "q < 10" for q :: u32
    using that by (simp add: word_less_nat_alt)
  note defs = timeService_Task_def timeService_Accept_def timeService_Fail_def timeService_Begin_def
    timeService_Timeout_def Let_def
  show ?thesis
  proof (cases "syncState st")
    case TIME_SYNC_IDLE
    then show ?thesis
      using pos [of "retrySeconds st"] by (simp add: defs time_left_def time_constants word_gt_0)
  next
    case TIME_SYNC_PENDING
    then show ?thesis
      using assms inc [of "requestSeconds st"] q [of "requestSeconds st"]
      by (auto simp: defs time_left_def time_inv_def time_constants)
  next
    case TIME_SYNC_FAILED
    then show ?thesis
      by (simp add: defs time_left_def time_constants)
  next
    case TIME_SYNC_RECEIVED
    obtain s h' where "set_clock h (receivedUnixTime st) = (s, h')"
      by (cases "set_clock h (receivedUnixTime st)") auto
    then show ?thesis
      using assms TIME_SYNC_RECEIVED
      by (cases "s = PLATFORM_STATUS_OK") (simp_all add: defs time_left_def time_inv_def time_constants)
  qed
qed

lemma asks_again:
  assumes "time_inv A st"
  shows "\<exists>n\<le>time_left st. ts_queued (fst ((time_tick ^^ n) (st, h))) = Suc (ts_queued st)"
  using assms
proof (induction "time_left st" arbitrary: st h rule: less_induct)
  case less
  obtain st' h' where tick: "time_tick (st, h) = (st', h')"
    by (cases "time_tick (st, h)") auto
  have inv: "time_inv A st'"
    using time_inv_Task [OF less.prems, of True True h] tick by simp
  consider "ts_queued st' = Suc (ts_queued st)" | "ts_queued st' = ts_queued st" "time_left st' < time_left st"
    using tick_progress [OF less.prems, of h] tick by auto
  then show ?case
  proof cases
    case 1
    moreover have "1 \<le> time_left st"
      by (simp add: time_left_def split: TimeService_SyncStateTypeDef.split)
    ultimately show ?thesis
      using tick by (intro exI [of _ 1]) simp
  next
    case 2
    then obtain n where "n \<le> time_left st'" "ts_queued (fst ((time_tick ^^ n) (st', h'))) = Suc (ts_queued st)"
      using less.hyps [OF 2(2) inv, of h'] by auto
    then show ?thesis
      using tick 2(2) by (intro exI [of _ "Suc n"]) (simp add: funpow_swap1)
  qed
qed

section \<open>Properties\<close>

text \<open>
  C32: the clock is only ever set to the time of an accepted server reply: in every state reachable
  by any interleaving of task iterations and network callbacks, a task iteration leaves the clock
  alone or sets it to a time that an accepted datagram delivered before.
\<close>

theorem clock_set_from_replies:
  assumes "time_inv {} (fst c0)" and "time_reachable c0 A (st, h)"
  shows "snd (timeService_Task ready posted (st, h)) = h
    \<or> (\<exists>u\<in>A. syncState st = TIME_SYNC_RECEIVED \<and> receivedUnixTime st = u
         \<and> snd (timeService_Task ready posted (st, h)) = snd (set_clock h u))"
  using time_inv_reachable [OF assms(2,1)]
  by (auto simp: timeService_Task_def timeService_Accept_def time_inv_def Let_def split: prod.splits if_splits)

definition fresh_time_service :: time_service where
  "fresh_time_service = \<lparr>syncState = TIME_SYNC_IDLE, receivedUnixTime = 0, ntpPcb = False, retrySeconds = 0,
     reportSeconds = 60, requestSeconds = 0, waitingReportSeconds = 0, ts_queued = 0, ts_sent = []\<rparr>"

lemma fresh_time_inv: "time_inv {} fresh_time_service"
  by (simp add: time_inv_def fresh_time_service_def)

theorem clock_set_from_replies_witness:
  "snd (timeService_Task True True (fresh_time_service, fresh_rtc)) = fresh_rtc"
  using clock_set_from_replies [of "(fresh_time_service, fresh_rtc)" "{}" fresh_time_service fresh_rtc True True]
    fresh_time_inv time_reachable.reach_init
  by auto

text \<open>
  C33: the service never gets stuck: from every reachable state, if no reply and no other callback
  of the network arrives from now on and requests can be sent, the task posts a new request within
  3601 seconds; after a failed request or while one is pending within 71 seconds.
\<close>

theorem time_service_keeps_asking:
  assumes "time_inv {} (fst c0)" and "time_reachable c0 A (st, h)"
  shows "\<exists>n\<le>3601. (syncState st = TIME_SYNC_FAILED \<or> syncState st = TIME_SYNC_PENDING \<longrightarrow> n \<le> 71)
    \<and> ts_queued (fst ((timeService_Task True True ^^ n) (st, h))) = Suc (ts_queued st)"
proof -
  have inv: "time_inv A st"
    using time_inv_reachable [OF assms(2,1)] by simp
  obtain n where n: "n \<le> time_left st" "ts_queued (fst ((time_tick ^^ n) (st, h))) = Suc (ts_queued st)"
    using asks_again [OF inv] by blast
  moreover have "syncState st = TIME_SYNC_FAILED \<or> syncState st = TIME_SYNC_PENDING \<Longrightarrow> time_left st \<le> 71"
    by (auto simp: time_left_def)
  ultimately show ?thesis
    using time_left_bound [OF inv] by (intro exI [of _ n]) auto
qed

theorem time_service_keeps_asking_witness:
  "\<exists>n\<le>3601. ts_queued (fst ((timeService_Task True True ^^ n) (fresh_time_service, fresh_rtc))) = 1"
  using time_service_keeps_asking [of "(fresh_time_service, fresh_rtc)" "{}" fresh_time_service fresh_rtc]
    fresh_time_inv time_reachable.reach_init
  by (auto simp: fresh_time_service_def)

text \<open>Big-endian seconds in a datagram.\<close>

lemma of_le32_value:
  "unat (of_le32 [a, b, c, d]) = unat a + 256 * (unat b + 256 * (unat c + 256 * unat d))"
proof -
  let ?n = "unat a + 256 * (unat b + 256 * (unat c + 256 * unat d))"
  have bounds: "unat a < 256" "unat b < 256" "unat c < 256" "unat d < 256"
    using unat_u8_less by blast+
  have "x + 256 * (y + 256 * (z + 256 * w)) < 4294967296" if "x < 256" "y < 256" "z < 256" "w < 256" for x y z w :: nat
    using that by simp
  then have n: "?n < 4294967296"
    using bounds .
  have digit: "(x + 256 * m) div 256 = m" "(x + 256 * m) mod 256 = x" if "x < 256" for x m :: nat
    using that by auto
  have "m div 65536 = m div 256 div 256" "m div 16777216 = m div 256 div 256 div 256" for m :: nat
    by (simp_all add: div_mult2_eq [symmetric])
  then have digits: "?n mod 256 = unat a" "?n div 256 mod 256 = unat b" "?n div 65536 mod 256 = unat c"
    "?n div 16777216 mod 256 = unat d"
    using bounds(4) by (simp_all only: digit [OF bounds(1)] digit [OF bounds(2)] digit [OF bounds(3)] mod_less)
  have "unat (of_nat m :: u32) = m" if "m < 4294967296" for m
    using that by (simp add: unat_of_nat)
  then have u: "unat (of_nat ?n :: u32) = ?n"
    using n .
  have powers: "(2 :: nat) ^ 8 = 256" "(2 :: nat) ^ 16 = 65536" "(2 :: nat) ^ 24 = 16777216"
    by simp_all
  have "le32 (of_nat ?n) = [a, b, c, d]"
    unfolding le32_def list.inject word_unat_eq_iff unat_ucast_u8 unat_drop_bit_div u powers
    by (simp only: digits simp_thms)
  then have "of_le32 [a, b, c, d] = of_nat ?n"
    by (metis of_le32_le32)
  then show ?thesis
    using u by (simp only:)
qed

definition ntp_seconds :: "u8 list \<Rightarrow> nat" where
  "ntp_seconds p = ((unat (p ! 40) * 256 + unat (p ! 41)) * 256 + unat (p ! 42)) * 256 + unat (p ! 43)"

lemma copy_seconds:
  assumes "48 \<le> length p"
  shows "pbuf_copy_partial p 4 40 = [p ! 40, p ! 41, p ! 42, p ! 43]"
  using assms by (intro nth_equalityI) (auto simp: pbuf_copy_partial_def nth_Cons' less_Suc_eq numeral_eq_Suc)

lemma ntohl_seconds:
  assumes "48 \<le> length p"
  shows "unat (lwip_ntohl (of_le32 (pbuf_copy_partial p 4 40))) = ntp_seconds p"
proof -
  have "rev [p ! 40, p ! 41, p ! 42, p ! 43] = [p ! 43, p ! 42, p ! 41, p ! 40]"
    by simp
  then show ?thesis
    unfolding copy_seconds [OF assms] lwip_ntohl_def le32_of_le32 ntp_seconds_def
    by (simp only: of_le32_value) (simp add: algebra_simps)
qed

text \<open>
  A datagram is accepted exactly when it comes from port 123, has at least 48 bytes, is a
  server-mode reply from a synchronized server of stratum 1 to 15, and its transmit time lies
  after the Unix epoch; the time taken over is the big-endian seconds field minus the difference
  of the epochs, without wrap-around. Everything else only marks the request as failed.
\<close>

theorem timeService_Receive_accepts:
  "(if port = 123 \<and> 48 \<le> length p \<and> unat (p ! 0) div 64 \<noteq> 3 \<and> unat (p ! 0) mod 8 = 4
       \<and> 1 \<le> unat (p ! 1) \<and> unat (p ! 1) \<le> 15 \<and> 2208988800 < ntp_seconds p
    then syncState (timeService_Receive st (Some p) port) = TIME_SYNC_RECEIVED
      \<and> unat (receivedUnixTime (timeService_Receive st (Some p) port)) = ntp_seconds p - 2208988800
    else timeService_Receive st (Some p) port = st\<lparr>syncState := TIME_SYNC_FAILED\<rparr>)"
proof (cases "port = 123 \<and> 48 \<le> length p")
  case True
  let ?s = "lwip_ntohl (of_le32 (pbuf_copy_partial p 4 40))"
  have header: "pbuf_copy_partial p 4 0 = [p ! 0, p ! 1, p ! 2, p ! 3]"
    using True by (intro nth_equalityI) (auto simp: pbuf_copy_partial_def nth_Cons' less_Suc_eq numeral_eq_Suc)
  have leap: "drop_bit 6 (p ! 0) = 3 \<longleftrightarrow> unat (p ! 0) div 64 = 3"
    by (simp add: word_unat_eq_iff unat_drop_bit_div)
  have "p ! 0 AND 7 = take_bit 3 (p ! 0)"
    by (simp add: take_bit_eq_mask mask_eq_exp_minus_1)
  then have mode: "p ! 0 AND 7 = 4 \<longleftrightarrow> unat (p ! 0) mod 8 = 4"
    by (simp add: word_unat_eq_iff unat_mod take_bit_eq_mod)
  have stratum: "p ! 1 = 0 \<longleftrightarrow> unat (p ! 1) = 0" "15 < p ! 1 \<longleftrightarrow> 15 < unat (p ! 1)"
    by (simp_all add: word_unat_eq_iff word_less_nat_alt)
  have epoch: "?s \<le> TIME_NTP_UNIX_EPOCH_OFFSET \<longleftrightarrow> ntp_seconds p \<le> 2208988800"
    using ntohl_seconds True by (simp add: word_le_nat_alt TIME_NTP_UNIX_EPOCH_OFFSET_def)
  have diff: "unat (?s - TIME_NTP_UNIX_EPOCH_OFFSET) = ntp_seconds p - 2208988800" if "2208988800 < ntp_seconds p"
    using that ntohl_seconds [of p] True epoch unat_sub [of TIME_NTP_UNIX_EPOCH_OFFSET ?s]
    by (simp add: TIME_NTP_UNIX_EPOCH_OFFSET_def)
  show ?thesis
    using True leap mode stratum epoch diff
    by (auto simp: timeService_Receive_def Let_def header copy_seconds TIME_NTP_PORT_def TIME_NTP_PACKET_SIZE_def)
next
  case False
  then show ?thesis
    by (auto simp: timeService_Receive_def Let_def TIME_NTP_PORT_def TIME_NTP_PACKET_SIZE_def)
qed

end
