(* ===== verification/Buzzer_Service.thy ===== *)
theory Buzzer_Service
  imports Health_Check_Config
begin

text \<open>
  The buzzer service \<^verbatim>\<open>Srv/Src/buzzer_service.c\<close>: request flags set by any task, one task that plays
  them by priority (synchronous warning, certificate melody, alert). The task is cut at the points
  where other tasks can run between its critical sections, so that requests may arrive anywhere.
  The tones are an output list; the delays are the durations in it. A synchronous request first drains
  the completion semaphore and then, in a critical section of its own, sets its flag; the model makes
  one step of the two, so that no completion can be given between them.
\<close>

section \<open>State\<close>

datatype buzzer_event = Tone u16 nat | Pause nat

datatype buzzer_job = Job_Sync bool | Job_Certificate nat | Job_Alert | Job_None

datatype buzzer_phase = Phase_Wait | Phase_Play buzzer_job | Phase_Complete bool | Phase_Check

record buzzer_service =
  buzzerTask :: bool
  bz_notified :: nat
  bz_notifiers :: nat
  synchronousCompletion :: bool
  synchronousRequestActive :: bool
  resetWarningRequested :: bool
  alertRequested :: bool
  certificateWarningMask :: u8
  bz_phase :: buzzer_phase
  bz_jobs :: "buzzer_job list"
  bz_events :: "buzzer_event list"

definition BUZZER_DEFAULT_FREQUENCY_HZ :: u16 where "BUZZER_DEFAULT_FREQUENCY_HZ = 2500"
definition BUZZER_SELF_TEST_DURATION_MS :: nat where "BUZZER_SELF_TEST_DURATION_MS = 100"
definition BUZZER_ALERT_TONE_DURATION_MS :: nat where "BUZZER_ALERT_TONE_DURATION_MS = 180"
definition BUZZER_ALERT_PAUSE_DURATION_MS :: nat where "BUZZER_ALERT_PAUSE_DURATION_MS = 140"
definition BUZZER_ALERT_TONE_COUNT :: nat where "BUZZER_ALERT_TONE_COUNT = 3"
definition BUZZER_RESET_WARNING_TONE_COUNT :: nat where "BUZZER_RESET_WARNING_TONE_COUNT = 5"
definition BUZZER_RESET_WARNING_TIMEOUT_MS :: nat where "BUZZER_RESET_WARNING_TIMEOUT_MS = 5000"
definition BUZZER_MELODY_NOTE_DURATION_MS :: nat where "BUZZER_MELODY_NOTE_DURATION_MS = 120"
definition BUZZER_MELODY_PAUSE_DURATION_MS :: nat where "BUZZER_MELODY_PAUSE_DURATION_MS = 60"
definition BUZZER_MELODY_TO_COUNT_PAUSE_MS :: nat where "BUZZER_MELODY_TO_COUNT_PAUSE_MS = 300"

section \<open>Tones\<close>

definition buzzerService_Tone :: "u16 \<Rightarrow> nat \<Rightarrow> buzzer_event list" where
  "buzzerService_Tone frequencyHz durationMs = [Tone frequencyHz durationMs]"

definition buzzerService_PlayCount :: "nat \<Rightarrow> buzzer_event list" where
  "buzzerService_PlayCount toneCount =
     concat (map (\<lambda>tone. buzzerService_Tone BUZZER_DEFAULT_FREQUENCY_HZ BUZZER_ALERT_TONE_DURATION_MS
                         @ (if tone + 1 < toneCount then [Pause BUZZER_ALERT_PAUSE_DURATION_MS] else []))
       [0..<toneCount])"

definition buzzer_melody :: "u16 list" where
  "buzzer_melody = [1600, 2100, 2800]"

definition buzzerService_PlayCertificateWarning :: "nat \<Rightarrow> buzzer_event list" where
  "buzzerService_PlayCertificateWarning resourceIndex =
     concat (map (\<lambda>note. buzzerService_Tone (buzzer_melody ! note) BUZZER_MELODY_NOTE_DURATION_MS
                         @ (if note + 1 < length buzzer_melody then [Pause BUZZER_MELODY_PAUSE_DURATION_MS] else []))
       [0..<length buzzer_melody])
     @ [Pause BUZZER_MELODY_TO_COUNT_PAUSE_MS] @ buzzerService_PlayCount (resourceIndex + 1)"

definition job_events :: "buzzer_job \<Rightarrow> buzzer_event list" where
  "job_events job =
     (case job of
        Job_Sync resetWarning \<Rightarrow>
          buzzerService_PlayCount (if resetWarning then BUZZER_RESET_WARNING_TONE_COUNT else BUZZER_ALERT_TONE_COUNT)
      | Job_Certificate resourceIndex \<Rightarrow> buzzerService_PlayCertificateWarning resourceIndex
      | Job_Alert \<Rightarrow> buzzerService_PlayCount BUZZER_ALERT_TONE_COUNT
      | Job_None \<Rightarrow> [])"

section \<open>The task\<close>

fun buzzerService_FirstWarning :: "u8 \<Rightarrow> nat list \<Rightarrow> nat option" where
  "buzzerService_FirstWarning warnings [] = None"
| "buzzerService_FirstWarning warnings (resourceIndex # rest) =
     (if warnings AND push_bit resourceIndex 1 \<noteq> 0 then Some resourceIndex
      else buzzerService_FirstWarning warnings rest)"

text \<open>Waiting for a notification and choosing the job, one critical section.\<close>

definition buzzerService_Take :: "buzzer_service \<Rightarrow> buzzer_service" where
  "buzzerService_Take st =
     (if bz_notified st = 0 then st
      else
        let st1 = st\<lparr>bz_notified := 0\<rparr>
        in if synchronousRequestActive st1
           then st1\<lparr>resetWarningRequested := False, bz_phase := Phase_Play (Job_Sync (resetWarningRequested st1))\<rparr>
           else if certificateWarningMask st1 \<noteq> 0
           then (case buzzerService_FirstWarning (certificateWarningMask st1) [0..<HEALTH_CHECK_CONFIG_MAX_RESOURCES] of
                   Some resourceIndex \<Rightarrow>
                     st1\<lparr>certificateWarningMask := certificateWarningMask st1 AND NOT (push_bit resourceIndex 1),
                         bz_phase := Phase_Play (Job_Certificate resourceIndex)\<rparr>
                 | None \<Rightarrow> st1\<lparr>bz_phase := Phase_Play Job_None\<rparr>)
           else if alertRequested st1 then st1\<lparr>alertRequested := False, bz_phase := Phase_Play Job_Alert\<rparr>
           else st1\<lparr>bz_phase := Phase_Play Job_None\<rparr>)"

text \<open>Playing; a synchronous request is cleared at the end, its completion is given afterwards.\<close>

definition buzzerService_Play :: "buzzer_job \<Rightarrow> buzzer_service \<Rightarrow> buzzer_service" where
  "buzzerService_Play job st =
     (let synchronous = (case job of Job_Sync _ \<Rightarrow> True | _ \<Rightarrow> False)
      in st\<lparr>bz_events := bz_events st @ job_events job,
            bz_jobs := bz_jobs st @ (if job = Job_None then [] else [job]),
            synchronousRequestActive := (if synchronous then False else synchronousRequestActive st),
            bz_phase := Phase_Complete synchronous\<rparr>)"

definition buzzerService_Complete :: "bool \<Rightarrow> buzzer_service \<Rightarrow> buzzer_service" where
  "buzzerService_Complete synchronous st =
     st\<lparr>synchronousCompletion := (synchronous \<or> synchronousCompletion st), bz_phase := Phase_Check\<rparr>"

definition buzzerService_Check :: "buzzer_service \<Rightarrow> buzzer_service" where
  "buzzerService_Check st =
     (let morePending = synchronousRequestActive st \<or> certificateWarningMask st \<noteq> 0 \<or> alertRequested st
      in st\<lparr>bz_notified := (if morePending then Suc (bz_notified st) else bz_notified st), bz_phase := Phase_Wait\<rparr>)"

definition buzzerService_Task :: "buzzer_service \<Rightarrow> buzzer_service" where
  "buzzerService_Task st =
     (case bz_phase st of
        Phase_Wait \<Rightarrow> buzzerService_Take st
      | Phase_Play job \<Rightarrow> buzzerService_Play job st
      | Phase_Complete synchronous \<Rightarrow> buzzerService_Complete synchronous st
      | Phase_Check \<Rightarrow> buzzerService_Check st)"

section \<open>Requests\<close>

definition BuzzerService_Init :: "bool \<Rightarrow> bool \<Rightarrow> bool \<Rightarrow> buzzer_service \<Rightarrow> ErrorStatus \<times> buzzer_service" where
  "BuzzerService_Init initialized semaphoreCreated taskCreated st =
     (if \<not> initialized then (ERROR, st)
      else if \<not> semaphoreCreated then (ERROR, st)
      else (if taskCreated then SUCCESS else ERROR,
            st\<lparr>buzzerTask := taskCreated, bz_phase := Phase_Wait,
               bz_events := (if taskCreated
                 then bz_events st @ buzzerService_Tone BUZZER_DEFAULT_FREQUENCY_HZ BUZZER_SELF_TEST_DURATION_MS
                 else bz_events st)\<rparr>))"

text \<open>
  Every request first sets its flag in a critical section and then notifies the task; other tasks
  may run in between. \<open>bz_notifiers\<close> counts the callers that are between the two.
\<close>

definition xTaskNotifyGive :: "buzzer_service \<Rightarrow> buzzer_service" where
  "xTaskNotifyGive st = st\<lparr>bz_notifiers := bz_notifiers st - 1, bz_notified := Suc (bz_notified st)\<rparr>"

definition buzzer_AlertFlag :: "buzzer_service \<Rightarrow> buzzer_service" where
  "buzzer_AlertFlag st = st\<lparr>alertRequested := True, bz_notifiers := Suc (bz_notifiers st)\<rparr>"

definition BuzzerService_Alert :: "buzzer_service \<Rightarrow> ErrorStatus \<times> buzzer_service" where
  "BuzzerService_Alert st =
     (if \<not> buzzerTask st then (ERROR, st) else (SUCCESS, xTaskNotifyGive (buzzer_AlertFlag st)))"

definition buzzer_CertificateFlag :: "nat \<Rightarrow> buzzer_service \<Rightarrow> buzzer_service" where
  "buzzer_CertificateFlag resourceIndex st =
     st\<lparr>certificateWarningMask := certificateWarningMask st OR push_bit resourceIndex 1,
        bz_notifiers := Suc (bz_notifiers st)\<rparr>"

definition BuzzerService_CertificateExpiryWarning :: "u8 \<Rightarrow> buzzer_service \<Rightarrow> ErrorStatus \<times> buzzer_service" where
  "BuzzerService_CertificateExpiryWarning resourceIndex st =
     (if \<not> buzzerTask st \<or> unat resourceIndex \<ge> HEALTH_CHECK_CONFIG_MAX_RESOURCES then (ERROR, st)
      else (SUCCESS, xTaskNotifyGive (buzzer_CertificateFlag (unat resourceIndex) st)))"

text \<open>
  A synchronous request is cut once more, at its wait: \<open>None\<close> means that the caller goes on to wait
  for the completion; the wait is over when the semaphore was given or the time is up.
\<close>

definition buzzer_SyncFlag :: "bool \<Rightarrow> buzzer_service \<Rightarrow> buzzer_service" where
  "buzzer_SyncFlag resetWarning st =
     st\<lparr>synchronousRequestActive := True, resetWarningRequested := resetWarning,
        synchronousCompletion := False, bz_notifiers := Suc (bz_notifiers st)\<rparr>"

definition buzzerService_PlayAndWait :: "bool \<Rightarrow> buzzer_service \<Rightarrow> ErrorStatus option \<times> buzzer_service" where
  "buzzerService_PlayAndWait resetWarning st =
     (if \<not> buzzerTask st then (Some ERROR, st)
      else if synchronousRequestActive st then (Some ERROR, st)
      else (None, xTaskNotifyGive (buzzer_SyncFlag resetWarning st)))"

definition buzzerService_WaitDone :: "buzzer_service \<Rightarrow> ErrorStatus \<times> buzzer_service" where
  "buzzerService_WaitDone st =
     (if synchronousCompletion st then (SUCCESS, st\<lparr>synchronousCompletion := False\<rparr>) else (ERROR, st))"

definition BuzzerService_FactoryResetWarning :: "buzzer_service \<Rightarrow> ErrorStatus option \<times> buzzer_service" where
  "BuzzerService_FactoryResetWarning st = buzzerService_PlayAndWait True st"

definition BuzzerService_FactoryResetCancelled :: "buzzer_service \<Rightarrow> ErrorStatus option \<times> buzzer_service" where
  "BuzzerService_FactoryResetCancelled st = buzzerService_PlayAndWait False st"

section \<open>Interleavings\<close>

text \<open>The task, and the halves of the requests of any number of other tasks, in any order.\<close>

inductive buzzer_step :: "buzzer_service \<Rightarrow> buzzer_service \<Rightarrow> bool" where
  Step_Task: "buzzer_step st (buzzerService_Task st)"
| Step_Alert: "buzzer_step st (buzzer_AlertFlag st)"
| Step_Certificate: "i < HEALTH_CHECK_CONFIG_MAX_RESOURCES \<Longrightarrow> buzzer_step st (buzzer_CertificateFlag i st)"
| Step_Sync: "\<not> synchronousRequestActive st \<Longrightarrow> buzzer_step st (buzzer_SyncFlag w st)"
| Step_Notify: "0 < bz_notifiers st \<Longrightarrow> buzzer_step st (xTaskNotifyGive st)"
| Step_WaitDone: "buzzer_step st (snd (buzzerService_WaitDone st))"

inductive_cases buzzer_stepE: "buzzer_step st st'"

definition silent_buzzer :: buzzer_service where
  "silent_buzzer = \<lparr>buzzerTask = False, bz_notified = 0, bz_notifiers = 0, synchronousCompletion = False,
     synchronousRequestActive = False, resetWarningRequested = False, alertRequested = False,
     certificateWarningMask = 0, bz_phase = Phase_Wait, bz_jobs = [], bz_events = []\<rparr>"

inductive buzzer_reachable :: "buzzer_service \<Rightarrow> bool" where
  Reach_Init: "buzzer_reachable (snd (BuzzerService_Init True True True silent_buzzer))"
| Reach_Step: "buzzer_reachable st \<Longrightarrow> buzzer_step st st' \<Longrightarrow> buzzer_reachable st'"

definition buzzer_pending :: "buzzer_service \<Rightarrow> bool" where
  "buzzer_pending st \<longleftrightarrow> synchronousRequestActive st \<or> certificateWarningMask st \<noteq> 0 \<or> alertRequested st"

text \<open>Nothing pending is forgotten: the task is or will be notified, or has its check still ahead.\<close>

definition buzzer_inv :: "buzzer_service \<Rightarrow> bool" where
  "buzzer_inv st \<longleftrightarrow> buzzerTask st \<and> (\<forall>i. bit (certificateWarningMask st) i \<longrightarrow> i < HEALTH_CHECK_CONFIG_MAX_RESOURCES)
     \<and> (buzzer_pending st \<and> bz_phase st = Phase_Wait \<longrightarrow> 0 < bz_notified st + bz_notifiers st)
     \<and> (\<forall>w. bz_phase st = Phase_Play (Job_Sync w) \<longrightarrow> synchronousRequestActive st)"

lemma buzzerService_FirstWarning_Some:
  "buzzerService_FirstWarning warnings is = Some i \<Longrightarrow> i \<in> set is \<and> bit warnings i"
  by (induction "is") (auto simp: power_bit_u8 split: if_splits)

lemma buzzerService_FirstWarning_None:
  "buzzerService_FirstWarning warnings is = None \<longleftrightarrow> (\<forall>i\<in>set is. \<not> bit warnings i)"
  by (induction "is") (auto simp: power_bit_u8)

lemma buzzer_inv_Task: "buzzer_inv st \<Longrightarrow> buzzer_inv (buzzerService_Task st)"
proof (cases "bz_phase st")
  case Phase_Wait
  assume "buzzer_inv st"
  then show ?thesis
    using Phase_Wait
    by (auto simp: buzzer_inv_def buzzer_pending_def buzzerService_Task_def buzzerService_Take_def Let_def bit_simps
        split: option.splits)
next
  case (Phase_Play job)
  assume "buzzer_inv st"
  then show ?thesis
    using Phase_Play
    by (auto simp: buzzer_inv_def buzzer_pending_def buzzerService_Task_def buzzerService_Play_def Let_def)
next
  case (Phase_Complete x)
  assume "buzzer_inv st"
  then show ?thesis
    using Phase_Complete
    by (auto simp: buzzer_inv_def buzzer_pending_def buzzerService_Task_def buzzerService_Complete_def)
next
  case Phase_Check
  assume "buzzer_inv st"
  then show ?thesis
    using Phase_Check
    by (auto simp: buzzer_inv_def buzzer_pending_def buzzerService_Task_def buzzerService_Check_def Let_def)
qed

lemma buzzer_inv_step: "buzzer_inv st \<Longrightarrow> buzzer_step st st' \<Longrightarrow> buzzer_inv st'"
proof (elim buzzer_stepE)
  assume "buzzer_inv st" "st' = buzzerService_Task st"
  then show "buzzer_inv st'"
    by (simp add: buzzer_inv_Task)
qed (auto simp: buzzer_inv_def buzzer_pending_def buzzer_AlertFlag_def buzzer_CertificateFlag_def buzzer_SyncFlag_def
    xTaskNotifyGive_def buzzerService_WaitDone_def bit_simps)

lemma buzzer_inv_reachable: "buzzer_reachable st \<Longrightarrow> buzzer_inv st"
proof (induction rule: buzzer_reachable.induct)
  case Reach_Init
  then show ?case
    by (simp add: BuzzerService_Init_def silent_buzzer_def buzzer_inv_def buzzer_pending_def)
next
  case (Reach_Step st st')
  then show ?case
    by (blast intro: buzzer_inv_step)
qed

section \<open>Draining\<close>

text \<open>What is still to be played, in the order in which the task will play it.\<close>

definition buzzer_queue :: "buzzer_service \<Rightarrow> buzzer_job list" where
  "buzzer_queue st =
     (if synchronousRequestActive st then [Job_Sync (resetWarningRequested st)] else [])
     @ map Job_Certificate (filter (bit (certificateWarningMask st)) [0..<HEALTH_CHECK_CONFIG_MAX_RESOURCES])
     @ (if alertRequested st then [Job_Alert] else [])"

definition buzzer_todo :: "buzzer_service \<Rightarrow> buzzer_job list" where
  "buzzer_todo st =
     (case bz_phase st of
        Phase_Play (Job_Sync w) \<Rightarrow> Job_Sync w # buzzer_queue (st\<lparr>synchronousRequestActive := False\<rparr>)
      | Phase_Play Job_None \<Rightarrow> buzzer_queue st
      | Phase_Play job \<Rightarrow> job # buzzer_queue st
      | _ \<Rightarrow> buzzer_queue st)"

lemma first_warning_filter:
  "buzzerService_FirstWarning w is = Some i \<Longrightarrow> distinct is
     \<Longrightarrow> filter (bit w) is = i # filter (bit (w AND NOT (push_bit i 1))) is"
proof (induction "is")
  case (Cons j "is")
  show ?case
  proof (cases "bit w j")
    case True
    then have ij: "i = j"
      using Cons.prems(1) by (simp add: power_bit_u8)
    have "filter (bit (w AND NOT (push_bit j 1))) is = filter (bit w) is"
      using Cons.prems(2) by (intro filter_cong) (auto simp: bit_simps dest: bit_imp_le_length)
    moreover have "\<not> bit (w AND NOT (push_bit j 1)) j"
      by (simp add: bit_simps)
    ultimately show ?thesis
      unfolding ij using True by simp
  next
    case False
    then show ?thesis
      using Cons by (simp add: power_bit_u8 bit_simps)
  qed
qed simp

lemma first_warning_exists:
  assumes "buzzer_inv st" and "certificateWarningMask st \<noteq> 0"
  shows "buzzerService_FirstWarning (certificateWarningMask st) [0..<HEALTH_CHECK_CONFIG_MAX_RESOURCES] \<noteq> None"
  using assms unfolding buzzerService_FirstWarning_None buzzer_inv_def
  by (metis atLeastLessThan_iff bit_eqI bit_0_eq bot_apply bot_bool_def le0 set_upt)

text \<open>Choosing a job removes it from the front of the queue.\<close>

lemma buzzerService_Take_todo:
  assumes "buzzer_inv st" and "bz_phase st = Phase_Wait" and "0 < bz_notified st"
  shows "\<exists>job. bz_phase (buzzerService_Take st) = Phase_Play job" and "buzzer_todo (buzzerService_Take st) = buzzer_todo st"
    and "bz_notifiers (buzzerService_Take st) = bz_notifiers st" and "bz_jobs (buzzerService_Take st) = bz_jobs st"
proof -
  show "\<exists>job. bz_phase (buzzerService_Take st) = Phase_Play job"
    using assms(3) by (auto simp: buzzerService_Take_def Let_def split: option.splits)
  show "buzzer_todo (buzzerService_Take st) = buzzer_todo st"
    using assms(2,3) first_warning_exists [OF assms(1)]
      first_warning_filter [of "certificateWarningMask st" "[0..<HEALTH_CHECK_CONFIG_MAX_RESOURCES]"]
    by (auto simp: buzzerService_Take_def Let_def buzzer_todo_def buzzer_queue_def split: option.splits)
  show "bz_notifiers (buzzerService_Take st) = bz_notifiers st" "bz_jobs (buzzerService_Take st) = bz_jobs st"
    by (auto simp: buzzerService_Take_def Let_def split: option.splits)
qed

lemma buzzerService_Play_todo:
  assumes "bz_phase st = Phase_Play job"
  shows "bz_jobs (buzzerService_Play job st) @ buzzer_todo (buzzerService_Play job st) = bz_jobs st @ buzzer_todo st"
    and "length (buzzer_todo (buzzerService_Play job st)) \<le> length (buzzer_todo st)"
  using assms by (cases job; auto simp: buzzerService_Play_def buzzer_todo_def buzzer_queue_def Let_def)+

lemma buzzer_Task_todo:
  assumes "buzzer_inv st" and "bz_notifiers st = 0" and "buzzer_todo st \<noteq> [] \<or> bz_phase st \<noteq> Phase_Wait"
  shows "bz_jobs (buzzerService_Task st) @ buzzer_todo (buzzerService_Task st) = bz_jobs st @ buzzer_todo st"
    and "bz_notifiers (buzzerService_Task st) = 0"
proof -
  have "bz_jobs (buzzerService_Task st) @ buzzer_todo (buzzerService_Task st) = bz_jobs st @ buzzer_todo st
      \<and> bz_notifiers (buzzerService_Task st) = 0"
  proof (cases "bz_phase st")
    case Phase_Wait
    then have "0 < bz_notified st"
      using assms by (auto simp: buzzer_inv_def buzzer_pending_def buzzer_todo_def buzzer_queue_def split: if_splits)
    then show ?thesis
      using buzzerService_Take_todo [OF assms(1) Phase_Wait] assms(2) Phase_Wait by (simp add: buzzerService_Task_def)
  next
    case (Phase_Play job)
    then show ?thesis
      using buzzerService_Play_todo [OF Phase_Play] assms(2)
      by (simp add: buzzerService_Task_def) (simp add: buzzerService_Play_def Let_def)
  next
    case (Phase_Complete x)
    then show ?thesis
      using assms(2) by (simp add: buzzerService_Task_def buzzerService_Complete_def buzzer_todo_def buzzer_queue_def)
  next
    case Phase_Check
    then show ?thesis
      using assms(2) by (simp add: buzzerService_Task_def buzzerService_Check_def buzzer_todo_def buzzer_queue_def Let_def)
  qed
  then show "bz_jobs (buzzerService_Task st) @ buzzer_todo (buzzerService_Task st) = bz_jobs st @ buzzer_todo st"
    and "bz_notifiers (buzzerService_Task st) = 0"
    by auto
qed

text \<open>How many task steps are left at most; it falls with every step until nothing is left to do.\<close>

definition buzzer_work :: "buzzer_service \<Rightarrow> nat" where
  "buzzer_work st =
     (case bz_phase st of
        Phase_Wait \<Rightarrow> 4 * length (buzzer_todo st)
      | Phase_Play job \<Rightarrow> 4 * length (buzzer_todo st) + 3 - (if job = Job_None then 0 else 4)
      | Phase_Complete _ \<Rightarrow> 4 * length (buzzer_todo st) + 2
      | Phase_Check \<Rightarrow> 4 * length (buzzer_todo st) + 1)"

lemma buzzer_work_Task:
  assumes inv: "buzzer_inv st" and "bz_notifiers st = 0" and work: "buzzer_work st \<noteq> 0"
  shows "buzzer_work (buzzerService_Task st) < buzzer_work st"
proof (cases "bz_phase st")
  case Phase_Wait
  then have todo: "buzzer_todo st \<noteq> []"
    using work by (auto simp: buzzer_work_def)
  then have n: "0 < bz_notified st"
    using assms Phase_Wait
    by (auto simp: buzzer_inv_def buzzer_pending_def buzzer_todo_def buzzer_queue_def split: if_splits)
  note take = buzzerService_Take_todo [OF inv Phase_Wait n]
  obtain job where job: "bz_phase (buzzerService_Take st) = Phase_Play job"
    using take(1) by blast
  have "job \<noteq> Job_None"
    using todo job take(2) n Phase_Wait first_warning_exists [OF inv]
      first_warning_filter [of "certificateWarningMask st" "[0..<HEALTH_CHECK_CONFIG_MAX_RESOURCES]"]
    by (auto simp: buzzerService_Take_def Let_def buzzer_todo_def buzzer_queue_def split: if_splits option.splits)
  then show ?thesis
    using todo job take(2) Phase_Wait by (simp add: buzzer_work_def buzzerService_Task_def)
next
  case (Phase_Play job)
  then show ?thesis
    by (cases job) (auto simp: buzzer_work_def buzzerService_Task_def buzzerService_Play_def buzzer_todo_def buzzer_queue_def Let_def)
qed (auto simp: buzzer_work_def buzzerService_Task_def buzzerService_Complete_def buzzerService_Check_def
      buzzer_todo_def buzzer_queue_def Let_def)

lemma buzzer_work_bound: "buzzer_work st \<le> 23"
proof -
  have "length (filter P [0..<HEALTH_CHECK_CONFIG_MAX_RESOURCES]) \<le> 3" for P
    using length_filter_le [of P "[0..<HEALTH_CHECK_CONFIG_MAX_RESOURCES]"] by (simp add: HEALTH_CHECK_CONFIG_MAX_RESOURCES_def)
  then have filt: "length (filter (bit m) [0..<HEALTH_CHECK_CONFIG_MAX_RESOURCES]) \<le> 3" for m :: u8
    by blast
  have queue: "length (buzzer_queue st') \<le> 5" for st'
    using filt [of "certificateWarningMask st'"] by (simp add: buzzer_queue_def)
  show ?thesis
    using queue [of st] queue [of "st\<lparr>synchronousRequestActive := False\<rparr>"]
    by (auto simp: buzzer_work_def buzzer_todo_def split: buzzer_phase.splits buzzer_job.splits)
qed

lemma buzzer_drains:
  assumes "buzzer_inv st" and "bz_notifiers st = 0"
  shows "\<exists>n \<le> buzzer_work st. bz_phase ((buzzerService_Task ^^ n) st) = Phase_Wait
    \<and> \<not> buzzer_pending ((buzzerService_Task ^^ n) st)
    \<and> bz_jobs ((buzzerService_Task ^^ n) st) = bz_jobs st @ buzzer_todo st"
  using assms
proof (induction "buzzer_work st" arbitrary: st rule: less_induct)
  case less
  show ?case
  proof (cases "buzzer_work st = 0")
    case True
    then have idle: "bz_phase st = Phase_Wait" "buzzer_todo st = []"
      by (auto simp: buzzer_work_def buzzer_todo_def split: buzzer_phase.splits buzzer_job.splits if_splits)
    have "\<not> buzzer_pending st"
    proof
      assume "buzzer_pending st"
      then have "certificateWarningMask st \<noteq> 0"
        using idle by (auto simp: buzzer_pending_def buzzer_todo_def buzzer_queue_def split: if_splits)
      then obtain i where "bit (certificateWarningMask st) i"
        by (metis bit_eqI bit_0_eq bot_apply bot_bool_def)
      then show False
        using idle less.prems(1) by (auto simp: buzzer_inv_def buzzer_todo_def buzzer_queue_def filter_empty_conv)
    qed
    then show ?thesis
      using idle by (intro exI [of _ 0]) simp
  next
    case False
    note step = buzzer_work_Task [OF less.prems False]
    have act: "buzzer_todo st \<noteq> [] \<or> bz_phase st \<noteq> Phase_Wait"
      using False by (auto simp: buzzer_work_def)
    note todo = buzzer_Task_todo [OF less.prems act]
    obtain n where n: "n \<le> buzzer_work (buzzerService_Task st)"
        "bz_phase ((buzzerService_Task ^^ n) (buzzerService_Task st)) = Phase_Wait"
        "\<not> buzzer_pending ((buzzerService_Task ^^ n) (buzzerService_Task st))"
        "bz_jobs ((buzzerService_Task ^^ n) (buzzerService_Task st)) = bz_jobs st @ buzzer_todo st"
      using less.hyps [OF step buzzer_inv_Task [OF less.prems(1)] todo(2)] todo(1) by auto
    then show ?thesis
      using step by (intro exI [of _ "Suc n"]) (auto simp: funpow_swap1)
  qed
qed

text \<open>
  C40: in every state that any interleaving of requests with the task can reach, once the requesting
  tasks have sent their notifications the buzzer task needs at most 23 of its steps to return to
  waiting with nothing pending, having played exactly the outstanding jobs in order of priority:
  no request is lost or played twice.
\<close>

theorem buzzer_requests_served:
  assumes "buzzer_reachable st" and "bz_notifiers st = 0"
  shows "\<exists>n \<le> 23. bz_phase ((buzzerService_Task ^^ n) st) = Phase_Wait
    \<and> \<not> buzzer_pending ((buzzerService_Task ^^ n) st)
    \<and> bz_jobs ((buzzerService_Task ^^ n) st) = bz_jobs st @ buzzer_todo st"
  using buzzer_drains [OF buzzer_inv_reachable [OF assms(1)] assms(2)] buzzer_work_bound [of st] by (meson order_trans)

lemma buzzer_reachable_start: "buzzer_reachable (snd (BuzzerService_Init True True True silent_buzzer))"
  by (rule Reach_Init)

text \<open>A state with an alert, one certificate warning and a reset warning outstanding.\<close>

definition busy_buzzer :: buzzer_service where
  "busy_buzzer = snd (buzzerService_PlayAndWait True (snd (BuzzerService_CertificateExpiryWarning 1
     (snd (BuzzerService_Alert (snd (BuzzerService_Init True True True silent_buzzer)))))))"

lemma buzzer_reachable_notify:
  "buzzer_reachable st \<Longrightarrow> buzzer_step st st1 \<Longrightarrow> 0 < bz_notifiers st1 \<Longrightarrow> buzzer_reachable (xTaskNotifyGive st1)"
  by (blast intro: Reach_Step Step_Notify)

lemma buzzer_reachable_requests:
  assumes "buzzer_reachable st"
  shows "buzzer_reachable (snd (BuzzerService_Alert st))"
    and "buzzer_reachable (snd (BuzzerService_CertificateExpiryWarning i st))"
    and "buzzer_reachable (snd (buzzerService_PlayAndWait w st))"
    and "buzzer_reachable (buzzerService_Task st)"
proof -
  have n: "0 < bz_notifiers (buzzer_AlertFlag st)" "0 < bz_notifiers (buzzer_CertificateFlag j st)"
      "0 < bz_notifiers (buzzer_SyncFlag v st)" for j v
    by (simp_all add: buzzer_AlertFlag_def buzzer_CertificateFlag_def buzzer_SyncFlag_def)
  show "buzzer_reachable (snd (BuzzerService_Alert st))"
    using assms by (simp add: BuzzerService_Alert_def buzzer_reachable_notify [OF assms Step_Alert n(1)])
  show "buzzer_reachable (snd (BuzzerService_CertificateExpiryWarning i st))"
    using assms by (simp add: BuzzerService_CertificateExpiryWarning_def buzzer_reachable_notify [OF assms Step_Certificate n(2)])
  show "buzzer_reachable (snd (buzzerService_PlayAndWait w st))"
    using assms by (simp add: buzzerService_PlayAndWait_def buzzer_reachable_notify [OF assms Step_Sync n(3)])
  show "buzzer_reachable (buzzerService_Task st)"
    by (rule Reach_Step [OF assms Step_Task])
qed

theorem buzzer_requests_served_witness:
  "\<exists>n \<le> 23. bz_jobs ((buzzerService_Task ^^ n) busy_buzzer) = [Job_Sync True, Job_Certificate 1, Job_Alert]"
proof -
  have "bz_jobs busy_buzzer = []" "bz_notifiers busy_buzzer = 0"
      "buzzer_todo busy_buzzer = [Job_Sync True, Job_Certificate 1, Job_Alert]"
    unfolding busy_buzzer_def by code_simp+
  moreover have "buzzer_reachable busy_buzzer"
    unfolding busy_buzzer_def by (intro buzzer_reachable_requests Reach_Init)
  ultimately show ?thesis
    using buzzer_requests_served [of busy_buzzer] by auto
qed

section \<open>A completion for the wrong request\<close>

text \<open>
  The completion of a synchronous request is given after its flag was cleared, so a second
  request that arrives in between takes it for its own: there is a reachable state in which a
  request is accepted, the task makes one step, and the request is reported as played although
  nothing was played for it.
\<close>

theorem buzzer_wrong_completion:
  "\<exists>st. buzzer_reachable st \<and> fst (BuzzerService_FactoryResetCancelled st) = None
     \<and> fst (buzzerService_WaitDone (buzzerService_Task (snd (BuzzerService_FactoryResetCancelled st)))) = SUCCESS
     \<and> bz_jobs (buzzerService_Task (snd (BuzzerService_FactoryResetCancelled st))) = bz_jobs st
     \<and> Job_Sync False \<notin> set (bz_jobs st)"
proof (intro exI conjI)
  let ?st = "buzzerService_Task (buzzerService_Task (snd (buzzerService_PlayAndWait True
      (snd (BuzzerService_Init True True True silent_buzzer)))))"
  show "buzzer_reachable ?st"
    by (intro buzzer_reachable_requests Reach_Init)
  show "fst (BuzzerService_FactoryResetCancelled ?st) = None"
    by code_simp
  show "fst (buzzerService_WaitDone (buzzerService_Task (snd (BuzzerService_FactoryResetCancelled ?st)))) = SUCCESS"
    by code_simp
  show "bz_jobs (buzzerService_Task (snd (BuzzerService_FactoryResetCancelled ?st))) = bz_jobs ?st"
    by code_simp
  show "Job_Sync False \<notin> set (bz_jobs ?st)"
    by code_simp
qed

end
