(* ===== verification/Api_Service.thy ===== *)
theory Api_Service
  imports Api_Request Auth_Service Health_Check_Config Callback_Config Server_Credentials Trust_Store
    Health_Check_Log Temperature Time_Service Buzzer_Service
begin

text \<open>
  The request handlers of the management interface, \<^verbatim>\<open>Srv/Src/api_service.c\<close>, over the state of all the
  services they call. \<open>apiService_Dispatch\<close> is one function of the source; its routes are separate
  definitions here, in the order of the source, each with the guards of its block. Buffers the source
  formats into are cut where \<open>snprintf\<close> cuts them.
\<close>

section \<open>State\<close>

record api =
  api_ssl :: tls_session
  api_tls :: tls_platform
  api_auth :: auth_service
  api_users :: user_store
  api_flash :: w25q64
  api_hc :: health_check_config
  api_cb :: callback_config
  api_sc :: server_credentials
  api_ts :: trust_store
  api_log :: health_check_log
  api_temperature :: temperature_service
  api_rtc :: rtc
  api_buzzer :: buzzer_service
  api_network :: bool

text \<open>
  What a request sees of its surroundings: the cryptographic library, the tick count at the check of
  the token and at the call after it, the build's version and date, and what an array on the stack
  holds before it is filled.
\<close>

record api_env =
  ae_crypto :: auth_crypto
  ae_mbedtls :: mbedtls
  ae_trust :: trust_mbedtls
  ae_now :: u32
  ae_later :: u32
  ae_version :: string
  ae_date :: string
  ae_stack :: "HealthCheckConfig_ResourceTypeDef list"

definition HEALTH_CHECK_LOG_MAX_RESULTS :: nat where "HEALTH_CHECK_LOG_MAX_RESULTS = 50"
definition API_SERVICE_LOG_ENTRY_JSON_SIZE :: nat where "API_SERVICE_LOG_ENTRY_JSON_SIZE = 164"
definition API_SERVICE_LOGS_JSON_SIZE :: nat where
  "API_SERVICE_LOGS_JSON_SIZE = HEALTH_CHECK_LOG_MAX_RESULTS * API_SERVICE_LOG_ENTRY_JSON_SIZE + 16"
definition TLS_TRUST_STORE_DEFAULT_ID :: u32 where "TLS_TRUST_STORE_DEFAULT_ID = 0"

section \<open>Responses\<close>

definition api_Respond :: "api \<Rightarrow> nat \<Rightarrow> string \<Rightarrow> string \<Rightarrow> int \<times> api" where
  "api_Respond a status reason json =
     (case apiService_Respond (api_ssl a) status reason json of (r, ssl) \<Rightarrow> (r, a\<lparr>api_ssl := ssl\<rparr>))"

definition api_Error :: "api \<Rightarrow> nat \<Rightarrow> string \<Rightarrow> string \<Rightarrow> int \<times> api" where
  "api_Error a status reason code =
     (case apiService_Error (api_ssl a) status reason code of (r, ssl) \<Rightarrow> (r, a\<lparr>api_ssl := ssl\<rparr>))"

definition api_Forbidden :: "api \<Rightarrow> int \<times> api" where
  "api_Forbidden a = api_Error a 403 ''Forbidden'' ''forbidden''"

text \<open>Appending pieces to a buffer of \<open>capacity\<close> characters, giving up at the first that does not fit.\<close>

fun json_pieces :: "nat \<Rightarrow> string \<Rightarrow> string list \<Rightarrow> string option" where
  "json_pieces capacity used [] = Some used"
| "json_pieces capacity used (piece # pieces) =
     (if length piece = 0 \<or> length piece \<ge> capacity - length used then None
      else json_pieces capacity (used @ piece) pieces)"

definition json_close :: "nat \<Rightarrow> string \<Rightarrow> string" where
  "json_close capacity used = used @ snd (snprintf (capacity - length used) '']}'')"

definition response_too_large :: "api \<Rightarrow> int \<times> api" where
  "response_too_large a = api_Error a 500 ''Internal Server Error'' ''response_too_large''"

definition apiService_TransportStatusText :: "u8 \<Rightarrow> string" where
  "apiService_TransportStatusText status =
     (if status = 0 then ''ok'' else if status = 1 then ''dns_error'' else if status = 2 then ''connect_error''
      else if status = 3 then ''config_error'' else if status = 4 then ''certificate_error''
      else if status = 5 then ''handshake_error'' else if status = 6 then ''io_error''
      else if status = 7 then ''protocol_error'' else ''unknown'')"

primrec apiService_Ds18b20StatusText :: "DS18B20_StatusTypeDef \<Rightarrow> string" where
  "apiService_Ds18b20StatusText DS18B20_STATUS_OK = ''ok''"
| "apiService_Ds18b20StatusText DS18B20_STATUS_BUS = ''bus_error''"
| "apiService_Ds18b20StatusText DS18B20_STATUS_TIMEOUT = ''timeout''"
| "apiService_Ds18b20StatusText DS18B20_STATUS_CRC = ''crc_error''"

definition apiService_TlsCredentialsRespond ::
  "api \<Rightarrow> TlsServerCredentials_StatusTypeDef \<Rightarrow> string \<Rightarrow> string \<Rightarrow> int \<times> api" where
  "apiService_TlsCredentialsRespond a status awaiting invalidError =
     (case status of
        TLS_SERVER_CREDENTIALS_STATUS_ACTIVATED \<Rightarrow>
          api_Respond a 200 ''OK'' (json_object [json_string_member ''status'' ''activated''])
      | TLS_SERVER_CREDENTIALS_STATUS_PENDING \<Rightarrow>
          api_Respond a 202 ''Accepted'' (snd (snprintf 64
            (json_object [json_string_member ''status'' ''pending'', json_string_member ''awaiting'' awaiting])))
      | TLS_SERVER_CREDENTIALS_STATUS_MISMATCH \<Rightarrow> api_Error a 409 ''Conflict'' ''key_mismatch''
      | TLS_SERVER_CREDENTIALS_STATUS_INVALID_DATA \<Rightarrow> api_Error a 400 ''Bad Request'' invalidError
      | TLS_SERVER_CREDENTIALS_STATUS_STORAGE_ERROR \<Rightarrow> api_Error a 500 ''Internal Server Error'' ''storage_error'')"

definition apiService_TrustStoreError :: "api \<Rightarrow> TlsTrustStore_StatusTypeDef \<Rightarrow> int \<times> api" where
  "apiService_TrustStoreError a status =
     (case status of
        TLS_TRUST_STORE_STATUS_INVALID_ARGUMENT \<Rightarrow> api_Error a 400 ''Bad Request'' ''invalid_certificate_body''
      | TLS_TRUST_STORE_STATUS_INVALID_CERTIFICATE \<Rightarrow> api_Error a 400 ''Bad Request'' ''invalid_certificate''
      | TLS_TRUST_STORE_STATUS_NO_MEMORY \<Rightarrow> api_Error a 503 ''Service Unavailable'' ''tls_memory_exhausted''
      | TLS_TRUST_STORE_STATUS_NOT_CA \<Rightarrow> api_Error a 400 ''Bad Request'' ''certificate_not_ca''
      | TLS_TRUST_STORE_STATUS_NOT_FOUND \<Rightarrow> api_Error a 404 ''Not Found'' ''trust_anchor_not_found''
      | TLS_TRUST_STORE_STATUS_FULL \<Rightarrow> api_Error a 409 ''Conflict'' ''trust_anchor_limit_reached''
      | _ \<Rightarrow> api_Error a 500 ''Internal Server Error'' ''storage_error'')"

definition apiService_Tokens :: "api \<Rightarrow> AuthService_TokenPairTypeDef option \<Rightarrow> int \<times> api" where
  "apiService_Tokens a tokens =
     (case tokens of
        None \<Rightarrow> (0, a)
      | Some t \<Rightarrow>
          api_Respond a 200 ''OK'' (snd (snprintf 384 (json_object
            [json_string_member ''token_type'' ''Bearer'', json_string_member ''access_token'' (accessToken t),
             json_member ''expires_in'' (decimal (unat (accessExpiresIn t))),
             json_string_member ''refresh_token'' (refreshToken t),
             json_member ''refresh_expires_in'' (decimal (unat (refreshExpiresIn t)))]))))"

definition apiService_Authorize :: "api_env \<Rightarrow> api \<Rightarrow> ApiService_RequestTypeDef \<Rightarrow> AuthService_PrincipalTypeDef option \<times> api" where
  "apiService_Authorize env a r =
     (case AuthService_Authorize (ae_crypto env) (ae_now env) (api_auth a) (rq_authorization r) of
        (s, who, auth) \<Rightarrow> (if s = AUTH_SERVICE_STATUS_OK then who else None, a\<lparr>api_auth := auth\<rparr>))"

definition api_body :: "ApiService_RequestTypeDef \<Rightarrow> string" where
  "api_body r = cstr (rq_body r)"

definition api_body_bytes :: "ApiService_RequestTypeDef \<Rightarrow> u8 list" where
  "api_body_bytes r = map byte_of_char (rq_body r)"

definition is_admin :: "AuthService_PrincipalTypeDef \<Rightarrow> bool" where
  "is_admin who \<longleftrightarrow> ap_role who = USER_ROLE_ADMINISTRATOR"

section \<open>Routes open to everyone\<close>

definition api_Health :: "api_env \<Rightarrow> api \<Rightarrow> ApiService_RequestTypeDef \<Rightarrow> int \<times> api" where
  "api_Health env a r =
     (let headOnly = (rq_method r = ''HEAD'');
          networkHealthy = api_network a;
          rtcHealthy = Rtc_IsSynchronized (api_rtc a)
      in case W25Q64_IsAvailable (api_flash a) of (flashHealthy, f) \<Rightarrow>
         case TemperatureService_GetMeasurements (api_temperature a) ONEWIRE_MAX_DEVICES of (ms, tp) \<Rightarrow>
           let a1 = a\<lparr>api_flash := f, api_temperature := tp\<rparr>;
               temperatureHealthy = (ms \<noteq> [] \<and> list_all (\<lambda>m. ms_status m = DS18B20_STATUS_OK) ms);
               healthy = (networkHealthy \<and> rtcHealthy \<and> flashHealthy);
               json = snd (snprintf 256 (json_object
                 [json_string_member ''status'' (if healthy then ''ok'' else ''failed''),
                  json_string_member ''version'' (ae_version env), json_string_member ''build_date'' (ae_date env),
                  json_member ''systems'' (json_object
                    [json_member ''api'' ''true'', json_member ''network'' (json_bool networkHealthy),
                     json_member ''rtc'' (json_bool rtcHealthy), json_member ''flash'' (json_bool flashHealthy),
                     json_member ''temperature'' (json_bool temperatureHealthy)])]))
           in case apiService_RespondEx (api_ssl a1) (if healthy then 200 else 503)
                  (if healthy then ''OK'' else ''Service Unavailable'') json headOnly of
                (res, ssl) \<Rightarrow> (res, a1\<lparr>api_ssl := ssl\<rparr>))"

definition api_Login :: "api_env \<Rightarrow> api \<Rightarrow> ApiService_RequestTypeDef \<Rightarrow> int \<times> api" where
  "api_Login env a r =
     (case (apiService_JsonString (api_body r) ''username'' USER_STORE_USERNAME_SIZE,
            apiService_JsonString (api_body r) ''password'' 129) of
        (Some username, Some password) \<Rightarrow>
          (case AuthService_Login (ae_crypto env) (ae_now env) (api_tls a) (api_auth a) (api_users a) username
                  (map byte_of_char password) of
             (status, tokens, tls, auth, us) \<Rightarrow>
               let a1 = a\<lparr>api_tls := tls, api_auth := auth, api_users := us\<rparr>
               in if status \<noteq> AUTH_SERVICE_STATUS_OK then api_Error a1 401 ''Unauthorized'' ''invalid_credentials''
                  else apiService_Tokens a1 tokens)
      | _ \<Rightarrow> api_Error a 400 ''Bad Request'' ''invalid_request'')"

definition api_Refresh :: "api_env \<Rightarrow> api \<Rightarrow> ApiService_RequestTypeDef \<Rightarrow> int \<times> api" where
  "api_Refresh env a r =
     (case apiService_JsonString (api_body r) ''refresh_token'' AUTH_SERVICE_TOKEN_TEXT_SIZE of
        None \<Rightarrow> api_Error a 400 ''Bad Request'' ''invalid_request''
      | Some refresh \<Rightarrow>
          (case AuthService_Refresh (ae_crypto env) (ae_now env) (api_tls a) (api_auth a) refresh of
             (status, tokens, tls, auth) \<Rightarrow>
               let a1 = a\<lparr>api_tls := tls, api_auth := auth\<rparr>
               in if status \<noteq> AUTH_SERVICE_STATUS_OK then api_Error a1 401 ''Unauthorized'' ''invalid_refresh_token''
                  else apiService_Tokens a1 tokens))"

section \<open>Routes of the own session, users and buzzer\<close>

definition api_Revoke :: "api_env \<Rightarrow> api \<Rightarrow> ApiService_RequestTypeDef \<Rightarrow> int \<times> api" where
  "api_Revoke env a r =
     (case AuthService_Revoke (ae_crypto env) (ae_later env) (api_auth a) (rq_authorization r) of
        (status, auth) \<Rightarrow>
          let a1 = a\<lparr>api_auth := auth\<rparr>
          in if status \<noteq> AUTH_SERVICE_STATUS_OK then api_Error a1 401 ''Unauthorized'' ''invalid_access_token''
             else api_Respond a1 200 ''OK'' (json_object [json_member ''revoked'' ''true'']))"

definition api_BuzzerTest :: "api \<Rightarrow> ApiService_RequestTypeDef \<Rightarrow> AuthService_PrincipalTypeDef \<Rightarrow> int \<times> api" where
  "api_BuzzerTest a r who =
     (if \<not> is_admin who then api_Forbidden a
      else case apiService_JsonString (api_body r) ''pattern'' 24 of
        None \<Rightarrow> api_Error a 400 ''Bad Request'' ''invalid_pattern''
      | Some pattern \<Rightarrow>
          if pattern = ''alert'' then
            (case BuzzerService_Alert (api_buzzer a) of
               (status, bz) \<Rightarrow>
                 let a1 = a\<lparr>api_buzzer := bz\<rparr>
                 in if status \<noteq> SUCCESS then api_Error a1 503 ''Service Unavailable'' ''buzzer_unavailable''
                    else api_Respond a1 202 ''Accepted''
                      (json_object [json_member ''scheduled'' ''true'', json_string_member ''pattern'' ''alert'']))
          else if pattern = ''certificate_expiry'' then
            (case apiService_JsonNumber (api_body r) ''resource_index'' of
               None \<Rightarrow> api_Error a 400 ''Bad Request'' ''invalid_resource_index''
             | Some resourceIndex \<Rightarrow>
                 if unat resourceIndex \<ge> HEALTH_CHECK_CONFIG_MAX_RESOURCES
                 then api_Error a 400 ''Bad Request'' ''invalid_resource_index''
                 else case BuzzerService_CertificateExpiryWarning (ucast resourceIndex) (api_buzzer a) of
                   (status, bz) \<Rightarrow>
                     let a1 = a\<lparr>api_buzzer := bz\<rparr>
                     in if status \<noteq> SUCCESS then api_Error a1 503 ''Service Unavailable'' ''buzzer_unavailable''
                        else api_Respond a1 202 ''Accepted'' (snd (snprintf 96 (json_object
                          [json_member ''scheduled'' ''true'', json_string_member ''pattern'' ''certificate_expiry'',
                           json_member ''resource_index'' (decimal (unat resourceIndex))]))))
          else api_Error a 400 ''Bad Request'' ''invalid_pattern'')"

definition user_json :: "string \<Rightarrow> u8 \<Rightarrow> bool \<Rightarrow> string" where
  "user_json username role enabled = json_object
     [json_string_member ''username'' username,
      json_string_member ''role'' (if role = USER_ROLE_ADMINISTRATOR then ''administrator'' else ''user''),
      json_member ''enabled'' (json_bool enabled)]"

definition api_ListUsers :: "api \<Rightarrow> AuthService_PrincipalTypeDef \<Rightarrow> int \<times> api" where
  "api_ListUsers a who =
     (if \<not> is_admin who then api_Forbidden a
      else case AuthService_ListUsers (api_users a) who USER_STORE_MAX_USERS of
        (users, us) \<Rightarrow>
          let a1 = a\<lparr>api_users := us\<rparr>; capacity = API_SERVICE_RESPONSE_SIZE - 192
          in case json_pieces capacity (''{'' @ json_member ''users'' (''['' @ user_json ''master'' USER_ROLE_ADMINISTRATOR True))
                 (map (\<lambda>u. '','' @ user_json (cstr (usr_username u)) (usr_role u) (usr_enabled u \<noteq> 0)) users) of
               None \<Rightarrow> response_too_large a1
             | Some json \<Rightarrow> api_Respond a1 200 ''OK'' (json_close capacity json))"

definition users_prefix :: string where "users_prefix = ''/api/v1/users/''"

text \<open>The user name at the end of the path, cut to the size of the buffer.\<close>

definition path_username :: "ApiService_RequestTypeDef \<Rightarrow> string" where
  "path_username r = take (USER_STORE_USERNAME_SIZE - 1) (drop (length users_prefix) (rq_path r))"

text \<open>The account a request names with its role and state so far: the error response, or all three.\<close>

definition api_UserTarget :: "api \<Rightarrow> ApiService_RequestTypeDef \<Rightarrow> bool \<Rightarrow> ((string \<times> string \<times> u8) option) \<times> api" where
  "api_UserTarget a r creating =
     (if creating
      then (map_option (\<lambda>u. (u, ''user'', 1)) (apiService_JsonString (api_body r) ''username'' USER_STORE_USERNAME_SIZE), a)
      else case UserStore_Find (api_users a) (path_username r) of
        (s, found, us) \<Rightarrow>
          (case found of
             Some (existing, _) \<Rightarrow>
               (Some (path_username r,
                      if usr_role existing = USER_ROLE_ADMINISTRATOR then ''administrator'' else ''user'',
                      usr_enabled existing), a\<lparr>api_users := us\<rparr>)
           | None \<Rightarrow> (None, a\<lparr>api_users := us\<rparr>)))"

definition api_PutUser :: "api_env \<Rightarrow> api \<Rightarrow> ApiService_RequestTypeDef \<Rightarrow> AuthService_PrincipalTypeDef \<Rightarrow> bool \<Rightarrow> int \<times> api" where
  "api_PutUser env a r who creating =
     (if \<not> is_admin who then api_Forbidden a
      else case api_UserTarget a r creating of
        (None, a1) \<Rightarrow>
          (if creating then api_Error a1 400 ''Bad Request'' ''invalid_request''
           else api_Error a1 404 ''Not Found'' ''user_not_found'')
      | (Some (username, roleText, enabled), a1) \<Rightarrow>
          (case apiService_JsonString (api_body r) ''password'' 129 of
             None \<Rightarrow> api_Error a1 400 ''Bad Request'' ''password_required''
           | Some password \<Rightarrow>
               let roleText' = (case apiService_JsonString (api_body r) ''role'' 20 of Some t \<Rightarrow> t | None \<Rightarrow> roleText);
                   enabled' = (case apiService_JsonBoolean (api_body r) ''enabled'' of Some e \<Rightarrow> e | None \<Rightarrow> enabled);
                   role = (if roleText' = ''administrator'' then USER_ROLE_ADMINISTRATOR else USER_ROLE_USER)
               in case AuthService_PutUser (ae_crypto env) (api_tls a1) (api_auth a1) (api_users a1) (api_flash a1) who
                      username (map byte_of_char password) role enabled' (\<not> creating) of
                    (status, tls, auth, us, f) \<Rightarrow>
                      let a2 = a1\<lparr>api_tls := tls, api_auth := auth, api_users := us, api_flash := f\<rparr>
                      in if status = AUTH_SERVICE_STATUS_NOT_FOUND then api_Error a2 404 ''Not Found'' ''user_not_found''
                         else if status \<noteq> AUTH_SERVICE_STATUS_OK then api_Error a2 400 ''Bad Request'' ''user_not_saved''
                         else api_Respond a2 (if creating then 201 else 200) (if creating then ''Created'' else ''OK'')
                           (snd (snprintf 96 (json_object [json_string_member ''username'' username])))))"

definition api_DeleteUser :: "api \<Rightarrow> ApiService_RequestTypeDef \<Rightarrow> AuthService_PrincipalTypeDef \<Rightarrow> int \<times> api" where
  "api_DeleteUser a r who =
     (if \<not> is_admin who then api_Forbidden a
      else let username = path_username r
           in case AuthService_DeleteUser (api_auth a) (api_users a) (api_flash a) who username of
             (status, auth, us, f) \<Rightarrow>
               let a1 = a\<lparr>api_auth := auth, api_users := us, api_flash := f\<rparr>
               in if status = AUTH_SERVICE_STATUS_NOT_FOUND then api_Error a1 404 ''Not Found'' ''user_not_found''
                  else if status = AUTH_SERVICE_STATUS_FORBIDDEN then api_Forbidden a1
                  else if status \<noteq> AUTH_SERVICE_STATUS_OK then api_Error a1 500 ''Internal Server Error'' ''storage_error''
                  else api_Respond a1 200 ''OK'' (snd (snprintf 64 (json_object
                    [json_string_member ''username'' username, json_member ''deleted'' ''true'']))))"

section \<open>Routes of the certificates\<close>

definition api_PutCertificate :: "api_env \<Rightarrow> api \<Rightarrow> ApiService_RequestTypeDef \<Rightarrow> AuthService_PrincipalTypeDef \<Rightarrow> int \<times> api" where
  "api_PutCertificate env a r who =
     (if \<not> is_admin who then api_Forbidden a
      else if rq_bodyLength r = 0 then api_Error a 400 ''Bad Request'' ''invalid_certificate_body''
      else case TlsServerCredentials_StageCertificate (ae_mbedtls env) (api_tls a) (api_sc a) (api_flash a) (api_body_bytes r) of
        (status, tls, sc, f) \<Rightarrow>
          apiService_TlsCredentialsRespond (a\<lparr>api_tls := tls, api_sc := sc, api_flash := f\<rparr>) status
            ''private_key'' ''invalid_certificate'')"

definition api_PutPrivateKey :: "api_env \<Rightarrow> api \<Rightarrow> ApiService_RequestTypeDef \<Rightarrow> AuthService_PrincipalTypeDef \<Rightarrow> int \<times> api" where
  "api_PutPrivateKey env a r who =
     (if \<not> is_admin who then api_Forbidden a
      else if rq_bodyLength r = 0 then api_Error a 400 ''Bad Request'' ''invalid_private_key_body''
      else case TlsServerCredentials_StagePrivateKey (ae_mbedtls env) (api_tls a) (api_sc a) (api_flash a) (api_body_bytes r) of
        (status, tls, sc, f) \<Rightarrow>
          apiService_TlsCredentialsRespond (a\<lparr>api_tls := tls, api_sc := sc, api_flash := f\<rparr>) status
            ''certificate'' ''invalid_private_key'')"

text \<open>One anchor of the list: its opening, its escaped subject and its end, each checked for room.\<close>

fun anchor_pieces :: "nat \<Rightarrow> string \<Rightarrow> bool \<Rightarrow> TlsTrustStore_InfoTypeDef list \<Rightarrow> string option" where
  "anchor_pieces capacity used first [] = Some used"
| "anchor_pieces capacity used first (info # infos) =
     (case json_pieces capacity used
             [(if first then [] else '','') @ ''{'' @ json_member ''id'' (decimal (unat (ti_id info))) @ '',''
              @ json_member ''factory'' (json_bool (ti_factory info \<noteq> 0)) @ '',''
              @ json_member ''der_length'' (decimal (unat (ti_derLength info))) @ '',''
              @ json_member ''subject'' [DQUOTE]] of
        None \<Rightarrow> None
      | Some opened \<Rightarrow>
          (case apiService_AppendJsonString opened capacity (ti_subject info) of
             None \<Rightarrow> None
           | Some named \<Rightarrow>
               (case json_pieces capacity named [[DQUOTE] @ ''}''] of
                  None \<Rightarrow> None
                | Some closed \<Rightarrow> anchor_pieces capacity closed False infos)))"

definition api_ListTrustAnchors :: "api \<Rightarrow> int \<times> api" where
  "api_ListTrustAnchors a =
     (case TlsTrustStore_List (api_ts a) TLS_TRUST_STORE_MAX_ANCHORS of
        (infos, ts) \<Rightarrow>
          let a1 = a\<lparr>api_ts := ts\<rparr>; capacity = API_SERVICE_RESPONSE_SIZE - 192
          in case anchor_pieces capacity (''{'' @ json_member ''trust_anchors'' ''['') True infos of
               None \<Rightarrow> response_too_large a1
             | Some json \<Rightarrow> api_Respond a1 200 ''OK'' (json_close capacity json))"

definition api_AddTrustAnchor :: "api_env \<Rightarrow> api \<Rightarrow> ApiService_RequestTypeDef \<Rightarrow> AuthService_PrincipalTypeDef \<Rightarrow> int \<times> api" where
  "api_AddTrustAnchor env a r who =
     (if \<not> is_admin who then api_Forbidden a
      else case TlsTrustStore_Add (ae_trust env) (api_ts a) (api_flash a) (api_body_bytes r) of
        (status, assignedId, ts, f) \<Rightarrow>
          let a1 = a\<lparr>api_ts := ts, api_flash := f\<rparr>
          in if status \<noteq> TLS_TRUST_STORE_STATUS_OK then apiService_TrustStoreError a1 status
             else api_Respond a1 201 ''Created'' (snd (snprintf 48 (json_object
               [json_member ''id'' (decimal (case assignedId of Some i \<Rightarrow> i | None \<Rightarrow> 0))]))))"

text \<open>Whether a configuration refers to a trust anchor; the services are asked in the order of the source.\<close>

definition api_AnchorInUse :: "api \<Rightarrow> u8 \<Rightarrow> bool \<times> api" where
  "api_AnchorInUse a anchor =
     (case HealthCheckConfig_IsTrustAnchorInUse (api_hc a) anchor of
        (used, hc) \<Rightarrow>
          let a1 = a\<lparr>api_hc := hc\<rparr>
          in if used then (True, a1)
             else case CallbackConfig_IsTrustAnchorInUse (api_cb a1) anchor of
               (used', cb) \<Rightarrow> (used', a1\<lparr>api_cb := cb\<rparr>))"

fun api_AnyAnchorInUse :: "api \<Rightarrow> nat list \<Rightarrow> bool \<times> api" where
  "api_AnyAnchorInUse a [] = (False, a)"
| "api_AnyAnchorInUse a (i # is) =
     (case api_AnchorInUse a (of_nat i) of (used, a1) \<Rightarrow> if used then (True, a1) else api_AnyAnchorInUse a1 is)"

definition api_ClearTrustAnchors :: "api \<Rightarrow> AuthService_PrincipalTypeDef \<Rightarrow> int \<times> api" where
  "api_ClearTrustAnchors a who =
     (if \<not> is_admin who then api_Forbidden a
      else case api_AnyAnchorInUse a [0..<Suc TLS_TRUST_STORE_MAX_PERSISTED] of
        (used, a1) \<Rightarrow>
          if used then api_Error a1 409 ''Conflict'' ''trust_anchor_in_use''
          else case TlsTrustStore_Reset (api_ts a1) (api_flash a1) of
            (status, ts, f) \<Rightarrow>
              let a2 = a1\<lparr>api_ts := ts, api_flash := f\<rparr>
              in if status \<noteq> TLS_TRUST_STORE_STATUS_OK then apiService_TrustStoreError a2 status
                 else api_Respond a2 200 ''OK'' (json_object [json_member ''trust_anchors_cleared'' ''true'']))"

text \<open>
  \<open>strtol\<close> in base ten over a whole text: \<open>None\<close> when no digit was read or something follows. A value
  beyond \<open>long\<close> is cut to its bounds, which no caller accepts.
\<close>

definition strtol_all :: "string \<Rightarrow> int option" where
  "strtol_all s =
     (let t = dropWhile isspace s;
          negative = (peek t = CHR ''-'');
          u = (if negative \<or> peek t = CHR ''+'' then drop 1 t else t);
          ds = takeWhile is_digit u;
          v = int (digits_value ds)
      in if ds = [] \<or> dropWhile is_digit u \<noteq> [] then None
         else Some (max (- (2 ^ 31)) (min (2 ^ 31 - 1) (if negative then - v else v))))"

definition anchors_prefix :: string where "anchors_prefix = ''/api/v1/trust-anchors/''"

definition api_ChangeTrustAnchor ::
  "api_env \<Rightarrow> api \<Rightarrow> ApiService_RequestTypeDef \<Rightarrow> AuthService_PrincipalTypeDef \<Rightarrow> bool \<Rightarrow> int \<times> api" where
  "api_ChangeTrustAnchor env a r who deleting =
     (if \<not> is_admin who then api_Forbidden a
      else case strtol_all (drop (length anchors_prefix) (rq_path r)) of
        None \<Rightarrow> api_Error a 404 ''Not Found'' ''trust_anchor_not_found''
      | Some idValue \<Rightarrow>
          if idValue < 0 \<or> idValue > int TLS_TRUST_STORE_MAX_PERSISTED
          then api_Error a 404 ''Not Found'' ''trust_anchor_not_found''
          else
            let anchor = word_of_int idValue :: u8
            in if deleting then
                 (case api_AnchorInUse a anchor of
                    (used, a1) \<Rightarrow>
                      if used then api_Error a1 409 ''Conflict'' ''trust_anchor_in_use''
                      else case TlsTrustStore_Delete (api_ts a1) (api_flash a1) anchor of
                        (status, ts, f) \<Rightarrow>
                          let a2 = a1\<lparr>api_ts := ts, api_flash := f\<rparr>
                          in if status \<noteq> TLS_TRUST_STORE_STATUS_OK then apiService_TrustStoreError a2 status
                             else api_Respond a2 200 ''OK'' (snd (snprintf 48 (json_object
                               [json_member ''id'' (decimal (unat anchor)), json_member ''deleted'' ''true'']))))
               else
                 (case TlsTrustStore_Replace (ae_trust env) (api_ts a) (api_flash a) anchor (api_body_bytes r) of
                    (status, ts, f) \<Rightarrow>
                      let a1 = a\<lparr>api_ts := ts, api_flash := f\<rparr>
                      in if status \<noteq> TLS_TRUST_STORE_STATUS_OK then apiService_TrustStoreError a1 status
                         else api_Respond a1 200 ''OK'' (snd (snprintf 48 (json_object
                           [json_member ''id'' (decimal (unat anchor)), json_member ''replaced'' ''true''])))))"

section \<open>Routes of the callback destination\<close>

definition method_text :: "u8 \<Rightarrow> string" where
  "method_text m = (if m = CALLBACK_METHOD_POST then ''POST'' else ''GET'')"

definition api_GetCallback :: "api \<Rightarrow> int \<times> api" where
  "api_GetCallback a =
     (case CallbackConfig_Get (api_cb a) of
        (config, cb) \<Rightarrow>
          api_Respond (a\<lparr>api_cb := cb\<rparr>) 200 ''OK'' (snd (snprintf 320 (json_object
            [json_member ''enabled'' (json_bool (cb_enabled config \<noteq> 0)),
             json_string_member ''method'' (method_text (cb_method config)),
             json_string_member ''host'' (cstr (cb_host config)), json_member ''port'' (decimal (unat (cb_port config))),
             json_string_member ''path'' (cstr (cb_path config)),
             json_member ''trust_anchor_id'' (decimal (unat (cb_trustAnchorId config)))]))))"

text \<open>A member that may be left out: its old value, its parsed one, or \<open>None\<close> when it does not parse.\<close>

definition optional_member :: "string \<Rightarrow> string \<Rightarrow> 'v \<Rightarrow> 'v option \<Rightarrow> 'v option" where
  "optional_member json key old parsed = (if apiService_JsonHasKey json key then parsed else Some old)"

text \<open>A parsed string written over the start of a character array.\<close>

definition overwrite :: "string \<Rightarrow> string \<Rightarrow> string" where
  "overwrite array text = text @ [NUL] @ drop (length text + 1) array"

definition trust_anchor_known :: "api \<Rightarrow> u32 \<Rightarrow> bool \<times> api" where
  "trust_anchor_known a anchor =
     (if unat anchor > TLS_TRUST_STORE_MAX_PERSISTED then (False, a)
      else case TlsTrustStore_Exists (api_ts a) (ucast anchor) of (known, ts) \<Rightarrow> (known, a\<lparr>api_ts := ts\<rparr>))"

definition api_PutCallback :: "api \<Rightarrow> ApiService_RequestTypeDef \<Rightarrow> AuthService_PrincipalTypeDef \<Rightarrow> int \<times> api" where
  "api_PutCallback a r who =
     (if \<not> is_admin who then api_Forbidden a
      else case CallbackConfig_Get (api_cb a) of
        (config, cb) \<Rightarrow>
          let a1 = a\<lparr>api_cb := cb\<rparr>; json = api_body r
          in case (optional_member json ''enabled'' (cb_enabled config) (apiService_JsonBoolean json ''enabled''),
                   optional_member json ''method'' (method_text (cb_method config)) (apiService_JsonString json ''method'' 8),
                   optional_member json ''host'' (cb_host config)
                     (map_option (overwrite (cb_host config)) (apiService_JsonString json ''host'' CALLBACK_CONFIG_HOST_SIZE)),
                   optional_member json ''path'' (cb_path config)
                     (map_option (overwrite (cb_path config)) (apiService_JsonString json ''path'' CALLBACK_CONFIG_PATH_SIZE)),
                   optional_member json ''port'' (ucast (cb_port config)) (apiService_JsonNumber json ''port''),
                   optional_member json ''trust_anchor_id'' (ucast (cb_trustAnchorId config))
                     (apiService_JsonNumber json ''trust_anchor_id'')) of
             (Some enabled, Some method, Some host, Some path, Some port, Some trustAnchor) \<Rightarrow>
               if method \<noteq> ''GET'' \<and> method \<noteq> ''POST'' then api_Error a1 400 ''Bad Request'' ''invalid_method''
               else if port = 0 \<or> port > 65535 then api_Error a1 400 ''Bad Request'' ''invalid_port''
               else case trust_anchor_known a1 trustAnchor of
                 (known, a2) \<Rightarrow>
                   if \<not> known then api_Error a2 400 ''Bad Request'' ''invalid_trust_anchor''
                   else case CallbackConfig_Set (api_cb a2) (api_flash a2)
                       (config\<lparr>cb_enabled := enabled,
                          cb_method := (if method = ''POST'' then CALLBACK_METHOD_POST else CALLBACK_METHOD_GET),
                          cb_port := ucast port, cb_trustAnchorId := ucast trustAnchor, cb_host := host, cb_path := path\<rparr>) of
                     (status, cb', f) \<Rightarrow>
                       let a3 = a2\<lparr>api_cb := cb', api_flash := f\<rparr>
                       in if status \<noteq> PLATFORM_STATUS_OK then api_Error a3 400 ''Bad Request'' ''invalid_request''
                          else api_Respond a3 200 ''OK'' (json_object [json_member ''updated'' ''true''])
           | _ \<Rightarrow> api_Error a1 400 ''Bad Request'' ''invalid_request'')"

section \<open>Routes of the health checks\<close>

definition resource_json :: "nat \<Rightarrow> string \<Rightarrow> nat \<Rightarrow> string \<Rightarrow> bool \<Rightarrow> nat \<Rightarrow> string" where
  "resource_json index host port path enabled trustAnchor = json_object
     [json_member ''index'' (decimal index), json_string_member ''host'' host, json_member ''port'' (decimal port),
      json_string_member ''path'' path, json_member ''enabled'' (json_bool enabled),
      json_member ''trust_anchor_id'' (decimal trustAnchor)]"

text \<open>The resources in use, with a comma before all but the first.\<close>

fun resource_pieces :: "bool \<Rightarrow> nat \<Rightarrow> HealthCheckConfig_ResourceTypeDef list \<Rightarrow> string list" where
  "resource_pieces first index [] = []"
| "resource_pieces first index (r # rs) =
     (if hr_occupied r = 0 then resource_pieces first (Suc index) rs
      else ((if first then [] else '','') @ resource_json index (cstr (hr_host r)) (unat (hr_port r)) (cstr (hr_path r))
              (hr_enabled r \<noteq> 0) (unat (hr_trustAnchorId r)))
           # resource_pieces False (Suc index) rs)"

definition api_Resources :: "api_env \<Rightarrow> api \<Rightarrow> HealthCheckConfig_ResourceTypeDef list \<times> api" where
  "api_Resources env a =
     (case HealthCheckConfig_GetResources (api_hc a) of
        (resources, hc) \<Rightarrow> (case resources of Some rs \<Rightarrow> rs | None \<Rightarrow> ae_stack env, a\<lparr>api_hc := hc\<rparr>))"

definition api_GetHealthCheck :: "api_env \<Rightarrow> api \<Rightarrow> int \<times> api" where
  "api_GetHealthCheck env a =
     (case api_Resources env a of
        (resources, a1) \<Rightarrow>
          (case HealthCheckConfig_GetPeriodSeconds (api_hc a1) of
             (period, hc) \<Rightarrow>
               let a2 = a1\<lparr>api_hc := hc\<rparr>; capacity = API_SERVICE_RESPONSE_SIZE - 192
               in case json_pieces capacity
                      (''{'' @ json_member ''period_seconds'' (decimal (unat period)) @ '','' @ json_member ''resources'' ''['')
                      (resource_pieces True 0 resources) of
                    None \<Rightarrow> response_too_large a2
                  | Some json \<Rightarrow> api_Respond a2 200 ''OK'' (json_close capacity json)))"

definition api_PutHealthCheck :: "api \<Rightarrow> ApiService_RequestTypeDef \<Rightarrow> AuthService_PrincipalTypeDef \<Rightarrow> int \<times> api" where
  "api_PutHealthCheck a r who =
     (if \<not> is_admin who then api_Forbidden a
      else case apiService_JsonNumber (api_body r) ''period_seconds'' of
        None \<Rightarrow> api_Error a 400 ''Bad Request'' ''invalid_request''
      | Some period \<Rightarrow>
          (case HealthCheckConfig_SetPeriodSeconds (api_hc a) (api_flash a) period of
             (status, hc, f) \<Rightarrow>
               let a1 = a\<lparr>api_hc := hc, api_flash := f\<rparr>
               in if status = HEALTH_CHECK_CONFIG_STATUS_INVALID_ARGUMENT
                  then api_Error a1 400 ''Bad Request'' ''invalid_period''
                  else if status \<noteq> HEALTH_CHECK_CONFIG_STATUS_OK
                  then api_Error a1 500 ''Internal Server Error'' ''storage_error''
                  else api_Respond a1 200 ''OK'' (snd (snprintf 48 (json_object
                    [json_member ''period_seconds'' (decimal (unat period))])))))"

definition api_AddResource :: "api \<Rightarrow> ApiService_RequestTypeDef \<Rightarrow> AuthService_PrincipalTypeDef \<Rightarrow> int \<times> api" where
  "api_AddResource a r who =
     (if \<not> is_admin who then api_Forbidden a
      else
        let json = api_body r;
            enabled = (case apiService_JsonBoolean json ''enabled'' of Some e \<Rightarrow> e | None \<Rightarrow> 1);
            trustAnchor = (case apiService_JsonNumber json ''trust_anchor_id'' of
                Some t \<Rightarrow> t | None \<Rightarrow> TLS_TRUST_STORE_DEFAULT_ID)
        in case (apiService_JsonString json ''host'' HEALTH_CHECK_CONFIG_HOST_SIZE,
                 apiService_JsonString json ''path'' HEALTH_CHECK_CONFIG_PATH_SIZE,
                 apiService_JsonNumber json ''port'') of
             (Some host, Some path, Some port) \<Rightarrow>
               if port = 0 \<or> port > 65535 then api_Error a 400 ''Bad Request'' ''invalid_port''
               else case trust_anchor_known a trustAnchor of
                 (known, a1) \<Rightarrow>
                   if \<not> known then api_Error a1 400 ''Bad Request'' ''invalid_trust_anchor''
                   else case HealthCheckConfig_AddResource (api_hc a1) (api_flash a1) host (ucast port) path enabled
                       (ucast trustAnchor) of
                     (status, assigned, hc, f) \<Rightarrow>
                       let a2 = a1\<lparr>api_hc := hc, api_flash := f\<rparr>
                       in if status = HEALTH_CHECK_CONFIG_STATUS_FULL
                          then api_Error a2 409 ''Conflict'' ''resource_limit_reached''
                          else if status \<noteq> HEALTH_CHECK_CONFIG_STATUS_OK
                          then api_Error a2 400 ''Bad Request'' ''invalid_request''
                          else api_Respond a2 201 ''Created'' (snd (snprintf 256
                            (resource_json (case assigned of Some i \<Rightarrow> i | None \<Rightarrow> 0) host (unat port) path (enabled \<noteq> 0)
                               (unat trustAnchor))))
           | _ \<Rightarrow> api_Error a 400 ''Bad Request'' ''invalid_request'')"

definition resources_prefix :: string where "resources_prefix = ''/api/v1/health-check/resources/''"

definition api_DeleteResource :: "api \<Rightarrow> u8 \<Rightarrow> int \<times> api" where
  "api_DeleteResource a index =
     (case HealthCheckConfig_DeleteResource (api_hc a) (api_flash a) index of
        (status, hc, f) \<Rightarrow>
          let a1 = a\<lparr>api_hc := hc, api_flash := f\<rparr>
          in if status = HEALTH_CHECK_CONFIG_STATUS_NOT_FOUND then api_Error a1 404 ''Not Found'' ''resource_not_found''
             else if status \<noteq> HEALTH_CHECK_CONFIG_STATUS_OK
             then api_Error a1 500 ''Internal Server Error'' ''storage_error''
             else api_Respond a1 200 ''OK'' (snd (snprintf 48 (json_object
               [json_member ''index'' (decimal (unat index)), json_member ''deleted'' ''true'']))))"

definition api_UpdateResource :: "api_env \<Rightarrow> api \<Rightarrow> ApiService_RequestTypeDef \<Rightarrow> u8 \<Rightarrow> int \<times> api" where
  "api_UpdateResource env a r index =
     (case api_Resources env a of
        (resources, a1) \<Rightarrow>
          let json = api_body r; old = resources ! unat index
          in if hr_occupied old = 0 then api_Error a1 404 ''Not Found'' ''resource_not_found''
             else case (optional_member json ''host'' (take (HEALTH_CHECK_CONFIG_HOST_SIZE - 1) (cstr (hr_host old)))
                          (apiService_JsonString json ''host'' HEALTH_CHECK_CONFIG_HOST_SIZE),
                        optional_member json ''path'' (take (HEALTH_CHECK_CONFIG_PATH_SIZE - 1) (cstr (hr_path old)))
                          (apiService_JsonString json ''path'' HEALTH_CHECK_CONFIG_PATH_SIZE),
                        optional_member json ''port'' (ucast (hr_port old)) (apiService_JsonNumber json ''port''),
                        optional_member json ''enabled'' (hr_enabled old) (apiService_JsonBoolean json ''enabled''),
                        optional_member json ''trust_anchor_id'' (ucast (hr_trustAnchorId old))
                          (apiService_JsonNumber json ''trust_anchor_id'')) of
                 (Some host, Some path, Some port, Some enabled, Some trustAnchor) \<Rightarrow>
                   if port = 0 \<or> port > 65535 then api_Error a1 400 ''Bad Request'' ''invalid_port''
                   else case trust_anchor_known a1 trustAnchor of
                     (known, a2) \<Rightarrow>
                       if \<not> known then api_Error a2 400 ''Bad Request'' ''invalid_trust_anchor''
                       else case HealthCheckConfig_UpdateResource (api_hc a2) (api_flash a2) index host (ucast port) path
                           enabled (ucast trustAnchor) of
                         (status, hc, f) \<Rightarrow>
                           let a3 = a2\<lparr>api_hc := hc, api_flash := f\<rparr>
                           in if status = HEALTH_CHECK_CONFIG_STATUS_NOT_FOUND
                              then api_Error a3 404 ''Not Found'' ''resource_not_found''
                              else if status \<noteq> HEALTH_CHECK_CONFIG_STATUS_OK
                              then api_Error a3 400 ''Bad Request'' ''invalid_request''
                              else api_Respond a3 200 ''OK'' (snd (snprintf 256
                                (resource_json (unat index) host (unat port) path (enabled \<noteq> 0) (unat trustAnchor))))
               | _ \<Rightarrow> api_Error a1 400 ''Bad Request'' ''invalid_request'')"

definition api_ChangeResource ::
  "api_env \<Rightarrow> api \<Rightarrow> ApiService_RequestTypeDef \<Rightarrow> AuthService_PrincipalTypeDef \<Rightarrow> bool \<Rightarrow> int \<times> api" where
  "api_ChangeResource env a r who deleting =
     (if \<not> is_admin who then api_Forbidden a
      else case strtol_all (drop (length resources_prefix) (rq_path r)) of
        None \<Rightarrow> api_Error a 404 ''Not Found'' ''resource_not_found''
      | Some indexValue \<Rightarrow>
          if indexValue < 0 \<or> indexValue \<ge> int HEALTH_CHECK_CONFIG_MAX_RESOURCES
          then api_Error a 404 ''Not Found'' ''resource_not_found''
          else if deleting then api_DeleteResource a (word_of_int indexValue)
          else api_UpdateResource env a r (word_of_int indexValue))"

definition log_json :: "bool \<Rightarrow> HealthCheckLog_EntryTypeDef \<Rightarrow> string" where
  "log_json first e = (if first then [] else '','') @ json_object
     [json_member ''sequence'' (decimal (unat (le_sequence e))),
      json_member ''timestamp'' (decimal (unat (le_timestampUnix e))),
      json_member ''resource_index'' (decimal (unat (le_resourceIndex e))),
      json_string_member ''status'' (apiService_TransportStatusText (le_status e)),
      json_member ''http_status'' (decimal (unat (le_httpStatus e))),
      json_member ''elapsed_ms'' (decimal (unat (le_elapsedMs e))),
      json_member ''detail'' (decimal_int (sint (le_detail e)))]"

definition log_pieces :: "HealthCheckLog_EntryTypeDef list \<Rightarrow> string list" where
  "log_pieces entries = (case entries of [] \<Rightarrow> [] | e # es \<Rightarrow> log_json True e # map (log_json False) es)"

definition api_Logs :: "api \<Rightarrow> int \<times> api" where
  "api_Logs a =
     (case HealthCheckLog_GetRecent (api_log a) (api_flash a) HEALTH_CHECK_LOG_MAX_RESULTS of
        (entries, lg, f) \<Rightarrow>
          let a1 = a\<lparr>api_log := lg, api_flash := f\<rparr>
          in case json_pieces API_SERVICE_LOGS_JSON_SIZE (''{'' @ json_member ''logs'' ''['') (log_pieces entries) of
               None \<Rightarrow> response_too_large a1
             | Some json \<Rightarrow>
                 (case apiService_RespondBuffer (api_ssl a1) 200 ''OK'' (json_close API_SERVICE_LOGS_JSON_SIZE json) of
                    (res, ssl) \<Rightarrow> (res, a1\<lparr>api_ssl := ssl\<rparr>)))"

section \<open>Routes of the sensors and the clock\<close>

definition sensor_json :: "DS18B20_MeasurementTypeDef \<Rightarrow> string" where
  "sensor_json m =
     (if ms_status m = DS18B20_STATUS_OK
      then json_object [json_string_member ''rom'' (apiService_HexEncode (ms_rom m)),
             json_member ''temperature_centi_degrees'' (decimal_int (sint (ms_temperatureCentiDegrees m))),
             json_string_member ''status'' ''ok'']
      else json_object [json_string_member ''rom'' (apiService_HexEncode (ms_rom m)),
             json_string_member ''status'' (apiService_Ds18b20StatusText (ms_status m))])"

definition api_Temperature :: "api \<Rightarrow> int \<times> api" where
  "api_Temperature a =
     (case TemperatureService_GetMeasurements (api_temperature a) ONEWIRE_MAX_DEVICES of
        (ms, tp) \<Rightarrow>
          let a1 = a\<lparr>api_temperature := tp\<rparr>; capacity = API_SERVICE_RESPONSE_SIZE - 192
          in case json_pieces capacity (''{'' @ json_member ''sensors'' ''['')
                 (case ms of [] \<Rightarrow> [] | m # ms' \<Rightarrow> sensor_json m # map (\<lambda>m. '','' @ sensor_json m) ms') of
               None \<Rightarrow> response_too_large a1
             | Some json \<Rightarrow> api_Respond a1 200 ''OK'' (json_close capacity json))"

definition api_Clock :: "api \<Rightarrow> int \<times> api" where
  "api_Clock a =
     (let synced = Rtc_IsSynchronized (api_rtc a);
          unixTime = (if synced then (case Rtc_GetUnixTime (api_rtc a) of Some t \<Rightarrow> t | None \<Rightarrow> 0) else 0);
          dateTime = (if synced then Rtc_GetDateTime (api_rtc a)
                      else \<lparr>dt_year = 0, dt_month = 0, dt_day = 0, dt_hour = 0, dt_minute = 0, dt_second = 0\<rparr>)
      in api_Respond a 200 ''OK'' (snd (snprintf 196 (json_object
           [json_member ''unix_time'' (decimal (unat unixTime)), json_member ''synchronized'' (json_bool synced),
            json_member ''date_time'' (json_object
              [json_member ''year'' (decimal (unat (dt_year dateTime))), json_member ''month'' (decimal (unat (dt_month dateTime))),
               json_member ''day'' (decimal (unat (dt_day dateTime))), json_member ''hour'' (decimal (unat (dt_hour dateTime))),
               json_member ''minute'' (decimal (unat (dt_minute dateTime))),
               json_member ''second'' (decimal (unat (dt_second dateTime)))])]))))"

section \<open>Dispatch\<close>

text \<open>The routes behind the check of the access token, in the order of the source.\<close>

definition api_Route :: "api_env \<Rightarrow> api \<Rightarrow> ApiService_RequestTypeDef \<Rightarrow> AuthService_PrincipalTypeDef \<Rightarrow> int \<times> api" where
  "api_Route env a r who =
     (let is_route = (\<lambda>m p. rq_method r = m \<and> rq_path r = p); under = (\<lambda>m p. rq_method r = m \<and> prefix p (rq_path r))
      in if is_route ''POST'' ''/api/v1/auth/revoke'' then api_Revoke env a r
         else if is_route ''POST'' ''/api/v1/buzzer/test'' then api_BuzzerTest a r who
         else if is_route ''GET'' ''/api/v1/users'' then api_ListUsers a who
         else if is_route ''POST'' ''/api/v1/users'' \<or> under ''PUT'' users_prefix
         then api_PutUser env a r who (is_route ''POST'' ''/api/v1/users'')
         else if under ''DELETE'' users_prefix then api_DeleteUser a r who
         else if is_route ''PUT'' ''/api/v1/tls/certificate'' then api_PutCertificate env a r who
         else if is_route ''PUT'' ''/api/v1/tls/private-key'' then api_PutPrivateKey env a r who
         else if is_route ''GET'' ''/api/v1/trust-anchors'' then api_ListTrustAnchors a
         else if is_route ''POST'' ''/api/v1/trust-anchors'' then api_AddTrustAnchor env a r who
         else if is_route ''DELETE'' ''/api/v1/trust-anchors'' then api_ClearTrustAnchors a who
         else if under ''PUT'' anchors_prefix \<or> under ''DELETE'' anchors_prefix
         then api_ChangeTrustAnchor env a r who (under ''DELETE'' anchors_prefix)
         else if is_route ''GET'' ''/api/v1/callback/config'' then api_GetCallback a
         else if is_route ''PUT'' ''/api/v1/callback/config'' then api_PutCallback a r who
         else if is_route ''GET'' ''/api/v1/health-check/config'' then api_GetHealthCheck env a
         else if is_route ''PUT'' ''/api/v1/health-check/config'' then api_PutHealthCheck a r who
         else if is_route ''POST'' ''/api/v1/health-check/resources'' then api_AddResource a r who
         else if under ''PUT'' resources_prefix \<or> under ''DELETE'' resources_prefix
         then api_ChangeResource env a r who (under ''DELETE'' resources_prefix)
         else if is_route ''GET'' ''/api/v1/health-check/logs'' then api_Logs a
         else if is_route ''GET'' ''/api/v1/temperature'' then api_Temperature a
         else if is_route ''GET'' ''/api/v1/rtc'' then api_Clock a
         else api_Error a 404 ''Not Found'' ''not_found'')"

definition apiService_Dispatch :: "api_env \<Rightarrow> api \<Rightarrow> ApiService_RequestTypeDef \<Rightarrow> int \<times> api" where
  "apiService_Dispatch env a r =
     (if (rq_method r = ''GET'' \<or> rq_method r = ''HEAD'') \<and> rq_path r = ''/health'' then api_Health env a r
      else if rq_method r = ''POST'' \<and> rq_path r = ''/api/v1/auth/token'' then api_Login env a r
      else if rq_method r = ''POST'' \<and> rq_path r = ''/api/v1/auth/refresh'' then api_Refresh env a r
      else case apiService_Authorize env a r of
        (None, a1) \<Rightarrow> api_Error a1 401 ''Unauthorized'' ''invalid_access_token''
      | (Some who, a1) \<Rightarrow> api_Route env a1 r who)"

section \<open>Connections\<close>

text \<open>
  What a connection meets outside the program: whether the calls that set up the TLS context succeed,
  the built-in certificate and key, and what the request structure on the stack holds before it is
  filled.
\<close>

record connection =
  cn_seed :: bool
  cn_setup :: bool
  cn_handshake :: bool
  cn_certificate :: "u8 list"
  cn_key :: "u8 list"
  cn_stale :: ApiService_RequestTypeDef

text \<open>One accepted client; \<open>None\<close> when memory behind the request buffer was overwritten.\<close>

definition apiService_Client :: "api_env \<Rightarrow> connection \<Rightarrow> api \<Rightarrow> api option" where
  "apiService_Client env cn a =
     (case TlsPlatform_Lock (api_tls a) of
        (s, tls) \<Rightarrow>
          let a1 = a\<lparr>api_tls := tls\<rparr>; finish = (\<lambda>a. a\<lparr>api_tls := TlsPlatform_Unlock (api_tls a)\<rparr>)
          in if s \<noteq> PLATFORM_STATUS_OK then Some a1
             else if \<not> (cn_seed cn
                 \<and> mb_x509_crt_parse (ae_mbedtls env) (TlsServerCredentials_GetCertificate (cn_certificate cn) (api_sc a1))
                 \<and> mb_pk_parse_key (ae_mbedtls env) (TlsServerCredentials_GetPrivateKey (cn_key cn) (api_sc a1))
                 \<and> cn_setup cn \<and> cn_handshake cn)
             then Some (finish a1)
             else case apiService_ReadRequest (api_ssl a1) API_SERVICE_REQUEST_SIZE of
               (outcome, ssl) \<Rightarrow>
                 let a2 = a1\<lparr>api_ssl := ssl\<rparr>
                 in case outcome of
                      Read_Request r \<Rightarrow> Some (finish (snd (apiService_Dispatch env a2 r)))
                    | Read_Unset \<Rightarrow> Some (finish (snd (apiService_Dispatch env a2 (cn_stale cn))))
                    | Read_Failed e \<Rightarrow> Some (finish (snd (api_Error a2 400 ''Bad Request'' ''invalid_request'')))
                    | Read_Outside h i \<Rightarrow> None)"

text \<open>
  Opening the listening socket: each attempt says whether \<open>socket\<close>, \<open>bind\<close> and \<open>listen\<close> succeed. The
  result is how many attempts were needed; \<open>None\<close> while none has succeeded yet.
\<close>

fun apiService_Listen :: "(bool \<times> bool \<times> bool) list \<Rightarrow> nat option" where
  "apiService_Listen [] = None"
| "apiService_Listen ((opened, bound, listening) # attempts) =
     (if opened \<and> bound \<and> listening then Some 1 else map_option Suc (apiService_Listen attempts))"

definition ApiService_Init :: "bool \<Rightarrow> Platform_StatusTypeDef" where
  "ApiService_Init taskCreated = (if taskCreated then PLATFORM_STATUS_OK else PLATFORM_STATUS_ERROR)"

end
