(* ===== verification/Api_Security.thy ===== *)
theory Api_Security
  imports Api_Service
begin

text \<open>
  What the management interface guarantees about the state of the whole device: a request without a
  valid access token changes nothing, and a request of a user who is not an administrator can at most
  end that user's own session. Both hold for arbitrary faults of the flash chip.
\<close>

section \<open>Reading the flash does not change it\<close>

lemma w25q64_Command_inert:
  assumes "w25q64_Command f (c # cs) n = (s, bytes, f')" and inert: "\<And>g rest. nor_deselect g (c # rest) = g"
  shows "nor_mem f' = nor_mem f \<and> flashMutex f' = flashMutex f"
proof -
  obtain s1 out1 r1 f1 where t1: "w25q64_Transfer f (Some (c # cs)) (length (c # cs)) = (s1, out1, r1, f1)"
    by (metis prod_cases4)
  obtain s2 out2 r2 f2 where t2: "w25q64_Transfer f1 None n = (s2, out2, r2, f2)"
    by (metis prod_cases4)
  note frames = w25q64_Transfer_frame [OF t1] w25q64_Transfer_frame [OF t2]
  obtain k where k: "out1 = take k (c # cs)"
    using w25q64_Transfer_prefix [OF t1] by blast
  have keep: "nor_deselect g (out1 @ rest) = g \<or> out1 = []" for g rest
    using k inert by (cases k) auto
  have ok: "s1 = PLATFORM_STATUS_OK \<Longrightarrow> out1 = c # cs"
    using t1 by (auto dest: w25q64_Transfer_OK(2))
  show ?thesis
    using assms(1) t1 t2 frames ok inert keep [of f1 "[]"]
    by (auto simp: w25q64_Command_def same_chip_def split: if_splits)
qed

lemma W25Q64_Read_mem: "W25Q64_Read f address len = (s, bytes, f') \<Longrightarrow> nor_mem f' = nor_mem f"
  by (auto simp: W25Q64_Read_def xSemaphoreTakeRecursive_def address_command_def
      dest!: w25q64_Command_inert split: if_splits option.splits prod.splits)

lemma W25Q64_IsAvailable_mem: "W25Q64_IsAvailable f = (ok, f') \<Longrightarrow> nor_mem f' = nor_mem f"
  by (auto simp: W25Q64_IsAvailable_def xSemaphoreTakeRecursive_def
      dest!: w25q64_Command_inert split: option.splits prod.splits)

lemma healthCheckLog_ScanLoop_mem:
  "healthCheckLog_ScanLoop f sector slot valid avail sequence = (v, n, q, f') \<Longrightarrow> nor_mem f' = nor_mem f"
proof (induction f sector slot valid avail sequence rule: healthCheckLog_ScanLoop.induct)
  case (1 f sector slot valid avail sequence)
  show ?case
  proof (cases "slot \<ge> HEALTH_CHECK_LOG_SLOTS_PER_SECTOR")
    case True
    then show ?thesis
      using "1.prems" by (subst (asm) healthCheckLog_ScanLoop.simps) simp
  next
    case False
    obtain s bytes f1 where r: "W25Q64_Read f (slot_address sector slot) 24 = (s, bytes, f1)"
      by (metis prod_cases3)
    show ?thesis
      using "1.prems" False W25Q64_Read_mem [OF r] "1.IH" [OF False r [symmetric] refl refl]
      by (subst (asm) healthCheckLog_ScanLoop.simps) (auto simp: r Let_def split: if_splits)
  qed
qed

lemma healthCheckLog_ReadLoop_mem:
  "healthCheckLog_ReadLoop f sector n capacity = (es, f') \<Longrightarrow> nor_mem f' = nor_mem f"
  by (induction f sector n capacity arbitrary: es rule: healthCheckLog_ReadLoop.induct)
    (fastforce simp: Let_def dest: W25Q64_Read_mem split: if_splits prod.splits)+

lemma HealthCheckLog_GetRecent_keeps:
  assumes "HealthCheckLog_GetRecent st f capacity = (es, st', f')"
  shows "nor_mem f' = nor_mem f \<and> activeSector st' = activeSector st \<and> nextSlot st' = nextSlot st
    \<and> nextSequence st' = nextSequence st"
  using assms
  by (auto simp: HealthCheckLog_GetRecent_def healthCheckLog_ScanSector_def split: if_splits option.splits prod.splits
      dest!: healthCheckLog_ScanLoop_mem healthCheckLog_ReadLoop_mem)

section \<open>What a request leaves alone\<close>

text \<open>
  Everything the device keeps: the stored data and where it is stored, the staged credentials, the log
  position, the flash memory, the clock, the buzzer and the last measurements. Left out are the
  connection, the sessions, the random source, the mutexes and the transfer state of the flash chip.
\<close>

definition keeps_data :: "api \<Rightarrow> api \<Rightarrow> bool" where
  "keeps_data a b \<longleftrightarrow>
     us_snapshot (api_users b) = us_snapshot (api_users a) \<and> us_activeAddress (api_users b) = us_activeAddress (api_users a)
     \<and> hc_snapshot (api_hc b) = hc_snapshot (api_hc a) \<and> hc_activeAddress (api_hc b) = hc_activeAddress (api_hc a)
     \<and> cb_snapshot (api_cb b) = cb_snapshot (api_cb a) \<and> cb_activeAddress (api_cb b) = cb_activeAddress (api_cb a)
     \<and> api_sc b = api_sc a
     \<and> trustStoreSnapshot (api_ts b) = trustStoreSnapshot (api_ts a)
     \<and> trustStoreActiveAddress (api_ts b) = trustStoreActiveAddress (api_ts a)
     \<and> activeSector (api_log b) = activeSector (api_log a) \<and> nextSlot (api_log b) = nextSlot (api_log a)
     \<and> nextSequence (api_log b) = nextSequence (api_log a)
     \<and> nor_mem (api_flash b) = nor_mem (api_flash a) \<and> api_rtc b = api_rtc a \<and> api_buzzer b = api_buzzer a
     \<and> measurements (api_temperature b) = measurements (api_temperature a)"

text \<open>Responding only touches the connection.\<close>

definition only_ssl :: "api \<Rightarrow> int \<times> api \<Rightarrow> bool" where
  "only_ssl a out \<longleftrightarrow> (\<exists>r ssl. out = (r, a\<lparr>api_ssl := ssl\<rparr>))"

lemma only_ssl_respond [simp]:
  "only_ssl a (api_Respond a status reason json)" "only_ssl a (api_Error a status reason code)"
  "only_ssl a (api_Forbidden a)" "only_ssl a (response_too_large a)"
  by (auto simp: only_ssl_def api_Respond_def api_Error_def api_Forbidden_def response_too_large_def split: prod.splits)

lemma only_ssl_case [simp]: "only_ssl a (case p of (r, ssl) \<Rightarrow> (r, a\<lparr>api_ssl := ssl\<rparr>))"
  by (auto simp: only_ssl_def split: prod.splits)

lemma keeps_data_refl [simp]: "keeps_data a a"
  by (simp add: keeps_data_def)

definition harmless :: "api \<Rightarrow> int \<times> api \<Rightarrow> bool" where
  "harmless a out \<longleftrightarrow> keeps_data a (snd out) \<and> sessions (api_auth (snd out)) = sessions (api_auth a)"

lemma harmless_ssl:
  "keeps_data a a1 \<Longrightarrow> sessions (api_auth a1) = sessions (api_auth a) \<Longrightarrow> only_ssl a1 out \<Longrightarrow> harmless a out"
  by (auto simp: harmless_def only_ssl_def keeps_data_def)

lemma harmless_respond [simp]:
  "harmless a (api_Respond a status reason json)" "harmless a (api_Error a status reason code)" "harmless a (api_Forbidden a)"
  by (rule harmless_ssl [of _ a]; simp)+

section \<open>The read-only routes\<close>

lemma api_ListTrustAnchors_harmless: "harmless a (api_ListTrustAnchors a)"
proof -
  obtain infos ts where l: "TlsTrustStore_List (api_ts a) TLS_TRUST_STORE_MAX_ANCHORS = (infos, ts)"
    by fastforce
  show ?thesis
  proof (rule harmless_ssl)
    show "keeps_data a (a\<lparr>api_ts := ts\<rparr>)"
      using l by (auto simp: TlsTrustStore_List_def keeps_data_def split: if_splits option.splits)
  qed (simp_all add: l api_ListTrustAnchors_def Let_def split: option.splits)
qed

lemma api_GetCallback_harmless: "harmless a (api_GetCallback a)"
proof -
  obtain config cb where l: "CallbackConfig_Get (api_cb a) = (config, cb)"
    by fastforce
  show ?thesis
  proof (rule harmless_ssl)
    show "keeps_data a (a\<lparr>api_cb := cb\<rparr>)"
      using l by (auto simp: CallbackConfig_Get_def keeps_data_def split: option.splits)
  qed (simp_all add: l api_GetCallback_def)
qed

lemma api_GetHealthCheck_harmless: "harmless a (api_GetHealthCheck env a)"
proof -
  obtain rs hc where l: "HealthCheckConfig_GetResources (api_hc a) = (rs, hc)"
    by fastforce
  obtain period hc' where p: "HealthCheckConfig_GetPeriodSeconds hc = (period, hc')"
    by fastforce
  show ?thesis
  proof (rule harmless_ssl)
    show "keeps_data a (a\<lparr>api_hc := hc'\<rparr>)"
      using l p by (auto simp: HealthCheckConfig_GetResources_def HealthCheckConfig_GetPeriodSeconds_def keeps_data_def
          split: option.splits)
  qed (simp_all add: l p api_GetHealthCheck_def api_Resources_def Let_def split: option.splits)
qed

lemma api_Logs_harmless: "harmless a (api_Logs a)"
proof -
  obtain es lg f where l: "HealthCheckLog_GetRecent (api_log a) (api_flash a) HEALTH_CHECK_LOG_MAX_RESULTS = (es, lg, f)"
    by (metis prod_cases3)
  show ?thesis
  proof (rule harmless_ssl)
    show "keeps_data a (a\<lparr>api_log := lg, api_flash := f\<rparr>)"
      using HealthCheckLog_GetRecent_keeps [OF l] by (simp add: keeps_data_def)
  qed (simp_all add: l api_Logs_def Let_def only_ssl_case [of "a\<lparr>api_log := lg, api_flash := f\<rparr>", simplified] split: option.splits)
qed

lemma TemperatureService_GetMeasurements_keeps:
  "TemperatureService_GetMeasurements st n = (ms, st') \<Longrightarrow> measurements st' = measurements st"
  by (auto simp: TemperatureService_GetMeasurements_def Let_def split: if_splits option.splits)

lemma api_Temperature_harmless: "harmless a (api_Temperature a)"
proof -
  obtain ms tp where l: "TemperatureService_GetMeasurements (api_temperature a) ONEWIRE_MAX_DEVICES = (ms, tp)"
    by fastforce
  show ?thesis
  proof (rule harmless_ssl)
    show "keeps_data a (a\<lparr>api_temperature := tp\<rparr>)"
      using TemperatureService_GetMeasurements_keeps [OF l] by (simp add: keeps_data_def)
  qed (simp_all add: l api_Temperature_def Let_def split: option.splits)
qed

lemma api_Clock_harmless: "harmless a (api_Clock a)"
  by (simp add: api_Clock_def Let_def)

lemma api_Health_harmless: "harmless a (api_Health env a r)"
proof -
  obtain ok f where l: "W25Q64_IsAvailable (api_flash a) = (ok, f)"
    by fastforce
  obtain ms tp where t: "TemperatureService_GetMeasurements (api_temperature a) ONEWIRE_MAX_DEVICES = (ms, tp)"
    by fastforce
  show ?thesis
  proof (rule harmless_ssl)
    show "keeps_data a (a\<lparr>api_flash := f, api_temperature := tp\<rparr>)"
      using W25Q64_IsAvailable_mem [OF l] TemperatureService_GetMeasurements_keeps [OF t] by (simp add: keeps_data_def)
  qed (auto simp: l t api_Health_def Let_def only_ssl_def split: prod.splits)
qed

text \<open>Requests of a user who is not an administrator, revoking apart.\<close>

lemma api_Route_harmless:
  assumes "\<not> is_admin who" and "\<not> (rq_method r = ''POST'' \<and> rq_path r = ''/api/v1/auth/revoke'')"
  shows "harmless a (api_Route env a r who)"
proof -
  note admin = api_BuzzerTest_def api_ListUsers_def api_PutUser_def api_DeleteUser_def api_PutCertificate_def
    api_PutPrivateKey_def api_AddTrustAnchor_def api_ClearTrustAnchors_def api_ChangeTrustAnchor_def api_PutCallback_def
    api_PutHealthCheck_def api_AddResource_def api_ChangeResource_def
  have "harmless a (api_BuzzerTest a r who)" "harmless a (api_ListUsers a who)" "harmless a (api_PutUser env a r who c)"
      "harmless a (api_DeleteUser a r who)" "harmless a (api_PutCertificate env a r who)"
      "harmless a (api_PutPrivateKey env a r who)" "harmless a (api_AddTrustAnchor env a r who)"
      "harmless a (api_ClearTrustAnchors a who)" "harmless a (api_ChangeTrustAnchor env a r who c)"
      "harmless a (api_PutCallback a r who)" "harmless a (api_PutHealthCheck a r who)" "harmless a (api_AddResource a r who)"
      "harmless a (api_ChangeResource env a r who c)" for c
    using assms(1) by (simp_all add: admin)
  then show ?thesis
    unfolding api_Route_def Let_def
    by (simp only: assms(2) if_False)
      (simp add: api_ListTrustAnchors_harmless api_GetCallback_harmless api_GetHealthCheck_harmless
        api_Logs_harmless api_Temperature_harmless api_Clock_harmless)
qed

section \<open>Properties\<close>

definition public_route :: "ApiService_RequestTypeDef \<Rightarrow> bool" where
  "public_route r \<longleftrightarrow>
     (rq_method r = ''GET'' \<or> rq_method r = ''HEAD'') \<and> rq_path r = ''/health''
     \<or> rq_method r = ''POST'' \<and> rq_path r = ''/api/v1/auth/token''
     \<or> rq_method r = ''POST'' \<and> rq_path r = ''/api/v1/auth/refresh''"

text \<open>A device after its first start, with a session of the account \<open>guest\<close>, to apply the properties at.\<close>

definition guest_session :: AuthService_SessionTypeDef where
  "guest_session = zero_session\<lparr>as_active := True, as_role := USER_ROLE_USER, as_username := ''guest'' @ replicate 20 NUL,
     as_accessDigest := replicate 32 99, as_refreshDigest := replicate 32 100\<rparr>"

definition sample_sensors :: temperature_service where
  "sample_sensors = \<lparr>tp_onewire = \<lparr>ow_bus = \<lparr>bus_history = [], bus_env = (\<lambda>_. True), bus_push_pull = False, bus_delays = []\<rparr>,
       oneWireDevices = [], oneWireDeviceCount = 0, oneWireMutex = Sem_Free\<rparr>,
     measurements = [], temperatureMutex = Sem_Free, lastSearchTick = 0\<rparr>"

definition sample_api :: api where
  "sample_api = \<lparr>api_ssl = \<lparr>ssl_reads = [], ssl_writes = [], ssl_out = []\<rparr>, api_tls = sample_platform,
     api_auth = \<lparr>sessions = sample_session # guest_session # replicate 7 zero_session, sessionMutex = Sem_Free\<rparr>,
     api_users = empty_user_store, api_flash = blank_flash, api_hc = sample_hc,
     api_cb = sample_cb\<lparr>callbackConfigMutex := Sem_Free\<rparr>, api_sc = blank_credentials, api_ts = empty_trust_store,
     api_log = sample_log, api_temperature = sample_sensors, api_rtc = fresh_rtc, api_buzzer = silent_buzzer, api_network = True\<rparr>"

definition sample_env :: api_env where
  "sample_env = \<lparr>ae_crypto = sample_crypto, ae_mbedtls = toy_mbedtls, ae_trust = toy_trust_mbedtls, ae_now = 0, ae_later = 0,
     ae_version = ''1.0'', ae_date = ''today'', ae_stack = []\<rparr>"

definition sample_request :: "string \<Rightarrow> string \<Rightarrow> string \<Rightarrow> ApiService_RequestTypeDef" where
  "sample_request method path token =
     \<lparr>rq_method = method, rq_path = path, rq_authorization = token, rq_body = [], rq_bodyLength = 0\<rparr>"

text \<open>
  C2: a request other than the health probe, the login and the refresh whose access token is not
  accepted is answered with status 401 and changes nothing but the connection.
\<close>

theorem unauthorized_request_refused:
  assumes "AuthService_Authorize (ae_crypto env) (ae_now env) (api_auth a) (rq_authorization r) = (s, who, auth)"
    and "s \<noteq> AUTH_SERVICE_STATUS_OK" and "sessionMutex (api_auth a) = Sem_Free" and "\<not> public_route r"
  shows "apiService_Dispatch env a r = api_Error a 401 ''Unauthorized'' ''invalid_access_token''
    \<and> (\<exists>ssl. snd (apiService_Dispatch env a r) = a\<lparr>api_ssl := ssl\<rparr>)"
proof -
  have "auth = api_auth a"
    using AuthService_Authorize_cases [OF assms(1,3)] by blast
  then have d: "apiService_Dispatch env a r = api_Error a 401 ''Unauthorized'' ''invalid_access_token''"
    using assms(1,2,4) by (auto simp: apiService_Dispatch_def public_route_def apiService_Authorize_def)
  show ?thesis
    unfolding d using only_ssl_respond(2) [of a 401 "''Unauthorized''" "''invalid_access_token''"]
    by (auto simp: only_ssl_def)
qed

theorem unauthorized_request_refused_witness:
  "\<exists>ssl. snd (apiService_Dispatch sample_env sample_api (sample_request ''DELETE'' ''/api/v1/users/guest'' (replicate 64 CHR ''x'')))
     = sample_api\<lparr>api_ssl := ssl\<rparr>"
proof -
  let ?r = "sample_request ''DELETE'' ''/api/v1/users/guest'' (replicate 64 CHR ''x'')"
  obtain s who auth where t: "AuthService_Authorize (ae_crypto sample_env) (ae_now sample_env) (api_auth sample_api)
      (rq_authorization ?r) = (s, who, auth)"
    by (metis prod_cases3)
  have "fst (AuthService_Authorize (ae_crypto sample_env) (ae_now sample_env) (api_auth sample_api) (rq_authorization ?r))
      = AUTH_SERVICE_STATUS_INVALID_PASSWORD"
    by code_simp
  then have "s \<noteq> AUTH_SERVICE_STATUS_OK"
    unfolding t by simp
  moreover have "sessionMutex (api_auth sample_api) = Sem_Free" "\<not> public_route ?r"
    by (simp_all add: sample_api_def public_route_def sample_request_def)
  ultimately show ?thesis
    using unauthorized_request_refused [OF t] by blast
qed

text \<open>
  C1: whatever an authorized user without the administrator role requests on a route that needs a
  token (any but the public login and refresh), and whatever the flash chip does meanwhile, all stored
  data, the flash memory, the clock, the buzzer and the measurements stay as they are; at most the
  session of the account that holds the token is closed, and only by a revoke. No other task holds the
  session mutex.
\<close>

theorem non_administrator_harmless:
  assumes "AuthService_Authorize (ae_crypto env) (ae_now env) (api_auth a) (rq_authorization r) = (s, Some who, auth)"
    and "s = AUTH_SERVICE_STATUS_OK" and "ap_role who \<noteq> USER_ROLE_ADMINISTRATOR"
    and "sessionMutex (api_auth a) = Sem_Free" and "\<not> public_route r" and "apiService_Dispatch env a r = (res, b)"
  shows "keeps_data a b \<and> (sessions (api_auth b) = sessions (api_auth a)
    \<or> rq_method r = ''POST'' \<and> rq_path r = ''/api/v1/auth/revoke''
      \<and> (\<exists>w i. AuthService_Authorize (ae_crypto env) (ae_later env) (api_auth a) (rq_authorization r)
              = (AUTH_SERVICE_STATUS_OK, Some w, api_auth a)
            \<and> authService_FindSession (sessions (api_auth a)) (ap_username w) = Some i
            \<and> sessions (api_auth b) = (sessions (api_auth a))[i := zero_session]))"
proof -
  have auth: "auth = api_auth a"
    using AuthService_Authorize_cases [OF assms(1,4)] by blast
  then have d: "apiService_Dispatch env a r = api_Route env a r who"
    using assms(1,2,5) by (auto simp: apiService_Dispatch_def public_route_def apiService_Authorize_def)
  show ?thesis
  proof (cases "rq_method r = ''POST'' \<and> rq_path r = ''/api/v1/auth/revoke''")
    case False
    then have "harmless a (api_Route env a r who)"
      using assms(3) by (intro api_Route_harmless) (auto simp: is_admin_def)
    then show ?thesis
      using assms(6) unfolding d by (simp add: harmless_def)
  next
    case True
    obtain st auth' where rv: "AuthService_Revoke (ae_crypto env) (ae_later env) (api_auth a) (rq_authorization r) = (st, auth')"
      by fastforce
    have "only_ssl (a\<lparr>api_auth := auth'\<rparr>) (res, b)"
      using d assms(6) True by (simp add: api_Route_def Let_def api_Revoke_def rv split: if_splits)
    then have b: "keeps_data a b" "api_auth b = auth'"
      by (auto simp: only_ssl_def keeps_data_def)
    obtain s1 w st1 where w: "AuthService_Authorize (ae_crypto env) (ae_later env) (api_auth a) (rq_authorization r) = (s1, w, st1)"
      by (metis prod_cases3)
    have "st1 = api_auth a"
      using AuthService_Authorize_cases [OF w assms(4)] by blast
    then have "sessions auth' = sessions (api_auth a) \<or> (\<exists>w' i. w = Some w' \<and> s1 = AUTH_SERVICE_STATUS_OK
        \<and> authService_FindSession (sessions (api_auth a)) (ap_username w') = Some i
        \<and> sessions auth' = (sessions (api_auth a))[i := zero_session])"
      using rv w by (auto simp: AuthService_Revoke_def split: option.splits if_splits)
    then show ?thesis
      using b True w \<open>st1 = api_auth a\<close> by auto
  qed
qed

theorem non_administrator_harmless_witness:
  "keeps_data sample_api (snd (apiService_Dispatch sample_env sample_api
     (sample_request ''DELETE'' ''/api/v1/users/bob'' (replicate 64 CHR ''c''))))"
proof -
  let ?r = "sample_request ''DELETE'' ''/api/v1/users/bob'' (replicate 64 CHR ''c'')"
  have "(case AuthService_Authorize (ae_crypto sample_env) (ae_now sample_env) (api_auth sample_api) (rq_authorization ?r) of
      (s, who, _) \<Rightarrow> s = AUTH_SERVICE_STATUS_OK \<and> map_option ap_role who = Some USER_ROLE_USER)"
    by code_simp
  then obtain who auth where t: "AuthService_Authorize (ae_crypto sample_env) (ae_now sample_env) (api_auth sample_api)
      (rq_authorization ?r) = (AUTH_SERVICE_STATUS_OK, Some who, auth)" and "ap_role who = USER_ROLE_USER"
    by (auto split: prod.splits)
  moreover have "sessionMutex (api_auth sample_api) = Sem_Free" "\<not> public_route ?r"
    by (simp_all add: sample_api_def public_route_def sample_request_def)
  ultimately show ?thesis
    using non_administrator_harmless [OF t refl _ _ _ prod.collapse [symmetric]] by (simp add: USER_ROLE_USER_def USER_ROLE_ADMINISTRATOR_def)
qed

end
