(* ===== verification/Api_References.thy ===== *)
theory Api_References
  imports Api_Security
begin

text \<open>
  The three configuration stores are kept consistent by the request handlers only: every trust anchor
  that a configured resource or the enabled callback refers to is present in the trust store. The
  handlers check it in different places (before adding a reference, before removing an anchor); here
  it is an invariant of the whole interface on flash memory without faults.
\<close>

section \<open>References\<close>

definition anchor_present :: "trust_store \<Rightarrow> u8 \<Rightarrow> bool" where
  "anchor_present ts i \<longleftrightarrow> unat i \<le> TLS_TRUST_STORE_MAX_PERSISTED
     \<and> ta_occupied (ts_anchors (trustStoreSnapshot ts) ! unat i) \<noteq> 0"

definition hc_refs :: "health_check_config \<Rightarrow> u8 set" where
  "hc_refs hc = hr_trustAnchorId ` {r \<in> set (hc_resources (hc_snapshot hc)). hr_occupied r \<noteq> 0}"

definition cb_refs :: "callback_config \<Rightarrow> u8 set" where
  "cb_refs cb = (let c = cs_config (cb_snapshot cb) in if cb_enabled c \<noteq> 0 then {cb_trustAnchorId c} else {})"

definition dangling :: "api \<Rightarrow> u8 set" where
  "dangling a = {i \<in> hc_refs (api_hc a) \<union> cb_refs (api_cb a). \<not> anchor_present (api_ts a) i}"

definition refs_kept :: "api \<Rightarrow> api \<Rightarrow> bool" where
  "refs_kept a b \<longleftrightarrow> dangling b \<subseteq> dangling a"

definition api_ready :: "api \<Rightarrow> bool" where
  "api_ready a \<longleftrightarrow> flash_ready (api_flash a) \<and> ts_inv (trustStoreSnapshot (api_ts a))
     \<and> hc_configMutex (api_hc a) = Sem_Free \<and> callbackConfigMutex (api_cb a) = Sem_Free
     \<and> trustStoreMutex (api_ts a) = Sem_Free"

lemma refs_kept_refl [simp]: "refs_kept a a"
  by (simp add: refs_kept_def)

section \<open>What the stores do with references\<close>

lemma hc_refs_mutex [simp]: "hc_refs (st\<lparr>hc_configMutex := m\<rparr>) = hc_refs st"
  by (simp add: hc_refs_def)

lemma hc_refs_commit:
  assumes "healthCheckConfig_Commit (st\<lparr>hc_configMutex := Sem_Held\<rparr>) Sem_Held f
        ((hc_snapshot st)\<lparr>hc_resources := (hc_resources (hc_snapshot st))[i := x]\<rparr>) = (s, st', f')"
    and "hc_configMutex st = Sem_Free"
  shows "hc_refs st' \<subseteq> (if hr_occupied x = 0 then {} else {hr_trustAnchorId x}) \<union> hc_refs st"
proof -
  have "st' = st \<or> hc_resources (hc_snapshot st') = (hc_resources (hc_snapshot st))[i := x]"
    using healthCheckConfig_Commit_outcome [OF assms] by auto
  then show ?thesis
    using set_update_subset_insert [of "hc_resources (hc_snapshot st)" i x]
    by (auto simp: hc_refs_def simp del: set_update_subset_insert)
qed

lemma HealthCheckConfig_AddResource_refs:
  assumes "HealthCheckConfig_AddResource st f host port path enabled anchor = (s, i, st', f')"
    and "hc_configMutex st = Sem_Free"
  shows "hc_refs st' \<subseteq> insert anchor (hc_refs st)"
  using assms unfolding HealthCheckConfig_AddResource_def Let_def
  by (auto split: if_splits prod.splits dest!: hc_refs_commit)

lemma HealthCheckConfig_UpdateResource_refs:
  assumes "HealthCheckConfig_UpdateResource st f index host port path enabled anchor = (s, st', f')"
    and "hc_configMutex st = Sem_Free"
  shows "hc_refs st' \<subseteq> insert anchor (hc_refs st)"
  using assms unfolding HealthCheckConfig_UpdateResource_def Let_def
  by (auto split: if_splits dest!: hc_refs_commit)

lemma HealthCheckConfig_DeleteResource_refs:
  assumes "HealthCheckConfig_DeleteResource st f index = (s, st', f')" and "hc_configMutex st = Sem_Free"
  shows "hc_refs st' \<subseteq> hc_refs st"
proof -
  have "hr_occupied zero_resource = 0"
    by (simp add: zero_resource_def)
  then show ?thesis
    using assms unfolding HealthCheckConfig_DeleteResource_def Let_def
    by (auto split: if_splits dest!: hc_refs_commit)
qed

lemma HealthCheckConfig_SetPeriodSeconds_refs:
  assumes "HealthCheckConfig_SetPeriodSeconds st f p = (s, st', f')" and "hc_configMutex st = Sem_Free"
  shows "hc_refs st' = hc_refs st"
proof -
  consider "st' = st"
    | "healthCheckConfig_Commit (st\<lparr>hc_configMutex := Sem_Held\<rparr>) Sem_Held f
        ((hc_snapshot st)\<lparr>hc_periodSeconds := p\<rparr>) = (s, st', f')"
    using assms by (auto simp: HealthCheckConfig_SetPeriodSeconds_def split: if_splits)
  then show ?thesis
  proof cases
    case 2
    then show ?thesis
      using healthCheckConfig_Commit_outcome [OF 2 assms(2)] by (auto simp: hc_refs_def)
  qed simp
qed

lemma CallbackConfig_Set_refs:
  assumes "CallbackConfig_Set st f config = (s, st', f')"
  shows "cb_refs st' \<subseteq> insert (cb_trustAnchorId config) (cb_refs st)"
  using assms
  by (auto simp: CallbackConfig_Set_def callbackConfig_Save_ab cb_refs_def Let_def split: if_splits option.splits prod.splits)

lemma anchor_present_mutex [simp]: "anchor_present (st\<lparr>trustStoreMutex := m\<rparr>) i = anchor_present st i"
  by (simp add: anchor_present_def)

text \<open>Committing a change of one slot or of all of them, without faults.\<close>

lemma commit_anchors:
  assumes "tlsTrustStore_CommitCandidate st f = (s, st', f')" and "flash_ready f" and "ts_inv (trustStoreSnapshot st)"
  shows "ts_anchors (trustStoreSnapshot st') = ts_anchors (trustStoreSnapshot st)"
  using tlsTrustStore_CommitCandidate_ready [OF assms(2,3)] assms(1) by auto

lemma put_anchor_present:
  assumes "tlsTrustStore_PutAnchor mb st f slot der = (s, st', f')" and "flash_ready f" and "ts_inv (trustStoreSnapshot st)"
    and "dn_gets_contract mb" and "anchor_present st i"
  shows "anchor_present st' i"
proof (cases "snd (tlsTrustStore_ValidateDer mb der)")
  case None
  then show ?thesis
    using assms(1,5) by (auto simp: tlsTrustStore_PutAnchor_def split: prod.splits)
next
  case (Some a)
  then obtain s1 where v: "tlsTrustStore_ValidateDer mb der = (s1, Some a)"
    by (metis prod.collapse)
  note a = tlsTrustStore_ValidateDer_anchor [OF v assms(4)]
  let ?st = "st\<lparr>trustStoreSnapshot := (trustStoreSnapshot st)\<lparr>ts_anchors := (ts_anchors (trustStoreSnapshot st))[slot := a]\<rparr>\<rparr>"
  have "tlsTrustStore_CommitCandidate ?st f = (s, st', f')"
    using assms(1) v by (simp add: tlsTrustStore_PutAnchor_def Let_def)
  then have "ts_anchors (trustStoreSnapshot st') = (ts_anchors (trustStoreSnapshot st))[slot := a]"
    using commit_anchors [of ?st] assms(2) ts_inv_update [OF assms(3) a(2,3)] by simp
  moreover have "unat i < length (ts_anchors (trustStoreSnapshot st))"
    using assms(3,5) by (simp add: anchor_present_def ts_inv_def wf_ts_snapshot_def TLS_TRUST_STORE_MAX_PERSISTED_def)
  ultimately show ?thesis
    using assms(5) a(4) by (cases "slot = unat i") (auto simp: anchor_present_def)
qed

lemma TlsTrustStore_Add_present:
  assumes "TlsTrustStore_Add mb st f der = (s, slot, st', f')" and "flash_ready f" and "ts_inv (trustStoreSnapshot st)"
    and "dn_gets_contract mb" and "anchor_present st i"
  shows "anchor_present st' i"
  using assms put_anchor_present [of mb "st\<lparr>trustStoreMutex := Sem_Held\<rparr>" f _ der]
  by (auto simp: TlsTrustStore_Add_def xSemaphoreTake_def Let_def split: if_splits prod.splits)

lemma TlsTrustStore_Replace_present:
  assumes "TlsTrustStore_Replace mb st f k der = (s, st', f')" and "flash_ready f" and "ts_inv (trustStoreSnapshot st)"
    and "dn_gets_contract mb" and "anchor_present st i"
  shows "anchor_present st' i"
  using assms put_anchor_present [of mb "st\<lparr>trustStoreMutex := Sem_Held\<rparr>" f _ der]
  by (auto simp: TlsTrustStore_Replace_def xSemaphoreTake_def Let_def split: if_splits prod.splits)

lemma zero_anchor_ok: "wf_anchor zero_anchor" "anchor_valid zero_anchor"
  using ts_inv_zero by (auto simp: ts_inv_def wf_ts_snapshot_def zero_ts_snapshot_def list_all_iff)

lemma TlsTrustStore_Delete_present:
  assumes "TlsTrustStore_Delete st f k = (s, st', f')" and "flash_ready f" and "ts_inv (trustStoreSnapshot st)"
    and "anchor_present st i" and "i \<noteq> k"
  shows "anchor_present st' i"
proof -
  let ?c = "st\<lparr>trustStoreMutex := Sem_Held, trustStoreSnapshot := (trustStoreSnapshot st)\<lparr>ts_anchors :=
      (ts_anchors (trustStoreSnapshot st))[unat k := zero_anchor]\<rparr>\<rparr>"
  consider "trustStoreSnapshot st' = trustStoreSnapshot st"
    | st1 where "tlsTrustStore_CommitCandidate ?c f = (s, st1, f')" "trustStoreSnapshot st' = trustStoreSnapshot st1"
    using assms(1) by (auto simp: TlsTrustStore_Delete_def xSemaphoreTake_def Let_def split: if_splits prod.splits)
  then show ?thesis
  proof cases
    case 1
    then show ?thesis
      using assms(4) by (simp add: anchor_present_def)
  next
    case 2
    have "ts_anchors (trustStoreSnapshot st') = (ts_anchors (trustStoreSnapshot st))[unat k := zero_anchor]"
      using commit_anchors [OF 2(1) assms(2)] 2(2) ts_inv_update [OF assms(3) zero_anchor_ok] by simp
    moreover have "unat i \<noteq> unat k"
      using assms(5) by (simp add: unat_arith_simps word_unat_eq_iff)
    ultimately show ?thesis
      using assms(4) by (simp add: anchor_present_def)
  qed
qed

section \<open>The checks of the handlers\<close>

lemma hc_free_eta: "hc_configMutex st = Sem_Free \<Longrightarrow> st\<lparr>hc_configMutex := Sem_Free\<rparr> = st"
  by (cases st) simp

lemma cb_free_eta: "callbackConfigMutex st = Sem_Free \<Longrightarrow> st\<lparr>callbackConfigMutex := Sem_Free\<rparr> = st"
  by (cases st) simp

lemma CallbackConfig_Get_free:
  "callbackConfigMutex st = Sem_Free \<Longrightarrow> CallbackConfig_Get st = (cs_config (cb_snapshot st), st)"
  by (simp add: CallbackConfig_Get_def cb_free_eta)

lemma api_AnchorInUse_free:
  assumes "api_ready a"
  shows "api_AnchorInUse a i = (i \<in> hc_refs (api_hc a) \<union> cb_refs (api_cb a), a)"
proof -
  have "hc_configMutex (api_hc a) = Sem_Free" "callbackConfigMutex (api_cb a) = Sem_Free"
    using assms by (auto simp: api_ready_def)
  moreover from this have "a\<lparr>api_hc := api_hc a\<rparr> = a" "a\<lparr>api_cb := api_cb a\<rparr> = a"
    by auto
  ultimately show ?thesis
    by (auto simp: api_AnchorInUse_def HealthCheckConfig_IsTrustAnchorInUse_def CallbackConfig_IsTrustAnchorInUse_def
        CallbackConfig_Get_free hc_free_eta hc_refs_def cb_refs_def Let_def list_ex_iff)
qed

lemma api_AnyAnchorInUse_free:
  assumes "api_ready a"
  shows "api_AnyAnchorInUse a is = ((\<exists>i\<in>set is. of_nat i \<in> hc_refs (api_hc a) \<union> cb_refs (api_cb a)), a)"
  by (induction "is") (auto simp: api_AnchorInUse_free [OF assms])

lemma trust_anchor_known_free:
  assumes "api_ready a"
  shows "trust_anchor_known a i = (unat i \<le> TLS_TRUST_STORE_MAX_PERSISTED \<and> anchor_present (api_ts a) (ucast i), a)"
proof -
  have free: "trustStoreMutex (api_ts a) = Sem_Free"
    using assms by (simp add: api_ready_def)
  have small: "unat (ucast i :: u8) = unat i" if "unat i \<le> TLS_TRUST_STORE_MAX_PERSISTED"
    using that by (simp add: unsigned_ucast_eq take_bit_eq_mod TLS_TRUST_STORE_MAX_PERSISTED_def)
  show ?thesis
    using free ts_eta [OF free] small
    by (auto simp: trust_anchor_known_def TlsTrustStore_Exists_def anchor_present_def)
qed

lemma api_Resources_free: "api_ready a \<Longrightarrow> api_Resources env a = (hc_resources (hc_snapshot (api_hc a)), a)"
  by (simp add: api_ready_def api_Resources_def HealthCheckConfig_GetResources_def hc_free_eta)

section \<open>The handlers keep the references\<close>

lemma only_ssl_store_errors [simp]:
  "only_ssl a (apiService_TrustStoreError a status)" "only_ssl a (apiService_TlsCredentialsRespond a st awaiting invalid)"
proof -
  show "only_ssl a (apiService_TrustStoreError a status)"
    by (cases status) (simp_all add: apiService_TrustStoreError_def)
  show "only_ssl a (apiService_TlsCredentialsRespond a st awaiting invalid)"
    by (cases st) (simp_all add: apiService_TlsCredentialsRespond_def)
qed

lemma only_ssl_refs: "only_ssl a out \<Longrightarrow> refs_kept x (snd out) = refs_kept x a"
  by (auto simp: only_ssl_def refs_kept_def dangling_def)

lemma respond_refs [simp]:
  "refs_kept x (snd (api_Respond a status reason json)) = refs_kept x a" "refs_kept x (snd (api_Error a status reason code)) = refs_kept x a"
  "refs_kept x (snd (api_Forbidden a)) = refs_kept x a" "refs_kept x (snd (response_too_large a)) = refs_kept x a"
  "refs_kept x (snd (apiService_TrustStoreError a tstatus)) = refs_kept x a"
  "refs_kept x (snd (apiService_TlsCredentialsRespond a cstatus awaiting invalid)) = refs_kept x a"
  by (rule only_ssl_refs, simp)+

lemma tokens_refs [simp]: "refs_kept x (snd (apiService_Tokens a tokens)) = refs_kept x a"
  by (simp add: apiService_Tokens_def split: option.split)

lemma api_AddTrustAnchor_refs:
  assumes "api_ready a" and "dn_gets_contract (ae_trust env)"
  shows "refs_kept a (snd (api_AddTrustAnchor env a r who))"
proof -
  obtain s i ts f where t: "TlsTrustStore_Add (ae_trust env) (api_ts a) (api_flash a) (api_body_bytes r) = (s, i, ts, f)"
    by (metis prod_cases4)
  have "anchor_present (api_ts a) k \<Longrightarrow> anchor_present ts k" for k
    using TlsTrustStore_Add_present [OF t] assms by (auto simp: api_ready_def)
  then have "refs_kept a (a\<lparr>api_ts := ts, api_flash := f\<rparr>)"
    by (auto simp: refs_kept_def dangling_def)
  then show ?thesis
    by (simp add: api_AddTrustAnchor_def t Let_def)
qed

lemma api_ClearTrustAnchors_refs:
  assumes "api_ready a"
  shows "refs_kept a (snd (api_ClearTrustAnchors a who))"
proof -
  let ?refs = "hc_refs (api_hc a) \<union> cb_refs (api_cb a)"
  let ?used = "\<exists>i\<in>set [0..<Suc TLS_TRUST_STORE_MAX_PERSISTED]. of_nat i \<in> ?refs"
  obtain s ts f where t: "TlsTrustStore_Reset (api_ts a) (api_flash a) = (s, ts, f)"
    by (metis prod_cases3)
  have "unat k > TLS_TRUST_STORE_MAX_PERSISTED" if "\<not> ?used" "k \<in> ?refs" for k
  proof (rule ccontr)
    assume "\<not> unat k > TLS_TRUST_STORE_MAX_PERSISTED"
    then have "unat k \<in> set [0..<Suc TLS_TRUST_STORE_MAX_PERSISTED]"
      by auto
    moreover have "of_nat (unat k) \<in> ?refs"
      using that(2) by simp
    ultimately show False
      using that(1) by blast
  qed
  then have "refs_kept a (a\<lparr>api_ts := ts, api_flash := f\<rparr>)" if "\<not> ?used"
    using that by (fastforce simp: refs_kept_def dangling_def anchor_present_def simp del: set_upt upt.simps)
  then show ?thesis
    unfolding api_ClearTrustAnchors_def api_AnyAnchorInUse_free [OF assms(1)]
    by (simp add: t Let_def del: set_upt upt.simps)
qed

lemma api_ChangeTrustAnchor_refs:
  assumes "api_ready a" and "dn_gets_contract (ae_trust env)"
  shows "refs_kept a (snd (api_ChangeTrustAnchor env a r who deleting))"
proof -
  have del: "refs_kept a (a\<lparr>api_ts := ts, api_flash := f\<rparr>)"
    if "TlsTrustStore_Delete (api_ts a) (api_flash a) k = (s, ts, f)" "k \<notin> hc_refs (api_hc a) \<union> cb_refs (api_cb a)" for k s ts f
    using TlsTrustStore_Delete_present [OF that(1)] that(2) assms(1,2) by (fastforce simp: refs_kept_def dangling_def api_ready_def)
  have rep: "refs_kept a (a\<lparr>api_ts := ts, api_flash := f\<rparr>)"
    if "TlsTrustStore_Replace (ae_trust env) (api_ts a) (api_flash a) k der = (s, ts, f)" for k der s ts f
    using TlsTrustStore_Replace_present [OF that] assms by (auto simp: refs_kept_def dangling_def api_ready_def)
  show ?thesis
    unfolding api_ChangeTrustAnchor_def api_AnchorInUse_free [OF assms(1)]
    by (auto simp: Let_def split: option.splits prod.splits dest: del rep)
qed

lemma refs_kept_hc:
  assumes "hc_refs hc \<subseteq> insert i (hc_refs (api_hc a))" and "anchor_present (api_ts a) i"
  shows "refs_kept a (a\<lparr>api_hc := hc, api_flash := f\<rparr>)"
  using assms by (auto simp: refs_kept_def dangling_def)

lemma refs_kept_cb:
  assumes "cb_refs cb \<subseteq> insert i (cb_refs (api_cb a))" and "anchor_present (api_ts a) i"
  shows "refs_kept a (a\<lparr>api_cb := cb, api_flash := f\<rparr>)"
  using assms by (auto simp: refs_kept_def dangling_def)

lemma api_PutCallback_refs:
  assumes "api_ready a"
  shows "refs_kept a (snd (api_PutCallback a r who))"
proof -
  have free: "callbackConfigMutex (api_cb a) = Sem_Free" and eta: "a\<lparr>api_cb := api_cb a\<rparr> = a"
    using assms(1) by (auto simp: api_ready_def)
  have set: "refs_kept a (a\<lparr>api_cb := cb, api_flash := f\<rparr>)"
    if "CallbackConfig_Set (api_cb a) (api_flash a) config = (s, cb, f)" "anchor_present (api_ts a) (cb_trustAnchorId config)"
    for config s cb f
    using refs_kept_cb [OF CallbackConfig_Set_refs [OF that(1)] that(2)] .
  show ?thesis
    unfolding api_PutCallback_def CallbackConfig_Get_free [OF free] prod.case eta Let_def
    by (simp add: trust_anchor_known_free [OF assms(1)] split: option.split prod.split) (auto dest: set)
qed

lemma api_PutHealthCheck_refs:
  assumes "api_ready a"
  shows "refs_kept a (snd (api_PutHealthCheck a r who))"
proof -
  have "refs_kept a (a\<lparr>api_hc := hc, api_flash := f\<rparr>)"
    if "HealthCheckConfig_SetPeriodSeconds (api_hc a) (api_flash a) period = (s, hc, f)" for period s hc f
    using HealthCheckConfig_SetPeriodSeconds_refs [OF that] assms by (auto simp: refs_kept_def dangling_def api_ready_def)
  then show ?thesis
    by (auto simp: api_PutHealthCheck_def Let_def split: option.splits prod.splits)
qed


lemma api_AddResource_refs:
  assumes "api_ready a"
  shows "refs_kept a (snd (api_AddResource a r who))"
proof -
  have free: "hc_configMutex (api_hc a) = Sem_Free"
    using assms(1) by (simp add: api_ready_def)
  have add: "refs_kept a (a\<lparr>api_hc := hc, api_flash := f\<rparr>)"
    if "HealthCheckConfig_AddResource (api_hc a) (api_flash a) host port path enabled anchor = (s, i, hc, f)"
      "anchor_present (api_ts a) anchor" for host port path enabled anchor s i hc f
    using refs_kept_hc [OF HealthCheckConfig_AddResource_refs [OF that(1) free] that(2)] .
  show ?thesis
    unfolding api_AddResource_def Let_def
    by (simp add: trust_anchor_known_free [OF assms(1)] split: option.split prod.split) (auto dest: add)
qed

lemma api_DeleteResource_refs:
  assumes "api_ready a"
  shows "refs_kept a (snd (api_DeleteResource a index))"
proof -
  obtain s hc f where t: "HealthCheckConfig_DeleteResource (api_hc a) (api_flash a) index = (s, hc, f)"
    by (metis prod_cases3)
  have "refs_kept a (a\<lparr>api_hc := hc, api_flash := f\<rparr>)"
    using HealthCheckConfig_DeleteResource_refs [OF t] assms by (auto simp: refs_kept_def dangling_def api_ready_def)
  then show ?thesis
    by (simp add: api_DeleteResource_def t Let_def)
qed

lemma api_UpdateResource_refs:
  assumes "api_ready a"
  shows "refs_kept a (snd (api_UpdateResource env a r index))"
proof -
  have free: "hc_configMutex (api_hc a) = Sem_Free"
    using assms(1) by (simp add: api_ready_def)
  have update: "refs_kept a (a\<lparr>api_hc := hc, api_flash := f\<rparr>)"
    if "HealthCheckConfig_UpdateResource (api_hc a) (api_flash a) index host port path enabled anchor = (s, hc, f)"
      "anchor_present (api_ts a) anchor" for host port path enabled anchor s hc f
    using refs_kept_hc [OF HealthCheckConfig_UpdateResource_refs [OF that(1) free] that(2)] .
  show ?thesis
    unfolding api_UpdateResource_def api_Resources_free [OF assms(1)] prod.case Let_def
    by (simp add: trust_anchor_known_free [OF assms(1)] split: option.split prod.split) (auto dest: update)
qed

lemma api_ChangeResource_refs:
  "api_ready a \<Longrightarrow> refs_kept a (snd (api_ChangeResource env a r who deleting))"
  by (simp add: api_ChangeResource_def api_DeleteResource_refs api_UpdateResource_refs split: option.split)


text \<open>The routes that leave all three stores alone.\<close>

lemma refs_kept_frame [simp]:
  "refs_kept x (a\<lparr>api_ssl := x1\<rparr>) = refs_kept x a" "refs_kept x (a\<lparr>api_tls := x2\<rparr>) = refs_kept x a"
  "refs_kept x (a\<lparr>api_auth := x3\<rparr>) = refs_kept x a" "refs_kept x (a\<lparr>api_users := x4\<rparr>) = refs_kept x a"
  "refs_kept x (a\<lparr>api_flash := x5\<rparr>) = refs_kept x a" "refs_kept x (a\<lparr>api_sc := x6\<rparr>) = refs_kept x a"
  "refs_kept x (a\<lparr>api_log := x7\<rparr>) = refs_kept x a" "refs_kept x (a\<lparr>api_temperature := x8\<rparr>) = refs_kept x a"
  "refs_kept x (a\<lparr>api_buzzer := x9\<rparr>) = refs_kept x a"
  by (simp_all add: refs_kept_def dangling_def)

lemma keeps_data_refs: "keeps_data a b \<Longrightarrow> refs_kept x b = refs_kept x a"
  by (simp add: keeps_data_def refs_kept_def dangling_def hc_refs_def cb_refs_def anchor_present_def)

lemmas harmless_routes = api_ListTrustAnchors_harmless api_GetCallback_harmless api_GetHealthCheck_harmless
  api_Logs_harmless api_Temperature_harmless api_Clock_harmless api_Health_harmless

lemma harmless_refs: "harmless a out \<Longrightarrow> refs_kept x (snd out) = refs_kept x a"
  by (simp add: harmless_def keeps_data_refs)

lemma session_routes_refs [simp]:
  "refs_kept x (snd (api_Login env a r)) = refs_kept x a" "refs_kept x (snd (api_Refresh env a r)) = refs_kept x a"
  "refs_kept x (snd (api_Revoke env a r)) = refs_kept x a" "refs_kept x (snd (api_BuzzerTest a r who)) = refs_kept x a"
  by (auto simp: api_Login_def api_Refresh_def api_Revoke_def api_BuzzerTest_def Let_def
      split: option.split prod.split)

lemma user_target_refs: "api_UserTarget a r creating = (target, a1) \<Longrightarrow> refs_kept x a1 = refs_kept x a"
  by (auto simp: api_UserTarget_def split: if_splits option.splits prod.splits)

lemma api_ListUsers_refs [simp]: "refs_kept x (snd (api_ListUsers a who)) = refs_kept x a"
  by (auto simp: api_ListUsers_def Let_def split: option.split prod.split)

lemma api_DeleteUser_refs [simp]: "refs_kept x (snd (api_DeleteUser a r who)) = refs_kept x a"
  by (simp add: api_DeleteUser_def Let_def split: prod.split)

lemma api_PutUser_refs [simp]: "refs_kept x (snd (api_PutUser env a r who creating)) = refs_kept x a"
proof -
  obtain target a1 where t: "api_UserTarget a r creating = (target, a1)"
    by fastforce
  show ?thesis
    by (simp add: api_PutUser_def t Let_def user_target_refs [OF t] split: option.split prod.split)
qed

lemma credential_routes_refs [simp]:
  "refs_kept x (snd (api_PutCertificate env a r who)) = refs_kept x a" "refs_kept x (snd (api_PutPrivateKey env a r who)) = refs_kept x a"
  by (auto simp: api_PutCertificate_def api_PutPrivateKey_def split: prod.split)

lemma api_Route_refs:
  assumes "api_ready a" and "dn_gets_contract (ae_trust env)"
  shows "refs_kept a (snd (api_Route env a r who))"
  using assms unfolding api_Route_def Let_def
  by (simp add: api_AddTrustAnchor_refs api_ClearTrustAnchors_refs api_ChangeTrustAnchor_refs api_PutCallback_refs
      api_PutHealthCheck_refs api_AddResource_refs api_ChangeResource_refs harmless_routes [THEN harmless_refs])

section \<open>Property\<close>

text \<open>
  C3: while the flash chip has no faults and no other task holds one of the stores, whatever request
  arrives, from whomever and however it ends, no configured resource and no enabled callback comes to
  refer to a trust anchor that is missing in the trust store: the missing ones after the request were
  missing before it. The X.509 library is assumed to report the length of the subject name it prints.
  With a commit that fails in flash and a failing read-back the trust store in memory can be
  overwritten in part, so the assumption on the flash is needed.
\<close>

theorem apiService_Dispatch_keeps_references:
  assumes "api_ready a" and "dn_gets_contract (ae_trust env)" and "apiService_Dispatch env a r = (res, b)"
  shows "dangling b \<subseteq> dangling a"
proof -
  obtain s who auth where t: "AuthService_Authorize (ae_crypto env) (ae_now env) (api_auth a) (rq_authorization r) = (s, who, auth)"
    by (metis prod_cases3)
  have "api_ready (a\<lparr>api_auth := auth\<rparr>)" "refs_kept (a\<lparr>api_auth := auth\<rparr>) = refs_kept a"
    using assms(1) by (auto simp: api_ready_def refs_kept_def dangling_def)
  then have "refs_kept a (snd (api_Route env (a\<lparr>api_auth := auth\<rparr>) r who))" for who
    using api_Route_refs [of "a\<lparr>api_auth := auth\<rparr>" env r who] assms(2) by simp
  then have "refs_kept a (snd (apiService_Dispatch env a r))"
    unfolding apiService_Dispatch_def apiService_Authorize_def t
    by (simp add: harmless_routes [THEN harmless_refs] split: option.split)
  then show ?thesis
    using assms(3) by (simp add: refs_kept_def)
qed

text \<open>The built-in configuration refers to the anchor in slot 0, which a stored certificate fills.\<close>

definition sample_anchor :: TlsTrustStore_AnchorTypeDef where
  "sample_anchor = zero_anchor\<lparr>ta_occupied := 1, ta_derLength := 3\<rparr>"

definition referring_api :: api where
  "referring_api = sample_api\<lparr>api_ts := empty_trust_store\<lparr>trustStoreSnapshot :=
     zero_ts_snapshot\<lparr>ts_anchors := (ts_anchors zero_ts_snapshot)[0 := sample_anchor]\<rparr>\<rparr>\<rparr>"

theorem apiService_Dispatch_keeps_references_witness:
  "hc_refs (api_hc referring_api) = {0} \<and> dangling (snd (apiService_Dispatch sample_env referring_api
     (sample_request ''DELETE'' ''/api/v1/trust-anchors/0'' (replicate 64 CHR ''a'')))) = {}"
proof -
  have "map hr_trustAnchorId (filter (\<lambda>r. hr_occupied r \<noteq> 0) (hc_resources healthCheckConfig_SetDefault)) = [0]"
    by code_simp
  then have "hr_trustAnchorId ` set (filter (\<lambda>r. hr_occupied r \<noteq> 0) (hc_resources healthCheckConfig_SetDefault)) = {0}"
    by (metis list.set(1) list.simps(15) set_map)
  then have hc: "hc_refs (api_hc referring_api) = {0}"
    by (simp add: hc_refs_def referring_api_def sample_api_def sample_hc_def)
  have "cb_refs (api_cb referring_api) = {}"
    by (simp add: cb_refs_def referring_api_def sample_api_def sample_cb_def zero_cb_snapshot_def zero_callback_def)
  moreover have "anchor_present (api_ts referring_api) 0"
    by (simp add: anchor_present_def referring_api_def sample_anchor_def zero_ts_snapshot_def empty_trust_store_def)
  ultimately have "dangling referring_api = {}"
    using hc by (simp add: dangling_def)
  moreover have "wf_anchor sample_anchor" "anchor_valid sample_anchor"
    by (simp_all add: sample_anchor_def wf_anchor_def anchor_valid_def zero_anchor_def TLS_TRUST_STORE_MAX_DER_SIZE_def)
  then have "api_ready referring_api"
    using ts_inv_update [OF ts_inv_zero, of sample_anchor 0] blank_ready
    by (simp add: api_ready_def referring_api_def sample_api_def sample_hc_def empty_trust_store_def)
  moreover have "dn_gets_contract (ae_trust sample_env)"
    by (simp add: sample_env_def dn_gets_contract_toy)
  ultimately show ?thesis
    using hc apiService_Dispatch_keeps_references [of referring_api sample_env] by (metis prod.collapse subset_empty)
qed

end
