(* ===== verification/Onewire_Search.thy ===== *)
theory Onewire_Search
  imports Onewire "HOL-Library.List_Lexorder"
begin

text \<open>
  Correctness of the ROM search of \<^verbatim>\<open>Periph/Src/onewire.c\<close>. The device side of the search protocol is
  a small state machine over the slots since the last reset; the line is the wired-and of all
  devices still taking part. Each pass of the driver finds the next larger ROM in the order of the
  bits as they are sent, so that the passes enumerate the devices on the bus.
\<close>

section \<open>Devices following the search protocol\<close>

definition rom_bits :: "u8 list \<Rightarrow> bool list" where
  "rom_bits rom = map (\<lambda>i. bit (rom ! (i div 8)) (i mod 8)) [0..<64]"

datatype device_state =
    Dev_Command "bool list"
  | Dev_Search "bool list" nat
  | Dev_Off

definition search_command :: "bool list" where
  "search_command = map (bit ONEWIRE_COMMAND_SEARCH_ROM) [0..<8]"

fun dev_step :: "bus_event \<Rightarrow> device_state \<Rightarrow> device_state" where
  "dev_step Bus_Reset s = Dev_Command []"
| "dev_step (Bus_Write v) (Dev_Command bits) =
     (if length bits < 7 then Dev_Command (bits @ [v])
      else if bits @ [v] = search_command then Dev_Search [] 0 else Dev_Off)"
| "dev_step (Bus_Write v) (Dev_Search dirs n) = (if n = 2 then Dev_Search (dirs @ [v]) 0 else Dev_Off)"
| "dev_step Bus_Read (Dev_Search dirs n) = (if n < 2 then Dev_Search dirs (Suc n) else Dev_Off)"
| "dev_step _ _ = Dev_Off"

definition dev_state :: "bus_event list \<Rightarrow> device_state" where
  "dev_state h = foldr dev_step h Dev_Off"

text \<open>The devices that still take part after the directions sent so far.\<close>

definition active :: "bool list set \<Rightarrow> bool list \<Rightarrow> bool list set" where
  "active D dirs = {r \<in> D. take (length dirs) r = dirs}"

fun search_env :: "bool list set \<Rightarrow> bus_event list \<Rightarrow> bool" where
  "search_env D (Bus_Reset # h) \<longleftrightarrow> D = {}"
| "search_env D (Bus_Read # h) \<longleftrightarrow>
     (case dev_state h of
        Dev_Search dirs n \<Rightarrow>
          if n = 0 then (\<forall>r\<in>active D dirs. r ! length dirs)
          else if n = 1 then (\<forall>r\<in>active D dirs. \<not> r ! length dirs)
          else True
      | _ \<Rightarrow> True)"
| "search_env D h \<longleftrightarrow> True"

definition searching :: "bool list set \<Rightarrow> bool list \<Rightarrow> onewire_bus \<Rightarrow> bool" where
  "searching D dirs b \<longleftrightarrow> bus_env b = search_env D \<and> dev_state (bus_history b) = Dev_Search dirs 0"

lemma OneWire_WriteByte_history:
  "bus_history (OneWire_WriteByte b v)
     = [Bus_Write (bit v 7), Bus_Write (bit v 6), Bus_Write (bit v 5), Bus_Write (bit v 4),
        Bus_Write (bit v 3), Bus_Write (bit v 2), Bus_Write (bit v 1), Bus_Write (bit v 0)] @ bus_history b"
  by (simp add: OneWire_WriteByte_def numeral_eq_Suc oneWire_WriteBit_def bit_iff_odd_drop_bit and_one_eq odd_iff_mod_2_eq_one)

lemma search_start:
  assumes "bus_env b = search_env D" and "D \<noteq> {}" and "OneWire_Reset b = (s, b1)"
  shows "s = SUCCESS" and "searching D [] (OneWire_WriteByte b1 ONEWIRE_COMMAND_SEARCH_ROM)"
proof -
  have b1: "b1 = b\<lparr>bus_history := Bus_Reset # bus_history b\<rparr>" and "s = SUCCESS"
    using assms by (auto simp: OneWire_Reset_def Let_def)
  then show "s = SUCCESS"
    by simp
  have h: "bus_history (OneWire_WriteByte b1 ONEWIRE_COMMAND_SEARCH_ROM)
      = [Bus_Write True, Bus_Write True, Bus_Write True, Bus_Write True,
         Bus_Write False, Bus_Write False, Bus_Write False, Bus_Write False] @ Bus_Reset # bus_history b"
    unfolding b1 OneWire_WriteByte_history by (simp add: ONEWIRE_COMMAND_SEARCH_ROM_def)
  have c: "search_command = [False, False, False, False, True, True, True, True]"
    by (simp add: search_command_def ONEWIRE_COMMAND_SEARCH_ROM_def upt_rec)
  have e: "bus_env (OneWire_WriteByte b1 ONEWIRE_COMMAND_SEARCH_ROM) = bus_env b"
    unfolding b1 by (simp add: OneWire_WriteByte_def numeral_eq_Suc oneWire_WriteBit_def)
  show "searching D [] (OneWire_WriteByte b1 ONEWIRE_COMMAND_SEARCH_ROM)"
    using assms(1) by (simp add: searching_def e h dev_state_def c)
qed

lemma search_slot:
  assumes "searching D dirs b" and "OneWire_ReadBit b = (one, b1)" and "OneWire_ReadBit b1 = (zero, b2)"
  shows "one \<longleftrightarrow> (\<forall>r\<in>active D dirs. r ! length dirs)" and "zero \<longleftrightarrow> (\<forall>r\<in>active D dirs. \<not> r ! length dirs)"
    and "searching D (dirs @ [d]) (oneWire_WriteBit b2 d)"
  using assms by (auto simp: searching_def OneWire_ReadBit_def Let_def dev_state_def oneWire_WriteBit_def)

section \<open>Bits of the ROM array\<close>

lemma length_rom_bits [simp]: "length (rom_bits rom) = 64"
  by (simp add: rom_bits_def)

lemma rom_bits_nth [simp]: "i < 64 \<Longrightarrow> rom_bits rom ! i = bit (rom ! (i div 8)) (i mod 8)"
  by (simp add: rom_bits_def)

lemma rom_bit_test:
  "k < 64 \<Longrightarrow> (rom ! (k div 8) AND push_bit (k mod 8) 1 \<noteq> (0 :: u8)) = rom_bits rom ! k"
  by (simp add: power_bit_u8)

lemma rom_bits_update:
  assumes "length rom = 8" and "k < 64"
  shows "rom_bits (rom[k div 8 := (if d then rom ! (k div 8) OR push_bit (k mod 8) 1
      else rom ! (k div 8) AND NOT (push_bit (k mod 8) 1))]) = (rom_bits rom)[k := d]"
proof (rule nth_equalityI)
  fix i assume "i < length (rom_bits (rom[k div 8 := (if d then rom ! (k div 8) OR push_bit (k mod 8) 1
      else rom ! (k div 8) AND NOT (push_bit (k mod 8) 1))]))"
  then have i: "i < 64"
    by simp
  have "k div 8 < 8" "i mod 8 < 8"
    using assms(2) by auto
  moreover have "i = k \<longleftrightarrow> i div 8 = k div 8 \<and> i mod 8 = k mod 8"
    by (metis div_mult_mod_eq)
  ultimately show "rom_bits (rom[k div 8 := (if d then rom ! (k div 8) OR push_bit (k mod 8) 1
      else rom ! (k div 8) AND NOT (push_bit (k mod 8) 1))]) ! i = (rom_bits rom)[k := d] ! i"
    using assms i by (auto simp: nth_list_update bit_simps)
qed simp

lemma rom_bits_inj: "length a = 8 \<Longrightarrow> length b = 8 \<Longrightarrow> rom_bits a = rom_bits b \<Longrightarrow> a = b"
proof (rule nth_equalityI)
  assume eq: "rom_bits a = rom_bits b" and len: "length a = 8" "length b = 8"
  fix i assume "i < length a"
  then have i: "i < 8"
    using len by simp
  show "a ! i = b ! i"
  proof (rule bit_word_eqI)
    fix n assume "n < LENGTH(8)"
    then have "i * 8 + n < 64" "(i * 8 + n) div 8 = i" "(i * 8 + n) mod 8 = n"
      using i by auto
    then show "bit (a ! i) n = bit (b ! i) n"
      using arg_cong [OF eq, of "\<lambda>xs. xs ! (i * 8 + n)"] by simp
  qed
qed simp

section \<open>One search pass\<close>

text \<open>
  The last position up to \<open>k\<close> at which the path \<open>p\<close> takes the zero branch although a device with
  the same bits so far has a one there: the discrepancy the driver returns to in the next pass.
\<close>

primrec branch_point :: "bool list set \<Rightarrow> bool list \<Rightarrow> nat \<Rightarrow> nat" where
  "branch_point D p 0 = 0"
| "branch_point D p (Suc k) = (if \<not> p ! k \<and> (\<exists>r\<in>D. take k r = take k p \<and> r ! k) then Suc k else branch_point D p k)"

lemma branch_point_append [simp]: "k \<le> length p \<Longrightarrow> branch_point D (p @ q) k = branch_point D p k"
  by (induction k) (auto simp: nth_append)

lemma branch_point_last:
  assumes "j < k" and "branch_point D p k \<le> j" and "\<not> p ! j" and "r \<in> D" and "take j r = take j p"
  shows "\<not> r ! j"
  using assms by (induction k) (auto simp: less_Suc_eq split: if_splits)

lemma branch_point_branches:
  assumes "branch_point D p k \<noteq> 0"
  shows "branch_point D p k \<le> k" and "\<not> p ! (branch_point D p k - 1)"
    and "\<exists>r\<in>D. take (branch_point D p k - 1) r = take (branch_point D p k - 1) p \<and> r ! (branch_point D p k - 1)"
  using assms by (induction k) (auto split: if_splits)

text \<open>Where a pass starts: fresh, or at the last branching point of a device found before.\<close>

definition pass_start :: "bool list set \<Rightarrow> bool list \<Rightarrow> nat \<Rightarrow> bool" where
  "pass_start D prev L \<longleftrightarrow> L = 0 \<or> prev \<in> D \<and> L = branch_point D prev 64"

definition pass_inv :: "bool list set \<Rightarrow> bool list \<Rightarrow> nat \<Rightarrow> u8 list \<Rightarrow> nat \<Rightarrow> bool list \<Rightarrow> bool" where
  "pass_inv D prev L rom disc dirs \<longleftrightarrow>
     length rom = 8 \<and> length dirs \<le> 64 \<and> rom_bits rom = dirs @ drop (length dirs) prev
     \<and> active D dirs \<noteq> {}
     \<and> (if length dirs < L then take (length dirs) prev = dirs
        else L = 0 \<or> take (L - 1) dirs = take (L - 1) prev \<and> dirs ! (L - 1))
     \<and> (\<forall>j<length dirs. L \<le> j \<longrightarrow> dirs ! j \<longrightarrow> (\<forall>r\<in>D. take j r = take j dirs \<longrightarrow> r ! j))
     \<and> disc = branch_point D dirs (length dirs)"

definition pass_direction :: "bool list set \<Rightarrow> bool list \<Rightarrow> nat \<Rightarrow> bool list \<Rightarrow> bool" where
  "pass_direction D prev L dirs =
     (if \<forall>r\<in>active D dirs. r ! length dirs then True
      else if \<forall>r\<in>active D dirs. \<not> r ! length dirs then False
      else if Suc (length dirs) < L then prev ! length dirs
      else Suc (length dirs) = L)"

lemma active_snoc:
  "(\<And>r. r \<in> D \<Longrightarrow> length r = 64) \<Longrightarrow> length dirs < 64
     \<Longrightarrow> active D (dirs @ [d]) = {r \<in> active D dirs. r ! length dirs = d}"
  by (fastforce simp: active_def take_Suc_conv_app_nth)

lemma pass_direction_active:
  assumes "\<And>r. r \<in> D \<Longrightarrow> length r = 64" and "length dirs < 64" and "active D dirs \<noteq> {}"
  shows "active D (dirs @ [pass_direction D prev L dirs]) \<noteq> {}"
proof -
  have "\<exists>r\<in>active D dirs. r ! length dirs = pass_direction D prev L dirs"
    using assms(3) by (auto simp: pass_direction_def)
  then show ?thesis
    using active_snoc [OF assms(1,2)] by auto
qed

lemma pass_direction_follows:
  assumes "pass_start D prev L" and "length dirs < L" and "take (length dirs) prev = dirs" and "length prev = 64"
  shows "pass_direction D prev L dirs = (if Suc (length dirs) < L then prev ! length dirs else True)"
proof -
  have L: "prev \<in> D" "L = branch_point D prev 64"
    using assms(1,2) by (auto simp: pass_start_def)
  have act: "prev \<in> active D dirs"
    using L(1) assms(3) by (simp add: active_def)
  show ?thesis
  proof (cases "Suc (length dirs) < L")
    case True
    then show ?thesis
      using act by (auto simp: pass_direction_def)
  next
    case False
    then have Leq: "L = Suc (length dirs)"
      using assms(2) by simp
    then have "\<not> prev ! length dirs" "\<exists>r\<in>D. take (length dirs) r = take (length dirs) prev \<and> r ! length dirs"
      using branch_point_branches [of D prev 64] L(2) by auto
    then obtain r where "r \<in> active D dirs" "r ! length dirs"
      using assms(3) by (auto simp: active_def)
    then show ?thesis
      using act Leq by (auto simp: pass_direction_def)
  qed
qed

lemma pass_inv_step:
  assumes inv: "pass_inv D prev L rom disc dirs" and start: "pass_start D prev L" and k: "length dirs < 64"
    and D: "\<And>r. r \<in> D \<Longrightarrow> length r = 64" and prev: "length prev = 64"
    and d: "d = pass_direction D prev L dirs"
    and rom': "length rom' = 8" "rom_bits rom' = (rom_bits rom)[length dirs := d]"
    and disc': "disc' = (if \<not> d \<and> (\<exists>r\<in>active D dirs. r ! length dirs) then Suc (length dirs) else disc)"
  shows "pass_inv D prev L rom' disc' (dirs @ [d])"
proof -
  have inv': "rom_bits rom = dirs @ drop (length dirs) prev" "active D dirs \<noteq> {}"
      "if length dirs < L then take (length dirs) prev = dirs
       else L = 0 \<or> take (L - 1) dirs = take (L - 1) prev \<and> dirs ! (L - 1)"
      "\<And>j r. j < length dirs \<Longrightarrow> L \<le> j \<Longrightarrow> dirs ! j \<Longrightarrow> r \<in> D \<Longrightarrow> take j r = take j dirs \<Longrightarrow> r ! j"
      "disc = branch_point D dirs (length dirs)"
    using inv unfolding pass_inv_def by blast+
  have "rom_bits rom' = (dirs @ [d]) @ drop (length (dirs @ [d])) prev"
    using rom'(2) inv'(1) k prev by (simp add: list_update_append Cons_nth_drop_Suc [symmetric])
  moreover have "active D (dirs @ [d]) \<noteq> {}"
    unfolding d by (rule pass_direction_active) (use D k inv'(2) in auto)
  moreover have "if length (dirs @ [d]) < L then take (length (dirs @ [d])) prev = dirs @ [d]
      else L = 0 \<or> take (L - 1) (dirs @ [d]) = take (L - 1) prev \<and> (dirs @ [d]) ! (L - 1)"
  proof (cases "length dirs < L")
    case True
    then have dirs: "take (length dirs) prev = dirs"
      using inv'(3) by simp
    have dd: "d = (if Suc (length dirs) < L then prev ! length dirs else True)"
      unfolding d by (rule pass_direction_follows [OF start True dirs prev])
    show ?thesis
    proof (cases "Suc (length dirs) < L")
      case True
      have "take (Suc (length dirs)) prev = take (length dirs) prev @ [prev ! length dirs]"
        using k prev by (simp add: take_Suc_conv_app_nth)
      then show ?thesis
        using True dd dirs by simp
    next
      case False
      then have "L = Suc (length dirs)"
        using \<open>length dirs < L\<close> by simp
      then show ?thesis
        using dd dirs by simp
    qed
  next
    case False
    then show ?thesis
      using inv'(3) by (cases L) (auto simp: nth_append)
  qed
  moreover have "\<forall>j<length (dirs @ [d]). L \<le> j \<longrightarrow> (dirs @ [d]) ! j
      \<longrightarrow> (\<forall>r\<in>D. take j r = take j (dirs @ [d]) \<longrightarrow> r ! j)"
  proof (intro allI impI ballI)
    fix j r assume j: "j < length (dirs @ [d])" "L \<le> j" "(dirs @ [d]) ! j" "r \<in> D" "take j r = take j (dirs @ [d])"
    show "r ! j"
    proof (cases "j < length dirs")
      case True
      then show ?thesis
        using inv'(4) [of j r] j by (simp add: nth_append)
    next
      case False
      then have jk: "j = length dirs"
        using j(1) by simp
      then have "d" "r \<in> active D dirs"
        using j(3,4,5) by (simp_all add: active_def)
      then show ?thesis
        using j(2) jk d by (auto simp: pass_direction_def split: if_splits)
    qed
  qed
  moreover have "disc' = branch_point D (dirs @ [d]) (length (dirs @ [d]))"
    using inv'(5) disc' by (auto simp: active_def nth_append)
  ultimately show ?thesis
    using k rom'(1) unfolding pass_inv_def by (metis Suc_leI length_append_singleton)
qed

lemma oneWire_SearchBits_completes:
  assumes "pass_inv D prev L rom disc dirs" and "pass_start D prev L" and "\<And>r. r \<in> D \<Longrightarrow> length r = 64"
    and "length prev = 64" and "searching D dirs b"
  shows "\<exists>rom' disc' b'. oneWire_SearchBits b rom L disc (Suc (length dirs)) = (True, rom', disc', b')
    \<and> pass_inv D prev L rom' disc' (rom_bits rom') \<and> bus_env b' = search_env D"
  using assms
proof (induction "64 - length dirs" arbitrary: b rom disc dirs)
  case 0
  then have "length dirs = 64"
    by (simp add: pass_inv_def)
  moreover from this have "rom_bits rom = dirs"
    using 0 by (simp add: pass_inv_def)
  ultimately show ?case
    using 0(2,6) by (subst oneWire_SearchBits.simps) (simp add: searching_def)
next
  case (Suc n)
  then have k: "length dirs < 64"
    by simp
  obtain one b1 where r1: "OneWire_ReadBit b = (one, b1)"
    by fastforce
  obtain zero b2 where r2: "OneWire_ReadBit b1 = (zero, b2)"
    by fastforce
  note slot = search_slot [OF Suc.prems(5) r1 r2]
  have act: "active D dirs \<noteq> {}" and rom: "length rom = 8"
    and prev: "rom_bits rom ! length dirs = prev ! length dirs"
    using Suc.prems(1,4) k by (auto simp: pass_inv_def nth_append)
  have nand: "\<not> (one \<and> zero)"
    using slot(1,2) act by auto
  define d where "d = (if one \<noteq> zero then one
      else if Suc (length dirs) < L then rom ! (length dirs div 8) AND push_bit (length dirs mod 8) 1 \<noteq> 0
      else Suc (length dirs) = L)"
  define rom' where "rom' = rom[length dirs div 8 := (if d then rom ! (length dirs div 8) OR push_bit (length dirs mod 8) 1
      else rom ! (length dirs div 8) AND NOT (push_bit (length dirs mod 8) 1))]"
  define disc' where "disc' = (if one = zero \<and> \<not> d then Suc (length dirs) else disc)"
  have d: "d = pass_direction D prev L dirs"
    unfolding d_def pass_direction_def rom_bit_test [OF k] prev using slot(1,2) act by auto
  have "pass_inv D prev L rom' disc' (dirs @ [d])"
  proof (rule pass_inv_step [OF Suc.prems(1,2) k Suc.prems(3,4) d])
    show "length rom' = 8" "rom_bits rom' = (rom_bits rom)[length dirs := d]"
      using rom rom_bits_update [OF rom k, of d] by (simp_all add: rom'_def)
    show "disc' = (if \<not> d \<and> (\<exists>r\<in>active D dirs. r ! length dirs) then Suc (length dirs) else disc)"
      using slot(1,2) act by (cases one; cases zero) (auto simp: disc'_def d_def)
  qed
  moreover have "searching D (dirs @ [d]) (oneWire_WriteBit b2 d)"
    by (rule slot(3))
  moreover have "oneWire_SearchBits b rom L disc (Suc (length dirs))
      = oneWire_SearchBits (oneWire_WriteBit b2 d) rom' L disc' (Suc (length (dirs @ [d])))"
    using k nand unfolding rom'_def disc'_def d_def
    by (subst oneWire_SearchBits.simps) (simp only: r1 r2 Let_def prod.case if_False diff_Suc_1 length_append_singleton, simp)
  ultimately show ?case
    using Suc.hyps(1) [of "dirs @ [d]" rom' disc' "oneWire_WriteBit b2 d"] Suc.hyps(2) Suc.prems(2,3,4) by simp
qed

section \<open>The order of the passes\<close>

lemma bits_less:
  "length p = length q \<Longrightarrow> p < q \<longleftrightarrow> (\<exists>j<length p. take j p = take j q \<and> \<not> p ! j \<and> (q ! j :: bool))"
  by (auto simp: list_less_def lexord_take_index_conv)

lemma pass_inv_found:
  assumes "pass_inv D prev L rom disc (rom_bits rom)" and "\<And>r. r \<in> D \<Longrightarrow> length r = 64"
  shows "rom_bits rom \<in> D" and "disc = branch_point D (rom_bits rom) 64"
  using assms by (auto simp: pass_inv_def active_def)

lemma pass_inv_forced:
  assumes inv: "pass_inv D prev L rom disc (rom_bits rom)" and r: "r \<in> D" "length r = 64"
    and same: "take L r = take L (rom_bits rom)"
  shows "rom_bits rom \<le> r"
proof (rule ccontr)
  assume "\<not> rom_bits rom \<le> r"
  then obtain j where j: "j < 64" "take j r = take j (rom_bits rom)" "\<not> r ! j" "rom_bits rom ! j"
    using r bits_less [of r "rom_bits rom"] by (auto simp: not_le)
  have "L \<le> j"
  proof (rule ccontr)
    assume "\<not> L \<le> j"
    then have "r ! j = rom_bits rom ! j"
      using arg_cong [OF same, of "\<lambda>xs. xs ! j"] by simp
    then show False
      using j by simp
  qed
  then show False
    using inv j r unfolding pass_inv_def length_rom_bits by blast
qed

lemma pass_first:
  "pass_inv D prev 0 rom disc (rom_bits rom) \<Longrightarrow> r \<in> D \<Longrightarrow> length r = 64 \<Longrightarrow> rom_bits rom \<le> r"
  by (rule pass_inv_forced) auto

lemma pass_next:
  assumes inv: "pass_inv D prev L rom disc (rom_bits rom)" and L: "L = branch_point D prev 64" "L \<noteq> 0"
    and prev: "prev \<in> D" and D: "\<And>r. r \<in> D \<Longrightarrow> length r = 64"
  shows "prev < rom_bits rom" and "r \<in> D \<Longrightarrow> prev < r \<Longrightarrow> rom_bits rom \<le> r"
proof -
  note bp = branch_point_branches [of D prev 64, folded L(1), OF L(2)]
  have same: "take (L - 1) (rom_bits rom) = take (L - 1) prev" and one: "rom_bits rom ! (L - 1)"
    using inv L bp(1) by (auto simp: pass_inv_def)
  show "prev < rom_bits rom"
    using bits_less [of prev "rom_bits rom"] D [OF prev] same one bp(1,2) L(2)
    by (auto intro!: exI [of _ "L - 1"])
  assume r: "r \<in> D" "prev < r"
  then obtain j where j: "j < 64" "take j prev = take j r" "\<not> prev ! j" "r ! j"
    using bits_less [of prev r] D prev by auto
  have "j \<le> L - 1"
    using branch_point_last [of j 64 D prev r] j r(1) L by fastforce
  show "rom_bits rom \<le> r"
  proof (cases "j = L - 1")
    case True
    then have "take L r = take L (rom_bits rom)"
      using j same one L(2) bp(1) D [OF r(1)] take_Suc_conv_app_nth [of j r] take_Suc_conv_app_nth [of j "rom_bits rom"]
      by simp
    then show ?thesis
      by (rule pass_inv_forced [OF inv r(1) D [OF r(1)]])
  next
    case False
    then have "j < L - 1"
      using \<open>j \<le> L - 1\<close> by simp
    then have "take j (rom_bits rom) = take j prev" "rom_bits rom ! j = prev ! j"
      using same by (metis min.strict_order_iff take_take, metis nth_take)
    then have "rom_bits rom < r"
      using bits_less [of "rom_bits rom" r] j D [OF r(1)] by auto
    then show ?thesis
      by simp
  qed
qed

lemma branch_point_max:
  assumes "branch_point D p 64 = 0" and "p \<in> D" and "\<And>r. r \<in> D \<Longrightarrow> length r = 64" and "r \<in> D"
  shows "r \<le> p"
proof (rule ccontr)
  assume "\<not> r \<le> p"
  then obtain j where "j < 64" "take j p = take j r" "\<not> p ! j" "r ! j"
    using bits_less [of p r] assms by (auto simp: not_le)
  then show False
    using branch_point_last [of j 64 D p r] assms by simp
qed

text \<open>The same facts over the sorted list of the devices.\<close>

lemma sorted_successor:
  fixes D :: "'a :: linorder set"
  assumes "finite D" and "n < card D" and "0 < n \<Longrightarrow> sorted_list_of_set D ! (n - 1) < x"
    and "\<And>r. r \<in> D \<Longrightarrow> (0 < n \<Longrightarrow> sorted_list_of_set D ! (n - 1) < r) \<Longrightarrow> x \<le> r" and "x \<in> D"
  shows "x = sorted_list_of_set D ! n"
proof -
  let ?S = "sorted_list_of_set D"
  have srt: "i < j \<Longrightarrow> j < card D \<Longrightarrow> ?S ! i < ?S ! j" for i j
    using strict_sorted_list_of_set [of D] by (simp add: sorted_wrt_iff_nth_less)
  obtain i where i: "x = ?S ! i" "i < card D"
    using assms(1,5) by (metis in_set_conv_nth length_sorted_list_of_set set_sorted_list_of_set)
  have "\<not> i < n"
  proof
    assume "i < n"
    then have "?S ! i \<le> ?S ! (n - 1)"
      using srt [of i "n - 1"] assms(2) by (cases "i = n - 1") (simp, force intro!: less_imp_le)
    then show False
      using assms(3) i \<open>i < n\<close> by auto
  qed
  moreover have "x \<le> ?S ! n"
  proof (rule assms(4))
    show "?S ! n \<in> D"
      using assms(1,2) by (metis length_sorted_list_of_set nth_mem set_sorted_list_of_set)
    show "0 < n \<Longrightarrow> ?S ! (n - 1) < ?S ! n"
      using srt [of "n - 1" n] assms(2) by simp
  qed
  ultimately show ?thesis
    using srt [of n i] i by (metis linorder_neqE_nat not_le)
qed

section \<open>The search loop\<close>

text \<open>
  \<open>n\<close> devices are in the table, the first \<open>n\<close> of the bus in order, and the next pass starts where
  the last one says.
\<close>

definition search_inv :: "u8 list set \<Rightarrow> onewire \<Rightarrow> u8 list \<Rightarrow> nat \<Rightarrow> bool" where
  "search_inv Dev st rom L \<longleftrightarrow>
     (let n = oneWireDeviceCount st; S = sorted_list_of_set (rom_bits ` Dev)
      in n \<le> ONEWIRE_MAX_DEVICES \<and> length (oneWireDevices st) = ONEWIRE_MAX_DEVICES \<and> length rom = 8
         \<and> bus_env (ow_bus st) = search_env (rom_bits ` Dev)
         \<and> n \<le> length S \<and> map (rom_bits \<circ> ow_rom) (take n (oneWireDevices st)) = take n S
         \<and> list_all (\<lambda>d. length (ow_rom d) = 8) (take n (oneWireDevices st))
         \<and> (if n = 0 then L = 0
            else L \<noteq> 0 \<and> rom_bits rom = S ! (n - 1) \<and> L = branch_point (rom_bits ` Dev) (rom_bits rom) 64))"

definition search_done :: "u8 list set \<Rightarrow> onewire \<Rightarrow> bool" where
  "search_done Dev st \<longleftrightarrow>
     (let n = oneWireDeviceCount st; S = sorted_list_of_set (rom_bits ` Dev)
      in n = min ONEWIRE_MAX_DEVICES (length S)
         \<and> map (rom_bits \<circ> ow_rom) (take n (oneWireDevices st)) = take n S
         \<and> list_all (\<lambda>d. length (ow_rom d) = 8) (take n (oneWireDevices st)))"

lemma search_inv_pass:
  assumes inv: "search_inv Dev st rom L" and fin: "finite Dev" and ne: "Dev \<noteq> {}"
    and reset: "OneWire_Reset (ow_bus st) = (s, b1)" and len: "\<And>r. r \<in> Dev \<Longrightarrow> length r = 8"
  shows "\<exists>rom' disc b2. s = SUCCESS
    \<and> oneWire_SearchBits (OneWire_WriteByte b1 ONEWIRE_COMMAND_SEARCH_ROM) rom L 0 1 = (True, rom', disc, b2)
    \<and> bus_env b2 = search_env (rom_bits ` Dev) \<and> rom' \<in> Dev \<and> length rom' = 8
    \<and> oneWireDeviceCount st < card (rom_bits ` Dev)
    \<and> rom_bits rom' = sorted_list_of_set (rom_bits ` Dev) ! oneWireDeviceCount st
    \<and> disc = branch_point (rom_bits ` Dev) (rom_bits rom') 64"
proof -
  let ?D = "rom_bits ` Dev" and ?n = "oneWireDeviceCount st"
  have env: "bus_env (ow_bus st) = search_env ?D" and rom: "length rom = 8" and n: "?n \<le> card ?D"
    using inv fin unfolding search_inv_def Let_def by simp_all
  have L: "if ?n = 0 then L = 0 else L \<noteq> 0 \<and> rom_bits rom = sorted_list_of_set ?D ! (?n - 1) \<and> L = branch_point ?D (rom_bits rom) 64"
    using inv unfolding search_inv_def Let_def by blast
  note start = search_start [OF env _ reset]
  have D: "r \<in> ?D \<Longrightarrow> length r = 64" for r
    by auto
  have prev: "rom_bits rom \<in> ?D" if "?n \<noteq> 0"
  proof -
    have "?n - 1 < length (sorted_list_of_set ?D)"
      using that n by simp
    then show ?thesis
      using L that fin by (metis finite_imageI nth_mem set_sorted_list_of_set)
  qed
  have ps: "pass_start ?D (rom_bits rom) L"
    using L prev unfolding pass_start_def by metis
  have "pass_inv ?D (rom_bits rom) L rom 0 []"
    using rom ne by (auto simp: pass_inv_def active_def)
  then obtain rom' disc b2 where pass: "oneWire_SearchBits (OneWire_WriteByte b1 ONEWIRE_COMMAND_SEARCH_ROM) rom L 0 1 = (True, rom', disc, b2)"
      and pinv: "pass_inv ?D (rom_bits rom) L rom' disc (rom_bits rom')" and b2: "bus_env b2 = search_env ?D"
    using oneWire_SearchBits_completes [OF _ ps D length_rom_bits start(2)] ne by fastforce
  have found: "rom_bits rom' \<in> ?D" "disc = branch_point ?D (rom_bits rom') 64"
    using pass_inv_found [OF pinv D] by auto
  have rom': "length rom' = 8"
    using pinv by (simp add: pass_inv_def)
  then have "rom' \<in> Dev"
    using found(1) rom_bits_inj len by blast
  have later: "0 < ?n \<Longrightarrow> sorted_list_of_set ?D ! (?n - 1) < rom_bits rom'"
    using L prev pass_next(1) [OF pinv _ _ _ D] by auto
  have least: "rom_bits rom' \<le> r" if "r \<in> ?D" "0 < ?n \<Longrightarrow> sorted_list_of_set ?D ! (?n - 1) < r" for r
    using that L prev pass_next(2) [OF pinv _ _ _ D] pass_first D pinv by (cases "?n = 0") auto
  have "?n < card ?D"
  proof (rule ccontr)
    assume "\<not> ?n < card ?D"
    then have last: "?n = card ?D" "0 < ?n"
      using n ne fin by (auto simp: card_gt_0_iff)
    obtain i where i: "rom_bits rom' = sorted_list_of_set ?D ! i" "i < card ?D"
      using found(1) fin by (metis finite_imageI in_set_conv_nth length_sorted_list_of_set set_sorted_list_of_set)
    have "sorted_list_of_set ?D ! i \<le> sorted_list_of_set ?D ! (?n - 1)"
      by (rule sorted_nth_mono) (use i last in auto)
    then show False
      using later last i by auto
  qed
  moreover have "rom_bits rom' = sorted_list_of_set ?D ! ?n"
    by (rule sorted_successor [OF _ \<open>?n < card ?D\<close> later least found(1)]) (use fin in auto)
  ultimately show ?thesis
    using start(1) ne pass b2 \<open>rom' \<in> Dev\<close> rom' found(2) by blast
qed

lemma search_inv_store:
  assumes inv: "search_inv Dev st rom L" and room: "oneWireDeviceCount st < ONEWIRE_MAX_DEVICES"
    and fin: "finite Dev" and n: "oneWireDeviceCount st < card (rom_bits ` Dev)" and rom': "length rom' = 8"
      "rom_bits rom' = sorted_list_of_set (rom_bits ` Dev) ! oneWireDeviceCount st"
    and env: "bus_env b = search_env (rom_bits ` Dev)"
    and st': "st' = st\<lparr>ow_bus := b,
        oneWireDevices := (oneWireDevices st)[oneWireDeviceCount st := (oneWireDevices st ! oneWireDeviceCount st)\<lparr>ow_rom := rom'\<rparr>],
        oneWireDeviceCount := Suc (oneWireDeviceCount st)\<rparr>"
    and disc: "disc = branch_point (rom_bits ` Dev) (rom_bits rom') 64"
  shows "disc \<noteq> 0 \<Longrightarrow> search_inv Dev st' rom' disc"
    and "disc = 0 \<Longrightarrow> search_done Dev st'"
proof -
  let ?n = "oneWireDeviceCount st" and ?S = "sorted_list_of_set (rom_bits ` Dev)"
  have len: "length (oneWireDevices st) = ONEWIRE_MAX_DEVICES"
    and found: "map (rom_bits \<circ> ow_rom) (take ?n (oneWireDevices st)) = take ?n ?S"
    and eight: "list_all (\<lambda>d. length (ow_rom d) = 8) (take ?n (oneWireDevices st))"
    using inv by (simp_all add: search_inv_def Let_def)
  have found': "map (rom_bits \<circ> ow_rom) (take (Suc ?n) (oneWireDevices st')) = take (Suc ?n) ?S"
    and eight': "list_all (\<lambda>d. length (ow_rom d) = 8) (take (Suc ?n) (oneWireDevices st'))"
    using len room found eight n rom' fin by (simp_all add: st' take_Suc_conv_app_nth)
  show "search_inv Dev st' rom' disc" if "disc \<noteq> 0"
    using that len room found' eight' n rom' fin env disc by (simp add: search_inv_def Let_def st')
  show "search_done Dev st'" if "disc = 0"
  proof -
    have "\<not> Suc ?n < card (rom_bits ` Dev)"
    proof
      assume more: "Suc ?n < card (rom_bits ` Dev)"
      then have "?S ! Suc ?n \<in> rom_bits ` Dev" "?S ! ?n \<in> rom_bits ` Dev"
        using fin by (metis finite_imageI length_sorted_list_of_set nth_mem set_sorted_list_of_set Suc_lessD)+
      then have "?S ! Suc ?n \<le> ?S ! ?n"
        using disc that rom'(2) by (intro branch_point_max [of "rom_bits ` Dev"]) auto
      moreover have "?S ! ?n < ?S ! Suc ?n"
        using more strict_sorted_list_of_set [of "rom_bits ` Dev"] by (simp add: sorted_wrt_iff_nth_less)
      ultimately show False
        by simp
    qed
    then show ?thesis
      using n room found' eight' by (simp add: search_done_def Let_def st')
  qed
qed

lemma oneWire_SearchLoop_done:
  assumes "search_inv Dev st rom L" and "finite Dev" and "Dev \<noteq> {}"
    and "\<And>r. r \<in> Dev \<Longrightarrow> length r = 8 \<and> foldl OneWire_CRC8 0 r = 0"
  shows "search_done Dev (oneWire_SearchLoop st rom L)"
    and "oneWireMutex (oneWire_SearchLoop st rom L) = oneWireMutex st"
proof -
  have "search_done Dev (oneWire_SearchLoop st rom L) \<and> oneWireMutex (oneWire_SearchLoop st rom L) = oneWireMutex st"
    using assms
  proof (induction st rom L rule: oneWire_SearchLoop.induct)
    case (1 st rom L)
    show ?case
    proof (cases "ONEWIRE_MAX_DEVICES \<le> oneWireDeviceCount st")
      case True
      then show ?thesis
        using "1.prems"(1) by (subst (1 2) oneWire_SearchLoop.simps) (auto simp: search_inv_def search_done_def Let_def split: if_splits)
    next
      case False
      obtain s b1 where reset: "OneWire_Reset (ow_bus st) = (s, b1)"
        by fastforce
      obtain rom' disc b2 where pass: "s = SUCCESS"
          "oneWire_SearchBits (OneWire_WriteByte b1 ONEWIRE_COMMAND_SEARCH_ROM) rom L 0 1 = (True, rom', disc, b2)"
          "bus_env b2 = search_env (rom_bits ` Dev)" "rom' \<in> Dev" "length rom' = 8"
          "oneWireDeviceCount st < card (rom_bits ` Dev)"
          "rom_bits rom' = sorted_list_of_set (rom_bits ` Dev) ! oneWireDeviceCount st"
          "disc = branch_point (rom_bits ` Dev) (rom_bits rom') 64"
        using search_inv_pass [OF "1.prems"(1,2,3) reset] "1.prems"(4) by blast
      define st' where "st' = st\<lparr>ow_bus := b2,
        oneWireDevices := (oneWireDevices st)[oneWireDeviceCount st := (oneWireDevices st ! oneWireDeviceCount st)\<lparr>ow_rom := rom'\<rparr>],
        oneWireDeviceCount := Suc (oneWireDeviceCount st)\<rparr>"
      have crc: "foldl OneWire_CRC8 0 rom' = 0"
        using "1.prems"(4) pass(4) by blast
      have step: "oneWire_SearchLoop st rom L = (if disc = 0 then st' else oneWire_SearchLoop st' rom' disc)"
        using False pass(1,2) crc by (subst oneWire_SearchLoop.simps) (simp add: reset st'_def Let_def)
      note store = search_inv_store [OF "1.prems"(1) _ "1.prems"(2) pass(6,5,7,3) st'_def pass(8)]
      show ?thesis
      proof (cases "disc = 0")
        case True
        then show ?thesis
          using step store(2) False by (simp add: st'_def)
      next
        case disc: False
        have "search_inv Dev st' rom' disc"
          using store(1) disc False by simp
        then have "search_done Dev (oneWire_SearchLoop st' rom' disc)
            \<and> oneWireMutex (oneWire_SearchLoop st' rom' disc) = oneWireMutex st'"
          using "1.IH" [OF False reset [symmetric] _ pass(2) [symmetric] refl refl _ _ refl st'_def disc]
            pass(1) crc "1.prems"(2,3,4) by simp
        then show ?thesis
          using step disc by (simp add: st'_def)
      qed
    qed
  qed
  then show "search_done Dev (oneWire_SearchLoop st rom L)"
    and "oneWireMutex (oneWire_SearchLoop st rom L) = oneWireMutex st"
    by auto
qed

lemma search_env_empty:
  "bus_env (ow_bus st) = search_env {} \<Longrightarrow> oneWireDeviceCount (oneWire_SearchLoop st rom L) = oneWireDeviceCount st
     \<and> oneWireMutex (oneWire_SearchLoop st rom L) = oneWireMutex st"
  by (subst (1 2) oneWire_SearchLoop.simps) (simp add: OneWire_Reset_def Let_def)

text \<open>
  C34: on a bus whose devices follow the search protocol and have ROM codes with a valid checksum,
  the ROM search fills the table with exactly the devices on the bus in the order of their bits
  as sent (the first six of them when there are more), reports an error only for an empty bus,
  and gives the bus mutex back.
\<close>

theorem OneWire_Search_enumerates:
  assumes "bus_env (ow_bus st) = search_env (rom_bits ` Dev)" and "finite Dev"
    and "\<And>r. r \<in> Dev \<Longrightarrow> length r = 8 \<and> foldl OneWire_CRC8 0 r = 0"
    and "oneWireMutex st = Sem_Free" and "OneWire_Search st = (status, st')"
  shows "map (rom_bits \<circ> ow_rom) (take (oneWireDeviceCount st') (oneWireDevices st'))
      = take ONEWIRE_MAX_DEVICES (sorted_list_of_set (rom_bits ` Dev))
    \<and> oneWireDeviceCount st' = min ONEWIRE_MAX_DEVICES (card Dev)
    \<and> (card Dev \<le> ONEWIRE_MAX_DEVICES \<longrightarrow> ow_rom ` set (take (oneWireDeviceCount st') (oneWireDevices st')) = Dev)
    \<and> (status = SUCCESS \<longleftrightarrow> Dev \<noteq> {}) \<and> oneWireMutex st' = Sem_Free"
proof -
  define st1 where "st1 = st\<lparr>oneWireMutex := Sem_Held, oneWireDeviceCount := 0,
      oneWireDevices := replicate ONEWIRE_MAX_DEVICES zero_device\<rparr>"
  define st2 where "st2 = oneWire_SearchLoop st1 (replicate 8 0) 0"
  have run: "status = (if 0 < oneWireDeviceCount st2 then SUCCESS else ERROR)" "st' = OneWire_Unlock st2"
    using assms(4,5) by (auto simp: OneWire_Search_def OneWire_Lock_def oneWire_SearchUnlocked_def st1_def st2_def Let_def)
  have inj8: "inj_on rom_bits {r. length r = 8}"
    by (auto intro!: inj_onI rom_bits_inj)
  have inj: "inj_on rom_bits Dev"
    by (rule inj_on_subset [OF inj8]) (use assms(3) in blast)
  show ?thesis
  proof (cases "Dev = {}")
    case True
    then show ?thesis
      using run search_env_empty [of st1] assms(1) by (simp add: st2_def st1_def OneWire_Unlock_def)
  next
    case False
    have "search_inv Dev st1 (replicate 8 0) 0"
      using assms(1) by (simp add: search_inv_def st1_def Let_def ONEWIRE_MAX_DEVICES_def)
    then have fin: "search_done Dev st2" "oneWireMutex st2 = Sem_Held"
      using oneWire_SearchLoop_done [OF _ assms(2) False assms(3)] by (auto simp: st2_def st1_def)
    have count: "oneWireDeviceCount st2 = min ONEWIRE_MAX_DEVICES (card Dev)"
      using fin(1) inj by (simp add: search_done_def Let_def card_image)
    have roms: "map (rom_bits \<circ> ow_rom) (take (oneWireDeviceCount st2) (oneWireDevices st2))
        = take ONEWIRE_MAX_DEVICES (sorted_list_of_set (rom_bits ` Dev))"
      using fin(1) by (auto simp: search_done_def Let_def min_def split: if_splits)
    have "ow_rom ` set (take (oneWireDeviceCount st2) (oneWireDevices st2)) = Dev" if "card Dev \<le> ONEWIRE_MAX_DEVICES"
    proof -
      let ?A = "ow_rom ` set (take (oneWireDeviceCount st2) (oneWireDevices st2))"
      have "rom_bits ` ?A = rom_bits ` Dev"
        using arg_cong [OF roms, of set] that assms(2) inj by (simp add: image_comp card_image)
      moreover have "?A \<subseteq> {r. length r = 8}"
        using fin(1) by (auto simp: search_done_def Let_def list_all_iff)
      moreover have "Dev \<subseteq> {r. length r = 8}"
        using assms(3) by blast
      ultimately show ?thesis
        using inj_on_image_eq_iff [OF inj8] by meson
    qed
    moreover have "0 < card Dev"
      using False assms(2) by (simp add: card_gt_0_iff)
    ultimately show ?thesis
      using run count roms fin(2) False by (simp add: OneWire_Unlock_def ONEWIRE_MAX_DEVICES_def)
  qed
qed

definition sample_roms :: "u8 list set" where
  "sample_roms = {[0x28, 1, 0, 0, 0, 0, 0, 0x29], [0x28, 2, 0, 0, 0, 0, 0, 0x70]}"

definition sample_onewire :: "onewire" where
  "sample_onewire = \<lparr>ow_bus = \<lparr>bus_history = [], bus_env = search_env (rom_bits ` sample_roms), bus_push_pull = False, bus_delays = []\<rparr>,
     oneWireDevices = [], oneWireDeviceCount = 0, oneWireMutex = Sem_Free\<rparr>"

lemma sample_roms_valid: "r \<in> sample_roms \<Longrightarrow> length r = 8 \<and> foldl OneWire_CRC8 0 r = 0"
proof -
  have "foldl OneWire_CRC8 0 [0x28, 1, 0, 0, 0, 0, 0, 0x29] = 0" "foldl OneWire_CRC8 0 [0x28, 2, 0, 0, 0, 0, 0, 0x70] = 0"
    by code_simp+
  then show "r \<in> sample_roms \<Longrightarrow> length r = 8 \<and> foldl OneWire_CRC8 0 r = 0"
    by (auto simp: sample_roms_def)
qed

theorem OneWire_Search_enumerates_witness:
  "oneWireDeviceCount (snd (OneWire_Search sample_onewire)) = 2
   \<and> ow_rom ` set (take 2 (oneWireDevices (snd (OneWire_Search sample_onewire)))) = sample_roms
   \<and> fst (OneWire_Search sample_onewire) = SUCCESS"
proof -
  have "card sample_roms = 2" "finite sample_roms" "sample_roms \<noteq> {}"
    by (simp_all add: sample_roms_def)
  then show ?thesis
    using OneWire_Search_enumerates [of sample_onewire sample_roms "fst (OneWire_Search sample_onewire)" "snd (OneWire_Search sample_onewire)"]
      sample_roms_valid by (auto simp: sample_onewire_def ONEWIRE_MAX_DEVICES_def)
qed

end
