(* ===== verification/Factory_Reset.thy ===== *)
theory Factory_Reset
  imports User_Store Health_Check_Config Health_Check_Log Callback_Config Server_Credentials Trust_Store
    "HOL-Library.Monad_Syntax"
begin

text \<open>
  The factory reset of \<^verbatim>\<open>Srv/Src/factory_reset_service.c\<close>: the button with its hold, its cancel window
  and its double click, and the erasing of all persistent data under a recovery marker. The task reads
  the button at points of time; a delay of the scheduler can be longer than asked for. Loops that wait
  for a point of time are partial functions: \<open>None\<close> stands for a loop that does not end.
\<close>

section \<open>Time and button\<close>

definition FACTORY_RESET_HOLD_MS :: u32 where "FACTORY_RESET_HOLD_MS = 10000"
definition FACTORY_RESET_CANCEL_WINDOW_MS :: u32 where "FACTORY_RESET_CANCEL_WINDOW_MS = 10000"
definition FACTORY_RESET_DOUBLE_CLICK_MS :: u32 where "FACTORY_RESET_DOUBLE_CLICK_MS = 600"
definition FACTORY_RESET_DEBOUNCE_MS :: nat where "FACTORY_RESET_DEBOUNCE_MS = 30"
definition FACTORY_RESET_POLL_MS :: nat where "FACTORY_RESET_POLL_MS = 20"
definition FACTORY_RESET_MARKER_MAGIC :: u32 where "FACTORY_RESET_MARKER_MAGIC = 0x46525354"
definition FACTORY_RESET_VERIFY_CHUNK_SIZE :: u32 where "FACTORY_RESET_VERIFY_CHUNK_SIZE = 64"
definition portMAX_DELAY :: u32 where "portMAX_DELAY = 0xFFFFFFFF"

record reset_clock =
  rs_time :: nat
  rs_pressed :: "nat \<Rightarrow> bool"
  rs_late :: "nat list"

definition Platform_GetTick :: "reset_clock \<Rightarrow> u32" where
  "Platform_GetTick c = of_nat (rs_time c)"

definition vTaskDelay :: "nat \<Rightarrow> reset_clock \<Rightarrow> reset_clock" where
  "vTaskDelay ms c =
     c\<lparr>rs_time := rs_time c + ms + (case rs_late c of [] \<Rightarrow> 0 | late # _ \<Rightarrow> late), rs_late := tl (rs_late c)\<rparr>"

definition factoryReset_ButtonPressed :: "reset_clock \<Rightarrow> bool" where
  "factoryReset_ButtonPressed c = rs_pressed c (rs_time c)"

partial_function (option) factoryReset_WaitLoop :: "u32 \<Rightarrow> bool \<Rightarrow> u32 \<Rightarrow> reset_clock \<Rightarrow> (bool \<times> reset_clock) option" where
  "factoryReset_WaitLoop started pressed timeoutMs c =
     (if \<not> Platform_GetTick c - started < timeoutMs then Some (False, c)
      else if factoryReset_ButtonPressed c = pressed
      then let c1 = vTaskDelay FACTORY_RESET_DEBOUNCE_MS c
           in if factoryReset_ButtonPressed c1 = pressed then Some (True, c1)
              else factoryReset_WaitLoop started pressed timeoutMs (vTaskDelay FACTORY_RESET_POLL_MS c1)
      else factoryReset_WaitLoop started pressed timeoutMs (vTaskDelay FACTORY_RESET_POLL_MS c))"

declare factoryReset_WaitLoop.simps [code]

definition factoryReset_WaitForButton :: "bool \<Rightarrow> u32 \<Rightarrow> reset_clock \<Rightarrow> (bool \<times> reset_clock) option" where
  "factoryReset_WaitForButton pressed timeoutMs c = factoryReset_WaitLoop (Platform_GetTick c) pressed timeoutMs c"

section \<open>The recovery marker\<close>

definition marker_bytes :: "u8 list" where
  "marker_bytes = le32 FACTORY_RESET_MARKER_MAGIC @ le32 (NOT FACTORY_RESET_MARKER_MAGIC)"

definition factoryReset_MarkerValid :: "w25q64 \<Rightarrow> bool \<times> w25q64" where
  "factoryReset_MarkerValid f =
     (case W25Q64_Read f FLASH_LAYOUT_FACTORY_RESET_MARKER_SECTOR 8 of
        (s, marker, f') \<Rightarrow>
          (s = PLATFORM_STATUS_OK \<and> of_le32 marker = FACTORY_RESET_MARKER_MAGIC
             \<and> of_le32 (drop 4 marker) = NOT FACTORY_RESET_MARKER_MAGIC, f'))"

definition factoryReset_Arm :: "w25q64 \<Rightarrow> Platform_StatusTypeDef \<times> w25q64" where
  "factoryReset_Arm f =
     (case W25Q64_EraseSector f FLASH_LAYOUT_FACTORY_RESET_MARKER_SECTOR of
        (s1, f1) \<Rightarrow>
          if s1 \<noteq> PLATFORM_STATUS_OK then (PLATFORM_STATUS_ERROR, f1)
          else case W25Q64_Program f1 FLASH_LAYOUT_FACTORY_RESET_MARKER_SECTOR marker_bytes of
            (s2, f2) \<Rightarrow>
              if s2 \<noteq> PLATFORM_STATUS_OK then (PLATFORM_STATUS_ERROR, f2)
              else case factoryReset_MarkerValid f2 of
                (valid, f3) \<Rightarrow> (if valid then PLATFORM_STATUS_OK else PLATFORM_STATUS_ERROR, f3))"

section \<open>Erasing\<close>

fun factoryReset_VerifyLoop :: "w25q64 \<Rightarrow> u32 \<Rightarrow> u32 list \<Rightarrow> Platform_StatusTypeDef \<times> w25q64" where
  "factoryReset_VerifyLoop f address [] = (PLATFORM_STATUS_OK, f)"
| "factoryReset_VerifyLoop f address (offset # offsets) =
     (case W25Q64_Read f (address + offset) FACTORY_RESET_VERIFY_CHUNK_SIZE of
        (s, data, f1) \<Rightarrow>
          if s \<noteq> PLATFORM_STATUS_OK then (PLATFORM_STATUS_ERROR, f1)
          else if \<not> list_all (\<lambda>b. b = 0xFF) data then (PLATFORM_STATUS_ERROR, f1)
          else factoryReset_VerifyLoop f1 address offsets)"

text \<open>The offsets of the loop: every 64 bytes of the sector.\<close>

definition verify_offsets :: "u32 list" where
  "verify_offsets = map (\<lambda>k. of_nat k * FACTORY_RESET_VERIFY_CHUNK_SIZE) [0..<nor_sector div 64]"

definition factoryReset_VerifyErased :: "w25q64 \<Rightarrow> u32 \<Rightarrow> Platform_StatusTypeDef \<times> w25q64" where
  "factoryReset_VerifyErased f address = factoryReset_VerifyLoop f address verify_offsets"

fun factoryReset_EraseLoop :: "w25q64 \<Rightarrow> u32 list \<Rightarrow> Platform_StatusTypeDef \<times> w25q64" where
  "factoryReset_EraseLoop f [] = (PLATFORM_STATUS_OK, f)"
| "factoryReset_EraseLoop f (address # addresses) =
     (case W25Q64_EraseSector f address of
        (s1, f1) \<Rightarrow>
          if s1 \<noteq> PLATFORM_STATUS_OK then (PLATFORM_STATUS_ERROR, f1)
          else case factoryReset_VerifyErased f1 address of
            (s2, f2) \<Rightarrow>
              if s2 \<noteq> PLATFORM_STATUS_OK then (PLATFORM_STATUS_ERROR, f2) else factoryReset_EraseLoop f2 addresses)"

definition data_sectors :: "u32 list" where
  "data_sectors = map (\<lambda>sector. flash_sector_from_top (of_nat sector)) [1..<Suc FLASH_LAYOUT_FACTORY_RESET_DATA_SECTORS]"

definition callbackSectors :: "u32 list" where
  "callbackSectors = [FLASH_LAYOUT_CALLBACK_CONFIG_SECTOR_A, FLASH_LAYOUT_CALLBACK_CONFIG_SECTOR_B]"

definition factoryReset_ErasePersistentData :: "w25q64 \<Rightarrow> Platform_StatusTypeDef \<times> w25q64" where
  "factoryReset_ErasePersistentData f =
     (case factoryReset_EraseLoop f data_sectors of
        (s1, f1) \<Rightarrow>
          if s1 \<noteq> PLATFORM_STATUS_OK then (PLATFORM_STATUS_ERROR, f1)
          else case factoryReset_EraseLoop f1 callbackSectors of
            (s2, f2) \<Rightarrow>
              if s2 \<noteq> PLATFORM_STATUS_OK then (PLATFORM_STATUS_ERROR, f2)
              else W25Q64_EraseSector f2 FLASH_LAYOUT_FACTORY_RESET_MARKER_SECTOR)"

definition FactoryResetService_Recover :: "w25q64 \<Rightarrow> Platform_StatusTypeDef \<times> w25q64" where
  "FactoryResetService_Recover f =
     (case factoryReset_MarkerValid f of
        (valid, f1) \<Rightarrow> if \<not> valid then (PLATFORM_STATUS_OK, f1) else factoryReset_ErasePersistentData f1)"

text \<open>Executing the reset ends in a restart unless it could not be armed.\<close>

datatype reset_outcome = Reset_Continue | Reset_Restart

definition factoryReset_Execute :: "w25q64 \<Rightarrow> reset_outcome \<times> w25q64" where
  "factoryReset_Execute f =
     (case W25Q64_Lock f of
        (s, f1) \<Rightarrow>
          if s \<noteq> PLATFORM_STATUS_OK then (Reset_Continue, f1)
          else case factoryReset_Arm f1 of
            (s2, f2) \<Rightarrow>
              if s2 \<noteq> PLATFORM_STATUS_OK then (Reset_Continue, W25Q64_Unlock f2)
              else (Reset_Restart, snd (factoryReset_ErasePersistentData f2)))"

section \<open>The task\<close>

text \<open>Whether the reset is cancelled: a release, then two presses that start at most 600 ms apart.\<close>

definition factoryReset_CancelRequested :: "u32 \<Rightarrow> reset_clock \<Rightarrow> (bool \<times> reset_clock) option" where
  "factoryReset_CancelRequested windowStarted c =
     (let elapsed = Platform_GetTick c - windowStarted
      in if elapsed \<ge> FACTORY_RESET_CANCEL_WINDOW_MS then Some (False, c)
         else do {
           (released, c1) \<leftarrow> factoryReset_WaitForButton False (FACTORY_RESET_CANCEL_WINDOW_MS - elapsed) c;
           let elapsed1 = Platform_GetTick c1 - windowStarted;
           if \<not> released \<or> elapsed1 \<ge> FACTORY_RESET_CANCEL_WINDOW_MS then Some (False, c1)
           else do {
             (clicked, c2) \<leftarrow> factoryReset_WaitForButton True (FACTORY_RESET_CANCEL_WINDOW_MS - elapsed1) c1;
             let firstClick = Platform_GetTick c2;
             let elapsed2 = firstClick - windowStarted;
             if \<not> clicked \<or> elapsed2 \<ge> FACTORY_RESET_CANCEL_WINDOW_MS then Some (False, c2)
             else do {
               (up, c3) \<leftarrow> factoryReset_WaitForButton False
                 (min (FACTORY_RESET_CANCEL_WINDOW_MS - elapsed2) FACTORY_RESET_DOUBLE_CLICK_MS) c2;
               let clickElapsed = Platform_GetTick c3 - firstClick;
               let elapsed3 = Platform_GetTick c3 - windowStarted;
               if \<not> up \<or> clickElapsed \<ge> FACTORY_RESET_DOUBLE_CLICK_MS \<or> elapsed3 \<ge> FACTORY_RESET_CANCEL_WINDOW_MS
               then Some (False, c3)
               else factoryReset_WaitForButton True
                 (min (FACTORY_RESET_DOUBLE_CLICK_MS - clickElapsed) (FACTORY_RESET_CANCEL_WINDOW_MS - elapsed3)) c3
             }
           }
         })"

partial_function (option) factoryReset_HoldLoop :: "u32 \<Rightarrow> reset_clock \<Rightarrow> reset_clock option" where
  "factoryReset_HoldLoop holdStarted c =
     (if Platform_GetTick c - holdStarted \<ge> FACTORY_RESET_HOLD_MS then Some c
      else if \<not> factoryReset_ButtonPressed c
      then let c1 = vTaskDelay FACTORY_RESET_DEBOUNCE_MS c
           in if \<not> factoryReset_ButtonPressed c1 then Some c1
              else factoryReset_HoldLoop holdStarted (vTaskDelay FACTORY_RESET_POLL_MS c1)
      else factoryReset_HoldLoop holdStarted (vTaskDelay FACTORY_RESET_POLL_MS c))"

partial_function (option) factoryReset_WindowLoop :: "u32 \<Rightarrow> reset_clock \<Rightarrow> reset_clock option" where
  "factoryReset_WindowLoop windowStarted c =
     (if \<not> Platform_GetTick c - windowStarted < FACTORY_RESET_CANCEL_WINDOW_MS then Some c
      else factoryReset_WindowLoop windowStarted (vTaskDelay FACTORY_RESET_POLL_MS c))"

declare factoryReset_HoldLoop.simps [code] factoryReset_WindowLoop.simps [code]

text \<open>
  One pass of the task loop. The five-beep warning takes \<open>warningMs\<close> and may fail; the acknowledgement
  of a cancelled reset takes \<open>cancelMs\<close>.
\<close>

definition factoryReset_Task ::
  "bool \<Rightarrow> nat \<Rightarrow> nat \<Rightarrow> reset_clock \<Rightarrow> w25q64 \<Rightarrow> (reset_outcome \<times> reset_clock \<times> w25q64) option" where
  "factoryReset_Task warned warningMs cancelMs c f = do {
     (pressed, c1) \<leftarrow> factoryReset_WaitForButton True portMAX_DELAY c;
     if \<not> pressed then Some (Reset_Continue, c1, f)
     else do {
       let holdStarted = Platform_GetTick c1;
       c2 \<leftarrow> factoryReset_HoldLoop holdStarted c1;
       if Platform_GetTick c2 - holdStarted < FACTORY_RESET_HOLD_MS then Some (Reset_Continue, c2, f)
       else let c3 = c2\<lparr>rs_time := rs_time c2 + warningMs\<rparr>
            in if \<not> warned then Some (Reset_Continue, c3, f)
               else do {
                 let windowStarted = Platform_GetTick c3;
                 (cancelled, c4) \<leftarrow> factoryReset_CancelRequested windowStarted c3;
                 if cancelled then Some (Reset_Continue, c4\<lparr>rs_time := rs_time c4 + cancelMs\<rparr>, f)
                 else do {
                   c5 \<leftarrow> factoryReset_WindowLoop windowStarted c4;
                   case factoryReset_Execute f of (outcome, f') \<Rightarrow> Some (outcome, c5, f')
                 }
               }
     }
   }"

definition FactoryResetService_Init :: "bool \<Rightarrow> ErrorStatus" where
  "FactoryResetService_Init taskCreated = (if taskCreated then SUCCESS else ERROR)"

section \<open>What erasing does to the memory\<close>

definition sector_number :: "u32 \<Rightarrow> nat" where
  "sector_number a = unat a div nor_sector"

text \<open>Every byte of these sectors is erased.\<close>

definition all_erased :: "(nat \<Rightarrow> u8) \<Rightarrow> nat set \<Rightarrow> bool" where
  "all_erased m ks \<longleftrightarrow> (\<forall>i. i div nor_sector \<in> ks \<longrightarrow> m i = 0xFF)"

definition sector_ok :: "u32 \<Rightarrow> bool" where
  "sector_ok a \<longleftrightarrow> unat a mod nor_sector = 0 \<and> unat a + nor_sector \<le> nor_capacity"

lemma sector_offset:
  assumes "sector_ok a" and "offset \<in> set verify_offsets"
  shows "unat (a + offset) + 64 \<le> nor_capacity" and "x < 64 \<Longrightarrow> (unat (a + offset) + x) div nor_sector = sector_number a"
proof -
  obtain k where k: "k < 64" and offset: "offset = of_nat k * 64"
    using assms(2) by (auto simp: verify_offsets_def FACTORY_RESET_VERIFY_CHUNK_SIZE_def)
  have o: "unat offset = 64 * k"
    using k unfolding offset by (simp add: unat_word_ariths unat_of_nat)
  have a: "unat a mod 4096 = 0" "unat a + 4096 \<le> 8388608"
    using assms(1) by (simp_all add: sector_ok_def)
  have sum: "unat (a + offset) = unat a + 64 * k"
    using a(2) k o by (subst unat_add_lem [THEN iffD1]) auto
  show "unat (a + offset) + 64 \<le> nor_capacity"
    using a(2) k unfolding sum by simp
  show "(unat (a + offset) + x) div nor_sector = sector_number a" if "x < 64"
  proof -
    obtain q where q: "unat a = 4096 * q"
      using a(1) by auto
    have "64 * k + x < 4096"
      using that k by simp
    then show ?thesis
      unfolding sum sector_number_def q by simp
  qed
qed

lemma factoryReset_VerifyLoop_mem:
  "factoryReset_VerifyLoop f a os = (s, f') \<Longrightarrow> sector_ok a \<Longrightarrow> set os \<subseteq> set verify_offsets \<Longrightarrow> nor_mem f' = nor_mem f"
proof (induction os arbitrary: f)
  case (Cons offset os)
  obtain s1 data f1 where r: "W25Q64_Read f (a + offset) FACTORY_RESET_VERIFY_CHUNK_SIZE = (s1, data, f1)"
    by (metis prod_cases3)
  have "nor_mem f1 = nor_mem f"
    using w25q64_driver.rd_mem [OF r] sector_offset(1) [of a offset] Cons.prems(2,3)
    by (simp add: FACTORY_RESET_VERIFY_CHUNK_SIZE_def)
  then show ?case
    using Cons.prems Cons.IH [of f1] r by (auto split: if_splits)
qed simp

lemma factoryReset_VerifyLoop_ready:
  "flash_ready f \<Longrightarrow> all_erased (nor_mem f) {sector_number a} \<Longrightarrow> sector_ok a \<Longrightarrow> set os \<subseteq> set verify_offsets \<Longrightarrow>
     \<exists>f'. factoryReset_VerifyLoop f a os = (PLATFORM_STATUS_OK, f') \<and> flash_ready f' \<and> nor_mem f' = nor_mem f"
proof (induction os arbitrary: f)
  case (Cons offset os)
  have o: "offset \<in> set verify_offsets"
    using Cons.prems(4) by simp
  have room: "unat (a + offset) + unat FACTORY_RESET_VERIFY_CHUNK_SIZE \<le> nor_capacity"
    using sector_offset(1) [OF Cons.prems(3) o] by (simp add: FACTORY_RESET_VERIFY_CHUNK_SIZE_def)
  obtain data f1 where r: "W25Q64_Read f (a + offset) FACTORY_RESET_VERIFY_CHUNK_SIZE = (PLATFORM_STATUS_OK, data, f1)" "flash_ready f1"
    using w25q64_driver.rd_ready [OF Cons.prems(1) _ room] by (auto simp: FACTORY_RESET_VERIFY_CHUNK_SIZE_def)
  have mem: "nor_mem f1 = nor_mem f"
    using w25q64_driver.rd_mem [OF r(1) room] .
  have "nor_mem f (unat (a + offset) + x) = 0xFF" if "x < 64" for x
    using Cons.prems(2) sector_offset(2) [OF Cons.prems(3) o that] by (simp add: all_erased_def)
  then have "list_all (\<lambda>b. b = 0xFF) data"
    unfolding w25q64_driver.rd_ok [OF r(1) room]
    by (auto simp: list_all_iff FACTORY_RESET_VERIFY_CHUNK_SIZE_def) (metis le_add_diff_inverse add_less_cancel_left)
  then show ?case
    using Cons.IH [of f1] Cons.prems r mem by (simp add: all_erased_def)
qed simp

lemma factoryReset_EraseLoop_mem:
  "factoryReset_EraseLoop f as = (s, f') \<Longrightarrow> list_all sector_ok as \<Longrightarrow>
     (i div nor_sector \<notin> sector_number ` set as \<longrightarrow> nor_mem f' i = nor_mem f i)
     \<and> (nor_mem f i = 0xFF \<longrightarrow> nor_mem f' i = 0xFF)
     \<and> (s = PLATFORM_STATUS_OK \<longrightarrow> i div nor_sector \<in> sector_number ` set as \<longrightarrow> nor_mem f' i = 0xFF)"
proof (induction as arbitrary: f)
  case (Cons a as)
  obtain s1 f1 where e: "W25Q64_EraseSector f a = (s1, f1)"
    by fastforce
  obtain s2 f2 where v: "factoryReset_VerifyErased f1 a = (s2, f2)"
    by fastforce
  have f1: "(i div nor_sector \<noteq> sector_number a \<longrightarrow> nor_mem f1 i = nor_mem f i) \<and> (nor_mem f i = 0xFF \<longrightarrow> nor_mem f1 i = 0xFF)
      \<and> (s1 = PLATFORM_STATUS_OK \<longrightarrow> i div nor_sector = sector_number a \<longrightarrow> nor_mem f1 i = 0xFF)"
    using W25Q64_EraseSector_cases [OF e] by (auto simp: nor_erase_def sector_number_def)
  have f2: "nor_mem f2 = nor_mem f1"
    using factoryReset_VerifyLoop_mem v Cons.prems(2) by (auto simp: factoryReset_VerifyErased_def)
  have done_: "nor_mem f' i = nor_mem f1 i \<and> s \<noteq> PLATFORM_STATUS_OK \<or> factoryReset_EraseLoop f2 as = (s, f') \<and> s1 = PLATFORM_STATUS_OK"
    using Cons.prems(1) e v f2 by (auto split: if_splits)
  have rest: "factoryReset_EraseLoop f2 as = (s, f') \<Longrightarrow>
      (i div nor_sector \<notin> sector_number ` set as \<longrightarrow> nor_mem f' i = nor_mem f1 i)
      \<and> (nor_mem f1 i = 0xFF \<longrightarrow> nor_mem f' i = 0xFF)
      \<and> (s = PLATFORM_STATUS_OK \<longrightarrow> i div nor_sector \<in> sector_number ` set as \<longrightarrow> nor_mem f' i = 0xFF)"
    using Cons.IH [of f2] Cons.prems(2) f2 by simp
  show ?case
    using done_
  proof
    assume "nor_mem f' i = nor_mem f1 i \<and> s \<noteq> PLATFORM_STATUS_OK"
    then show ?thesis
      using f1 by simp
  next
    assume "factoryReset_EraseLoop f2 as = (s, f') \<and> s1 = PLATFORM_STATUS_OK"
    then show ?thesis
      using f1 rest by (cases "i div nor_sector = sector_number a") auto
  qed
qed simp

lemma factoryReset_EraseLoop_ready:
  "flash_ready f \<Longrightarrow> list_all sector_ok as \<Longrightarrow> \<exists>f'. factoryReset_EraseLoop f as = (PLATFORM_STATUS_OK, f') \<and> flash_ready f'"
proof (induction as arbitrary: f)
  case (Cons a as)
  have "unat a < nor_capacity" "unat a mod nor_sector = 0"
    using Cons.prems(2) by (auto simp: sector_ok_def)
  then obtain f1 where e: "W25Q64_EraseSector f a = (PLATFORM_STATUS_OK, f1)" "flash_ready f1"
    using w25q64_driver.er_ready [OF Cons.prems(1), of a] by auto
  have "all_erased (nor_mem f1) {sector_number a}"
    using w25q64_driver.er_ok [OF e(1)] by (simp add: all_erased_def nor_erase_def sector_number_def)
  then obtain f2 where "factoryReset_VerifyErased f1 a = (PLATFORM_STATUS_OK, f2)" "flash_ready f2"
    using factoryReset_VerifyLoop_ready [OF e(2)] Cons.prems(2) by (fastforce simp: factoryReset_VerifyErased_def)
  then show ?case
    using Cons.IH [of f2] Cons.prems(2) e(1) by simp
qed simp

section \<open>The marker and the whole reset\<close>

abbreviation marker_sector :: nat where "marker_sector \<equiv> 2032"

definition marker_set :: "(nat \<Rightarrow> u8) \<Rightarrow> bool" where
  "marker_set m \<longleftrightarrow> image_at m FLASH_LAYOUT_FACTORY_RESET_MARKER_SECTOR 8 = marker_bytes"

text \<open>Everything the reset clears, the marker included: the eighteen sectors at the top of the chip.\<close>

definition reset_done :: "(nat \<Rightarrow> u8) \<Rightarrow> bool" where
  "reset_done m \<longleftrightarrow> all_erased m {2030..2047}"

lemma flash_sector_from_top_unat: "k \<le> 18 \<Longrightarrow> unat (flash_sector_from_top (of_nat k)) = 4096 * (2048 - k)"
proof -
  assume k: "k \<le> 18"
  then have "unat (of_nat k * W25Q64_SECTOR_SIZE) = k * 4096"
    by (simp add: unat_word_ariths unat_of_nat W25Q64_SECTOR_SIZE_def)
  moreover from this have "of_nat k * W25Q64_SECTOR_SIZE \<le> W25Q64_CAPACITY_BYTES"
    using k by (simp add: word_le_nat_alt W25Q64_CAPACITY_BYTES_def)
  ultimately show ?thesis
    using k by (simp add: flash_sector_from_top_def unat_sub W25Q64_CAPACITY_BYTES_def)
qed

lemma data_sectors_ok: "a \<in> set data_sectors \<Longrightarrow> sector_ok a"
  by (auto simp: data_sectors_def sector_ok_def FLASH_LAYOUT_FACTORY_RESET_DATA_SECTORS_def flash_sector_from_top_unat)

lemma data_sector_numbers: "sector_number ` set data_sectors = (\<lambda>k. 2048 - k) ` {1..<16}"
  unfolding data_sectors_def set_map image_image FLASH_LAYOUT_FACTORY_RESET_DATA_SECTORS_def set_upt
  by (rule image_cong) (auto simp: sector_number_def flash_sector_from_top_unat)

lemma reset_sectors:
  "sector_number ` set data_sectors = {2033..2047}" "list_all sector_ok data_sectors"
  "sector_number ` set callbackSectors = {2030, 2031}" "list_all sector_ok callbackSectors"
  "sector_ok FLASH_LAYOUT_FACTORY_RESET_MARKER_SECTOR" "sector_number FLASH_LAYOUT_FACTORY_RESET_MARKER_SECTOR = marker_sector"
proof -
  have "k \<in> (\<lambda>k. 2048 - k) ` {1..<16}" if "k \<in> {2033..2047}" for k :: nat
    using that by (intro image_eqI [of _ _ "2048 - k"]) auto
  then show "sector_number ` set data_sectors = {2033..2047}"
    unfolding data_sector_numbers by auto
qed (simp_all add: sector_ok_def sector_number_def callbackSectors_def list_all_iff data_sectors_ok [unfolded sector_ok_def])

lemma of_le32_eq_iff: "length bs = 4 \<Longrightarrow> of_le32 bs = w \<longleftrightarrow> bs = le32 w"
proof -
  assume "length bs = 4"
  then obtain a b c d where "bs = [a, b, c, d]"
    by (auto simp: numeral_eq_Suc length_Suc_conv)
  then show ?thesis
    using le32_of_le32 [of a b c d] by (metis of_le32_le32)
qed

lemma of_le32_take: "length bs = 8 \<Longrightarrow> of_le32 bs = of_le32 (take 4 bs)"
  by (auto simp: numeral_eq_Suc length_Suc_conv)

lemma marker_decode:
  assumes "length bs = 8"
  shows "of_le32 bs = FACTORY_RESET_MARKER_MAGIC \<and> of_le32 (drop 4 bs) = NOT FACTORY_RESET_MARKER_MAGIC \<longleftrightarrow> bs = marker_bytes"
proof -
  have "of_le32 bs = FACTORY_RESET_MARKER_MAGIC \<longleftrightarrow> take 4 bs = le32 FACTORY_RESET_MARKER_MAGIC"
      "of_le32 (drop 4 bs) = NOT FACTORY_RESET_MARKER_MAGIC \<longleftrightarrow> drop 4 bs = le32 (NOT FACTORY_RESET_MARKER_MAGIC)"
    using assms of_le32_eq_iff [of "take 4 bs"] of_le32_eq_iff [of "drop 4 bs"] of_le32_take by simp_all
  then show ?thesis
    unfolding marker_bytes_def by (metis append_eq_conv_conj length_le32)
qed

lemma factoryReset_MarkerValid_outcome:
  assumes "factoryReset_MarkerValid f = (valid, f')"
  shows "nor_mem f' = nor_mem f" and "valid \<Longrightarrow> marker_set (nor_mem f)"
    and "flash_ready f \<Longrightarrow> flash_ready f' \<and> (valid \<longleftrightarrow> marker_set (nor_mem f))"
proof -
  obtain s bs where r: "W25Q64_Read f FLASH_LAYOUT_FACTORY_RESET_MARKER_SECTOR 8 = (s, bs, f')"
    using assms by (auto simp: factoryReset_MarkerValid_def split: prod.splits)
  have v: "valid \<longleftrightarrow> s = PLATFORM_STATUS_OK \<and> of_le32 bs = FACTORY_RESET_MARKER_MAGIC
      \<and> of_le32 (drop 4 bs) = NOT FACTORY_RESET_MARKER_MAGIC"
    using assms r by (auto simp: factoryReset_MarkerValid_def)
  have room: "unat FLASH_LAYOUT_FACTORY_RESET_MARKER_SECTOR + unat (8 :: u32) \<le> nor_capacity"
    by simp
  have ok: "s = PLATFORM_STATUS_OK \<Longrightarrow> bs = image_at (nor_mem f) FLASH_LAYOUT_FACTORY_RESET_MARKER_SECTOR 8"
    using w25q64_driver.rd_ok [OF _ room] r by (auto simp: image_at_def)
  have eq: "s = PLATFORM_STATUS_OK \<Longrightarrow> valid \<longleftrightarrow> marker_set (nor_mem f)"
    using v ok marker_decode [of bs] by (simp add: marker_set_def image_at_def)
  show "nor_mem f' = nor_mem f"
    using w25q64_driver.rd_mem [OF r room] .
  show "valid \<Longrightarrow> marker_set (nor_mem f)"
    using v eq by blast
  show "flash_ready f' \<and> (valid \<longleftrightarrow> marker_set (nor_mem f))" if "flash_ready f"
    using w25q64_driver.rd_ready [OF that _ room] r eq by auto
qed

lemma marker_set_cong:
  "(\<And>i. i div nor_sector = marker_sector \<Longrightarrow> m' i = m i) \<Longrightarrow> marker_set m' = marker_set m"
  by (simp add: marker_set_def image_at_def)

lemma reset_done_unmarked: "reset_done m \<Longrightarrow> \<not> marker_set m"
proof
  assume "reset_done m" "marker_set m"
  then have "m 8323072 = 0xFF" "m 8323072 = ucast FACTORY_RESET_MARKER_MAGIC"
    by (auto simp: reset_done_def all_erased_def marker_set_def image_at_def marker_bytes_def le32_def upt_conv_Cons)
  then show False
    by (simp add: FACTORY_RESET_MARKER_MAGIC_def)
qed

text \<open>Whatever fails while erasing: the marker goes last, and only when all the rest is erased.\<close>

lemma factoryReset_ErasePersistentData_outcome:
  assumes "factoryReset_ErasePersistentData f = (s, f')"
  shows "marker_set (nor_mem f) \<Longrightarrow> marker_set (nor_mem f') \<or> reset_done (nor_mem f')"
    and "s = PLATFORM_STATUS_OK \<Longrightarrow> reset_done (nor_mem f')"
proof -
  obtain s1 f1 where l1: "factoryReset_EraseLoop f data_sectors = (s1, f1)"
    by fastforce
  obtain s2 f2 where l2: "factoryReset_EraseLoop f1 callbackSectors = (s2, f2)"
    by fastforce
  obtain s3 f3 where l3: "W25Q64_EraseSector f2 FLASH_LAYOUT_FACTORY_RESET_MARKER_SECTOR = (s3, f3)"
    by fastforce
  note m1 = factoryReset_EraseLoop_mem [OF l1 reset_sectors(2), unfolded reset_sectors(1)]
  note m2 = factoryReset_EraseLoop_mem [OF l2 reset_sectors(4), unfolded reset_sectors(3)]
  have k1: "marker_set (nor_mem f1) = marker_set (nor_mem f)"
    by (rule marker_set_cong) (simp add: m1)
  have k2: "marker_set (nor_mem f2) = marker_set (nor_mem f1)"
    by (rule marker_set_cong) (simp add: m2)
  have data: "all_erased (nor_mem f2) ({2030..2047} - {marker_sector})" if "s1 = PLATFORM_STATUS_OK" "s2 = PLATFORM_STATUS_OK"
    unfolding all_erased_def
  proof (intro allI impI)
    fix i assume i: "i div nor_sector \<in> {2030..2047} - {marker_sector}"
    then have "i div nor_sector \<in> {2033..2047} \<or> i div nor_sector \<in> {2030, 2031}"
      by auto
    then show "nor_mem f2 i = 0xFF"
      using m1 [of i] m2 [of i] that by blast
  qed
  have m3: "nor_mem f3 = nor_mem f2 \<or> nor_mem f3 = nor_erase (nor_mem f2) (marker_sector * nor_sector)"
      "s3 = PLATFORM_STATUS_OK \<Longrightarrow> nor_mem f3 = nor_erase (nor_mem f2) (marker_sector * nor_sector)"
    using W25Q64_EraseSector_cases [OF l3] by auto
  have all: "reset_done (nor_erase (nor_mem f2) (marker_sector * nor_sector))" if "s1 = PLATFORM_STATUS_OK" "s2 = PLATFORM_STATUS_OK"
    using data [OF that] by (auto simp: reset_done_def all_erased_def nor_erase_def)
  consider "f' = f1" "s \<noteq> PLATFORM_STATUS_OK" | "f' = f2" "s \<noteq> PLATFORM_STATUS_OK"
    | "s1 = PLATFORM_STATUS_OK" "s2 = PLATFORM_STATUS_OK" "s = s3" "f' = f3"
    using assms l1 l2 l3 by (auto simp: factoryReset_ErasePersistentData_def split: if_splits)
  note cases = this
  show "marker_set (nor_mem f') \<or> reset_done (nor_mem f')" if "marker_set (nor_mem f)"
    using cases that k1 k2 m3(1) all by cases auto
  show "reset_done (nor_mem f')" if "s = PLATFORM_STATUS_OK"
    using cases that m3(2) all by cases auto
qed

lemma factoryReset_ErasePersistentData_ready:
  assumes "flash_ready f"
  shows "\<exists>f'. factoryReset_ErasePersistentData f = (PLATFORM_STATUS_OK, f') \<and> flash_ready f'"
proof -
  obtain f1 where l1: "factoryReset_EraseLoop f data_sectors = (PLATFORM_STATUS_OK, f1)" "flash_ready f1"
    using factoryReset_EraseLoop_ready [OF assms reset_sectors(2)] by blast
  obtain f2 where l2: "factoryReset_EraseLoop f1 callbackSectors = (PLATFORM_STATUS_OK, f2)" "flash_ready f2"
    using factoryReset_EraseLoop_ready [OF l1(2) reset_sectors(4)] by blast
  obtain f3 where "W25Q64_EraseSector f2 FLASH_LAYOUT_FACTORY_RESET_MARKER_SECTOR = (PLATFORM_STATUS_OK, f3)" "flash_ready f3"
    using w25q64_driver.er_ready [OF l2(2), of FLASH_LAYOUT_FACTORY_RESET_MARKER_SECTOR] by auto
  then show ?thesis
    using l1(1) l2(1) by (simp add: factoryReset_ErasePersistentData_def)
qed

lemma factoryReset_Arm_outcome:
  assumes "factoryReset_Arm f = (s, f')"
  shows "i div nor_sector \<noteq> marker_sector \<Longrightarrow> nor_mem f' i = nor_mem f i"
    and "s = PLATFORM_STATUS_OK \<Longrightarrow> marker_set (nor_mem f')"
proof -
  let ?a = FLASH_LAYOUT_FACTORY_RESET_MARKER_SECTOR
  obtain s1 f1 where e: "W25Q64_EraseSector f ?a = (s1, f1)"
    by fastforce
  obtain s2 f2 where p: "W25Q64_Program f1 ?a marker_bytes = (s2, f2)"
    by fastforce
  obtain valid f3 where v: "factoryReset_MarkerValid f2 = (valid, f3)"
    by fastforce
  have cases: "f' = f1 \<and> s \<noteq> PLATFORM_STATUS_OK \<or> f' = f2 \<and> s \<noteq> PLATFORM_STATUS_OK \<or> f' = f3 \<and> (s = PLATFORM_STATUS_OK \<longrightarrow> valid)"
    using assms e p v by (auto simp: factoryReset_Arm_def split: if_splits)
  have m1: "nor_mem f1 i = nor_mem f i" if "i div nor_sector \<noteq> marker_sector"
    using W25Q64_EraseSector_cases [OF e] that by (auto simp: nor_erase_def)
  have len: "length marker_bytes = 8"
    by (simp add: marker_bytes_def)
  obtain k where "nor_mem f2 = nor_write (nor_mem f1) 8323072 (take k marker_bytes)"
    using W25Q64_Program_cases [OF p] len by auto
  then have m2: "nor_mem f2 i = nor_mem f1 i" if "i div nor_sector \<noteq> marker_sector"
    using that len by (auto simp: nor_write_def)
  note m3 = factoryReset_MarkerValid_outcome [OF v]
  show "nor_mem f' i = nor_mem f i" if "i div nor_sector \<noteq> marker_sector"
    using cases m1 [OF that] m2 [OF that] m3(1) by auto
  show "s = PLATFORM_STATUS_OK \<Longrightarrow> marker_set (nor_mem f')"
    using cases m3(1,2) by auto
qed

lemma lock_mem [simp]: "nor_mem (snd (W25Q64_Lock f)) = nor_mem f" "nor_mem (W25Q64_Unlock f) = nor_mem f"
  by (simp_all add: W25Q64_Lock_def W25Q64_Unlock_def xSemaphoreTakeRecursive_def split: option.split)

lemma factoryReset_Execute_outcome:
  assumes "factoryReset_Execute f = (outcome, f')"
  shows "outcome = Reset_Continue \<Longrightarrow> i div nor_sector \<noteq> marker_sector \<Longrightarrow> nor_mem f' i = nor_mem f i"
    and "outcome = Reset_Restart \<Longrightarrow> marker_set (nor_mem f') \<or> reset_done (nor_mem f')"
proof -
  obtain s f1 where l: "W25Q64_Lock f = (s, f1)"
    by fastforce
  have f1: "nor_mem f1 = nor_mem f"
    using lock_mem(1) [of f] l by simp
  obtain s2 f2 where a: "factoryReset_Arm f1 = (s2, f2)"
    by fastforce
  obtain s3 f3 where e: "factoryReset_ErasePersistentData f2 = (s3, f3)"
    by fastforce
  note m2 = factoryReset_Arm_outcome [OF a]
  show "nor_mem f' i = nor_mem f i" if "outcome = Reset_Continue" "i div nor_sector \<noteq> marker_sector"
    using assms that l a f1 m2(1) [OF that(2)] by (auto simp: factoryReset_Execute_def split: if_splits)
  show "marker_set (nor_mem f') \<or> reset_done (nor_mem f')" if "outcome = Reset_Restart"
    using assms that l a e m2(2) factoryReset_ErasePersistentData_outcome(1) [OF e]
    by (auto simp: factoryReset_Execute_def split: if_splits)
qed

section \<open>Recovery\<close>

text \<open>A start of the device, with whatever faults, that ran the recovery of an interrupted reset.\<close>

definition recovery_attempt :: "(nat \<Rightarrow> u8) \<Rightarrow> (nat \<Rightarrow> u8) \<Rightarrow> bool" where
  "recovery_attempt m m' \<longleftrightarrow> (\<exists>f s f'. nor_mem f = m \<and> FactoryResetService_Recover f = (s, f') \<and> nor_mem f' = m')"

lemma recovery_attempt_keeps:
  assumes "recovery_attempt m m'" and "marker_set m \<or> reset_done m"
  shows "marker_set m' \<or> reset_done m'"
proof -
  obtain f s f' where f: "nor_mem f = m" "FactoryResetService_Recover f = (s, f')" "nor_mem f' = m'"
    using assms(1) by (auto simp: recovery_attempt_def)
  obtain valid f1 where v: "factoryReset_MarkerValid f = (valid, f1)"
    by fastforce
  show ?thesis
    using f v factoryReset_MarkerValid_outcome(1,2) [OF v] factoryReset_ErasePersistentData_outcome(1) [of f1 s f'] assms(2)
    by (auto simp: FactoryResetService_Recover_def split: if_splits)
qed

lemma recovery_attempts_keep:
  "recovery_attempt\<^sup>*\<^sup>* m m' \<Longrightarrow> marker_set m \<or> reset_done m \<Longrightarrow> marker_set m' \<or> reset_done m'"
  by (induction rule: rtranclp_induct) (auto dest: recovery_attempt_keeps)

lemma FactoryResetService_Recover_ready:
  assumes "flash_ready f" and "marker_set (nor_mem f) \<or> reset_done (nor_mem f)"
  shows "\<exists>f'. FactoryResetService_Recover f = (PLATFORM_STATUS_OK, f') \<and> flash_ready f' \<and> reset_done (nor_mem f')"
proof -
  obtain valid f1 where v: "factoryReset_MarkerValid f = (valid, f1)"
    by fastforce
  have f1: "nor_mem f1 = nor_mem f" "flash_ready f1" "valid \<longleftrightarrow> marker_set (nor_mem f)"
    using factoryReset_MarkerValid_outcome [OF v] assms(1) by auto
  obtain f2 where e: "factoryReset_ErasePersistentData f1 = (PLATFORM_STATUS_OK, f2)" "flash_ready f2"
    using factoryReset_ErasePersistentData_ready [OF f1(2)] by blast
  show ?thesis
    using v f1 e factoryReset_ErasePersistentData_outcome(2) [OF e(1)] assms(2)
    by (auto simp: FactoryResetService_Recover_def)
qed

text \<open>
  C7: a factory reset is all or nothing. When it could not be armed, every byte outside the sector of
  the marker is as before. When it was armed (the marker was written and read back, and the device
  restarts), however the erasing failed and however many of the following recoveries were cut short
  or met faults, the first recovery without faults completes it: every byte of all persistent stores
  and of the marker is erased. A recovery with faults can report success without having erased
  anything, when it cannot read the marker; the theorem covers such starts as attempts. A loss of power
  is a run whose later transfers all fail; the erase of one sector inside the chip is atomic here.
\<close>

theorem factory_reset_recoverable:
  assumes "factoryReset_Execute f = (outcome, f1)"
  shows "case outcome of
      Reset_Continue \<Rightarrow> \<forall>i. i div nor_sector \<noteq> marker_sector \<longrightarrow> nor_mem f1 i = nor_mem f i
    | Reset_Restart \<Rightarrow> \<forall>g. recovery_attempt\<^sup>*\<^sup>* (nor_mem f1) (nor_mem g) \<longrightarrow> flash_ready g \<longrightarrow>
        (\<exists>g'. FactoryResetService_Recover g = (PLATFORM_STATUS_OK, g') \<and> flash_ready g' \<and> reset_done (nor_mem g'))"
  using factoryReset_Execute_outcome [OF assms] FactoryResetService_Recover_ready recovery_attempts_keep
  by (auto split: reset_outcome.split)

lemma factoryReset_Execute_ready:
  assumes "flash_ready f"
  shows "fst (factoryReset_Execute f) = Reset_Restart"
proof -
  let ?a = FLASH_LAYOUT_FACTORY_RESET_MARKER_SECTOR
  obtain f0 where l: "W25Q64_Lock f = (PLATFORM_STATUS_OK, f0)" "flash_ready f0"
    using assms by (auto simp: W25Q64_Lock_def xSemaphoreTakeRecursive_def flash_ready_def)
  obtain f1 where e: "W25Q64_EraseSector f0 ?a = (PLATFORM_STATUS_OK, f1)" "flash_ready f1"
    using w25q64_driver.er_ready [OF l(2), of ?a] by auto
  have len: "length marker_bytes = 8" "marker_bytes \<noteq> []"
    by (auto simp: marker_bytes_def le32_def)
  obtain f2 where p: "W25Q64_Program f1 ?a marker_bytes = (PLATFORM_STATUS_OK, f2)" "flash_ready f2"
    using w25q64_driver.pr_ready [OF e(2) len(2), of ?a] len(1) by auto
  have "nor_mem f2 = nor_write (nor_erase (nor_mem f0) (unat ?a)) (unat ?a) marker_bytes"
    using w25q64_driver.er_ok [OF e(1)] w25q64_driver.pr_ok [OF p(1)] len(1) by simp
  then have "marker_set (nor_mem f2)"
    using image_after_erase_program [of ?a "marker_bytes" 8 "nor_mem f0"] len(1) by (simp add: marker_set_def)
  then obtain f3 where "factoryReset_MarkerValid f2 = (True, f3)"
    using factoryReset_MarkerValid_outcome(3) [OF _ p(2)] by (metis prod.collapse)
  then show ?thesis
    using l(1) e(1) p(1) by (simp add: factoryReset_Execute_def factoryReset_Arm_def)
qed

theorem factory_reset_recoverable_witness:
  "\<exists>f1 g'. factoryReset_Execute blank_flash = (Reset_Restart, f1)
     \<and> FactoryResetService_Recover (blank_flash\<lparr>nor_mem := nor_mem f1\<rparr>) = (PLATFORM_STATUS_OK, g') \<and> reset_done (nor_mem g')"
proof -
  obtain f1 where e: "factoryReset_Execute blank_flash = (Reset_Restart, f1)"
    using factoryReset_Execute_ready [OF blank_ready] by (metis prod.collapse)
  let ?g = "blank_flash\<lparr>nor_mem := nor_mem f1\<rparr>"
  have "flash_ready ?g"
    by (simp add: flash_ready_def blank_flash_def)
  moreover have "recovery_attempt\<^sup>*\<^sup>* (nor_mem f1) (nor_mem ?g)"
    by simp
  ultimately have "\<exists>g'. FactoryResetService_Recover ?g = (PLATFORM_STATUS_OK, g') \<and> flash_ready g' \<and> reset_done (nor_mem g')"
    using factory_reset_recoverable [OF e] by simp
  then show ?thesis
    using e by blast
qed

section \<open>The stores after a reset\<close>

lemma reset_image:
  assumes "reset_done m" and "2030 * 4096 \<le> unat a" and "unat a + unat z \<le> nor_capacity"
  shows "image_at m a z = replicate (unat z) 0xFF"
proof -
  have "m i = 0xFF" if "unat a \<le> i" "i < unat a + unat z" for i
  proof -
    have "2030 \<le> i div nor_sector" "i div nor_sector \<le> 2047"
      using assms(2,3) that by auto
    then show ?thesis
      using assms(1) by (simp add: reset_done_def all_erased_def)
  qed
  then show ?thesis
    by (auto simp: image_at_def intro!: nth_equalityI)
qed

lemma reset_newest:
  assumes "reset_done m"
  shows "user_ab.newest m = None" "hc_ab.newest m = None" "hc_legacy.newest m = None" "cb_ab.newest m = None" "sc_ab.newest m = None"
proof -
  have "\<not> healthCheckConfig_IsValid (dec_hc_snapshot (replicate 472 0xFF))"
      "\<not> healthCheckConfig_IsLegacyValid (dec_hl_snapshot (replicate 464 0xFF))"
      "\<not> callbackConfig_Valid (dec_cb_snapshot (replicate 168 0xFF))"
      "\<not> tlsServerCredentials_IsValid (dec_sc_snapshot (replicate 1556 0xFF))"
    by (simp_all add: healthCheckConfig_IsValid_def healthCheckConfig_IsLegacyValid_def dec_hc_snapshot_def dec_hl_snapshot_def
        callbackConfig_Valid_def dec_cb_snapshot_def tlsServerCredentials_IsValid_def dec_sc_snapshot_def
        HEALTH_CHECK_CONFIG_MAGIC_def CALLBACK_CONFIG_MAGIC_def TLS_SERVER_CREDENTIALS_MAGIC_def)
  then show "user_ab.newest m = None" "hc_ab.newest m = None" "hc_legacy.newest m = None" "cb_ab.newest m = None" "sc_ab.newest m = None"
    using assms blank_user_image
    by (simp_all add: ab_choose_def reset_image user_snapshot_size_def hc_snapshot_size_def hl_snapshot_size_def
        cb_snapshot_size_def sc_snapshot_size_def)
qed

lemma reset_users:
  assumes "flash_ready f" and "reset_done (nor_mem f)"
  shows "\<exists>us f'. UserStore_Init True us0 f = (PLATFORM_STATUS_OK, us, f') \<and> user_map (us_snapshot us) = Map.empty"
  using user_ab.load_ready [OF assms(1)] reset_newest(1) [OF assms(2)] empty_user_map by (auto simp: UserStore_Init_ab)

lemma reset_health_checks:
  assumes "flash_ready f" and "reset_done (nor_mem f)"
  shows "\<exists>hc f'. HealthCheckConfig_Init True hc0 f = (PLATFORM_STATUS_OK, hc, f')
    \<and> hc_resources (hc_snapshot hc) = hc_resources healthCheckConfig_SetDefault
    \<and> hc_periodSeconds (hc_snapshot hc) = HEALTH_CHECK_CONFIG_DEFAULT_PERIOD_SECONDS"
proof -
  let ?st = "hc0\<lparr>hc_configMutex := Sem_Free, hc_snapshot := healthCheckConfig_SetDefault, hc_activeAddress := hc_sector_b\<rparr>"
  obtain f' where f': "flash_ready f'" "nor_mem f' = nor_mem f" "HealthCheckConfig_Init True hc0 f = healthCheckConfig_SaveInPlace ?st f'"
    using HealthCheckConfig_Init_ab [OF assms(1), of hc0] reset_newest(2,3) [OF assms(2)] by (auto simp: Let_def)
  have "wf_hc_snapshot healthCheckConfig_SetDefault"
      "HEALTH_CHECK_CONFIG_MIN_PERIOD_SECONDS \<le> hc_periodSeconds healthCheckConfig_SetDefault"
      "hc_periodSeconds healthCheckConfig_SetDefault \<le> HEALTH_CHECK_CONFIG_MAX_PERIOD_SECONDS"
    by code_simp+
  moreover have "hc_resources (healthCheckConfig_Seal x) = hc_resources x" "hc_periodSeconds (healthCheckConfig_Seal x) = hc_periodSeconds x" for x
    by (simp_all add: healthCheckConfig_Seal_def Let_def)
  moreover have "hc_periodSeconds healthCheckConfig_SetDefault = HEALTH_CHECK_CONFIG_DEFAULT_PERIOD_SECONDS"
    by (simp add: healthCheckConfig_SetDefault_def)
  ultimately show ?thesis
    using healthCheckConfig_SaveInPlace_fresh [OF f'(1), of ?st] reset_newest(2) [OF assms(2)] f'(2,3) by auto
qed

lemma reset_callback:
  assumes "flash_ready f" and "reset_done (nor_mem f)"
  shows "\<exists>cb f'. CallbackConfig_Init True cb0 f = (PLATFORM_STATUS_OK, cb, f')
    \<and> cs_config (cb_snapshot cb) = \<lparr>cb_enabled = 0, cb_method = CALLBACK_METHOD_POST, cb_trustAnchorId = 0, cb_reserved = 0,
        cb_port = 443, cb_host = ''loopback.intraclear.com'' @ replicate 41 NUL, cb_path = ''/'' @ replicate 79 NUL\<rparr>"
proof -
  have "strncpy (replicate 64 NUL) ''loopback.intraclear.com'' 63 = ''loopback.intraclear.com'' @ replicate 41 NUL"
      "strncpy (replicate 80 NUL) ''/'' 79 = ''/'' @ replicate 79 NUL"
    by code_simp+
  then show ?thesis
    using CallbackConfig_Init_ready [OF assms(1), of cb0] reset_newest(4) [OF assms(2)]
    by (auto simp: default_cb_snapshot_def zero_cb_snapshot_def zero_callback_def)
qed

lemma reset_log:
  assumes "flash_ready f" and "reset_done (nor_mem f)"
  shows "\<exists>log f'. HealthCheckLog_Init True log0 f = (PLATFORM_STATUS_OK, log, f')
    \<and> activeSector log = 0 \<and> nextSlot log = 0 \<and> nextSequence log = 1 \<and> fst (HealthCheckLog_GetRecent log f' n) = []"
proof -
  have "nor_mem f i = 0xFF" if "log_base sector \<le> i" "i < log_sector_end sector" for sector i
  proof -
    have "2030 \<le> i div nor_sector" "i div nor_sector \<le> 2047"
      using that by (auto simp: log_base_cases log_sector_end_def split: if_splits)
    then show ?thesis
      using assms(2) by (simp add: reset_done_def all_erased_def)
  qed
  then obtain log f' where log: "HealthCheckLog_Init True log0 f = (PLATFORM_STATUS_OK, log, f')" "flash_ready f'"
      "logMutex log = Sem_Free" "activeSector log = 0" "nextSlot log = 0" "nextSequence log = 1" "log_view log f' = []"
    using HealthCheckLog_Init_erased [OF assms(1), of log0] by blast
  then show ?thesis
    using HealthCheckLog_GetRecent_ready [OF log(2,3), of n] by auto
qed

lemma reset_credentials:
  assumes "flash_ready f" and "reset_done (nor_mem f)"
  shows "\<exists>sc f'. TlsServerCredentials_Init sc0 f = (PLATFORM_STATUS_OK, sc, f') \<and> \<not> hasValidSnapshot sc"
proof -
  obtain s1 b1 f1 where r1: "W25Q64_Read f sc_sector_a sc_snapshot_size = (s1, b1, f1)"
    by (metis prod_cases3)
  obtain s2 b2 f2 where r2: "W25Q64_Read f1 sc_sector_b sc_snapshot_size = (s2, b2, f2)"
    by (metis prod_cases3)
  have "fst (sc_ab.load f) = None"
    using sc_ab.load_ready [OF assms(1)] reset_newest(5) [OF assms(2)] by auto
  then show ?thesis
    using r1 r2 by (auto simp: TlsServerCredentials_Init_def ab_load_def ab_choose_def Let_def split: if_splits)
qed

text \<open>Reading an erased bank into the trust store never gives a valid snapshot of either format.\<close>

lemma reset_read_into:
  assumes "flash_ready f" and "reset_done (nor_mem f)" and "2030 * 4096 \<le> unat a" and "unat a + unat n \<le> nor_capacity" and "4 \<le> unat n"
  shows "\<exists>st' f'. read_into st f a n = (PLATFORM_STATUS_OK, st', f') \<and> flash_ready f' \<and> nor_mem f' = nor_mem f
    \<and> ts_magic (trustStoreSnapshot st') = 0xFFFFFFFF \<and> trustStoreMutex st' = trustStoreMutex st"
proof -
  obtain bs f' where r: "W25Q64_Read f a n = (PLATFORM_STATUS_OK, bs, f')" "flash_ready f'"
    using w25q64_driver.rd_ready [OF assms(1) _ assms(4)] assms(5) by fastforce
  have "bs = replicate (unat n) 0xFF"
    using w25q64_driver.rd_ok [OF r(1) assms(4)] reset_image [OF assms(2-4)] by (simp add: image_at_def)
  then have "take 4 (bs @ rest) = replicate 4 0xFF" for rest
    using assms(5) by simp
  then show ?thesis
    using r w25q64_driver.rd_mem [OF r(1) assms(4)] by (simp add: read_into_def dec_ts_snapshot_def)
qed

lemma magic_invalid:
  assumes "ts_magic x = 0xFFFFFFFF"
  shows "\<not> tlsTrustStore_IsSnapshotValid x" "\<not> tlsTrustStore_IsLegacySnapshotValid x"
  using assms by (simp_all add: tlsTrustStore_IsSnapshotValid_def tlsTrustStore_IsLegacySnapshotValid_def TLS_TRUST_STORE_MAGIC_def)

lemma default_anchor_ok: "wf_anchor tlsTrustStore_SetDefaultAnchor" "anchor_valid tlsTrustStore_SetDefaultAnchor"
proof -
  have "length tlsTrustStore_DefaultPem = 1981"
    by (simp add: tlsTrustStore_DefaultPem_def)
  moreover have "NUL \<in> set (strncpy (replicate 128 NUL) tlsTrustStore_DefaultSubject 127)"
    "length (strncpy (replicate 128 NUL) tlsTrustStore_DefaultSubject 127) = 128"
    by code_simp+
  ultimately show "wf_anchor tlsTrustStore_SetDefaultAnchor" "anchor_valid tlsTrustStore_SetDefaultAnchor"
    by (auto simp: wf_anchor_def anchor_valid_def tlsTrustStore_SetDefaultAnchor_def zero_anchor_def TLS_TRUST_STORE_MAX_DER_SIZE_def)
qed

lemma reset_anchors:
  assumes "flash_ready f" and "reset_done (nor_mem f)"
  shows "\<exists>ts f'. TlsTrustStore_Init True ts0 f = (PLATFORM_STATUS_OK, ts, f')
    \<and> ts_anchors (trustStoreSnapshot ts) = tlsTrustStore_SetDefaultAnchor # replicate 3 zero_anchor"
proof -
  let ?st = "ts0\<lparr>trustStoreMutex := Sem_Free\<rparr>"
  obtain st1 f1 where r1: "read_into ?st f ts_bank_a ts_snapshot_size = (PLATFORM_STATUS_OK, st1, f1)" "flash_ready f1"
      "nor_mem f1 = nor_mem f" "ts_magic (trustStoreSnapshot st1) = 0xFFFFFFFF"
    using reset_read_into [OF assms, of ts_bank_a ts_snapshot_size ?st] by (auto simp: ts_snapshot_size_def)
  obtain st2 f2 where r2: "read_into st1 f1 ts_bank_b ts_snapshot_size = (PLATFORM_STATUS_OK, st2, f2)" "flash_ready f2"
      "nor_mem f2 = nor_mem f" "ts_magic (trustStoreSnapshot st2) = 0xFFFFFFFF"
    using reset_read_into [OF r1(2), of ts_bank_b ts_snapshot_size st1] assms(2) r1(3) by (auto simp: ts_snapshot_size_def)
  obtain st3 f3 where r3: "read_into st2 f2 FLASH_LAYOUT_TLS_TRUST_STORE_LEGACY_BANK_A tl_snapshot_size = (PLATFORM_STATUS_OK, st3, f3)"
      "flash_ready f3" "nor_mem f3 = nor_mem f" "ts_magic (trustStoreSnapshot st3) = 0xFFFFFFFF"
    using reset_read_into [OF r2(2), of FLASH_LAYOUT_TLS_TRUST_STORE_LEGACY_BANK_A tl_snapshot_size st2] assms(2) r2(3)
    by (auto simp: tl_snapshot_size_def)
  obtain st4 f4 where r4: "read_into st3 f3 FLASH_LAYOUT_TLS_TRUST_STORE_LEGACY_BANK_B tl_snapshot_size = (PLATFORM_STATUS_OK, st4, f4)"
      "flash_ready f4" "nor_mem f4 = nor_mem f" "ts_magic (trustStoreSnapshot st4) = 0xFFFFFFFF"
    using reset_read_into [OF r3(2), of FLASH_LAYOUT_TLS_TRUST_STORE_LEGACY_BANK_B tl_snapshot_size st3] assms(2) r3(3)
    by (auto simp: tl_snapshot_size_def)
  let ?c = "zero_ts_snapshot\<lparr>ts_anchors := (ts_anchors zero_ts_snapshot)[0 := tlsTrustStore_SetDefaultAnchor]\<rparr>"
  have "TlsTrustStore_Init True ts0 f =
      (case tlsTrustStore_CommitCandidate (st4\<lparr>trustStoreSnapshot := ?c, trustStoreActiveAddress := ts_bank_b\<rparr>) f4 of
        (s, st7, f7) \<Rightarrow> (if s = TLS_TRUST_STORE_STATUS_OK then PLATFORM_STATUS_OK else PLATFORM_STATUS_ERROR, st7, f7))"
    using r1 r2 r3 r4 by (simp add: TlsTrustStore_Init_def tlsTrustStore_ReadSnapshot_def magic_invalid Let_def)
  moreover have "ts_inv ?c"
    by (intro ts_inv_update ts_inv_zero default_anchor_ok)
  ultimately show ?thesis
    using tlsTrustStore_CommitCandidate_ready [OF r4(2), of "st4\<lparr>trustStoreSnapshot := ?c, trustStoreActiveAddress := ts_bank_b\<rparr>"]
    by (auto simp: tlsTrustStore_Seal_def zero_ts_snapshot_def numeral_eq_Suc)
qed

text \<open>
  C17: after a completed factory reset every store starts up on working flash from its built-in
  default: there is no user account besides the built-in master account, the one built-in resource is
  checked every 60 seconds, callbacks are disabled and have the built-in target (POST to / at
  loopback.intraclear.com, port 443, under the default trust anchor), the built-in server certificate is
  served, the built-in root certificate is the only trust anchor, and the log is empty and starts
  with the first slot and sequence number 1.
\<close>

theorem factory_reset_restores_defaults:
  assumes "flash_ready f" and "reset_done (nor_mem f)"
  shows "(\<exists>us f'. UserStore_Init True us0 f = (PLATFORM_STATUS_OK, us, f') \<and> user_map (us_snapshot us) = Map.empty)
    \<and> (\<exists>hc f'. HealthCheckConfig_Init True hc0 f = (PLATFORM_STATUS_OK, hc, f')
        \<and> hc_resources (hc_snapshot hc) = hc_resources healthCheckConfig_SetDefault
        \<and> hc_periodSeconds (hc_snapshot hc) = HEALTH_CHECK_CONFIG_DEFAULT_PERIOD_SECONDS)
    \<and> (\<exists>cb f'. CallbackConfig_Init True cb0 f = (PLATFORM_STATUS_OK, cb, f')
        \<and> cs_config (cb_snapshot cb) = \<lparr>cb_enabled = 0, cb_method = CALLBACK_METHOD_POST, cb_trustAnchorId = 0, cb_reserved = 0,
            cb_port = 443, cb_host = ''loopback.intraclear.com'' @ replicate 41 NUL, cb_path = ''/'' @ replicate 79 NUL\<rparr>)
    \<and> (\<exists>sc f'. TlsServerCredentials_Init sc0 f = (PLATFORM_STATUS_OK, sc, f') \<and> \<not> hasValidSnapshot sc)
    \<and> (\<exists>ts f'. TlsTrustStore_Init True ts0 f = (PLATFORM_STATUS_OK, ts, f')
        \<and> ts_anchors (trustStoreSnapshot ts) = tlsTrustStore_SetDefaultAnchor # replicate 3 zero_anchor)
    \<and> (\<exists>log f'. HealthCheckLog_Init True log0 f = (PLATFORM_STATUS_OK, log, f')
        \<and> activeSector log = 0 \<and> nextSlot log = 0 \<and> nextSequence log = 1 \<and> fst (HealthCheckLog_GetRecent log f' n) = [])"
  using reset_users [OF assms] reset_health_checks [OF assms] reset_callback [OF assms] reset_credentials [OF assms]
    reset_anchors [OF assms] reset_log [OF assms] by (intro conjI)

theorem factory_reset_restores_defaults_witness:
  "\<exists>us f'. UserStore_Init True empty_user_store blank_flash = (PLATFORM_STATUS_OK, us, f') \<and> user_map (us_snapshot us) = Map.empty"
proof -
  have "reset_done (nor_mem blank_flash)"
    by (simp add: reset_done_def all_erased_def blank_flash_def)
  then show ?thesis
    using factory_reset_restores_defaults [OF blank_ready] by blast
qed

end
