(* ===== verification/Reset_Button.thy ===== *)
theory Reset_Button
  imports Factory_Reset
begin

text \<open>
  The timing of the factory-reset button: what the task of \<open>Factory_Reset\<close> takes for a long press, and
  that each of its waiting loops comes to an end.
\<close>

section \<open>The button\<close>

lemma vTaskDelay_punctual [simp]:
  "rs_late c = [] \<Longrightarrow> rs_time (vTaskDelay ms c) = rs_time c + ms" "rs_late c = [] \<Longrightarrow> rs_late (vTaskDelay ms c) = []"
  "rs_pressed (vTaskDelay ms c) = rs_pressed c"
  by (simp_all add: vTaskDelay_def)

lemma tick_since: "t0 \<le> rs_time c \<Longrightarrow> Platform_GetTick c - of_nat t0 = of_nat (rs_time c - t0)"
  by (simp add: Platform_GetTick_def of_nat_diff)

lemma hold_running: "e < 10000 \<Longrightarrow> (of_nat e :: u32) < FACTORY_RESET_HOLD_MS"
  by (simp add: FACTORY_RESET_HOLD_MS_def word_less_nat_alt unat_of_nat)

lemma factoryReset_WaitLoop_frame:
  assumes "factoryReset_WaitLoop started p timeout c = Some out"
  shows "(rs_late c = [] \<longrightarrow> rs_late (snd out) = []) \<and> rs_pressed (snd out) = rs_pressed c"
proof (rule factoryReset_WaitLoop.raw_induct [OF _ assms], goal_cases)
  case (1 loop started p timeout c out)
  let ?c1 = "vTaskDelay FACTORY_RESET_DEBOUNCE_MS c"
  consider "out = (False, c)" | "out = (True, ?c1)"
    | "loop started p timeout (vTaskDelay FACTORY_RESET_POLL_MS ?c1) = Some out"
    | "loop started p timeout (vTaskDelay FACTORY_RESET_POLL_MS c) = Some out"
    using 1(2) unfolding Let_def by (metis option.inject)
  then show ?case
    by cases (auto dest: 1(1))
qed

text \<open>
  The hold loop looks at the button every 20 ms, or 50 ms after a bounce: a release of more than 50 ms
  in its first 10 seconds cannot pass between two looks.
\<close>

lemma factoryReset_HoldLoop_released:
  assumes "rs_late c = []" and "t0 \<le> rs_time c" and "rs_time c \<le> u + 20" and "u + 50 < t0 + 10000"
    and "\<forall>v\<in>{u..u + 50}. \<not> rs_pressed c v"
  shows "\<exists>c'. factoryReset_HoldLoop (of_nat t0) c = Some c' \<and> t0 \<le> rs_time c' \<and> rs_time c' < t0 + 10000"
  using assms
proof (induction "u + 20 - rs_time c" arbitrary: c rule: less_induct)
  case less
  let ?c1 = "vTaskDelay FACTORY_RESET_DEBOUNCE_MS c"
  have early: "\<not> Platform_GetTick c - of_nat t0 \<ge> FACTORY_RESET_HOLD_MS"
    using less.prems(2-4) hold_running [of "rs_time c - t0"] by (simp add: tick_since not_le)
  have c1: "rs_time ?c1 = rs_time c + 30" "rs_late ?c1 = []"
    using less.prems(1) by (simp_all add: FACTORY_RESET_DEBOUNCE_MS_def)
  have stop: ?case if "\<not> rs_pressed c (rs_time c)" "\<not> rs_pressed c (rs_time c + 30)"
    using that early c1 less.prems(2-4)
    by (subst factoryReset_HoldLoop.simps) (simp add: factoryReset_ButtonPressed_def Let_def)
  have on: ?case if "rs_pressed c (rs_time c)" "rs_time c < u"
  proof -
    have "\<exists>c'. factoryReset_HoldLoop (of_nat t0) (vTaskDelay FACTORY_RESET_POLL_MS c) = Some c' \<and> t0 \<le> rs_time c' \<and> rs_time c' < t0 + 10000"
      using less.prems that(2) by (intro less.hyps) (auto simp: FACTORY_RESET_POLL_MS_def)
    then show ?thesis
      using that(1) early by (subst factoryReset_HoldLoop.simps) (simp add: factoryReset_ButtonPressed_def)
  qed
  have bounce: ?case if "\<not> rs_pressed c (rs_time c)" "rs_pressed c (rs_time c + 30)" "rs_time c + 30 < u"
  proof -
    have "\<exists>c'. factoryReset_HoldLoop (of_nat t0) (vTaskDelay FACTORY_RESET_POLL_MS ?c1) = Some c' \<and> t0 \<le> rs_time c' \<and> rs_time c' < t0 + 10000"
      using less.prems that(3) c1 by (intro less.hyps) (auto simp: FACTORY_RESET_POLL_MS_def)
    then show ?thesis
      using that(1,2) early c1 by (subst factoryReset_HoldLoop.simps) (simp add: factoryReset_ButtonPressed_def Let_def)
  qed
  have "\<not> rs_pressed c (rs_time c)" if "u \<le> rs_time c"
    using that less.prems(3,5) by simp
  moreover have "rs_time c + 30 < u" if "rs_pressed c (rs_time c + 30)" "\<not> rs_pressed c (rs_time c)"
  proof (rule ccontr)
    assume "\<not> rs_time c + 30 < u"
    then have "rs_time c + 30 \<in> {u..u + 50}"
      using less.prems(3) by simp
    then show False
      using that(1) less.prems(5) by blast
  qed
  ultimately show ?case
    using stop on bounce by (meson not_le)
qed

text \<open>
  C18: a factory reset needs a long press: with a scheduler that wakes the task without delay, and a
  button that is released for more than 50 ms at a stretch within any 10 seconds, the task never
  touches the flash memory, whatever else the button does.
\<close>

theorem factory_reset_needs_long_press:
  assumes "rs_late c = []" and "\<forall>t. \<exists>u \<ge> t. u + 50 < t + 10000 \<and> (\<forall>v\<in>{u..u + 50}. \<not> rs_pressed c v)"
  shows "case factoryReset_Task warned warningMs cancelMs c f of
      None \<Rightarrow> True | Some (outcome, c', f') \<Rightarrow> outcome = Reset_Continue \<and> f' = f"
proof (cases "factoryReset_WaitForButton True portMAX_DELAY c")
  case None
  then show ?thesis
    by (simp add: factoryReset_Task_def)
next
  case (Some rc)
  obtain pressed c1 where rc: "rc = (pressed, c1)"
    by fastforce
  have c1: "rs_late c1 = []" "rs_pressed c1 = rs_pressed c"
    using factoryReset_WaitLoop_frame [of "Platform_GetTick c" True portMAX_DELAY c "(pressed, c1)"] Some assms(1)
    by (auto simp: factoryReset_WaitForButton_def rc)
  obtain u where u: "rs_time c1 \<le> u" "u + 50 < rs_time c1 + 10000" "\<forall>v\<in>{u..u + 50}. \<not> rs_pressed c1 v"
    using assms(2) c1(2) by metis
  obtain c2 where c2: "factoryReset_HoldLoop (Platform_GetTick c1) c1 = Some c2" "rs_time c1 \<le> rs_time c2" "rs_time c2 < rs_time c1 + 10000"
    using factoryReset_HoldLoop_released [OF c1(1) order_refl _ u(2,3)] u(1) by (auto simp: Platform_GetTick_def)
  have "Platform_GetTick c2 - Platform_GetTick c1 < FACTORY_RESET_HOLD_MS"
    using tick_since [OF c2(2)] hold_running [of "rs_time c2 - rs_time c1"] c2(2,3) by (simp add: Platform_GetTick_def)
  then show ?thesis
    using Some c2(1) by (simp add: factoryReset_Task_def rc Let_def)
qed

text \<open>A button that is pressed for two seconds out of every four.\<close>

theorem factory_reset_needs_long_press_witness:
  "case factoryReset_Task True 3000 500 \<lparr>rs_time = 0, rs_pressed = (\<lambda>t. t mod 4000 < 2000), rs_late = []\<rparr> blank_flash of
      None \<Rightarrow> True | Some (outcome, c', f') \<Rightarrow> outcome = Reset_Continue \<and> f' = blank_flash"
proof -
  have "\<exists>u \<ge> t. u + 50 < t + 10000 \<and> (\<forall>v\<in>{u..u + 50}. \<not> v mod 4000 < 2000)" for t :: nat
  proof -
    define q where "q = t div 4000"
    define r where "r = t mod 4000"
    have t: "t = 4000 * q + r" "r < 4000"
      by (simp_all add: q_def r_def)
    have "\<not> v mod 4000 < 2000" if "v \<in> {4000 * (q + 1) + 3000..4000 * (q + 1) + 3050}" for v
    proof -
      define k where "k = v - (4000 * (q + 1) + 3000)"
      have v: "v = 4000 * (q + 1) + (3000 + k)" and "k \<le> 50"
        using that by (auto simp: k_def)
      have "v mod 4000 = (3000 + k) mod 4000"
        unfolding v by (rule mod_mult_self4)
      then show ?thesis
        using \<open>k \<le> 50\<close> by simp
    qed
    then show ?thesis
      using t by (intro exI [of _ "4000 * (q + 1) + 3000"]) simp
  qed
  then show ?thesis
    using factory_reset_needs_long_press [of "\<lparr>rs_time = 0, rs_pressed = (\<lambda>t. t mod 4000 < 2000), rs_late = []\<rparr>"]
    by simp
qed

section \<open>The task always decides\<close>

text \<open>The scheduler is late by less than seventeen minutes at any delay.\<close>

definition prompt :: "reset_clock \<Rightarrow> bool" where
  "prompt c \<longleftrightarrow> (\<forall>late\<in>set (rs_late c). late < 2 ^ 20)"

lemma prompt_delay:
  assumes "prompt c"
  shows "prompt (vTaskDelay ms c)" and "rs_time c + ms \<le> rs_time (vTaskDelay ms c)"
    and "rs_time (vTaskDelay ms c) < rs_time c + ms + 2 ^ 20"
  using assms by (cases "rs_late c"; simp add: prompt_def vTaskDelay_def)+

lemma prompt_time [simp]: "prompt (c\<lparr>rs_time := t\<rparr>) = prompt c"
  by (simp add: prompt_def)

text \<open>While a loop is within its first ten seconds, its tick difference has not wrapped around.\<close>

lemma unat_small_u32: "n < 2 ^ 32 \<Longrightarrow> unat (of_nat n :: u32) = n"
  by (simp add: unat_of_nat)

lemma within_window:
  assumes "t0 \<le> rs_time c" and "rs_time c < t0 + 2 ^ 32" and "Platform_GetTick c - of_nat t0 < timeout" and "timeout \<le> 10000"
  shows "rs_time c < t0 + 10000"
proof -
  have "unat (Platform_GetTick c - of_nat t0) = rs_time c - t0"
    unfolding tick_since [OF assms(1)] using assms(1,2) unat_small_u32 [of "rs_time c - t0"] by linarith
  then show ?thesis
    using assms(3,4) by (simp add: word_less_nat_alt word_le_nat_alt)
qed

lemma factoryReset_WaitLoop_ends:
  assumes "prompt c" and "t0 \<le> rs_time c" and "rs_time c < t0 + 10050 + 2 ^ 21" and "timeout \<le> 10000"
  shows "\<exists>out. factoryReset_WaitLoop (of_nat t0) p timeout c = Some out \<and> prompt (snd out)
    \<and> rs_time c \<le> rs_time (snd out) \<and> rs_time (snd out) < t0 + 10050 + 2 ^ 21" (is "?ends c")
  using assms
proof (induction "t0 + 10000 - rs_time c" arbitrary: c rule: less_induct)
  case less
  let ?c1 = "vTaskDelay FACTORY_RESET_DEBOUNCE_MS c"
  note d1 = prompt_delay [OF less.prems(1), of FACTORY_RESET_DEBOUNCE_MS]
  note d2 = prompt_delay [OF less.prems(1), of FACTORY_RESET_POLL_MS]
  note d3 = prompt_delay [OF d1(1), of FACTORY_RESET_POLL_MS]
  note ms = FACTORY_RESET_POLL_MS_def FACTORY_RESET_DEBOUNCE_MS_def
  show ?case
  proof (cases "Platform_GetTick c - of_nat t0 < timeout")
    case False
    then show ?thesis
      using less.prems(1,3) by (subst factoryReset_WaitLoop.simps) simp
  next
    case True
    then have e: "rs_time c < t0 + 10000"
      using within_window [of t0 c timeout] less.prems by simp
    obtain out where p: "factoryReset_WaitLoop (of_nat t0) p timeout (vTaskDelay FACTORY_RESET_POLL_MS c) = Some out" "prompt (snd out)"
        "rs_time (vTaskDelay FACTORY_RESET_POLL_MS c) \<le> rs_time (snd out)" "rs_time (snd out) < t0 + 10050 + 2 ^ 21"
    proof (rule exE [OF less.hyps [of "vTaskDelay FACTORY_RESET_POLL_MS c", OF _ d2(1)]])
      show "t0 + 10000 - rs_time (vTaskDelay FACTORY_RESET_POLL_MS c) < t0 + 10000 - rs_time c"
        "t0 \<le> rs_time (vTaskDelay FACTORY_RESET_POLL_MS c)" "rs_time (vTaskDelay FACTORY_RESET_POLL_MS c) < t0 + 10050 + 2 ^ 21"
        using e d2(2,3) less.prems(2) by (simp_all add: ms)
    qed (use less.prems(4) in auto)
    obtain out' where p': "factoryReset_WaitLoop (of_nat t0) p timeout (vTaskDelay FACTORY_RESET_POLL_MS ?c1) = Some out'"
        "prompt (snd out')" "rs_time (vTaskDelay FACTORY_RESET_POLL_MS ?c1) \<le> rs_time (snd out')" "rs_time (snd out') < t0 + 10050 + 2 ^ 21"
    proof (rule exE [OF less.hyps [of "vTaskDelay FACTORY_RESET_POLL_MS ?c1", OF _ d3(1)]])
      show "t0 + 10000 - rs_time (vTaskDelay FACTORY_RESET_POLL_MS ?c1) < t0 + 10000 - rs_time c"
        "t0 \<le> rs_time (vTaskDelay FACTORY_RESET_POLL_MS ?c1)" "rs_time (vTaskDelay FACTORY_RESET_POLL_MS ?c1) < t0 + 10050 + 2 ^ 21"
        using e d1(2,3) d3(2,3) less.prems(2) by (simp_all add: ms)
    qed (use less.prems(4) in auto)
    have "rs_time c \<le> rs_time (snd out)" "rs_time c \<le> rs_time (snd out')" "rs_time c \<le> rs_time ?c1" "rs_time ?c1 < t0 + 10050 + 2 ^ 21"
      using p(3) p'(3) d1(2,3) d2(2) d3(2) e by (auto simp: ms)
    then show ?thesis
      using True d1(1) p p' by (cases out; cases out'; subst factoryReset_WaitLoop.simps) (auto simp: Let_def)
  qed
qed

lemma factoryReset_WaitForButton_ends:
  assumes "prompt c" and "timeout \<le> 10000"
  obtains b c' where "factoryReset_WaitForButton p timeout c = Some (b, c')" "prompt c'" "rs_time c \<le> rs_time c'"
    "rs_time c' < rs_time c + 10050 + 2 ^ 21"
  using factoryReset_WaitLoop_ends [of c "rs_time c" timeout p] assms
  by (auto simp: factoryReset_WaitForButton_def Platform_GetTick_def)

lemma factoryReset_HoldLoop_ends:
  assumes "prompt c" and "t0 \<le> rs_time c" and "rs_time c < t0 + 2 ^ 32"
  shows "\<exists>c'. factoryReset_HoldLoop (of_nat t0) c = Some c' \<and> prompt c'"
  using assms
proof (induction "t0 + 10000 - rs_time c" arbitrary: c rule: less_induct)
  case less
  let ?c1 = "vTaskDelay FACTORY_RESET_DEBOUNCE_MS c"
  note d1 = prompt_delay [OF less.prems(1), of FACTORY_RESET_DEBOUNCE_MS]
  note d2 = prompt_delay [OF less.prems(1), of FACTORY_RESET_POLL_MS]
  note d3 = prompt_delay [OF d1(1), of FACTORY_RESET_POLL_MS]
  show ?case
  proof (cases "Platform_GetTick c - of_nat t0 < FACTORY_RESET_HOLD_MS")
    case False
    then show ?thesis
      using less.prems(1) by (subst factoryReset_HoldLoop.simps) (simp add: not_less)
  next
    case True
    then have e: "rs_time c < t0 + 10000"
      using within_window less.prems by (simp add: FACTORY_RESET_HOLD_MS_def)
    have "\<exists>c'. factoryReset_HoldLoop (of_nat t0) (vTaskDelay FACTORY_RESET_POLL_MS c) = Some c' \<and> prompt c'"
      using e d2 less.prems by (intro less.hyps) (auto simp: FACTORY_RESET_POLL_MS_def)
    moreover have "\<exists>c'. factoryReset_HoldLoop (of_nat t0) (vTaskDelay FACTORY_RESET_POLL_MS ?c1) = Some c' \<and> prompt c'"
      using e d1 d3 less.prems by (intro less.hyps) (auto simp: FACTORY_RESET_POLL_MS_def FACTORY_RESET_DEBOUNCE_MS_def)
    ultimately show ?thesis
      using True d1(1) by (subst factoryReset_HoldLoop.simps) (auto simp: Let_def not_le)
  qed
qed

lemma factoryReset_WindowLoop_ends:
  assumes "prompt c" and "t0 \<le> rs_time c" and "rs_time c < t0 + 2 ^ 32"
  shows "\<exists>c'. factoryReset_WindowLoop (of_nat t0) c = Some c'"
  using assms
proof (induction "t0 + 10000 - rs_time c" arbitrary: c rule: less_induct)
  case less
  note d = prompt_delay [OF less.prems(1), of FACTORY_RESET_POLL_MS]
  show ?case
  proof (cases "Platform_GetTick c - of_nat t0 < FACTORY_RESET_CANCEL_WINDOW_MS")
    case False
    then show ?thesis
      by (subst factoryReset_WindowLoop.simps) simp
  next
    case True
    then have e: "rs_time c < t0 + 10000"
      using within_window less.prems by (simp add: FACTORY_RESET_CANCEL_WINDOW_MS_def)
    have "\<exists>c'. factoryReset_WindowLoop (of_nat t0) (vTaskDelay FACTORY_RESET_POLL_MS c) = Some c'"
      using e d less.prems by (intro less.hyps) (auto simp: FACTORY_RESET_POLL_MS_def)
    then show ?thesis
      using True by (subst factoryReset_WindowLoop.simps) simp
  qed
qed

lemma factoryReset_CancelRequested_ends:
  assumes "prompt c"
  shows "\<exists>b c'. factoryReset_CancelRequested w c = Some (b, c') \<and> prompt c' \<and> rs_time c \<le> rs_time c'
    \<and> rs_time c' < rs_time c + 4 * (10050 + 2 ^ 21)"
proof -
  let ?w = FACTORY_RESET_CANCEL_WINDOW_MS
  have small: "?w - e \<le> 10000" "min x (?w - e) \<le> 10000" "min (?w - e) x \<le> 10000" if "\<not> ?w \<le> e" for e x
  proof -
    show "?w - e \<le> 10000"
      using that by (simp add: FACTORY_RESET_CANCEL_WINDOW_MS_def word_le_nat_alt unat_sub_if' not_le word_less_nat_alt)
    then show "min x (?w - e) \<le> 10000" "min (?w - e) x \<le> 10000"
      by (simp_all add: min_le_iff_disj)
  qed
  show ?thesis
  proof (cases "?w \<le> Platform_GetTick c - w")
    case True
    then show ?thesis
      using assms by (auto simp: factoryReset_CancelRequested_def)
  next
    case out0: False
    obtain b1 c1 where w1: "factoryReset_WaitForButton False (?w - (Platform_GetTick c - w)) c = Some (b1, c1)" "prompt c1"
        "rs_time c \<le> rs_time c1" "rs_time c1 < rs_time c + 10050 + 2 ^ 21"
      using factoryReset_WaitForButton_ends [OF assms small(1) [OF out0]] by blast
    show ?thesis
    proof (cases "\<not> b1 \<or> ?w \<le> Platform_GetTick c1 - w")
      case True
      then show ?thesis
        using out0 w1 by (auto simp: factoryReset_CancelRequested_def Let_def)
    next
      case out1: False
      obtain b2 c2 where w2: "factoryReset_WaitForButton True (?w - (Platform_GetTick c1 - w)) c1 = Some (b2, c2)" "prompt c2"
          "rs_time c1 \<le> rs_time c2" "rs_time c2 < rs_time c1 + 10050 + 2 ^ 21"
        using factoryReset_WaitForButton_ends [OF w1(2) small(1)] out1 by blast
      show ?thesis
      proof (cases "\<not> b2 \<or> ?w \<le> Platform_GetTick c2 - w")
        case True
        then show ?thesis
          using out0 out1 w1 w2 by (auto simp: factoryReset_CancelRequested_def Let_def)
      next
        case out2: False
        obtain b3 c3 where w3: "factoryReset_WaitForButton False (min (?w - (Platform_GetTick c2 - w)) FACTORY_RESET_DOUBLE_CLICK_MS) c2
              = Some (b3, c3)" "prompt c3" "rs_time c2 \<le> rs_time c3" "rs_time c3 < rs_time c2 + 10050 + 2 ^ 21"
          using factoryReset_WaitForButton_ends [OF w2(2) small(3)] out2 by blast
        show ?thesis
        proof (cases "\<not> b3 \<or> FACTORY_RESET_DOUBLE_CLICK_MS \<le> Platform_GetTick c3 - Platform_GetTick c2 \<or> ?w \<le> Platform_GetTick c3 - w")
          case True
          then show ?thesis
            using out0 out1 out2 w1 w2 w3 by (auto simp: factoryReset_CancelRequested_def Let_def)
        next
          case out3: False
          obtain b4 c4 where w4: "factoryReset_WaitForButton True (min (FACTORY_RESET_DOUBLE_CLICK_MS - (Platform_GetTick c3 - Platform_GetTick c2))
                (?w - (Platform_GetTick c3 - w))) c3 = Some (b4, c4)" "prompt c4" "rs_time c3 \<le> rs_time c4" "rs_time c4 < rs_time c3 + 10050 + 2 ^ 21"
            using factoryReset_WaitForButton_ends [OF w3(2) small(2)] out3 by blast
          then show ?thesis
            using out0 out1 out2 out3 w1 w2 w3 by (auto simp: factoryReset_CancelRequested_def Let_def)
        qed
      qed
    qed
  qed
qed

text \<open>
  C26: once the button has been seen pressed (the first wait, for the press, can last for ever), the
  rest of the pass of the task always comes to an end, whatever the button does, however the buzzer
  and the flash chip behave, and although the tick count wraps around: no combination of bounces and
  wake-ups that are late by less than 2^20 ms keeps the task in one of its later loops.
\<close>

theorem factory_reset_task_ends:
  assumes "prompt c1" and "factoryReset_WaitForButton True portMAX_DELAY c = Some (True, c1)"
  shows "\<exists>outcome c' f'. factoryReset_Task warned warningMs cancelMs c f = Some (outcome, c', f')"
proof -
  obtain c2 where c2: "factoryReset_HoldLoop (Platform_GetTick c1) c1 = Some c2" "prompt c2"
    using factoryReset_HoldLoop_ends [OF assms(1), of "rs_time c1"] by (auto simp: Platform_GetTick_def)
  let ?c3 = "c2\<lparr>rs_time := rs_time c2 + warningMs\<rparr>"
  obtain b c4 where c4: "factoryReset_CancelRequested (Platform_GetTick ?c3) ?c3 = Some (b, c4)" "prompt c4"
      "rs_time ?c3 \<le> rs_time c4" "rs_time c4 < rs_time ?c3 + 4 * (10050 + 2 ^ 21)"
    using factoryReset_CancelRequested_ends [of ?c3 "Platform_GetTick ?c3"] c2(2) by auto
  obtain c5 where c5: "factoryReset_WindowLoop (Platform_GetTick ?c3) c4 = Some c5"
    using factoryReset_WindowLoop_ends [OF c4(2,3)] c4(4) by (auto simp: Platform_GetTick_def)
  obtain outcome f' where "factoryReset_Execute f = (outcome, f')"
    by fastforce
  then show ?thesis
    using assms(2) c2 c4(1) c5 by (simp add: factoryReset_Task_def Let_def)
qed

text \<open>A button that bounces forever, seen by a task that is 100 ms late after its first look.\<close>

theorem factory_reset_task_ends_witness:
  "\<exists>outcome c' f'. factoryReset_Task True 3000 500
     \<lparr>rs_time = 0, rs_pressed = (\<lambda>t. t mod 7 < 4), rs_late = [5, 100]\<rparr> blank_flash = Some (outcome, c', f')"
proof -
  let ?c = "\<lparr>rs_time = 0, rs_pressed = (\<lambda>t :: nat. t mod 7 < 4), rs_late = [5, 100]\<rparr>"
  let ?c1 = "vTaskDelay FACTORY_RESET_DEBOUNCE_MS ?c"
  have "prompt ?c1"
    by (simp add: prompt_def vTaskDelay_def)
  moreover have "factoryReset_WaitForButton True portMAX_DELAY ?c = Some (True, ?c1)"
    unfolding factoryReset_WaitForButton_def
    by (subst factoryReset_WaitLoop.simps)
      (simp add: Platform_GetTick_def portMAX_DELAY_def factoryReset_ButtonPressed_def vTaskDelay_def FACTORY_RESET_DEBOUNCE_MS_def)
  ultimately show ?thesis
    by (rule factory_reset_task_ends)
qed

end
