(* ===== verification/Tls_Transport.thy ===== *)
theory Tls_Transport
  imports Api_Request Trust_Store Tls_Platform Health_Check_Log Rtc
begin

text \<open>
  The outbound HTTPS requests of \<^verbatim>\<open>TLS/Src/tls_transport.c\<close>: the conversion of certificate times, the
  socket callbacks, connecting, writing the request, reading the status line, and the request itself
  with its single clean-up path. What the network stack and mbedTLS answer is the record \<open>tls_peer\<close>;
  opening and closing of sockets is recorded so that leaks show.
\<close>

section \<open>Certificate times\<close>

record x509_time =
  xt_year :: int
  xt_mon :: int
  xt_day :: int
  xt_hour :: int
  xt_min :: int
  xt_sec :: int

definition tlsTransport_IsLeapYear :: "nat \<Rightarrow> bool" where
  "tlsTransport_IsLeapYear year \<longleftrightarrow> year mod 4 = 0 \<and> (year mod 100 \<noteq> 0 \<or> year mod 400 = 0)"

definition daysBeforeMonth :: "nat list" where
  "daysBeforeMonth = [0, 31, 59, 90, 120, 151, 181, 212, 243, 273, 304, 334]"

text \<open>The years of an \<open>int\<close> keep all intermediate values far below 64 bits.\<close>

definition tlsTransport_X509TimeToUnix :: "x509_time \<Rightarrow> u32 option" where
  "tlsTransport_X509TimeToUnix t =
     (if xt_year t < 1970 \<or> xt_mon t < 1 \<or> xt_mon t > 12 \<or> xt_day t < 1 \<or> xt_day t > 31
         \<or> xt_hour t < 0 \<or> xt_hour t > 23 \<or> xt_min t < 0 \<or> xt_min t > 59 \<or> xt_sec t < 0 \<or> xt_sec t > 59
      then None
      else
        let year = nat (xt_year t);
            previousYear = year - 1;
            days0 = (year - 1970) * 365 + previousYear div 4 - 1969 div 4
              - (previousYear div 100 - 1969 div 100) + (previousYear div 400 - 1969 div 400);
            days1 = days0 + daysBeforeMonth ! (nat (xt_mon t) - 1);
            days2 = (if xt_mon t > 2 \<and> tlsTransport_IsLeapYear year then days1 + 1 else days1);
            days = days2 + (nat (xt_day t) - 1);
            seconds = ((days * 24 + nat (xt_hour t)) * 60 + nat (xt_min t)) * 60 + nat (xt_sec t)
        in if seconds > 0xFFFFFFFF then None else Some (of_nat seconds))"

section \<open>Sockets\<close>

text \<open>
  An address the resolver returned and what happens with it: the result of \<open>lwip_socket\<close>, of
  \<open>lwip_connect\<close>, and of asking for the socket's error, with the \<open>errno\<close> of each.
\<close>

record tls_address =
  ta_socket :: int
  ta_socketErrno :: int
  ta_connect :: int
  ta_connectErrno :: int
  ta_getsockopt :: int
  ta_socketError :: int

datatype socket_event = Socket_Opened int | Socket_Closed int

text \<open>The calls mbedTLS makes into the callbacks, with the result of lwIP and the \<open>errno\<close>.\<close>

datatype socket_call = Call_Send int int | Call_Receive int int

record tls_peer =
  pr_timeouts :: "int list"
  pr_seed :: int
  pr_mbedtls :: trust_mbedtls
  pr_configDefaults :: int
  pr_setup :: int
  pr_setHostname :: int
  pr_getaddrinfo :: int
  pr_addresses :: "tls_address list"
  pr_calls :: "socket_call list"
  pr_handshake :: int
  pr_verify :: u32
  pr_version :: string
  pr_ciphersuite :: string
  pr_certificate :: "x509_time option"
  pr_session :: tls_session
  pr_started :: u32
  pr_ended :: u32

definition MBEDTLS_ERR_SSL_CONN_EOF :: int where "MBEDTLS_ERR_SSL_CONN_EOF = - 0x7280"
definition MBEDTLS_ERR_NET_SEND_FAILED :: int where "MBEDTLS_ERR_NET_SEND_FAILED = - 0x4E"
definition MBEDTLS_ERR_NET_RECV_FAILED :: int where "MBEDTLS_ERR_NET_RECV_FAILED = - 0x4C"
definition MBEDTLS_ERR_X509_CERT_VERIFY_FAILED :: int where "MBEDTLS_ERR_X509_CERT_VERIFY_FAILED = - 0x2700"

definition TLS_TRANSPORT_STATUS_LINE_SIZE :: nat where "TLS_TRANSPORT_STATUS_LINE_SIZE = 128"
definition TLS_TRANSPORT_REQUEST_SIZE :: nat where "TLS_TRANSPORT_REQUEST_SIZE = 768"
definition TLS_TRANSPORT_HOST_HEADER_SIZE :: nat where "TLS_TRANSPORT_HOST_HEADER_SIZE = 70"

text \<open>\<open>timeouts\<close> are the values of \<open>EAGAIN\<close>, \<open>EWOULDBLOCK\<close> and \<open>ETIMEDOUT\<close>.\<close>

definition tlsTransport_IsTimeoutError :: "int list \<Rightarrow> int \<Rightarrow> bool" where
  "tlsTransport_IsTimeoutError timeouts socketError \<longleftrightarrow> socketError \<in> set timeouts"

text \<open>The callbacks: their result and the last error kept in the socket context.\<close>

definition tlsTransport_Send :: "int list \<Rightarrow> int \<Rightarrow> int \<Rightarrow> int \<Rightarrow> int \<times> int" where
  "tlsTransport_Send timeouts sent errno lastError =
     (if sent \<ge> 0 then (sent, lastError)
      else (if tlsTransport_IsTimeoutError timeouts errno then MBEDTLS_ERR_SSL_TIMEOUT
            else MBEDTLS_ERR_NET_SEND_FAILED, errno))"

definition tlsTransport_Receive :: "int list \<Rightarrow> int \<Rightarrow> int \<Rightarrow> int \<Rightarrow> int \<times> int" where
  "tlsTransport_Receive timeouts received errno lastError =
     (if received > 0 then (received, lastError)
      else if received = 0 then (MBEDTLS_ERR_SSL_CONN_EOF, lastError)
      else (if tlsTransport_IsTimeoutError timeouts errno then MBEDTLS_ERR_SSL_TIMEOUT
            else MBEDTLS_ERR_NET_RECV_FAILED, errno))"

fun socket_lastError :: "int list \<Rightarrow> int \<Rightarrow> socket_call list \<Rightarrow> int" where
  "socket_lastError timeouts lastError [] = lastError"
| "socket_lastError timeouts lastError (Call_Send r e # calls) =
     socket_lastError timeouts (snd (tlsTransport_Send timeouts r e lastError)) calls"
| "socket_lastError timeouts lastError (Call_Receive r e # calls) =
     socket_lastError timeouts (snd (tlsTransport_Receive timeouts r e lastError)) calls"

text \<open>The loop over the addresses: the connected socket or a negative value, the detail, the events.\<close>

fun tlsTransport_ConnectLoop :: "tls_address list \<Rightarrow> int \<Rightarrow> int \<Rightarrow> int \<times> int \<times> socket_event list" where
  "tlsTransport_ConnectLoop [] fd detail = (fd, detail, [])"
| "tlsTransport_ConnectLoop (a # as) fd detail =
     (if ta_socket a < 0 then tlsTransport_ConnectLoop as (ta_socket a) (- ta_socketErrno a)
      else if ta_connect a = 0 then (ta_socket a, detail, [Socket_Opened (ta_socket a)])
      else
        let detail' = (if ta_getsockopt a = 0 \<and> ta_socketError a \<noteq> 0 then - ta_socketError a else - ta_connectErrno a)
        in case tlsTransport_ConnectLoop as (- 1) detail' of
             (fd', detail'', events) \<Rightarrow> (fd', detail'', Socket_Opened (ta_socket a) # Socket_Closed (ta_socket a) # events))"

definition tlsTransport_Connect :: "tls_peer \<Rightarrow> int \<times> TlsTransport_StatusTypeDef \<times> int \<times> socket_event list" where
  "tlsTransport_Connect p =
     (if pr_getaddrinfo p \<noteq> 0 then (- 1, TLS_TRANSPORT_DNS_ERROR, pr_getaddrinfo p, [])
      else case tlsTransport_ConnectLoop (pr_addresses p) (- 1) 0 of
        (fd, detail, events) \<Rightarrow> (fd, TLS_TRANSPORT_CONNECT_ERROR, detail, events))"

section \<open>The exchange\<close>

function tlsTransport_WriteAll :: "tls_session \<Rightarrow> string \<Rightarrow> int \<times> tls_session" where
  "tlsTransport_WriteAll ssl data =
     (if data = [] then (0, ssl)
      else case mbedtls_ssl_write ssl data of
        (result, ssl') \<Rightarrow>
          if result \<le> 0 then (result, ssl') else tlsTransport_WriteAll ssl' (drop (nat result) data))"
  by pat_completeness auto
termination
  by (relation "measure (\<lambda>(ssl, data). length data)") auto

declare tlsTransport_WriteAll.simps [simp del]

text \<open>Reading the status line byte by byte; \<open>Inl\<close> is the early return.\<close>

function tlsTransport_ReadLine :: "tls_session \<Rightarrow> string \<Rightarrow> (int + string) \<times> tls_session" where
  "tlsTransport_ReadLine ssl line =
     (if \<not> length line < TLS_TRANSPORT_STATUS_LINE_SIZE - 1 then (Inr line, ssl)
      else case mbedtls_ssl_read ssl 1 of
        (Ssl_Result r, ssl') \<Rightarrow> (Inl (if r \<le> 0 then r else 0), ssl')
      | (Ssl_Data d, ssl') \<Rightarrow>
          if d = [] then (Inl 0, ssl')
          else
            let line' = line @ take 1 d
            in if length line' \<ge> 2 \<and> line' ! (length line' - 2) = CR \<and> line' ! (length line' - 1) = LF
               then (Inr line', ssl') else tlsTransport_ReadLine ssl' line')"
  by pat_completeness auto
termination
  by (relation "measure (\<lambda>(ssl, line). TLS_TRANSPORT_STATUS_LINE_SIZE - length line)")
    (auto simp: TLS_TRANSPORT_STATUS_LINE_SIZE_def neq_Nil_conv)

declare tlsTransport_ReadLine.simps [simp del]

text \<open>\<open>%u\<close> and \<open>%3u\<close> of \<open>sscanf\<close>: blanks, then at most \<open>width\<close> characters of a sign and digits.\<close>

definition scan_unsigned :: "nat option \<Rightarrow> string \<Rightarrow> (u32 \<times> string) option" where
  "scan_unsigned width s =
     (let t = dropWhile isspace s;
          field = (case width of None \<Rightarrow> t | Some w \<Rightarrow> take w t);
          sign = (if peek field = CHR ''-'' \<or> peek field = CHR ''+'' then 1 else 0);
          ds = takeWhile is_digit (drop sign field);
          v = (if digits_value ds \<ge> 2 ^ 32 then 0xFFFFFFFF else if peek field = CHR ''-'' then - of_nat (digits_value ds)
               else of_nat (digits_value ds))
      in if ds = [] then None else Some (v, drop (sign + length ds) t))"

text \<open>\<open>sscanf\<close> with \<open>HTTP/1.%*u %3u\<close>.\<close>

definition scan_status :: "string \<Rightarrow> u32 option" where
  "scan_status line =
     (if \<not> prefix ''HTTP/1.'' line then None
      else case scan_unsigned None (drop 7 line) of
        None \<Rightarrow> None
      | Some (_, rest) \<Rightarrow> map_option fst (scan_unsigned (Some 3) (dropWhile isspace rest)))"

definition tlsTransport_ReadStatus :: "tls_session \<Rightarrow> (int + u16) \<times> tls_session" where
  "tlsTransport_ReadStatus ssl =
     (case tlsTransport_ReadLine ssl [] of
        (Inl r, ssl') \<Rightarrow> (Inl r, ssl')
      | (Inr line, ssl') \<Rightarrow>
          (case scan_status (cstr line) of
             None \<Rightarrow> (Inl MBEDTLS_ERR_SSL_BAD_INPUT_DATA, ssl')
           | Some status \<Rightarrow>
               (if length line < 12 \<or> status > 999 then Inl MBEDTLS_ERR_SSL_BAD_INPUT_DATA else Inr (ucast status), ssl')))"

section \<open>The request\<close>

definition zero_result :: TlsTransport_ResultTypeDef where
  "zero_result = \<lparr>tr_status = TLS_TRANSPORT_OK, tr_detail = 0, tr_httpStatus = 0, tr_elapsedMs = 0,
     tr_certificateNotAfterUnix = 0, tr_tlsVersion = [], tr_cipherSuite = []\<rparr>"

definition tlsTransport_HostHeader :: "string \<Rightarrow> u16 \<Rightarrow> string option" where
  "tlsTransport_HostHeader host port =
     (case snprintf TLS_TRANSPORT_HOST_HEADER_SIZE (if port = 443 then host else host @ '':'' @ decimal (unat port)) of
        (len, text) \<Rightarrow> if len = 0 \<or> len \<ge> TLS_TRANSPORT_HOST_HEADER_SIZE then None else Some text)"

definition tlsTransport_RequestText ::
  "string \<Rightarrow> string \<Rightarrow> string \<Rightarrow> string \<Rightarrow> string option \<Rightarrow> string option" where
  "tlsTransport_RequestText method resource hostHeader body contentType =
     (let start = method @ '' '' @ resource @ '' HTTP/1.1'' @ CRLF @ ''Host: '' @ hostHeader @ CRLF
            @ ''Connection: close'' @ CRLF @ ''User-Agent: stm32-health-check/1'' @ CRLF;
          send = (\<lambda>text. case snprintf TLS_TRANSPORT_REQUEST_SIZE text of
            (len, request) \<Rightarrow> if len = 0 \<or> len \<ge> TLS_TRANSPORT_REQUEST_SIZE then None else Some request)
      in if body \<noteq> []
         then (case contentType of
                 None \<Rightarrow> None
               | Some mediaType \<Rightarrow> send (start @ ''Content-Type: '' @ mediaType @ CRLF @ ''Content-Length: ''
                   @ decimal (length body) @ CRLF @ CRLF @ body))
         else send (start @ CRLF))"

text \<open>From the verified handshake on: the result, the detail and the session.\<close>

definition tlsTransport_Converse ::
  "tls_peer \<Rightarrow> TlsTransport_ResultTypeDef \<Rightarrow> string \<Rightarrow> string \<Rightarrow> u16 \<Rightarrow> string \<Rightarrow> string \<Rightarrow> string option \<Rightarrow>
     TlsTransport_ResultTypeDef \<times> int \<times> tls_session" where
  "tlsTransport_Converse p result0 method host port resource body contentType =
     (let result = result0\<lparr>tr_tlsVersion := pr_version p, tr_cipherSuite := pr_ciphersuite p,
            tr_certificateNotAfterUnix :=
              (case pr_certificate p of
                 None \<Rightarrow> 0
               | Some notAfter \<Rightarrow> (case tlsTransport_X509TimeToUnix notAfter of Some t \<Rightarrow> t | None \<Rightarrow> 0))\<rparr>;
          ssl = pr_session p
      in case tlsTransport_HostHeader host port of
           None \<Rightarrow> (result, MBEDTLS_ERR_SSL_BAD_INPUT_DATA, ssl)
         | Some hostHeader \<Rightarrow>
             (case tlsTransport_RequestText method resource hostHeader body contentType of
                None \<Rightarrow> (result, MBEDTLS_ERR_SSL_BAD_INPUT_DATA, ssl)
              | Some request \<Rightarrow>
                  (case tlsTransport_WriteAll ssl request of
                     (written, ssl1) \<Rightarrow>
                       if written \<noteq> 0 then (result\<lparr>tr_status := TLS_TRANSPORT_IO_ERROR\<rparr>, written, ssl1)
                       else case tlsTransport_ReadStatus ssl1 of
                         (Inl r, ssl2) \<Rightarrow>
                           if r \<noteq> 0 then (result\<lparr>tr_status := TLS_TRANSPORT_PROTOCOL_ERROR\<rparr>, r, ssl2)
                           else (result\<lparr>tr_status := TLS_TRANSPORT_OK\<rparr>, 0, ssl2)
                       | (Inr httpStatus, ssl2) \<Rightarrow>
                           (result\<lparr>tr_httpStatus := httpStatus, tr_status := TLS_TRANSPORT_OK\<rparr>, 0, ssl2))))"

text \<open>Everything between taking the lock and the clean-up: also the socket and its events.\<close>

definition tlsTransport_Attempt ::
  "tls_peer \<Rightarrow> trust_store \<Rightarrow> string \<Rightarrow> string \<Rightarrow> u16 \<Rightarrow> string \<Rightarrow> u8 \<Rightarrow> string \<Rightarrow> string option \<Rightarrow>
     TlsTransport_ResultTypeDef \<times> int \<times> int \<times> trust_store \<times> tls_session \<times> socket_event list" where
  "tlsTransport_Attempt p ts method host port resource trustAnchorId body contentType =
     (let result = zero_result\<lparr>tr_status := TLS_TRANSPORT_CONFIG_ERROR\<rparr>; ssl = pr_session p
      in if pr_seed p \<noteq> 0 then (result, pr_seed p, - 1, ts, ssl, [])
         else case TlsTrustStore_Parse (pr_mbedtls p) ts trustAnchorId of
           (trustStatus, trustAnchor, ts1) \<Rightarrow>
             if trustStatus \<noteq> TLS_TRUST_STORE_STATUS_OK
             then (result\<lparr>tr_status := TLS_TRANSPORT_CERTIFICATE_ERROR\<rparr>, MBEDTLS_ERR_X509_CERT_VERIFY_FAILED, - 1, ts1, ssl, [])
             else if pr_configDefaults p \<noteq> 0 then (result, pr_configDefaults p, - 1, ts1, ssl, [])
             else if pr_setup p \<noteq> 0 then (result, pr_setup p, - 1, ts1, ssl, [])
             else if pr_setHostname p \<noteq> 0 then (result, pr_setHostname p, - 1, ts1, ssl, [])
             else case tlsTransport_Connect p of
               (fd, status, detail, events) \<Rightarrow>
                 let result1 = result\<lparr>tr_status := status\<rparr>
                 in if fd < 0 then (result1, detail, fd, ts1, ssl, events)
                    else if pr_handshake p \<noteq> 0
                    then (result1\<lparr>tr_status := (if pr_verify p \<noteq> 0 then TLS_TRANSPORT_CERTIFICATE_ERROR
                            else TLS_TRANSPORT_HANDSHAKE_ERROR)\<rparr>, pr_handshake p, fd, ts1, ssl, events)
                    else if pr_verify p \<noteq> 0
                    then (result1\<lparr>tr_status := TLS_TRANSPORT_CERTIFICATE_ERROR\<rparr>,
                          MBEDTLS_ERR_X509_CERT_VERIFY_FAILED, fd, ts1, ssl, events)
                    else case tlsTransport_Converse p result1 method host port resource body contentType of
                      (result2, detail2, ssl2) \<Rightarrow> (result2, detail2, fd, ts1, ssl2, events))"

text \<open>The returned status, the result when it was written, and the state after the clean-up.\<close>

definition TlsTransport_Request ::
  "tls_peer \<Rightarrow> tls_platform \<Rightarrow> trust_store \<Rightarrow> string \<Rightarrow> string \<Rightarrow> u16 \<Rightarrow> string \<Rightarrow> u8 \<Rightarrow> string \<Rightarrow> string option \<Rightarrow>
     TlsTransport_StatusTypeDef \<times> TlsTransport_ResultTypeDef option \<times> tls_platform \<times> trust_store \<times> tls_session
       \<times> socket_event list" where
  "TlsTransport_Request p tls ts method host port resource trustAnchorId body contentType =
     (if method \<noteq> ''HEAD'' \<and> method \<noteq> ''GET'' \<and> method \<noteq> ''POST''
      then (TLS_TRANSPORT_CONFIG_ERROR, None, tls, ts, pr_session p, [])
      else case TlsPlatform_Lock tls of
        (s, tls1) \<Rightarrow>
          if s \<noteq> PLATFORM_STATUS_OK
          then (TLS_TRANSPORT_CONFIG_ERROR, Some (zero_result\<lparr>tr_status := TLS_TRANSPORT_CONFIG_ERROR\<rparr>), tls1, ts, pr_session p, [])
          else case tlsTransport_Attempt p ts method host port resource trustAnchorId body contentType of
            (result, detail, fd, ts1, ssl, events) \<Rightarrow>
              let lastError = (if fd \<ge> 0 then socket_lastError (pr_timeouts p) 0 (pr_calls p) else 0);
                  detail' = (if detail \<noteq> 0 \<and> lastError \<noteq> 0 then - lastError else detail);
                  result' = result\<lparr>tr_detail := word_of_int detail', tr_elapsedMs := pr_ended p - pr_started p\<rparr>
              in (tr_status result', Some result', TlsPlatform_Unlock tls1, ts1, ssl,
                  events @ (if fd \<ge> 0 then [Socket_Closed fd] else [])))"

definition TlsTransport_Head ::
  "tls_peer \<Rightarrow> tls_platform \<Rightarrow> trust_store \<Rightarrow> string \<Rightarrow> u16 \<Rightarrow> string \<Rightarrow> u8 \<Rightarrow>
     TlsTransport_StatusTypeDef \<times> TlsTransport_ResultTypeDef option \<times> tls_platform \<times> trust_store \<times> tls_session
       \<times> socket_event list" where
  "TlsTransport_Head p tls ts host port resource trustAnchorId =
     TlsTransport_Request p tls ts ''HEAD'' host port resource trustAnchorId [] None"

section \<open>Certificate times and the clock\<close>

lemma leap_step:
  "(if rtc_IsLeapYear (Suc n) then 1 else 0) + n div 4 + Suc n div 100 + n div 400 = Suc n div 4 + n div 100 + Suc n div 400"
proof -
  have "Suc n mod 100 = 0 \<Longrightarrow> Suc n mod 4 = 0" "Suc n mod 400 = 0 \<Longrightarrow> Suc n mod 100 = 0"
    using mod_mod_cancel [of 4 100 "Suc n"] mod_mod_cancel [of 100 400 "Suc n"] by simp_all
  then show ?thesis
    by (simp add: rtc_IsLeapYear_def div_Suc)
qed

text \<open>The closed formula of the transport counts the days of the years one by one.\<close>

lemma year_days_closed:
  "1970 \<le> year \<Longrightarrow> rtc_YearSum year + 492 + (year - 1) div 100 + 4 = (year - 1970) * 365 + (year - 1) div 4 + 19 + (year - 1) div 400"
proof (induction year rule: nat_induct_at_least)
  case base
  show ?case
    by (simp add: rtc_YearSum_def)
next
  case (Suc year)
  have "rtc_YearSum (Suc year) = rtc_YearSum year + 365 + (if rtc_IsLeapYear year then 1 else 0)"
    using Suc.hyps by (simp add: rtc_YearSum_def rtc_DaysInYear_def)
  moreover have "(Suc year - 1970) * 365 = (year - 1970) * 365 + 365"
    using Suc.hyps by (simp add: Suc_diff_le)
  moreover have "Suc year - 1 = year" "Suc (year - 1) = year"
    using Suc.hyps by simp_all
  ultimately show ?case
    using Suc.IH leap_step [of "year - 1"] by (simp only:)
qed

lemma year_divisions: "1970 \<le> (year :: nat) \<Longrightarrow> 492 \<le> (year - 1) div 4 \<and> 19 \<le> (year - 1) div 100 \<and> 4 \<le> (year - 1) div 400"
  by auto

lemma closed_arith:
  "y + 492 + c + 4 = a + b + 19 + d \<Longrightarrow> 492 \<le> b \<and> 19 \<le> c \<and> 4 \<le> d \<Longrightarrow> d \<le> 4 + y \<Longrightarrow> a + b - 492 - (c - 19) + (d - 4) = y" for y :: nat
  by linarith

lemma month_days_closed:
  assumes "1 \<le> m" and "m \<le> 12"
  shows "rtc_MonthSum year [1..<m] = Some (daysBeforeMonth ! (m - 1) + (if 2 < m \<and> rtc_IsLeapYear year then 1 else 0))"
proof -
  have "m = 1 \<or> m = 2 \<or> m = 3 \<or> m = 4 \<or> m = 5 \<or> m = 6 \<or> m = 7 \<or> m = 8 \<or> m = 9 \<or> m = 10 \<or> m = 11 \<or> m = 12"
    using assms by presburger
  then show ?thesis
    by (elim disjE) (simp_all add: daysBeforeMonth_def rtc_DaysInMonth_def rtc_days_def upt_rec)
qed

definition clock_fields_ok :: "Rtc_DateTimeTypeDef \<Rightarrow> bool" where
  "clock_fields_ok d \<longleftrightarrow> 1970 \<le> unat (dt_year d) \<and> unat (dt_year d) \<le> 2105 \<and> 1 \<le> unat (dt_month d) \<and> unat (dt_month d) \<le> 12
     \<and> 1 \<le> unat (dt_day d) \<and> unat (dt_day d) \<le> 31 \<and> unat (dt_hour d) \<le> 23 \<and> unat (dt_minute d) \<le> 59 \<and> unat (dt_second d) \<le> 59"

definition x509_of_clock :: "Rtc_DateTimeTypeDef \<Rightarrow> x509_time" where
  "x509_of_clock d = \<lparr>xt_year = int (unat (dt_year d)), xt_mon = int (unat (dt_month d)), xt_day = int (unat (dt_day d)),
     xt_hour = int (unat (dt_hour d)), xt_min = int (unat (dt_minute d)), xt_sec = int (unat (dt_second d))\<rparr>"

text \<open>The seconds since 1970 that the fields stand for, counted year by year and month by month.\<close>

definition clock_days :: "Rtc_DateTimeTypeDef \<Rightarrow> nat" where
  "clock_days d = rtc_YearSum (unat (dt_year d)) + (daysBeforeMonth ! (unat (dt_month d) - 1)
     + (if 2 < unat (dt_month d) \<and> rtc_IsLeapYear (unat (dt_year d)) then 1 else 0)) + (unat (dt_day d) - 1)"

definition clock_seconds :: "Rtc_DateTimeTypeDef \<Rightarrow> nat" where
  "clock_seconds d = clock_days d * 86400 + unat (dt_hour d) * 3600 + unat (dt_minute d) * 60 + unat (dt_second d)"

lemma year_days_formula:
  assumes "1970 \<le> y" and "y \<le> 2105"
  shows "(y - 1970) * 365 + (y - 1) div 4 - 1969 div 4 - ((y - 1) div 100 - 1969 div 100) + ((y - 1) div 400 - 1969 div 400)
    = rtc_YearSum y"
proof -
  have "(y - 1) div 400 \<le> 4 + rtc_YearSum y"
  proof (cases "2000 \<le> y")
    case True
    have "(y - 1) div 400 \<le> 5"
      using assms(2) by auto
    then show ?thesis
      using rtc_YearSum_mono [OF True] year_sums(1) by simp
  qed auto
  moreover have "1969 div 4 = (492 :: nat)" "1969 div 100 = (19 :: nat)" "1969 div 400 = (4 :: nat)"
    by simp_all
  ultimately show ?thesis
    using year_days_closed [OF assms(1)] year_divisions [OF assms(1)] by (simp only: closed_arith)
qed

lemma clock_seconds_fit:
  assumes "clock_fields_ok d"
  shows "clock_seconds d \<le> 0xFFFFFFFF"
proof -
  have "rtc_YearSum (unat (dt_year d)) \<le> 49308"
    using rtc_YearSum_mono [of "unat (dt_year d)" 2105] year_days_closed [of 2105] assms by (simp add: clock_fields_ok_def)
  moreover have "daysBeforeMonth ! k \<le> 334" if "k < 12" for k
    using that by (auto simp: daysBeforeMonth_def less_Suc_eq numeral_eq_Suc)
  then have "daysBeforeMonth ! (unat (dt_month d) - 1) \<le> 334"
    using assms by (auto simp: clock_fields_ok_def)
  moreover have "unat (dt_day d) \<le> 31"
    using assms by (simp add: clock_fields_ok_def)
  moreover have "x + (y + (if b then 1 else 0)) + (z - 1) \<le> 49308 + 335 + 30" if "x \<le> 49308" "y \<le> 334" "z \<le> 31" for b and x y z :: nat
    using that by (cases b) simp_all
  ultimately have "clock_days d \<le> 49308 + 335 + 30"
    unfolding clock_days_def by metis
  then show ?thesis
    using assms by (simp add: clock_seconds_def clock_fields_ok_def)
qed

lemma x509_clock_seconds:
  assumes "clock_fields_ok d"
  shows "tlsTransport_X509TimeToUnix (x509_of_clock d) = Some (of_nat (clock_seconds d))"
proof -
  let ?t = "x509_of_clock d" and ?y = "unat (dt_year d)"
  have guard: "(xt_year ?t < 1970 \<or> xt_mon ?t < 1 \<or> xt_mon ?t > 12 \<or> xt_day ?t < 1 \<or> xt_day ?t > 31 \<or> xt_hour ?t < 0 \<or> xt_hour ?t > 23
      \<or> xt_min ?t < 0 \<or> xt_min ?t > 59 \<or> xt_sec ?t < 0 \<or> xt_sec ?t > 59) = False"
    unfolding x509_of_clock_def x509_time.select_convs eq_False using assms
    unfolding clock_fields_ok_def by (intro notI; elim disjE; linarith)
  have fields: "nat (xt_year ?t) = ?y" "nat (xt_mon ?t) = unat (dt_month d)" "nat (xt_day ?t) = unat (dt_day d)"
      "nat (xt_hour ?t) = unat (dt_hour d)" "nat (xt_min ?t) = unat (dt_minute d)" "nat (xt_sec ?t) = unat (dt_second d)"
    by (simp_all add: x509_of_clock_def)
  have "xt_mon ?t > 2 \<longleftrightarrow> 2 < unat (dt_month d)"
    unfolding x509_of_clock_def x509_time.select_convs by linarith
  then have leap: "(xt_mon ?t > 2 \<and> tlsTransport_IsLeapYear ?y) = (2 < unat (dt_month d) \<and> rtc_IsLeapYear ?y)"
    unfolding tlsTransport_IsLeapYear_def rtc_IsLeapYear_def by (simp only:)
  have closed: "(?y - 1970) * 365 + (?y - 1) div 4 - 1969 div 4 - ((?y - 1) div 100 - 1969 div 100) + ((?y - 1) div 400 - 1969 div 400)
      = rtc_YearSum ?y"
    using assms by (intro year_days_formula) (simp_all add: clock_fields_ok_def)
  have total: "((((if 2 < unat (dt_month d) \<and> rtc_IsLeapYear ?y then rtc_YearSum ?y + daysBeforeMonth ! (unat (dt_month d) - 1) + 1
        else rtc_YearSum ?y + daysBeforeMonth ! (unat (dt_month d) - 1)) + (unat (dt_day d) - 1)) * 24 + unat (dt_hour d)) * 60
      + unat (dt_minute d)) * 60 + unat (dt_second d) = clock_seconds d"
    unfolding clock_seconds_def clock_days_def by (simp split: if_split)
  show ?thesis
    unfolding tlsTransport_X509TimeToUnix_def Let_def guard fields leap if_False closed total
    using clock_seconds_fit [OF assms] by simp
qed

lemma rtc_clock_seconds:
  assumes "clock_fields_ok (Rtc_GetDateTime h)"
  shows "Rtc_GetUnixTime h = Some (of_nat (clock_seconds (Rtc_GetDateTime h)))"
proof -
  let ?d = "Rtc_GetDateTime h"
  have fields: "ucast b = (of_nat (unat b) :: u32)" for b :: u8
    by simp
  have "ucast (dt_day ?d) - 1 = (of_nat (unat (dt_day ?d) - 1) :: u32)"
    unfolding fields using assms by (simp add: of_nat_diff clock_fields_ok_def)
  moreover have "1 \<le> unat (dt_month ?d)" "unat (dt_month ?d) \<le> 12"
    using assms by (simp_all add: clock_fields_ok_def)
  ultimately show ?thesis
    using month_days_closed [of "unat (dt_month ?d)" "unat (dt_year ?d)"]
    unfolding Rtc_GetUnixTime_def Let_def RTC_SECONDS_PER_DAY_def clock_seconds_def clock_days_def fields by simp
qed

text \<open>
  C27: the time of a certificate and the time of the clock are on the same scale: for the same calendar
  fields the closed day formula of the transport and the counting loops of the clock driver give the
  same Unix time, for every year whose times fit 32 bits.
\<close>

theorem certificate_time_matches_clock:
  assumes "clock_fields_ok (Rtc_GetDateTime h)"
  shows "tlsTransport_X509TimeToUnix (x509_of_clock (Rtc_GetDateTime h)) = Rtc_GetUnixTime h"
  using x509_clock_seconds [OF assms] rtc_clock_seconds [OF assms] by simp

text \<open>A clock that shows noon of a leap day.\<close>

theorem certificate_time_matches_clock_witness:
  "tlsTransport_X509TimeToUnix (x509_of_clock (Rtc_GetDateTime (fresh_rtc\<lparr>rtc_tr := 0x120000, rtc_dr := 0x248229\<rparr>)))
     = Rtc_GetUnixTime (fresh_rtc\<lparr>rtc_tr := 0x120000, rtc_dr := 0x248229\<rparr>)"
proof -
  have "clock_fields_ok (Rtc_GetDateTime (fresh_rtc\<lparr>rtc_tr := 0x120000, rtc_dr := 0x248229\<rparr>))"
    by code_simp
  then show ?thesis
    by (rule certificate_time_matches_clock)
qed

section \<open>What a request guarantees\<close>

fun open_sockets :: "int list \<Rightarrow> socket_event list \<Rightarrow> int list" where
  "open_sockets fds [] = fds"
| "open_sockets fds (Socket_Opened fd # events) = open_sockets (fd # fds) events"
| "open_sockets fds (Socket_Closed fd # events) = open_sockets (remove1 fd fds) events"

lemma open_sockets_append: "open_sockets fds (es @ es') = open_sockets (open_sockets fds es) es'"
  by (induction fds es rule: open_sockets.induct) auto

lemma tlsTransport_ConnectLoop_sockets:
  "fd < 0 \<Longrightarrow> tlsTransport_ConnectLoop as fd detail = (fd', detail', events) \<Longrightarrow>
     open_sockets fds events = (if fd' \<ge> 0 then fd' # fds else fds)"
proof (induction as fd detail arbitrary: fd' detail' events rule: tlsTransport_ConnectLoop.induct)
  case (2 a as fd detail)
  show ?case
  proof (cases "ta_socket a < 0 \<or> ta_connect a = 0")
    case True
    then show ?thesis
      using "2.prems" "2.IH"(1) by (auto split: if_splits)
  next
    case False
    obtain d where "tlsTransport_ConnectLoop (a # as) fd detail =
        (case tlsTransport_ConnectLoop as (- 1) d of (fd', detail'', events) \<Rightarrow>
          (fd', detail'', Socket_Opened (ta_socket a) # Socket_Closed (ta_socket a) # events))"
      "\<And>fd' detail' events. tlsTransport_ConnectLoop as (- 1) d = (fd', detail', events) \<Longrightarrow>
        open_sockets fds events = (if fd' \<ge> 0 then fd' # fds else fds)"
      using "2.IH"(2) False by (simp add: Let_def)
    then show ?thesis
      using "2.prems"(2) by (auto split: prod.splits)
  qed
qed simp

lemma tlsTransport_Attempt_sockets:
  assumes "tlsTransport_Attempt p ts method host port resource anchor body contentType = (result, detail, fd, ts', ssl, events)"
  shows "open_sockets [] (events @ (if fd \<ge> 0 then [Socket_Closed fd] else [])) = []"
proof -
  obtain cfd status cdetail cevents where c: "tlsTransport_Connect p = (cfd, status, cdetail, cevents)"
    by (metis prod_cases4)
  have "open_sockets [] cevents = (if cfd \<ge> 0 then [cfd] else [])"
    using c tlsTransport_ConnectLoop_sockets [of "- 1" "pr_addresses p" 0 _ _ _ "[]"]
    by (auto simp: tlsTransport_Connect_def split: if_splits prod.splits)
  moreover have "events = [] \<and> fd = - 1 \<or> events = cevents \<and> fd = cfd"
    using assms c by (auto simp: tlsTransport_Attempt_def Let_def split: if_splits prod.splits)
  ultimately show ?thesis
    by (auto simp: open_sockets_append)
qed

lemma tlsTransport_ReadStatus_range:
  "tlsTransport_ReadStatus ssl = (Inr status, ssl') \<Longrightarrow> status \<le> 999"
  by (auto simp: tlsTransport_ReadStatus_def word_le_nat_alt unsigned_ucast_eq take_bit_eq_mod not_less
      split: sum.splits prod.splits option.splits if_splits)

lemma tlsTransport_Attempt_verified:
  assumes "tlsTransport_Attempt p ts method host port resource anchor body contentType = (result, detail, fd, ts', ssl, events)"
    and "tr_status result = TLS_TRANSPORT_OK"
  shows "detail = 0 \<and> fd \<ge> 0 \<and> pr_handshake p = 0 \<and> pr_verify p = 0 \<and> tr_httpStatus result \<le> 999
    \<and> fst (TlsTrustStore_Parse (pr_mbedtls p) ts anchor) = TLS_TRUST_STORE_STATUS_OK"
proof -
  obtain s der ts1 where t: "TlsTrustStore_Parse (pr_mbedtls p) ts anchor = (s, der, ts1)"
    by (metis prod_cases3)
  obtain cfd status cdetail cevents where c: "tlsTransport_Connect p = (cfd, status, cdetail, cevents)"
    by (metis prod_cases4)
  let ?r1 = "zero_result\<lparr>tr_status := status\<rparr>"
  have st: "status \<noteq> TLS_TRANSPORT_OK"
    using c by (auto simp: tlsTransport_Connect_def split: if_splits prod.splits)
  have "s = TLS_TRUST_STORE_STATUS_OK \<and> cfd \<ge> 0 \<and> pr_handshake p = 0 \<and> pr_verify p = 0 \<and> fd = cfd
      \<and> tlsTransport_Converse p ?r1 method host port resource body contentType = (result, detail, ssl)"
    using assms c t st
    by (auto simp: tlsTransport_Attempt_def Let_def zero_result_def split: if_splits prod.splits)
  moreover have "detail = 0 \<and> tr_httpStatus result \<le> 999"
    if "tlsTransport_Converse p ?r1 method host port resource body contentType = (result, detail, ssl)"
    using that assms(2) st tlsTransport_ReadStatus_range
    by (auto simp: tlsTransport_Converse_def Let_def zero_result_def split: if_splits prod.splits option.splits sum.splits)
  ultimately show ?thesis
    using t by simp
qed

lemma tlsTransport_Request_lock:
  assumes "method = ''HEAD'' \<or> method = ''GET'' \<or> method = ''POST''" and "cryptoMutex tls \<noteq> None"
    and "TlsTransport_Request p tls ts method host port resource anchor body contentType = (status, result, tls', ts', ssl, events)"
  shows "tls' = tls \<and> (\<exists>r. result = Some r \<and> tr_status r = status)"
proof -
  obtain r d fd ts1 ssl1 es where a: "tlsTransport_Attempt p ts method host port resource anchor body contentType = (r, d, fd, ts1, ssl1, es)"
    by (metis prod_cases6)
  then show ?thesis
    using assms by (auto simp: TlsTransport_Request_def TlsPlatform_Lock_def TlsPlatform_Unlock_def Let_def)
qed

text \<open>
  C13: a request with one of the three methods, with the TLS mutex created, gives the mutex back, closes
  every socket it opened and always reports a result; success means that the trust anchor was parsed,
  the handshake finished, the certificate chain verified, and the HTTP status has at most three digits.
\<close>

theorem TlsTransport_Request_outcome:
  assumes "method = ''HEAD'' \<or> method = ''GET'' \<or> method = ''POST''" and "cryptoMutex tls \<noteq> None"
    and "TlsTransport_Request p tls ts method host port resource anchor body contentType = (status, result, tls', ts', ssl, events)"
  shows "tls' = tls \<and> open_sockets [] events = []
    \<and> (\<exists>r. result = Some r \<and> tr_status r = status \<and> tr_elapsedMs r = pr_ended p - pr_started p
         \<and> (status = TLS_TRANSPORT_OK \<longrightarrow> tr_detail r = 0 \<and> tr_httpStatus r \<le> 999 \<and> pr_handshake p = 0 \<and> pr_verify p = 0
              \<and> fst (TlsTrustStore_Parse (pr_mbedtls p) ts anchor) = TLS_TRUST_STORE_STATUS_OK))"
proof -
  obtain tls1 where lock: "TlsPlatform_Lock tls = (PLATFORM_STATUS_OK, tls1)" "TlsPlatform_Unlock tls1 = tls"
    using assms(2) by (auto simp: TlsPlatform_Lock_def TlsPlatform_Unlock_def)
  obtain r d fd ts1 ssl1 es where a: "tlsTransport_Attempt p ts method host port resource anchor body contentType = (r, d, fd, ts1, ssl1, es)"
    by (metis prod_cases6)
  note run = assms(3) [unfolded TlsTransport_Request_def lock(1) a Let_def prod.case]
  have "open_sockets [] events = []"
    using run assms(1) tlsTransport_Attempt_sockets [OF a] by auto
  moreover have "tls' = tls"
    using run assms(1) lock(2) by auto
  moreover have "\<exists>r. result = Some r \<and> tr_status r = status \<and> tr_elapsedMs r = pr_ended p - pr_started p
      \<and> (status = TLS_TRANSPORT_OK \<longrightarrow> tr_detail r = 0 \<and> tr_httpStatus r \<le> 999 \<and> pr_handshake p = 0 \<and> pr_verify p = 0
           \<and> fst (TlsTrustStore_Parse (pr_mbedtls p) ts anchor) = TLS_TRUST_STORE_STATUS_OK)"
    using run assms(1) tlsTransport_Attempt_verified [OF a] by auto
  ultimately show ?thesis
    by blast
qed

text \<open>A server reached at its second address that answers with a status line.\<close>

definition sample_peer :: tls_peer where
  "sample_peer = \<lparr>pr_timeouts = [11, 110], pr_seed = 0, pr_mbedtls = toy_trust_mbedtls, pr_configDefaults = 0, pr_setup = 0,
     pr_setHostname = 0, pr_getaddrinfo = 0,
     pr_addresses = [\<lparr>ta_socket = 3, ta_socketErrno = 0, ta_connect = - 1, ta_connectErrno = 111, ta_getsockopt = 0, ta_socketError = 111\<rparr>,
       \<lparr>ta_socket = 4, ta_socketErrno = 0, ta_connect = 0, ta_connectErrno = 0, ta_getsockopt = 0, ta_socketError = 0\<rparr>],
     pr_calls = [], pr_handshake = 0, pr_verify = 0, pr_version = ''TLSv1.3'', pr_ciphersuite = ''TLS1-3-AES-128-GCM-SHA256'',
     pr_certificate = None, pr_session = \<lparr>ssl_reads = [Ssl_Data (''HTTP/1.1 200 OK'' @ CRLF)], ssl_writes = [], ssl_out = []\<rparr>,
     pr_started = 100, pr_ended = 350\<rparr>"

definition small_trust_store :: trust_store where
  "small_trust_store = \<lparr>trustStoreSnapshot = \<lparr>ts_magic = 0, ts_version = 0, ts_reserved = 0, ts_generation = 0, ts_anchors =
     [\<lparr>ta_occupied = 1, ta_reserved = 0, ta_derLength = 1, ta_subject = [], ta_der = [0x30]\<rparr>], ts_crc = 0\<rparr>,
     trustStoreActiveAddress = ts_bank_b, trustStoreMutex = Sem_Free\<rparr>"

lemma status_characters: "is_digit CHR ''1''" "is_digit CHR ''2''" "is_digit CHR ''0''" "\<not> is_digit CHR '' ''" "isspace CHR '' ''" "\<not> isspace CHR ''1''" "\<not> isspace CHR ''2''"
  by (simp_all add: is_digit_def isspace_def byte_of_char_def)

lemma sample_status: "scan_status (''HTTP/1.1 200 OK'' @ CRLF) = Some 200"
  by (simp add: scan_status_def scan_unsigned_def Let_def digits_value_def status_characters peek_def CRLF_def)

lemma sample_line: "tlsTransport_ReadLine \<lparr>ssl_reads = [Ssl_Data (''HTTP/1.1 200 OK'' @ CRLF)], ssl_writes = [], ssl_out = out\<rparr> []
    = (Inr (''HTTP/1.1 200 OK'' @ CRLF), \<lparr>ssl_reads = [], ssl_writes = [], ssl_out = out\<rparr>)"
  by (simp add: tlsTransport_ReadLine.simps mbedtls_ssl_read_def TLS_TRANSPORT_STATUS_LINE_SIZE_def CRLF_def)

lemma sample_read: "tlsTransport_ReadStatus \<lparr>ssl_reads = [Ssl_Data (''HTTP/1.1 200 OK'' @ CRLF)], ssl_writes = [], ssl_out = out\<rparr>
    = (Inr 200, \<lparr>ssl_reads = [], ssl_writes = [], ssl_out = out\<rparr>)"
  unfolding tlsTransport_ReadStatus_def sample_line using sample_status by (simp add: cstr_def CRLF_def)

lemma tlsTransport_WriteAll_open: "ssl_writes ssl = [] \<Longrightarrow>
    tlsTransport_WriteAll ssl data = (0, if data = [] then ssl else ssl\<lparr>ssl_out := ssl_out ssl @ data\<rparr>)"
  by (simp add: tlsTransport_WriteAll.simps mbedtls_ssl_write_def)

lemma CRLF_length [simp]: "length CRLF = 2"
  by (simp add: CRLF_def)

theorem TlsTransport_Request_outcome_witness:
  "\<exists>r ts ssl. TlsTransport_Request sample_peer \<lparr>cryptoMutex = Some 0, rng_words = []\<rparr> small_trust_store ''HEAD'' ''example.org'' 443 ''/'' 0 [] None
     = (TLS_TRANSPORT_OK, Some r, \<lparr>cryptoMutex = Some 0, rng_words = []\<rparr>, ts, ssl,
        [Socket_Opened 3, Socket_Closed 3, Socket_Opened 4, Socket_Closed 4])
     \<and> tr_httpStatus r \<le> 999 \<and> tr_elapsedMs r = 250
     \<and> fst (TlsTrustStore_Parse toy_trust_mbedtls small_trust_store 0) = TLS_TRUST_STORE_STATUS_OK"
proof -
  let ?run = "TlsTransport_Request sample_peer \<lparr>cryptoMutex = Some 0, rng_words = []\<rparr> small_trust_store ''HEAD'' ''example.org'' 443 ''/'' 0 [] None"
  obtain s r tls ts ssl es where run: "?run = (s, r, tls, ts, ssl, es)"
    by (metis prod_cases6)
  have "fst ?run = TLS_TRANSPORT_OK" "snd (snd (snd (snd (snd ?run)))) = [Socket_Opened 3, Socket_Closed 3, Socket_Opened 4, Socket_Closed 4]"
    by (simp_all add: TlsTransport_Request_def tlsTransport_Attempt_def tlsTransport_Connect_def tlsTransport_Converse_def Let_def
        TlsPlatform_Lock_def TlsTrustStore_Parse_def small_trust_store_def toy_trust_mbedtls_def tlsTransport_WriteAll_open sample_read [simplified]
        tlsTransport_HostHeader_def tlsTransport_RequestText_def snprintf_def TLS_TRANSPORT_HOST_HEADER_SIZE_def
        TLS_TRANSPORT_REQUEST_SIZE_def CRLF_length sample_peer_def)
  moreover have "cryptoMutex \<lparr>cryptoMutex = Some 0, rng_words = []\<rparr> \<noteq> None"
    by simp
  ultimately show ?thesis
    using TlsTransport_Request_outcome [OF _ _ run] run by (auto simp: sample_peer_def)
qed

end
