(* ===== verification/Callback_Service.thy ===== *)
theory Callback_Service
  imports Tls_Transport Callback_Config
begin

text \<open>
  The failure callbacks \<^verbatim>\<open>Srv/Src/callback_service.c\<close>: a queue of three events between the health checks
  and the delivering task, the message of an event, one pass of the task. A send that finds the queue
  full drops the oldest event and sends again; the task may take an event in between, so the steps of
  both sides are also interleaved freely.
\<close>

section \<open>Queues\<close>

text \<open>The queue operations of the kernel with a timeout of zero.\<close>

definition xQueueSendToBack :: "nat \<Rightarrow> 'a \<Rightarrow> 'a list \<Rightarrow> bool \<times> 'a list" where
  "xQueueSendToBack capacity item queue = (if length queue < capacity then (True, queue @ [item]) else (False, queue))"

definition xQueueReceive :: "'a list \<Rightarrow> 'a option \<times> 'a list" where
  "xQueueReceive queue = (case queue of [] \<Rightarrow> (None, []) | item # rest \<Rightarrow> (Some item, rest))"

text \<open>
  What a producer that drops the oldest item may rely on, and what it then promises: the queue always
  holds the newest items, in order.
\<close>

locale bounded_queue =
  fixes send :: "'a \<Rightarrow> 'q \<Rightarrow> bool \<times> 'q" and receive :: "'q \<Rightarrow> 'a option \<times> 'q" and items :: "'q \<Rightarrow> 'a list" and capacity :: nat
  assumes capacity_positive: "0 < capacity"
    and send_room: "length (items q) < capacity \<Longrightarrow> \<exists>q'. send x q = (True, q') \<and> items q' = items q @ [x]"
    and send_full: "\<not> length (items q) < capacity \<Longrightarrow> send x q = (False, q)"
    and receive_empty: "items q = [] \<Longrightarrow> receive q = (None, q)"
    and receive_first: "items q = y # ys \<Longrightarrow> \<exists>q'. receive q = (Some y, q') \<and> items q' = ys"
begin

definition overwrite :: "'a \<Rightarrow> 'q \<Rightarrow> 'q" where
  "overwrite x q = (case send x q of (sent, q1) \<Rightarrow> if sent then q1 else snd (send x (snd (receive q1))))"

lemma overwrite_items:
  assumes "length (items q) \<le> capacity"
  shows "items (overwrite x q) = (if length (items q) < capacity then items q @ [x] else tl (items q) @ [x])"
proof (cases "length (items q) < capacity")
  case True
  then show ?thesis
    using send_room [OF True, of x] by (auto simp: overwrite_def)
next
  case False
  then obtain y ys where "items q = y # ys"
    using assms capacity_positive by (cases "items q") auto
  moreover from this obtain q' where "receive q = (Some y, q')" "items q' = ys"
    using receive_first by blast
  moreover have "length ys < capacity"
    using assms calculation by simp
  ultimately show ?thesis
    using False send_room [of q' x] by (auto simp: overwrite_def send_full [OF False])
qed

lemma overwrite_newest:
  assumes "items q = drop (length xs - capacity) xs"
  shows "items (overwrite x q) = drop (length (xs @ [x]) - capacity) (xs @ [x])"
proof -
  have "length (items q) = min (length xs) capacity"
    using assms by simp
  then show ?thesis
    using assms overwrite_items [of q x] capacity_positive by (auto simp: Suc_diff_le tl_drop drop_Suc)
qed

lemma overwrite_fold:
  assumes "items q = []"
  shows "items (fold overwrite xs q) = drop (length xs - capacity) xs"
proof (induction xs rule: rev_induct)
  case Nil
  then show ?case
    using assms by simp
next
  case (snoc x xs)
  then show ?case
    using overwrite_newest [OF snoc.IH] by simp
qed

end

definition CALLBACK_QUEUE_LENGTH :: nat where "CALLBACK_QUEUE_LENGTH = 3"
definition CALLBACK_BODY_SIZE :: nat where "CALLBACK_BODY_SIZE = 192"
definition CALLBACK_RESOURCE_SIZE :: nat where "CALLBACK_RESOURCE_SIZE = 256"

interpretation callbacks: bounded_queue "xQueueSendToBack CALLBACK_QUEUE_LENGTH" xQueueReceive "\<lambda>q. q" CALLBACK_QUEUE_LENGTH
  by unfold_locales (auto simp: xQueueSendToBack_def xQueueReceive_def CALLBACK_QUEUE_LENGTH_def)

section \<open>Producer\<close>

type_synonym callback_event = HealthCheckLog_EntryTypeDef

record callback_service =
  callbackQueue :: "callback_event list option"
  callbackTaskRunning :: bool

definition CallbackService_Init :: "bool \<Rightarrow> bool \<Rightarrow> callback_service \<Rightarrow> ErrorStatus \<times> callback_service" where
  "CallbackService_Init queueCreated taskCreated st =
     (if \<not> queueCreated then (ERROR, st\<lparr>callbackQueue := None\<rparr>)
      else (if taskCreated then SUCCESS else ERROR, st\<lparr>callbackQueue := Some [], callbackTaskRunning := taskCreated\<rparr>))"

definition CallbackService_Enqueue :: "callback_event \<Rightarrow> callback_service \<Rightarrow> callback_service" where
  "CallbackService_Enqueue event st =
     (case callbackQueue st of
        None \<Rightarrow> st
      | Some queue \<Rightarrow>
          (case xQueueSendToBack CALLBACK_QUEUE_LENGTH event queue of
             (sent, queue1) \<Rightarrow>
               if sent then st\<lparr>callbackQueue := Some queue1\<rparr>
               else case xQueueReceive queue1 of
                 (discarded, queue2) \<Rightarrow>
                   st\<lparr>callbackQueue := Some (snd (xQueueSendToBack CALLBACK_QUEUE_LENGTH event queue2))\<rparr>))"

section \<open>Messages\<close>

definition callbackService_TransportStatusText :: "u8 \<Rightarrow> string" where
  "callbackService_TransportStatusText status =
     (if status = tls_status_code TLS_TRANSPORT_OK then ''ok''
      else if status = tls_status_code TLS_TRANSPORT_DNS_ERROR then ''dns_error''
      else if status = tls_status_code TLS_TRANSPORT_CONNECT_ERROR then ''connect_error''
      else if status = tls_status_code TLS_TRANSPORT_CONFIG_ERROR then ''config_error''
      else if status = tls_status_code TLS_TRANSPORT_CERTIFICATE_ERROR then ''certificate_error''
      else if status = tls_status_code TLS_TRANSPORT_HANDSHAKE_ERROR then ''handshake_error''
      else if status = tls_status_code TLS_TRANSPORT_IO_ERROR then ''io_error''
      else if status = tls_status_code TLS_TRANSPORT_PROTOCOL_ERROR then ''protocol_error''
      else ''unknown'')"

record callback_message =
  cm_method :: string
  cm_resource :: string
  cm_body :: string
  cm_contentType :: "string option"

definition quoted :: "string \<Rightarrow> string" where
  "quoted s = [DQUOTE] @ s @ [DQUOTE]"

definition callback_body :: "callback_event \<Rightarrow> string" where
  "callback_body event =
     ''{'' @ quoted ''sequence'' @ '':'' @ decimal (unat (le_sequence event))
     @ '','' @ quoted ''timestamp'' @ '':'' @ decimal (unat (le_timestampUnix event))
     @ '','' @ quoted ''resource_index'' @ '':'' @ decimal (unat (le_resourceIndex event))
     @ '','' @ quoted ''status'' @ '':'' @ quoted ''fail''
     @ '','' @ quoted ''stage'' @ '':'' @ quoted (callbackService_TransportStatusText (le_status event))
     @ '','' @ quoted ''http_status'' @ '':'' @ decimal (unat (le_httpStatus event))
     @ '','' @ quoted ''elapsed_ms'' @ '':'' @ decimal (unat (le_elapsedMs event))
     @ '','' @ quoted ''detail'' @ '':'' @ decimal_int (sint (le_detail event)) @ ''}''"

definition callback_query :: "string \<Rightarrow> callback_event \<Rightarrow> string" where
  "callback_query path event =
     path @ (if CHR ''?'' \<in> set path then ''&'' else ''?'') @ ''sequence='' @ decimal (unat (le_sequence event))
     @ ''&timestamp='' @ decimal (unat (le_timestampUnix event)) @ ''&resource_index='' @ decimal (unat (le_resourceIndex event))
     @ ''&status=fail&stage='' @ callbackService_TransportStatusText (le_status event)
     @ ''&http_status='' @ decimal (unat (le_httpStatus event)) @ ''&elapsed_ms='' @ decimal (unat (le_elapsedMs event))
     @ ''&detail='' @ decimal_int (sint (le_detail event))"

text \<open>The message of an event; \<open>None\<close> when a buffer is too small and the event is dropped.\<close>

definition callbackService_Message :: "CallbackConfig_TypeDef \<Rightarrow> callback_event \<Rightarrow> callback_message option" where
  "callbackService_Message config event =
     (if cb_method config = CALLBACK_METHOD_POST
      then (case snprintf CALLBACK_BODY_SIZE (callback_body event) of
              (len, body) \<Rightarrow>
                if len = 0 \<or> len \<ge> CALLBACK_BODY_SIZE then None
                else Some \<lparr>cm_method = ''POST'', cm_resource = take (CALLBACK_RESOURCE_SIZE - 1) (cstr (cb_path config)),
                       cm_body = body, cm_contentType = Some ''application/json''\<rparr>)
      else (case snprintf CALLBACK_RESOURCE_SIZE (callback_query (cstr (cb_path config)) event) of
              (len, resource) \<Rightarrow>
                if len = 0 \<or> len \<ge> CALLBACK_RESOURCE_SIZE then None
                else Some \<lparr>cm_method = ''GET'', cm_resource = resource, cm_body = [], cm_contentType = None\<rparr>))"

section \<open>The task\<close>

text \<open>
  One pass: nothing when the queue is empty (the task stays blocked); otherwise the oldest event is
  taken and, when callbacks are enabled, sent. The last component is the outcome of the request.
\<close>

definition callbackService_Task ::
  "tls_peer \<Rightarrow> callback_service \<Rightarrow> callback_config \<Rightarrow> tls_platform \<Rightarrow> trust_store \<Rightarrow>
     callback_service \<times> callback_config \<times> tls_platform \<times> trust_store
       \<times> (callback_message \<times> TlsTransport_ResultTypeDef option \<times> tls_session) option" where
  "callbackService_Task p st cb tls ts =
     (case callbackQueue st of
        None \<Rightarrow> (st, cb, tls, ts, None)
      | Some queue \<Rightarrow>
          (case xQueueReceive queue of
             (None, _) \<Rightarrow> (st, cb, tls, ts, None)
           | (Some event, queue') \<Rightarrow>
               let st' = st\<lparr>callbackQueue := Some queue'\<rparr>
               in case CallbackConfig_Get cb of
                    (config, cb') \<Rightarrow>
                      if cb_enabled config = 0 then (st', cb', tls, ts, None)
                      else case callbackService_Message config event of
                        None \<Rightarrow> (st', cb', tls, ts, None)
                      | Some m \<Rightarrow>
                          (case TlsTransport_Request p tls ts (cm_method m) (cstr (cb_host config)) (cb_port config)
                                  (cm_resource m) (cb_trustAnchorId config) (cm_body m) (cm_contentType m) of
                             (_, callbackResult, tls', ts', ssl, _) \<Rightarrow> (st', cb', tls', ts', Some (m, callbackResult, ssl)))))"

section \<open>Producer and consumer interleaved\<close>

lemma CallbackService_Enqueue_overwrite:
  "CallbackService_Enqueue event st = st\<lparr>callbackQueue := map_option (callbacks.overwrite event) (callbackQueue st)\<rparr>"
  by (simp add: CallbackService_Enqueue_def callbacks.overwrite_def split: option.split prod.split)

text \<open>
  Whatever number of events is enqueued while the task is busy, the queue holds the newest three of
  them, oldest first.
\<close>

theorem callback_queue_keeps_newest:
  "callbackQueue (fold CallbackService_Enqueue events (snd (CallbackService_Init True started st)))
     = Some (drop (length events - 3) events)"
proof -
  have "callbackQueue (fold CallbackService_Enqueue es s) = map_option (fold callbacks.overwrite es) (callbackQueue s)" for es s
    by (induction es arbitrary: s) (auto simp: CallbackService_Enqueue_overwrite option.map_comp comp_def option.map_ident id_def)
  then show ?thesis
    using callbacks.overwrite_fold [of "[]" events] by (simp add: CallbackService_Init_def CALLBACK_QUEUE_LENGTH_def)
qed

text \<open>
  The three queue calls of one enqueue as separate steps of the checking task, and the receive of the
  delivering task, in any order; the events offered and delivered so far are recorded.
\<close>

datatype enqueue_phase = Enqueue_Idle | Enqueue_Discard callback_event | Enqueue_Resend callback_event

record callback_race =
  race_queue :: "callback_event list"
  race_phase :: enqueue_phase
  race_offered :: "callback_event list"
  race_delivered :: "callback_event list"

definition enqueue_First :: "callback_event \<Rightarrow> callback_race \<Rightarrow> callback_race" where
  "enqueue_First event r =
     (case xQueueSendToBack CALLBACK_QUEUE_LENGTH event (race_queue r) of
        (sent, queue) \<Rightarrow> r\<lparr>race_queue := queue, race_phase := (if sent then Enqueue_Idle else Enqueue_Discard event),
                          race_offered := race_offered r @ [event]\<rparr>)"

definition enqueue_Drop :: "callback_event \<Rightarrow> callback_race \<Rightarrow> callback_race" where
  "enqueue_Drop event r = r\<lparr>race_queue := snd (xQueueReceive (race_queue r)), race_phase := Enqueue_Resend event\<rparr>"

definition enqueue_Again :: "callback_event \<Rightarrow> callback_race \<Rightarrow> callback_race" where
  "enqueue_Again event r =
     r\<lparr>race_queue := snd (xQueueSendToBack CALLBACK_QUEUE_LENGTH event (race_queue r)), race_phase := Enqueue_Idle\<rparr>"

inductive callback_step :: "callback_race \<Rightarrow> callback_race \<Rightarrow> bool" where
  Race_First: "race_phase r = Enqueue_Idle \<Longrightarrow> callback_step r (enqueue_First event r)"
| Race_Drop: "race_phase r = Enqueue_Discard event \<Longrightarrow> callback_step r (enqueue_Drop event r)"
| Race_Again: "race_phase r = Enqueue_Resend event \<Longrightarrow> callback_step r (enqueue_Again event r)"
| Race_Take: "xQueueReceive (race_queue r) = (Some event, queue) \<Longrightarrow>
    callback_step r (r\<lparr>race_queue := queue, race_delivered := race_delivered r @ [event]\<rparr>)"

inductive_cases callback_stepE: "callback_step r r'"

definition race_start :: callback_race where
  "race_start = \<lparr>race_queue = [], race_phase = Enqueue_Idle, race_offered = [], race_delivered = []\<rparr>"

fun in_flight :: "enqueue_phase \<Rightarrow> callback_event list" where
  "in_flight Enqueue_Idle = []"
| "in_flight (Enqueue_Discard event) = [event]"
| "in_flight (Enqueue_Resend event) = [event]"

text \<open>Without interference the three steps are the enqueue of the service.\<close>

lemma enqueue_steps:
  assumes "race_phase r = Enqueue_Idle" and "callbackQueue st = Some (race_queue r)"
  shows "\<exists>r'. callback_step\<^sup>*\<^sup>* r r' \<and> race_phase r' = Enqueue_Idle
    \<and> callbackQueue (CallbackService_Enqueue event st) = Some (race_queue r') \<and> race_offered r' = race_offered r @ [event]"
proof (cases "length (race_queue r) < CALLBACK_QUEUE_LENGTH")
  case True
  then show ?thesis
    using assms Race_First [OF assms(1), of event]
    by (intro exI [of _ "enqueue_First event r"])
      (auto simp: CallbackService_Enqueue_def enqueue_First_def xQueueSendToBack_def)
next
  case False
  let ?r1 = "enqueue_First event r"
  let ?r2 = "enqueue_Drop event ?r1"
  let ?r3 = "enqueue_Again event ?r2"
  have "callback_step r ?r1"
    using assms(1) by (rule Race_First)
  moreover have "callback_step ?r1 ?r2"
    using False by (intro Race_Drop) (simp add: enqueue_First_def xQueueSendToBack_def)
  moreover have "callback_step ?r2 ?r3"
    by (intro Race_Again) (simp add: enqueue_Drop_def)
  ultimately have "callback_step\<^sup>*\<^sup>* r ?r3"
    by (meson converse_rtranclp_into_rtranclp rtranclp.rtrancl_refl)
  then show ?thesis
    using False assms
    by (intro exI [of _ ?r3])
      (simp add: CallbackService_Enqueue_def enqueue_First_def enqueue_Drop_def enqueue_Again_def xQueueSendToBack_def split: prod.split)
qed

definition race_inv :: "callback_race \<Rightarrow> bool" where
  "race_inv r \<longleftrightarrow> length (race_queue r) \<le> 3
     \<and> (\<forall>event. race_phase r = Enqueue_Resend event \<longrightarrow> length (race_queue r) < 3)
     \<and> (\<exists>gone. race_offered r = gone @ race_queue r @ in_flight (race_phase r) \<and> subseq (race_delivered r) gone)"

lemma race_inv_step: "callback_step r r' \<Longrightarrow> race_inv r \<Longrightarrow> race_inv r'"
proof (induction rule: callback_step.induct)
  case (Race_First r event)
  then show ?case
    by (auto simp: race_inv_def enqueue_First_def xQueueSendToBack_def CALLBACK_QUEUE_LENGTH_def)
next
  case (Race_Drop r event)
  then obtain gone where g: "race_offered r = gone @ race_queue r @ [event]" "subseq (race_delivered r) gone" "length (race_queue r) \<le> 3"
    by (auto simp: race_inv_def)
  show ?case
  proof (cases "race_queue r")
    case Nil
    then show ?thesis
      using g by (auto simp: race_inv_def enqueue_Drop_def xQueueReceive_def)
  next
    case (Cons e q)
    moreover have "subseq (race_delivered r) (gone @ [e])"
      using g(2) by (metis append_Nil2 list_emb_append_mono list_emb_Nil)
    ultimately show ?thesis
      using g by (auto simp: race_inv_def enqueue_Drop_def xQueueReceive_def intro!: exI [of _ "gone @ [e]"])
  qed
next
  case (Race_Again r event)
  then show ?case
    by (auto simp: race_inv_def enqueue_Again_def xQueueSendToBack_def CALLBACK_QUEUE_LENGTH_def)
next
  case (Race_Take r event queue)
  then have q: "race_queue r = event # queue"
    by (auto simp: xQueueReceive_def split: list.splits)
  moreover obtain gone where "race_offered r = gone @ race_queue r @ in_flight (race_phase r)" "subseq (race_delivered r) gone"
    using Race_Take by (auto simp: race_inv_def)
  moreover from this have "subseq (race_delivered r @ [event]) (gone @ [event])"
    by (simp add: list_emb_append_mono)
  ultimately show ?case
    using Race_Take by (auto simp: race_inv_def intro!: exI [of _ "gone @ [event]"])
qed

text \<open>
  C16: however the checking and the delivering task interleave, the queue never exceeds its three
  places, holds exactly the events offered last (up to the one being sent), and the events delivered
  are some of the earlier ones in the order they were offered: nothing is delivered twice, reordered
  or lost except the oldest.
\<close>

theorem callback_race_order:
  assumes "callback_step\<^sup>*\<^sup>* race_start r"
  shows "length (race_queue r) \<le> 3
    \<and> (\<exists>gone. race_offered r = gone @ race_queue r @ in_flight (race_phase r) \<and> subseq (race_delivered r) gone)"
proof -
  have "race_inv race_start"
    by (simp add: race_inv_def race_start_def)
  with assms have "race_inv r"
    by (induction rule: rtranclp_induct) (simp_all add: race_inv_step)
  then show ?thesis
    by (simp add: race_inv_def)
qed

text \<open>Four events while the task is stuck: the first one goes, the last is still being sent.\<close>

definition sample_event :: "u32 \<Rightarrow> callback_event" where
  "sample_event n = \<lparr>le_sequence = n, le_timestampUnix = 0, le_elapsedMs = 0, le_detail = 0, le_httpStatus = 0,
     le_resourceIndex = 0, le_status = 1\<rparr>"

theorem callback_race_order_witness:
  "\<exists>gone. [sample_event 0, sample_event 1, sample_event 2, sample_event 3]
     = gone @ [sample_event 1, sample_event 2] @ in_flight (Enqueue_Resend (sample_event 3)) \<and> subseq [] gone"
proof -
  let ?e = sample_event
  let ?r = "enqueue_Drop (?e 3) (enqueue_First (?e 3) (enqueue_First (?e 2) (enqueue_First (?e 1) (enqueue_First (?e 0) race_start))))"
  have "callback_step race_start (enqueue_First (?e 0) race_start)"
    by (rule Race_First) (simp add: race_start_def)
  moreover have "callback_step (enqueue_First (?e 0) race_start) (enqueue_First (?e 1) (enqueue_First (?e 0) race_start))"
    by (rule Race_First) (simp add: race_start_def enqueue_First_def xQueueSendToBack_def CALLBACK_QUEUE_LENGTH_def)
  moreover have "callback_step (enqueue_First (?e 1) (enqueue_First (?e 0) race_start))
      (enqueue_First (?e 2) (enqueue_First (?e 1) (enqueue_First (?e 0) race_start)))"
    by (rule Race_First) (simp add: race_start_def enqueue_First_def xQueueSendToBack_def CALLBACK_QUEUE_LENGTH_def)
  moreover have "callback_step (enqueue_First (?e 2) (enqueue_First (?e 1) (enqueue_First (?e 0) race_start)))
      (enqueue_First (?e 3) (enqueue_First (?e 2) (enqueue_First (?e 1) (enqueue_First (?e 0) race_start))))"
    by (rule Race_First) (simp add: race_start_def enqueue_First_def xQueueSendToBack_def CALLBACK_QUEUE_LENGTH_def)
  moreover have "callback_step (enqueue_First (?e 3) (enqueue_First (?e 2) (enqueue_First (?e 1) (enqueue_First (?e 0) race_start)))) ?r"
    by (rule Race_Drop) (simp add: race_start_def enqueue_First_def xQueueSendToBack_def CALLBACK_QUEUE_LENGTH_def)
  ultimately have "callback_step\<^sup>*\<^sup>* race_start ?r"
    by (meson converse_rtranclp_into_rtranclp rtranclp.rtrancl_refl)
  from callback_race_order [OF this] show ?thesis
    by (simp add: race_start_def enqueue_First_def enqueue_Drop_def xQueueSendToBack_def xQueueReceive_def CALLBACK_QUEUE_LENGTH_def)
qed

section \<open>Every message fits\<close>

lemma decimal_length: "0 < k \<Longrightarrow> n < 10 ^ k \<Longrightarrow> length (decimal n) \<le> k"
proof (induction k arbitrary: n)
  case (Suc k)
  show ?case
  proof (cases "n < 10")
    case True
    then show ?thesis
      by (simp add: decimal.simps)
  next
    case False
    moreover have "n div 10 < 10 ^ k"
      using Suc.prems(2) by (simp add: less_mult_imp_div_less)
    moreover from this False have "0 < k"
      by (cases k) auto
    ultimately show ?thesis
      using Suc.IH [of "n div 10"] by (subst decimal.simps) simp
  qed
qed simp

lemma unat_bound: "unat (x :: 'a :: len word) < 2 ^ LENGTH('a)"
  by (rule unsigned_less)

lemma decimal_u32: "length (decimal (unat (x :: u32))) \<le> 10"
  using unat_bound [of x] by (intro decimal_length) simp_all

lemma decimal_u16: "length (decimal (unat (x :: u16))) \<le> 5"
  using unat_bound [of x] by (intro decimal_length) simp_all

lemma decimal_u8: "length (decimal (unat (x :: u8))) \<le> 3"
  by (rule decimal_length) (simp, rule less_trans [OF unat_bound], simp)

lemma decimal_i32: "length (decimal_int (sint (x :: u32))) \<le> 11"
proof -
  have "- 2147483648 \<le> sint x" "sint x < 2147483648"
    using sint_greater_eq [of x] sint_less [of x] by simp_all
  then have "nat (- sint x) < 10 ^ 10" and "nat (sint x) < 10 ^ 10"
    by simp_all
  then have "length (decimal (nat (- sint x))) \<le> 10" "length (decimal (nat (sint x))) \<le> 10"
    by (intro decimal_length; simp)+
  then show ?thesis
    by (simp add: decimal_int_def)
qed

lemmas number_lengths = decimal_u32 decimal_u16 decimal_u8 decimal_i32

lemma status_text_length: "length (callbackService_TransportStatusText s) \<le> 17"
  by (simp add: callbackService_TransportStatusText_def)

lemma callback_body_length: "0 < length (callback_body e) \<and> length (callback_body e) \<le> 176"
  using decimal_u32 [of "le_sequence e"] decimal_u32 [of "le_timestampUnix e"] decimal_u32 [of "le_elapsedMs e"]
    decimal_u16 [of "le_httpStatus e"] decimal_u8 [of "le_resourceIndex e"] decimal_i32 [of "le_detail e"]
    status_text_length [of "le_status e"]
  by (simp add: callback_body_def quoted_def)

lemma callback_query_length:
  "0 < length (callback_query path e) \<and> length (callback_query path e) \<le> length path + 155"
  using decimal_u32 [of "le_sequence e"] decimal_u32 [of "le_timestampUnix e"] decimal_u32 [of "le_elapsedMs e"]
    decimal_u16 [of "le_httpStatus e"] decimal_u8 [of "le_resourceIndex e"] decimal_i32 [of "le_detail e"]
    status_text_length [of "le_status e"]
  by (simp add: callback_query_def)

lemma callbackConfig_HostLoop_length: "callbackConfig_HostLoop s \<Longrightarrow> length (cstr s) < length s"
  by (induction s) (auto simp: cstr_def split: if_splits)

lemma callbackConfig_PathLoop_length: "callbackConfig_PathLoop s \<Longrightarrow> length (cstr s) < length s"
  by (induction s) (auto simp: cstr_def split: if_splits)

lemma callback_field_lengths:
  assumes "callbackConfig_FieldsValid c" and "wf_callback c"
  shows "length (cstr (cb_host c)) < 64" and "length (cstr (cb_path c)) < 80" and "0 < length (cstr (cb_host c))"
proof -
  show "length (cstr (cb_host c)) < 64" and "length (cstr (cb_path c)) < 80"
    using assms callbackConfig_HostLoop_length [of "cb_host c"] callbackConfig_PathLoop_length [of "cb_path c"]
    by (auto simp: callbackConfig_FieldsValid_def callbackConfig_HostValid_def callbackConfig_PathValid_def wf_callback_def
        CALLBACK_CONFIG_HOST_SIZE_def CALLBACK_CONFIG_PATH_SIZE_def split: if_splits)
  show "0 < length (cstr (cb_host c))"
    using assms by (cases "cb_host c") (auto simp: callbackConfig_FieldsValid_def callbackConfig_HostValid_def wf_callback_def cstr_def)
qed

lemma tlsTransport_HostHeader_fits:
  assumes "0 < length host" and "length host < 64"
  shows "\<exists>h. tlsTransport_HostHeader host port = Some h \<and> length h < 70
    \<and> h = (if port = 443 then host else host @ '':'' @ decimal (unat port))"
  using assms decimal_u16 [of port] by (auto simp: tlsTransport_HostHeader_def snprintf_def TLS_TRANSPORT_HOST_HEADER_SIZE_def)

lemma tlsTransport_RequestText_fits:
  assumes "length method \<le> 4" and "length resource < 256" and "length h < 70" and "length body < 192"
    and "body \<noteq> [] \<Longrightarrow> \<exists>t. contentType = Some t \<and> length t \<le> 16"
  shows "\<exists>text. tlsTransport_RequestText method resource h body contentType = Some text \<and> suffix body text"
proof -
  have "length (decimal (length body)) \<le> 3"
    using assms(4) by (intro decimal_length) simp_all
  then show ?thesis
    using assms by (auto simp: tlsTransport_RequestText_def snprintf_def TLS_TRANSPORT_REQUEST_SIZE_def Let_def suffix_def)
qed

lemma callback_message_built:
  assumes "callbackConfig_FieldsValid config" and "wf_callback config"
  shows "\<exists>m h request. callbackService_Message config event = Some m
    \<and> m = (if cb_method config = CALLBACK_METHOD_POST
           then \<lparr>cm_method = ''POST'', cm_resource = cstr (cb_path config), cm_body = callback_body event,
                  cm_contentType = Some ''application/json''\<rparr>
           else \<lparr>cm_method = ''GET'', cm_resource = callback_query (cstr (cb_path config)) event, cm_body = [], cm_contentType = None\<rparr>)
    \<and> tlsTransport_HostHeader (cstr (cb_host config)) (cb_port config) = Some h
    \<and> tlsTransport_RequestText (cm_method m) (cm_resource m) h (cm_body m) (cm_contentType m) = Some request
    \<and> suffix (cm_body m) request"
proof -
  note fields = callback_field_lengths [OF assms]
  define m where "m = (if cb_method config = CALLBACK_METHOD_POST
           then \<lparr>cm_method = ''POST'', cm_resource = cstr (cb_path config), cm_body = callback_body event,
                  cm_contentType = Some ''application/json''\<rparr>
           else \<lparr>cm_method = ''GET'', cm_resource = callback_query (cstr (cb_path config)) event, cm_body = [], cm_contentType = None\<rparr>)"
  obtain h where h: "tlsTransport_HostHeader (cstr (cb_host config)) (cb_port config) = Some h" "length h < 70"
    using tlsTransport_HostHeader_fits [OF fields(3,1)] by blast
  have message: "callbackService_Message config event = Some m"
    using callback_body_length [of event] callback_query_length [of "cstr (cb_path config)" event] fields(2)
    by (simp add: callbackService_Message_def m_def snprintf_def CALLBACK_BODY_SIZE_def CALLBACK_RESOURCE_SIZE_def)
  have "length (cm_resource m) < 256" "length (cm_body m) < 192" "length (cm_method m) \<le> 4"
      "cm_body m \<noteq> [] \<Longrightarrow> \<exists>t. cm_contentType m = Some t \<and> length t \<le> 16"
    using callback_body_length [of event] callback_query_length [of "cstr (cb_path config)" event] fields(2)
    by (simp_all add: m_def split: if_splits)
  with h(2) obtain request where "tlsTransport_RequestText (cm_method m) (cm_resource m) h (cm_body m) (cm_contentType m) = Some request"
      "suffix (cm_body m) request"
    using tlsTransport_RequestText_fits [of "cm_method m" "cm_resource m" h "cm_body m" "cm_contentType m"] by blast
  with message h(1) show ?thesis
    unfolding m_def [symmetric] by blast
qed

text \<open>
  C25: for every configuration the validation accepts and every event, the buffers for the body, the
  resource and the request are large enough: the message is built, carries the whole report, and the
  request the transport sends ends with the body.
\<close>

theorem callback_message_fits:
  assumes "callbackConfig_FieldsValid config" and "wf_callback config"
  shows "length (callback_body event) < CALLBACK_BODY_SIZE
    \<and> length (callback_query (cstr (cb_path config)) event) < CALLBACK_RESOURCE_SIZE
    \<and> (\<exists>m h request. callbackService_Message config event = Some m
         \<and> tlsTransport_HostHeader (cstr (cb_host config)) (cb_port config) = Some h
         \<and> tlsTransport_RequestText (cm_method m) (cm_resource m) h (cm_body m) (cm_contentType m) = Some request
         \<and> suffix (cm_body m) request)"
  using callback_body_length [of event] callback_query_length [of "cstr (cb_path config)" event]
    callback_field_lengths(2) [OF assms] callback_message_built [OF assms, of event]
  by (auto simp: CALLBACK_BODY_SIZE_def CALLBACK_RESOURCE_SIZE_def)

theorem callback_message_fits_witness:
  "\<exists>m. callbackService_Message (cs_config default_cb_snapshot) (sample_event 7) = Some m"
proof -
  have "callbackConfig_FieldsValid (cs_config default_cb_snapshot)" "wf_callback (cs_config default_cb_snapshot)"
    by code_simp+
  then show ?thesis
    using callback_message_fits [of "cs_config default_cb_snapshot" "sample_event 7"] by auto
qed

section \<open>Delivery\<close>

text \<open>A destination that resolves, accepts the connection, verifies and takes what is written.\<close>

definition peer_reachable :: "tls_peer \<Rightarrow> trust_store \<Rightarrow> u8 \<Rightarrow> bool" where
  "peer_reachable p ts anchor \<longleftrightarrow> pr_seed p = 0 \<and> fst (TlsTrustStore_Parse (pr_mbedtls p) ts anchor) = TLS_TRUST_STORE_STATUS_OK
     \<and> pr_configDefaults p = 0 \<and> pr_setup p = 0 \<and> pr_setHostname p = 0 \<and> 0 \<le> fst (tlsTransport_Connect p)
     \<and> pr_handshake p = 0 \<and> pr_verify p = 0 \<and> ssl_writes (pr_session p) = []"

lemma tlsTransport_ReadLine_out: "tlsTransport_ReadLine ssl line = (r, ssl') \<Longrightarrow> ssl_out ssl' = ssl_out ssl"
proof (induction ssl line arbitrary: r ssl' rule: tlsTransport_ReadLine.induct)
  case (1 ssl line)
  obtain x ssl1 where read: "mbedtls_ssl_read ssl 1 = (x, ssl1)"
    by (metis prod.exhaust)
  then have "ssl_out ssl1 = ssl_out ssl"
    by (auto simp: mbedtls_ssl_read_def split: list.splits ssl_read.splits if_splits)
  then show ?case
    using "1.prems" "1.IH" [OF _ read [symmetric]] unfolding tlsTransport_ReadLine.simps [of ssl line] read
    by (cases x) (auto simp: Let_def split: if_splits)
qed

lemma tlsTransport_ReadStatus_out: "ssl_out (snd (tlsTransport_ReadStatus ssl)) = ssl_out ssl"
  using tlsTransport_ReadLine_out [of ssl "[]"]
  by (auto simp: tlsTransport_ReadStatus_def split: prod.split sum.split option.split)

lemma tlsTransport_Converse_sends:
  assumes "ssl_writes (pr_session p) = []" and "tlsTransport_HostHeader host port = Some h"
    and "tlsTransport_RequestText method resource h body contentType = Some request"
  shows "ssl_out (snd (snd (tlsTransport_Converse p r method host port resource body contentType))) = ssl_out (pr_session p) @ request"
proof -
  obtain ssl1 where w: "tlsTransport_WriteAll (pr_session p) request = (0, ssl1)" "ssl_out ssl1 = ssl_out (pr_session p) @ request"
    using tlsTransport_WriteAll_open [OF assms(1), of request] by simp
  show ?thesis
    using tlsTransport_ReadStatus_out [of ssl1] w(2)
    unfolding tlsTransport_Converse_def Let_def assms(2,3) option.case w(1) prod.case
    by (auto split: prod.split sum.split)
qed

lemma TlsTransport_Request_sends:
  assumes "peer_reachable p ts anchor" and "cryptoMutex tls \<noteq> None"
    and "method = ''HEAD'' \<or> method = ''GET'' \<or> method = ''POST''"
    and "tlsTransport_HostHeader host port = Some h" and "tlsTransport_RequestText method resource h body contentType = Some request"
    and "TlsTransport_Request p tls ts method host port resource anchor body contentType = (status, result, tls', ts', ssl, events)"
  shows "ssl_out ssl = ssl_out (pr_session p) @ request"
proof -
  obtain tls1 where lock: "TlsPlatform_Lock tls = (PLATFORM_STATUS_OK, tls1)"
    using assms(2) by (auto simp: TlsPlatform_Lock_def)
  obtain der ts1 where parse: "TlsTrustStore_Parse (pr_mbedtls p) ts anchor = (TLS_TRUST_STORE_STATUS_OK, der, ts1)"
    using assms(1) by (metis peer_reachable_def prod.collapse)
  obtain fd st detail es where connect: "tlsTransport_Connect p = (fd, st, detail, es)" "0 \<le> fd"
    using assms(1) by (metis fst_conv peer_reachable_def prod_cases4)
  let ?r = "zero_result\<lparr>tr_status := TLS_TRANSPORT_CONFIG_ERROR, tr_status := st\<rparr>"
  obtain r' d' ssl' where talk: "tlsTransport_Converse p ?r method host port resource body contentType = (r', d', ssl')"
    by (metis prod_cases3)
  have "ssl_out ssl' = ssl_out (pr_session p) @ request"
    using tlsTransport_Converse_sends [OF _ assms(4,5), of p ?r] assms(1) talk by (simp add: peer_reachable_def)
  moreover have "ssl = ssl'"
    using assms(1,3,6) lock parse connect talk
    by (auto simp: TlsTransport_Request_def tlsTransport_Attempt_def peer_reachable_def Let_def)
  ultimately show ?thesis
    by simp
qed

text \<open>One pass takes the oldest event and writes exactly the request that carries it.\<close>

lemma callback_pass_delivers:
  assumes "callbackQueue st = Some (event # queue)" and "callbackConfigMutex cb = Sem_Free"
    and "config = cs_config (cb_snapshot cb)" and "cb_enabled config \<noteq> 0"
    and "callbackConfig_FieldsValid config" and "wf_callback config"
    and "peer_reachable p ts (cb_trustAnchorId config)" and "cryptoMutex tls \<noteq> None"
    and "callbackService_Task p st cb tls ts = (st', cb', tls', ts', outcome)"
  shows "callbackQueue st' = Some queue \<and> cb' = cb \<and> tls' = tls
    \<and> (\<exists>m h request result ssl. outcome = Some (m, Some result, ssl) \<and> callbackService_Message config event = Some m
         \<and> tlsTransport_HostHeader (cstr (cb_host config)) (cb_port config) = Some h
         \<and> tlsTransport_RequestText (cm_method m) (cm_resource m) h (cm_body m) (cm_contentType m) = Some request
         \<and> ssl_out ssl = ssl_out (pr_session p) @ request)"
proof -
  obtain m h request where m: "callbackService_Message config event = Some m"
    and h: "tlsTransport_HostHeader (cstr (cb_host config)) (cb_port config) = Some h"
    and request: "tlsTransport_RequestText (cm_method m) (cm_resource m) h (cm_body m) (cm_contentType m) = Some request"
    and verb: "cm_method m = ''HEAD'' \<or> cm_method m = ''GET'' \<or> cm_method m = ''POST''"
    using callback_message_built [OF assms(5,6), of event] by (auto split: if_splits)
  obtain s r tls1 ts1 ssl es where run: "TlsTransport_Request p tls ts (cm_method m) (cstr (cb_host config)) (cb_port config)
      (cm_resource m) (cb_trustAnchorId config) (cm_body m) (cm_contentType m) = (s, r, tls1, ts1, ssl, es)"
    by (metis prod_cases6)
  have "CallbackConfig_Get cb = (config, cb)"
    using assms(2,3) by (simp add: CallbackConfig_Get_def)
  then have task: "(st', cb', tls', ts', outcome) = (st\<lparr>callbackQueue := Some queue\<rparr>, cb, tls1, ts1, Some (m, r, ssl))"
    using assms(1,4,9) m run by (simp add: callbackService_Task_def xQueueReceive_def)
  moreover have "tls1 = tls" "\<exists>result. r = Some result"
    using tlsTransport_Request_lock [OF verb assms(8) run] by auto
  moreover have "ssl_out ssl = ssl_out (pr_session p) @ request"
    using TlsTransport_Request_sends [OF assms(7,8) verb h request run] .
  ultimately show ?thesis
    using m h request by auto
qed

definition enabled_cb :: callback_config where
  "enabled_cb = \<lparr>cb_snapshot = default_cb_snapshot\<lparr>cs_config := (cs_config default_cb_snapshot)\<lparr>cb_enabled := 1\<rparr>\<rparr>,
     cb_activeAddress = 0, callbackConfigMutex = Sem_Free\<rparr>"

lemma sample_peer_reachable: "peer_reachable sample_peer small_trust_store 0"
  by (simp add: peer_reachable_def sample_peer_def tlsTransport_Connect_def TlsTrustStore_Parse_def small_trust_store_def
      toy_trust_mbedtls_def Let_def)

lemma enabled_cb_valid:
  "cb_enabled (cs_config (cb_snapshot enabled_cb)) \<noteq> 0" "callbackConfig_FieldsValid (cs_config (cb_snapshot enabled_cb))"
  "wf_callback (cs_config (cb_snapshot enabled_cb))" "cb_trustAnchorId (cs_config (cb_snapshot enabled_cb)) = 0"
  "callbackConfigMutex enabled_cb = Sem_Free"
  by code_simp+

end
