(* ===== verification/Health_Check_Service.thy ===== *)
theory Health_Check_Service
  imports Callback_Service Buzzer_Service
begin

text \<open>
  The periodic checks \<^verbatim>\<open>Srv/Src/health_check_service.c\<close>: the hourly certificate warning, the check of one
  resource (request, warning, alert, log, callback) and one pass of the task over the configured
  resources. The services it drives are the components of \<open>health_world\<close>; what the network and the
  clock do during a check is its \<open>check_env\<close>.
\<close>

section \<open>State\<close>

record health_check_service =
  certificateWarningExpiry :: "u32 list"
  certificateWarningTime :: "u32 list"

record health_world =
  hw_service :: health_check_service
  hw_config :: health_check_config
  hw_buzzer :: buzzer_service
  hw_log :: health_check_log
  hw_flash :: w25q64
  hw_callbacks :: callback_service
  hw_tls :: tls_platform
  hw_trust :: trust_store

record check_env =
  ck_peer :: tls_peer
  ck_clock :: rtc
  ck_logClock :: rtc

definition HEALTH_CHECK_WAIT_MS :: nat where "HEALTH_CHECK_WAIT_MS = 1000"
definition HEALTH_CHECK_OK_STATUS :: u16 where "HEALTH_CHECK_OK_STATUS = 200"
definition CERTIFICATE_WARNING_WINDOW_SECONDS :: u32 where "CERTIFICATE_WARNING_WINDOW_SECONDS = 10 * 24 * 60 * 60"
definition CERTIFICATE_WARNING_PERIOD_SECONDS :: u32 where "CERTIFICATE_WARNING_PERIOD_SECONDS = 60 * 60"

lemmas warning_constants = CERTIFICATE_WARNING_WINDOW_SECONDS_def CERTIFICATE_WARNING_PERIOD_SECONDS_def

section \<open>Operations\<close>

text \<open>\<open>reading\<close> is what \<open>Rtc_GetUnixTime\<close> delivered, if it succeeded.\<close>

definition healthCheckService_CheckCertificateExpiry ::
  "u32 option \<Rightarrow> u8 \<Rightarrow> u32 \<Rightarrow> health_check_service \<Rightarrow> buzzer_service \<Rightarrow> health_check_service \<times> buzzer_service" where
  "healthCheckService_CheckCertificateExpiry reading resourceIndex certificateExpiry st bz =
     (if certificateExpiry = 0 then (st, bz)
      else case reading of
        None \<Rightarrow> (st, bz)
      | Some now \<Rightarrow>
          let i = unat resourceIndex;
              st1 = (if certificateWarningExpiry st ! i \<noteq> certificateExpiry
                     then st\<lparr>certificateWarningExpiry := (certificateWarningExpiry st)[i := certificateExpiry],
                            certificateWarningTime := (certificateWarningTime st)[i := 0]\<rparr>
                     else st);
              warningWindow = (certificateExpiry \<le> now \<or> certificateExpiry - now \<le> CERTIFICATE_WARNING_WINDOW_SECONDS);
              previousWarning = certificateWarningTime st1 ! i
          in if \<not> warningWindow then (st1, bz)
             else if previousWarning \<noteq> 0 \<and> now - previousWarning < CERTIFICATE_WARNING_PERIOD_SECONDS then (st1, bz)
             else case BuzzerService_CertificateExpiryWarning resourceIndex bz of
               (s, bz') \<Rightarrow>
                 (if s = SUCCESS then st1\<lparr>certificateWarningTime := (certificateWarningTime st1)[i := now]\<rparr> else st1, bz'))"

definition resource_healthy :: "TlsTransport_ResultTypeDef \<Rightarrow> bool" where
  "resource_healthy result \<longleftrightarrow> tr_status result = TLS_TRANSPORT_OK \<and> tr_httpStatus result = HEALTH_CHECK_OK_STATUS"

text \<open>A request with the method HEAD always writes its result, so the case without one does not arise.\<close>

definition healthCheckService_CheckResource ::
  "check_env \<Rightarrow> u8 \<Rightarrow> HealthCheckConfig_ResourceTypeDef \<Rightarrow> health_world \<Rightarrow> health_world" where
  "healthCheckService_CheckResource env index resource w =
     (case TlsTransport_Head (ck_peer env) (hw_tls w) (hw_trust w) (cstr (hr_host resource)) (hr_port resource)
             (cstr (hr_path resource)) (hr_trustAnchorId resource) of
        (_, outcome, tls, ts, _, _) \<Rightarrow>
          let w1 = w\<lparr>hw_tls := tls, hw_trust := ts\<rparr>
          in case outcome of
               None \<Rightarrow> w1
             | Some result \<Rightarrow>
                 (case healthCheckService_CheckCertificateExpiry (Rtc_GetUnixTime (ck_clock env)) index
                         (tr_certificateNotAfterUnix result) (hw_service w1) (hw_buzzer w1) of
                    (st, bz) \<Rightarrow>
                      let resourceHealthy = resource_healthy result;
                          bz' = (if \<not> resourceHealthy then snd (BuzzerService_Alert bz) else bz)
                      in case HealthCheckLog_Append (hw_log w1) (hw_flash w1) (Rtc_GetUnixTime (ck_logClock env)) index result of
                           (logStatus, logEntry, log, f) \<Rightarrow>
                             w1\<lparr>hw_service := st, hw_buzzer := bz', hw_log := log, hw_flash := f,
                               hw_callbacks :=
                                 (if logStatus \<noteq> PLATFORM_STATUS_OK then hw_callbacks w1
                                  else if \<not> resourceHealthy
                                  then (case logEntry of
                                          None \<Rightarrow> hw_callbacks w1
                                        | Some entry \<Rightarrow> CallbackService_Enqueue entry (hw_callbacks w1))
                                  else hw_callbacks w1)\<rparr>))"

fun healthCheckService_CheckLoop ::
  "(nat \<Rightarrow> check_env) \<Rightarrow> HealthCheckConfig_ResourceTypeDef list \<Rightarrow> nat list \<Rightarrow> health_world \<Rightarrow> health_world" where
  "healthCheckService_CheckLoop envs resources [] w = w"
| "healthCheckService_CheckLoop envs resources (index # rest) w =
     (if hr_occupied (resources ! index) = 0 \<or> hr_enabled (resources ! index) = 0
      then healthCheckService_CheckLoop envs resources rest w
      else healthCheckService_CheckLoop envs resources rest
             (healthCheckService_CheckResource (envs index) (of_nat index) (resources ! index) w))"

text \<open>
  One pass: the delay in milliseconds and the world. \<open>garbage\<close> is what the array on the stack holds when
  the configuration could not be copied.
\<close>

definition healthCheckService_Task ::
  "bool \<Rightarrow> rtc \<Rightarrow> (nat \<Rightarrow> check_env) \<Rightarrow> HealthCheckConfig_ResourceTypeDef list \<Rightarrow> health_world \<Rightarrow> nat \<times> health_world" where
  "healthCheckService_Task lwipReady clock envs garbage w =
     (if \<not> lwipReady \<or> \<not> Rtc_IsSynchronized clock then (HEALTH_CHECK_WAIT_MS, w)
      else case HealthCheckConfig_GetResources (hw_config w) of
        (copied, cfg) \<Rightarrow>
          let resources = (case copied of Some rs \<Rightarrow> rs | None \<Rightarrow> garbage);
              w1 = healthCheckService_CheckLoop envs resources [0..<HEALTH_CHECK_CONFIG_MAX_RESOURCES] (w\<lparr>hw_config := cfg\<rparr>)
          in case HealthCheckConfig_GetPeriodSeconds (hw_config w1) of
               (periodSeconds, cfg') \<Rightarrow> (unat (periodSeconds * 1000), w1\<lparr>hw_config := cfg'\<rparr>))"

definition HealthCheckService_Init :: "bool \<Rightarrow> ErrorStatus" where
  "HealthCheckService_Init taskCreated = (if taskCreated then SUCCESS else ERROR)"

section \<open>What a check reports\<close>

lemma HealthCheckLog_Append_entry:
  assumes "HealthCheckLog_Append st f now i r = (PLATFORM_STATUS_OK, e, st', f')"
  shows "\<exists>n. e = Some (entry_of (log_new_record n now i r))"
  using assms
  by (auto simp: HealthCheckLog_Append_def Let_def split: option.splits prod.splits if_splits)

lemma healthCheckService_CheckCertificateExpiry_buzzer:
  assumes "healthCheckService_CheckCertificateExpiry now i expiry st bz = (st', bz')"
  shows "buzzerTask bz' = buzzerTask bz \<and> alertRequested bz' = alertRequested bz"
  using assms
  by (auto simp: healthCheckService_CheckCertificateExpiry_def BuzzerService_CertificateExpiryWarning_def xTaskNotifyGive_def
      buzzer_CertificateFlag_def Let_def split: option.splits if_splits)

lemma healthCheckService_CheckResource_effect:
  assumes "cryptoMutex (hw_tls w) \<noteq> None"
    and "TlsTransport_Head (ck_peer env) (hw_tls w) (hw_trust w) (cstr (hr_host resource)) (hr_port resource)
           (cstr (hr_path resource)) (hr_trustAnchorId resource) = (status, Some r, tls, ts, ssl, events)"
    and "HealthCheckLog_Append (hw_log w) (hw_flash w) (Rtc_GetUnixTime (ck_logClock env)) index r = (s, e, log, f)"
    and "w' = healthCheckService_CheckResource env index resource w"
  shows "hw_tls w' = hw_tls w \<and> hw_trust w' = ts \<and> hw_config w' = hw_config w \<and> hw_log w' = log \<and> hw_flash w' = f
    \<and> hw_callbacks w' = (if s = PLATFORM_STATUS_OK \<and> \<not> resource_healthy r then CallbackService_Enqueue (the e) (hw_callbacks w) else hw_callbacks w)
    \<and> (\<exists>bz. buzzerTask bz = buzzerTask (hw_buzzer w) \<and> alertRequested bz = alertRequested (hw_buzzer w)
         \<and> hw_buzzer w' = (if resource_healthy r then bz else snd (BuzzerService_Alert bz)))"
proof -
  obtain st bz where c: "healthCheckService_CheckCertificateExpiry (Rtc_GetUnixTime (ck_clock env)) index
      (tr_certificateNotAfterUnix r) (hw_service w) (hw_buzzer w) = (st, bz)"
    by (metis prod.exhaust)
  have "tls = hw_tls w"
    using tlsTransport_Request_lock [OF _ assms(1)] assms(2) unfolding TlsTransport_Head_def by blast
  moreover have "s = PLATFORM_STATUS_OK \<Longrightarrow> \<exists>entry. e = Some entry"
    using HealthCheckLog_Append_entry assms(3) by blast
  ultimately show ?thesis
    using assms(3,4) c healthCheckService_CheckCertificateExpiry_buzzer [OF c]
    unfolding healthCheckService_CheckResource_def assms(2) by (auto simp: Let_def)
qed

text \<open>
  C5: a check that does not end with a verified connection and HTTP 200 always raises the acoustic
  alert, is appended to the log, and, once logged, is the newest event of the callback queue (the
  oldest gives way when the queue is full); a healthy check is logged and raises neither.
\<close>

theorem failed_check_reported:
  assumes "cryptoMutex (hw_tls w) \<noteq> None" and "buzzerTask (hw_buzzer w)"
    and "callbackQueue (hw_callbacks w) = Some queue" and "length queue \<le> 3"
    and "TlsTransport_Head (ck_peer env) (hw_tls w) (hw_trust w) (cstr (hr_host resource)) (hr_port resource)
           (cstr (hr_path resource)) (hr_trustAnchorId resource) = (status, Some r, tls, ts, ssl, events)"
    and "HealthCheckLog_Append (hw_log w) (hw_flash w) (Rtc_GetUnixTime (ck_logClock env)) index r = (s, e, log, f)"
    and "w' = healthCheckService_CheckResource env index resource w"
  shows "hw_log w' = log \<and> hw_flash w' = f
    \<and> (if tr_status r = TLS_TRANSPORT_OK \<and> tr_httpStatus r = 200
        then alertRequested (hw_buzzer w') = alertRequested (hw_buzzer w) \<and> hw_callbacks w' = hw_callbacks w
        else alertRequested (hw_buzzer w') \<and> 0 < bz_notified (hw_buzzer w')
          \<and> (s \<noteq> PLATFORM_STATUS_OK \<longrightarrow> hw_callbacks w' = hw_callbacks w)
          \<and> (s = PLATFORM_STATUS_OK \<longrightarrow> (\<exists>entry. e = Some entry \<and> le_resourceIndex entry = index
               \<and> le_status entry = tls_status_code (tr_status r) \<and> le_httpStatus entry = tr_httpStatus r \<and> le_detail entry = tr_detail r
               \<and> callbackQueue (hw_callbacks w') = Some (if length queue < 3 then queue @ [entry] else tl queue @ [entry]))))"
proof -
  note effect = healthCheckService_CheckResource_effect [OF assms(1,5,6,7)]
  have healthy: "resource_healthy r \<longleftrightarrow> tr_status r = TLS_TRANSPORT_OK \<and> tr_httpStatus r = 200"
    by (simp add: resource_healthy_def HEALTH_CHECK_OK_STATUS_def)
  have entry: "\<exists>n. e = Some (entry_of (log_new_record n (Rtc_GetUnixTime (ck_logClock env)) index r))" if "s = PLATFORM_STATUS_OK"
    using HealthCheckLog_Append_entry assms(6) that by blast
  have queue: "callbackQueue (CallbackService_Enqueue x (hw_callbacks w)) = Some (if length queue < 3 then queue @ [x] else tl queue @ [x])" for x
    using callbacks.overwrite_items [of queue x] assms(3,4) by (simp add: CallbackService_Enqueue_overwrite CALLBACK_QUEUE_LENGTH_def)
  have alert: "alertRequested (snd (BuzzerService_Alert bz)) \<and> 0 < bz_notified (snd (BuzzerService_Alert bz))"
    if "buzzerTask bz" for bz
    using that by (simp add: BuzzerService_Alert_def xTaskNotifyGive_def buzzer_AlertFlag_def)
  show ?thesis
  proof (cases "resource_healthy r")
    case True
    then show ?thesis
      using effect healthy by auto
  next
    case False
    then show ?thesis
      using effect healthy entry queue alert assms(2)
      by (auto simp: entry_of_def log_new_record_def Let_def)
  qed
qed

section \<open>Certificate warnings\<close>

definition in_window :: "u32 \<Rightarrow> u32 \<Rightarrow> bool" where
  "in_window expiry now \<longleftrightarrow> unat expiry \<le> unat now + 864000"

definition last_warning :: "nat \<Rightarrow> u32 \<Rightarrow> health_check_service \<Rightarrow> u32 option" where
  "last_warning i expiry st =
     (if certificateWarningExpiry st ! i = expiry \<and> certificateWarningTime st ! i \<noteq> 0 then Some (certificateWarningTime st ! i) else None)"

definition wf_warnings :: "health_check_service \<Rightarrow> bool" where
  "wf_warnings st \<longleftrightarrow> length (certificateWarningExpiry st) = 3 \<and> length (certificateWarningTime st) = 3"

definition warning_due :: "u32 \<Rightarrow> u32 \<Rightarrow> u32 option \<Rightarrow> bool" where
  "warning_due expiry now previous \<longleftrightarrow> in_window expiry now
     \<and> (case previous of None \<Rightarrow> True | Some t \<Rightarrow> \<not> now - t < CERTIFICATE_WARNING_PERIOD_SECONDS)"

lemma window_iff: "expiry \<le> now \<or> expiry - now \<le> CERTIFICATE_WARNING_WINDOW_SECONDS \<longleftrightarrow> in_window expiry now"
proof (cases "expiry \<le> now")
  case False
  then have "unat (expiry - now) = unat expiry - unat now"
    by (simp add: unat_sub)
  with False show ?thesis
    by (auto simp: in_window_def word_le_nat_alt warning_constants)
qed (auto simp: in_window_def word_le_nat_alt)

lemma healthCheckService_CheckCertificateExpiry_step:
  assumes "healthCheckService_CheckCertificateExpiry (Some now) i expiry st bz = (st', bz')"
    and "expiry \<noteq> 0" and "now \<noteq> 0" and "unat i < 3" and "wf_warnings st" and "buzzerTask bz"
  shows "wf_warnings st' \<and> bz_notified bz' = (if warning_due expiry now (last_warning (unat i) expiry st) then Suc (bz_notified bz) else bz_notified bz)
    \<and> last_warning (unat i) expiry st' = (if warning_due expiry now (last_warning (unat i) expiry st) then Some now
        else last_warning (unat i) expiry st)"
  using assms unfolding healthCheckService_CheckCertificateExpiry_def Let_def window_iff
  by (auto simp: warning_due_def last_warning_def wf_warnings_def BuzzerService_CertificateExpiryWarning_def xTaskNotifyGive_def
      buzzer_CertificateFlag_def HEALTH_CHECK_CONFIG_MAX_RESOURCES_def split: if_splits)

text \<open>
  The times at which checks of one resource raised a warning; the buzzer may be in any state at each
  check, since its own task runs in between.
\<close>

fun warning_times :: "u8 \<Rightarrow> u32 \<Rightarrow> (u32 \<times> buzzer_service) list \<Rightarrow> health_check_service \<Rightarrow> u32 list" where
  "warning_times i expiry [] st = []"
| "warning_times i expiry ((now, bz) # checks) st =
     (case healthCheckService_CheckCertificateExpiry (Some now) i expiry st bz of
        (st', bz') \<Rightarrow> (if bz_notified bz' = bz_notified bz then [] else [now]) @ warning_times i expiry checks st')"

definition spaced :: "u32 list \<Rightarrow> bool" where
  "spaced ts \<longleftrightarrow> sorted_wrt (\<lambda>a b. unat a + 3600 \<le> unat b) ts"

lemma warning_times_spaced:
  assumes "expiry \<noteq> 0" and "unat i < 3" and "wf_warnings st" and "sorted (map fst checks)"
    and "\<forall>(now, bz)\<in>set checks. now \<noteq> 0 \<and> buzzerTask bz"
    and "\<forall>t. last_warning (unat i) expiry st = Some t \<longrightarrow> (\<forall>(now, bz)\<in>set checks. t \<le> now)"
  shows "spaced ((case last_warning (unat i) expiry st of None \<Rightarrow> [] | Some t \<Rightarrow> [t]) @ warning_times i expiry checks st)
    \<and> set (warning_times i expiry checks st) \<subseteq> {now \<in> fst ` set checks. in_window expiry now}
    \<and> (\<forall>now\<in>fst ` set checks. in_window expiry now \<longrightarrow>
         (\<exists>t\<in>set ((case last_warning (unat i) expiry st of None \<Rightarrow> [] | Some t \<Rightarrow> [t]) @ warning_times i expiry checks st).
            t \<le> now \<and> unat now < unat t + 3600))"
  using assms
proof (induction i expiry checks st rule: warning_times.induct)
  case (1 i expiry st)
  then show ?case
    by (auto simp: spaced_def split: option.split)
next
  case (2 i expiry now bz checks st)
  obtain st' bz' where step: "healthCheckService_CheckCertificateExpiry (Some now) i expiry st bz = (st', bz')"
    by (metis prod.exhaust)
  let ?l = "last_warning (unat i) expiry"
  note s = healthCheckService_CheckCertificateExpiry_step [OF step]
  have s': "wf_warnings st'" "bz_notified bz' = (if warning_due expiry now (?l st) then Suc (bz_notified bz) else bz_notified bz)"
      "?l st' = (if warning_due expiry now (?l st) then Some now else ?l st)"
    using s 2 by auto
  have later: "\<forall>(n, b)\<in>set checks. now \<le> n"
    using "2.prems"(4) by auto
  have order: "\<forall>t. ?l st' = Some t \<longrightarrow> (\<forall>(n, b)\<in>set checks. t \<le> n)"
    using s'(3) later "2.prems"(6) by (auto split: if_splits)
  have IH: "spaced ((case ?l st' of None \<Rightarrow> [] | Some t \<Rightarrow> [t]) @ warning_times i expiry checks st')"
      "set (warning_times i expiry checks st') \<subseteq> {n \<in> fst ` set checks. in_window expiry n}"
      "\<forall>n\<in>fst ` set checks. in_window expiry n \<longrightarrow>
         (\<exists>t\<in>set ((case ?l st' of None \<Rightarrow> [] | Some t \<Rightarrow> [t]) @ warning_times i expiry checks st'). t \<le> n \<and> unat n < unat t + 3600)"
    using "2.IH" [OF step [symmetric] "2.prems"(1,2) s'(1) _ _ order] "2.prems"(4,5) by auto
  have gap: "now - t < CERTIFICATE_WARNING_PERIOD_SECONDS \<longleftrightarrow> unat now < unat t + 3600" "t \<le> now" if "?l st = Some t" for t
  proof -
    show "t \<le> now"
      using "2.prems"(6) that by auto
    then show "now - t < CERTIFICATE_WARNING_PERIOD_SECONDS \<longleftrightarrow> unat now < unat t + 3600"
      by (auto simp: word_less_nat_alt unat_sub warning_constants word_le_nat_alt)
  qed
  show ?case
  proof (cases "warning_due expiry now (?l st)")
    case True
    then have times: "warning_times i expiry ((now, bz) # checks) st = now # warning_times i expiry checks st'"
      using s'(2) step by simp
    have "spaced ((case ?l st of None \<Rightarrow> [] | Some t \<Rightarrow> [t]) @ now # warning_times i expiry checks st')"
      using IH(1) s'(3) True gap by (fastforce simp: spaced_def warning_due_def split: option.split)
    then show ?thesis
      using True IH(2,3) s'(3) unfolding times by (auto simp: warning_due_def)
  next
    case False
    then have times: "warning_times i expiry ((now, bz) # checks) st = warning_times i expiry checks st'"
      using s'(2) step by simp
    have "\<exists>t. ?l st = Some t \<and> t \<le> now \<and> unat now < unat t + 3600" if "in_window expiry now"
      using that False gap by (auto simp: warning_due_def split: option.splits)
    then show ?thesis
      using False IH s'(3) unfolding times by fastforce
  qed
qed

text \<open>
  C23: for one resource slot whose checks all see a certificate with the same expiry date, and a
  synchronised clock that does not run backwards, the warnings of this slot are at least an hour apart,
  are raised only when the certificate has expired or expires within ten days, and every check in that
  window finds a warning less than an hour old. Two slots warn independently of each other.
\<close>

theorem certificate_warning_hourly:
  assumes "expiry \<noteq> 0" and "unat i < 3" and "wf_warnings st" and "certificateWarningExpiry st ! unat i \<noteq> expiry"
    and "sorted (map fst checks)" and "\<forall>(now, bz)\<in>set checks. now \<noteq> 0 \<and> buzzerTask bz"
  shows "sorted_wrt (\<lambda>a b. unat a + 3600 \<le> unat b) (warning_times i expiry checks st)
    \<and> (\<forall>t\<in>set (warning_times i expiry checks st). unat expiry \<le> unat t + 10 * 24 * 60 * 60)
    \<and> (\<forall>now\<in>fst ` set checks. unat expiry \<le> unat now + 10 * 24 * 60 * 60 \<longrightarrow>
         (\<exists>t\<in>set (warning_times i expiry checks st). t \<le> now \<and> unat now < unat t + 3600))"
proof -
  have "last_warning (unat i) expiry st = None"
    using assms(4) by (simp add: last_warning_def)
  then show ?thesis
    using warning_times_spaced [OF assms(1,2,3,5,6)] by (auto simp: spaced_def in_window_def)
qed

text \<open>A certificate that expires at 1000000, checked at three times; the second check is too early to warn again.\<close>

definition ringing_buzzer :: buzzer_service where
  "ringing_buzzer = snd (BuzzerService_Init True True True silent_buzzer)"

definition quiet_service :: health_check_service where
  "quiet_service = \<lparr>certificateWarningExpiry = [0, 0, 0], certificateWarningTime = [0, 0, 0]\<rparr>"

theorem certificate_warning_hourly_witness:
  "warning_times 0 1000000 [(200000, ringing_buzzer), (200060, ringing_buzzer), (203600, ringing_buzzer)] quiet_service = [200000, 203600]
   \<and> (\<exists>t\<in>{200000, 203600}. t \<le> 200060 \<and> unat (200060 :: u32) < unat (t :: u32) + 3600)"
proof -
  let ?checks = "[(200000 :: u32, ringing_buzzer), (200060, ringing_buzzer), (203600, ringing_buzzer)]"
  have run: "warning_times 0 1000000 ?checks quiet_service = [200000, 203600]"
    by (simp add: healthCheckService_CheckCertificateExpiry_def quiet_service_def ringing_buzzer_def BuzzerService_Init_def silent_buzzer_def
        BuzzerService_CertificateExpiryWarning_def xTaskNotifyGive_def buzzer_CertificateFlag_def HEALTH_CHECK_CONFIG_MAX_RESOURCES_def
        warning_constants Let_def)
  have "wf_warnings quiet_service" "certificateWarningExpiry quiet_service ! unat (0 :: u8) \<noteq> 1000000" "buzzerTask ringing_buzzer"
    by (simp_all add: wf_warnings_def quiet_service_def ringing_buzzer_def BuzzerService_Init_def)
  then show ?thesis
    using certificate_warning_hourly [of 1000000 0 quiet_service ?checks] run by (simp add: list.set)
qed

text \<open>A resource whose name does not resolve.\<close>

definition failing_env :: check_env where
  "failing_env = \<lparr>ck_peer = sample_peer\<lparr>pr_getaddrinfo := 202\<rparr>, ck_clock = fresh_rtc, ck_logClock = fresh_rtc\<rparr>"

definition sample_world :: health_world where
  "sample_world = \<lparr>hw_service = quiet_service, hw_config = sample_hc, hw_buzzer = ringing_buzzer, hw_log = sample_log,
     hw_flash = blank_flash, hw_callbacks = \<lparr>callbackQueue = Some [], callbackTaskRunning = True\<rparr>,
     hw_tls = \<lparr>cryptoMutex = Some 0, rng_words = []\<rparr>, hw_trust = small_trust_store\<rparr>"

lemma failing_head:
  "map_option tr_status (fst (snd (TlsTransport_Head (ck_peer failing_env) (hw_tls sample_world) (hw_trust sample_world) host port resource 0)))
     = Some TLS_TRANSPORT_DNS_ERROR"
  by (simp add: TlsTransport_Head_def TlsTransport_Request_def tlsTransport_Attempt_def tlsTransport_Connect_def failing_env_def
      sample_peer_def sample_world_def TlsPlatform_Lock_def TlsTrustStore_Parse_def small_trust_store_def toy_trust_mbedtls_def Let_def)

theorem failed_check_reported_witness:
  "alertRequested (hw_buzzer (healthCheckService_CheckResource failing_env 0 zero_resource sample_world))"
proof -
  let ?r = zero_resource and ?w = sample_world
  obtain status outcome tls ts ssl es where head: "TlsTransport_Head (ck_peer failing_env) (hw_tls ?w) (hw_trust ?w) (cstr (hr_host ?r)) (hr_port ?r)
      (cstr (hr_path ?r)) (hr_trustAnchorId ?r) = (status, outcome, tls, ts, ssl, es)"
    by (metis prod_cases6)
  have "hr_trustAnchorId ?r = 0"
    by (simp add: zero_resource_def)
  then obtain r where r: "outcome = Some r" "tr_status r = TLS_TRANSPORT_DNS_ERROR"
    using head failing_head [of "cstr (hr_host ?r)" "hr_port ?r" "cstr (hr_path ?r)"] by auto
  obtain s e log f where append: "HealthCheckLog_Append (hw_log ?w) (hw_flash ?w) (Rtc_GetUnixTime (ck_logClock failing_env)) 0 r = (s, e, log, f)"
    by (metis prod_cases4)
  have "cryptoMutex (hw_tls ?w) \<noteq> None" "buzzerTask (hw_buzzer ?w)" "callbackQueue (hw_callbacks ?w) = Some []"
    by (simp_all add: sample_world_def ringing_buzzer_def BuzzerService_Init_def)
  from failed_check_reported [OF this _ head [unfolded r(1)] append refl] show ?thesis
    using r(2) by simp
qed

section \<open>A pass of the task\<close>

lemma healthCheckService_CheckResource_config:
  "hw_config (healthCheckService_CheckResource env index resource w) = hw_config w"
  by (simp add: healthCheckService_CheckResource_def Let_def split: prod.split option.split)

lemma healthCheckService_CheckLoop_config: "hw_config (healthCheckService_CheckLoop envs resources is w) = hw_config w"
  by (induction envs resources "is" w rule: healthCheckService_CheckLoop.induct) (simp_all add: healthCheckService_CheckResource_config)

lemma hw_config_same: "hw_config x = cfg \<Longrightarrow> x\<lparr>hw_config := cfg\<rparr> = x"
  by (cases x) simp

lemma healthCheckService_CheckLoop_selected:
  "healthCheckService_CheckLoop envs resources is w =
     fold (\<lambda>i. healthCheckService_CheckResource (envs i) (of_nat i) (resources ! i))
       (filter (\<lambda>i. hr_occupied (resources ! i) \<noteq> 0 \<and> hr_enabled (resources ! i) \<noteq> 0) is) w"
  by (induction envs resources "is" w rule: healthCheckService_CheckLoop.induct) simp_all

lemma resource_request_fits:
  assumes "resource_ok r"
  shows "\<exists>h request. tlsTransport_HostHeader (cstr (hr_host r)) (hr_port r) = Some h
    \<and> tlsTransport_RequestText ''HEAD'' (cstr (hr_path r)) h [] None = Some request"
proof -
  have lengths: "0 < length (cstr (hr_host r))" "length (cstr (hr_host r)) < 64" "length (cstr (hr_path r)) < 80"
    using assms
    by (auto simp: resource_ok_def healthCheckConfig_ArgumentsValid_def HEALTH_CHECK_CONFIG_HOST_SIZE_def HEALTH_CHECK_CONFIG_PATH_SIZE_def)
  then obtain h where "tlsTransport_HostHeader (cstr (hr_host r)) (hr_port r) = Some h" "length h < 70"
    using tlsTransport_HostHeader_fits by blast
  then show ?thesis
    using tlsTransport_RequestText_fits [of "''HEAD''" "cstr (hr_path r)" h "[]" None] lengths(3) by auto
qed

text \<open>
  C24: with a configuration that satisfies its invariant, the network up and the clock synchronised, one
  pass checks exactly the occupied and enabled resources, each once and in the order of their slots,
  with requests that fit the buffers of the transport, leaves the configuration as it is, and then
  sleeps the configured period, a minute to half an hour, without overflow of the milliseconds.
\<close>

theorem health_check_pass:
  assumes "hc_inv (hc_snapshot (hw_config w))" and "hc_configMutex (hw_config w) = Sem_Free" and "Rtc_IsSynchronized clock"
    and "resources = hc_resources (hc_snapshot (hw_config w))"
    and "checked = filter (\<lambda>i. hr_occupied (resources ! i) \<noteq> 0 \<and> hr_enabled (resources ! i) \<noteq> 0) [0..<3]"
    and "healthCheckService_Task True clock envs garbage w = (delay, w')"
  shows "w' = fold (\<lambda>i. healthCheckService_CheckResource (envs i) (of_nat i) (resources ! i)) checked w
    \<and> hw_config w' = hw_config w \<and> delay = unat (hc_periodSeconds (hc_snapshot (hw_config w))) * 1000
    \<and> 60000 \<le> delay \<and> delay \<le> 1800000
    \<and> (\<forall>i\<in>set checked. \<exists>h request. tlsTransport_HostHeader (cstr (hr_host (resources ! i))) (hr_port (resources ! i)) = Some h
         \<and> tlsTransport_RequestText ''HEAD'' (cstr (hr_path (resources ! i))) h [] None = Some request)"
proof -
  let ?cfg = "hw_config w"
  let ?run = "healthCheckService_CheckLoop envs resources [0..<HEALTH_CHECK_CONFIG_MAX_RESOURCES] w"
  have run: "?run\<lparr>hw_config := ?cfg\<rparr> = ?run" "hw_config ?run = ?cfg" "w\<lparr>hw_config := ?cfg\<rparr> = w"
    by (simp_all add: hw_config_same healthCheckService_CheckLoop_config)
  have cfg: "?cfg\<lparr>hc_configMutex := Sem_Free\<rparr> = ?cfg"
    using assms(2) by (cases ?cfg) simp
  have indices: "[0..<HEALTH_CHECK_CONFIG_MAX_RESOURCES] = [0..<3]"
    by (simp add: HEALTH_CHECK_CONFIG_MAX_RESOURCES_def)
  have task: "w' = ?run" "delay = unat (hc_periodSeconds (hc_snapshot ?cfg) * 1000)"
    using assms(2,3,4,6) cfg run
    by (auto simp: healthCheckService_Task_def HealthCheckConfig_GetResources_def HealthCheckConfig_GetPeriodSeconds_def Let_def)
  have period: "60 \<le> unat (hc_periodSeconds (hc_snapshot ?cfg))" "unat (hc_periodSeconds (hc_snapshot ?cfg)) \<le> 1800"
    using assms(1)
    by (simp_all add: hc_inv_def HEALTH_CHECK_CONFIG_MIN_PERIOD_SECONDS_def HEALTH_CHECK_CONFIG_MAX_PERIOD_SECONDS_def word_le_nat_alt)
  then have "delay = unat (hc_periodSeconds (hc_snapshot ?cfg)) * 1000"
    unfolding task(2) by (subst unat_mult_lem [THEN iffD1]) simp_all
  moreover have "\<exists>h request. tlsTransport_HostHeader (cstr (hr_host (resources ! i))) (hr_port (resources ! i)) = Some h
      \<and> tlsTransport_RequestText ''HEAD'' (cstr (hr_path (resources ! i))) h [] None = Some request" if "i \<in> set checked" for i
  proof (rule resource_request_fits)
    have "i < length resources" "hr_occupied (resources ! i) \<noteq> 0"
      using that assms(1,4) unfolding assms(5) by (simp_all add: hc_inv_def wf_hc_snapshot_def)
    then show "resource_ok (resources ! i)"
      using assms(1,4) by (simp add: hc_inv_def list_all_length)
  qed
  ultimately show ?thesis
    using task(1) period run(2) unfolding healthCheckService_CheckLoop_selected indices assms(5) by auto
qed

lemma default_hc_inv: "hc_inv healthCheckConfig_SetDefault"
  by code_simp

theorem health_check_pass_witness:
  "fst (healthCheckService_Task True (fresh_rtc\<lparr>rtc_bkp0r := RTC_SYNC_MARKER\<rparr>) (\<lambda>_. failing_env) [] sample_world) = 60000"
proof -
  let ?clock = "fresh_rtc\<lparr>rtc_bkp0r := RTC_SYNC_MARKER\<rparr>"
  obtain delay w' where run: "healthCheckService_Task True ?clock (\<lambda>_. failing_env) [] sample_world = (delay, w')"
    by (metis prod.exhaust)
  have "Rtc_IsSynchronized ?clock" "hc_configMutex (hw_config sample_world) = Sem_Free" "hc_inv (hc_snapshot (hw_config sample_world))"
      "hc_periodSeconds (hc_snapshot (hw_config sample_world)) = 60"
    using default_hc_inv by (simp_all add: Rtc_IsSynchronized_def sample_world_def sample_hc_def healthCheckConfig_SetDefault_def
        HEALTH_CHECK_CONFIG_DEFAULT_PERIOD_SECONDS_def)
  then show ?thesis
    using health_check_pass [OF _ _ _ refl refl run] run by simp
qed

section \<open>From a failed check to the callback\<close>

text \<open>
  C6: a failed check that could be logged is called back: when the queue was empty, callbacks are
  enabled with a valid configuration (they are disabled by default), the peer of the callback is
  reachable and takes all writes, and the mutexes are free, the next pass of the delivering task
  writes a request whose message is the report of this very check, with its resource, stage and HTTP
  status.
\<close>

theorem failed_check_called_back:
  assumes "cryptoMutex (hw_tls w) \<noteq> None" and "callbackQueue (hw_callbacks w) = Some []"
    and "TlsTransport_Head (ck_peer env) (hw_tls w) (hw_trust w) (cstr (hr_host resource)) (hr_port resource)
           (cstr (hr_path resource)) (hr_trustAnchorId resource) = (status, Some r, tls, ts, ssl, events)"
    and "\<not> resource_healthy r"
    and "HealthCheckLog_Append (hw_log w) (hw_flash w) (Rtc_GetUnixTime (ck_logClock env)) index r = (PLATFORM_STATUS_OK, e, log, f)"
    and "w' = healthCheckService_CheckResource env index resource w"
    and "callbackConfigMutex cb = Sem_Free" and "config = cs_config (cb_snapshot cb)" and "cb_enabled config \<noteq> 0"
    and "callbackConfig_FieldsValid config" and "wf_callback config" and "peer_reachable p ts (cb_trustAnchorId config)"
    and "callbackService_Task p (hw_callbacks w') cb (hw_tls w') (hw_trust w') = (st, cb', tls', ts', outcome)"
  shows "callbackQueue st = Some []
    \<and> (\<exists>entry m h request result out. e = Some entry \<and> le_resourceIndex entry = index
         \<and> le_status entry = tls_status_code (tr_status r) \<and> le_httpStatus entry = tr_httpStatus r
         \<and> callbackService_Message config entry = Some m \<and> outcome = Some (m, Some result, out)
         \<and> tlsTransport_HostHeader (cstr (cb_host config)) (cb_port config) = Some h
         \<and> tlsTransport_RequestText (cm_method m) (cm_resource m) h (cm_body m) (cm_contentType m) = Some request
         \<and> ssl_out out = ssl_out (pr_session p) @ request)"
proof -
  note effect = healthCheckService_CheckResource_effect [OF assms(1,3,5,6)]
  obtain n where e: "e = Some (entry_of (log_new_record n (Rtc_GetUnixTime (ck_logClock env)) index r))"
    using HealthCheckLog_Append_entry [OF assms(5)] by blast
  let ?entry = "entry_of (log_new_record n (Rtc_GetUnixTime (ck_logClock env)) index r)"
  have queue: "callbackQueue (hw_callbacks w') = Some [?entry]"
    using effect assms(2,4) e by (simp add: CallbackService_Enqueue_def xQueueSendToBack_def CALLBACK_QUEUE_LENGTH_def)
  have tls: "cryptoMutex (hw_tls w') \<noteq> None" and trust: "hw_trust w' = ts"
    using effect assms(1) by simp_all
  show ?thesis
    using callback_pass_delivers [OF queue assms(7,8,9,10,11) _ tls assms(13)] assms(12) e trust
    by (auto simp: entry_of_def log_new_record_def Let_def)
qed

lemma sample_append: "\<exists>e log f. HealthCheckLog_Append sample_log blank_flash now i r = (PLATFORM_STATUS_OK, e, log, f)"
  using HealthCheckLog_Append_step [OF sample_log_inv(2,1), of "log_new_record 1 now i r" now i r sample_log blank_flash]
  by (auto simp: sample_log_def HEALTH_CHECK_LOG_ERASED_SEQUENCE_def healthCheckLog_MakeRoom_def)

lemma failing_trust:
  "fst (snd (snd (snd (TlsTransport_Head (ck_peer failing_env) (hw_tls sample_world) (hw_trust sample_world) host port resource 0)))) = small_trust_store"
  by (simp add: TlsTransport_Head_def TlsTransport_Request_def tlsTransport_Attempt_def tlsTransport_Connect_def failing_env_def
      sample_peer_def sample_world_def TlsPlatform_Lock_def TlsTrustStore_Parse_def small_trust_store_def toy_trust_mbedtls_def Let_def)

theorem failed_check_called_back_witness:
  "\<exists>st cb tls ts m result out. callbackService_Task sample_peer
       (hw_callbacks (healthCheckService_CheckResource failing_env 0 zero_resource sample_world)) enabled_cb
       (hw_tls (healthCheckService_CheckResource failing_env 0 zero_resource sample_world))
       (hw_trust (healthCheckService_CheckResource failing_env 0 zero_resource sample_world)) = (st, cb, tls, ts, Some (m, Some result, out))
     \<and> callbackQueue st = Some []"
proof -
  let ?r = zero_resource and ?w = sample_world
  let ?w' = "healthCheckService_CheckResource failing_env 0 ?r ?w"
  have anchor: "hr_trustAnchorId ?r = 0"
    by (simp add: zero_resource_def)
  obtain status outcome tls ts ssl es where head: "TlsTransport_Head (ck_peer failing_env) (hw_tls ?w) (hw_trust ?w) (cstr (hr_host ?r)) (hr_port ?r)
      (cstr (hr_path ?r)) (hr_trustAnchorId ?r) = (status, outcome, tls, ts, ssl, es)"
    by (metis prod_cases6)
  then obtain r where r: "outcome = Some r" "\<not> resource_healthy r" "ts = small_trust_store"
    using failing_head [of "cstr (hr_host ?r)" "hr_port ?r" "cstr (hr_path ?r)"]
      failing_trust [of "cstr (hr_host ?r)" "hr_port ?r" "cstr (hr_path ?r)"] anchor by (auto simp: resource_healthy_def)
  obtain e log f where append: "HealthCheckLog_Append (hw_log ?w) (hw_flash ?w) (Rtc_GetUnixTime (ck_logClock failing_env)) 0 r
      = (PLATFORM_STATUS_OK, e, log, f)"
    using sample_append [of "Rtc_GetUnixTime (ck_logClock failing_env)" 0 r] by (auto simp: sample_world_def)
  have w: "cryptoMutex (hw_tls ?w) \<noteq> None" "callbackQueue (hw_callbacks ?w) = Some []"
    by (simp_all add: sample_world_def)
  obtain st cb tls' ts' out where run: "callbackService_Task sample_peer (hw_callbacks ?w') enabled_cb (hw_tls ?w') (hw_trust ?w')
      = (st, cb, tls', ts', out)"
    by (metis prod_cases5)
  have "peer_reachable sample_peer ts (cb_trustAnchorId (cs_config (cb_snapshot enabled_cb)))"
    using sample_peer_reachable enabled_cb_valid(4) r(3) by simp
  from failed_check_called_back [OF w head [unfolded r(1)] r(2) append refl enabled_cb_valid(5) refl enabled_cb_valid(1-3) this run]
  show ?thesis
    using run by auto
qed

end
