(* ===== verification/Startup.thy ===== *)
theory Startup
  imports Reset_Button Health_Check_Service Api_Service
begin

text \<open>
  Start-up, \<^verbatim>\<open>Srv/Src/rtos.c\<close>, and the rest of \<^verbatim>\<open>TLS/Src/tls_platform.c\<close>: the order in which the start-up task
  initialises the flash, recovers an interrupted factory reset, loads the stores and starts the
  services, each failure ending in \<open>Error_Handler\<close>. Whether the kernel could create a mutex, queue or
  task is an argument. The main theorem is that on working flash the device comes up, with well-formed trust
  store, callback and health-check configurations, log and server credentials, whatever the flash holds
  (anchors that older firmware stored are assumed to be valid). The user store is loaded by the API task.
\<close>

section \<open>State\<close>

record firmware =
  fw_flash :: w25q64
  fw_trust :: trust_store
  fw_callbackConfig :: callback_config
  fw_config :: health_check_config
  fw_log :: health_check_log
  fw_credentials :: server_credentials
  fw_buzzer :: buzzer_service
  fw_callbacks :: callback_service
  fw_temperature :: temperature_service
  fw_time :: time_service

record kernel_objects =
  ko_flashMutex :: bool
  ko_trustMutex :: bool
  ko_callbackMutex :: bool
  ko_configMutex :: bool
  ko_logMutex :: bool
  ko_buzzer :: bool
  ko_buzzerSemaphore :: bool
  ko_buzzerTask :: bool
  ko_callbackQueue :: bool
  ko_callbackTask :: bool
  ko_apiTask :: bool
  ko_temperatureMutex :: bool
  ko_busMutex :: bool
  ko_temperatureTask :: bool
  ko_timeTask :: bool
  ko_healthTask :: bool
  ko_resetTask :: bool
  ko_networkTask :: bool

datatype startup_result = Startup_Error | Startup_Ready

section \<open>The start-up task\<close>

text \<open>The persistent stores, in the order of the source; the first failure ends the chain.\<close>

definition startup_Stores :: "kernel_objects \<Rightarrow> firmware \<Rightarrow> bool \<times> firmware" where
  "startup_Stores ko fw =
     (case TlsTrustStore_Init (ko_trustMutex ko) (fw_trust fw) (fw_flash fw) of (s1, trust, f1) \<Rightarrow>
      let fw1 = fw\<lparr>fw_trust := trust, fw_flash := f1\<rparr> in
      if s1 \<noteq> PLATFORM_STATUS_OK then (False, fw1) else
      (case CallbackConfig_Init (ko_callbackMutex ko) (fw_callbackConfig fw1) (fw_flash fw1) of (s2, cb, f2) \<Rightarrow>
      let fw2 = fw1\<lparr>fw_callbackConfig := cb, fw_flash := f2\<rparr> in
      if s2 \<noteq> PLATFORM_STATUS_OK then (False, fw2) else
      (case HealthCheckConfig_Init (ko_configMutex ko) (fw_config fw2) (fw_flash fw2) of (s3, hc, f3) \<Rightarrow>
      let fw3 = fw2\<lparr>fw_config := hc, fw_flash := f3\<rparr> in
      if s3 \<noteq> PLATFORM_STATUS_OK then (False, fw3) else
      (case HealthCheckLog_Init (ko_logMutex ko) (fw_log fw3) (fw_flash fw3) of (s4, log, f4) \<Rightarrow>
      let fw4 = fw3\<lparr>fw_log := log, fw_flash := f4\<rparr> in
      if s4 \<noteq> PLATFORM_STATUS_OK then (False, fw4) else
      (case TlsServerCredentials_Init (fw_credentials fw4) (fw_flash fw4) of (s5, sc, f5) \<Rightarrow>
      (s5 = PLATFORM_STATUS_OK, fw4\<lparr>fw_credentials := sc, fw_flash := f5\<rparr>))))))"

definition startup_Services :: "kernel_objects \<Rightarrow> firmware \<Rightarrow> bool \<times> firmware" where
  "startup_Services ko fw =
     (case BuzzerService_Init (ko_buzzer ko) (ko_buzzerSemaphore ko) (ko_buzzerTask ko) (fw_buzzer fw) of (s1, bz) \<Rightarrow>
      let fw1 = fw\<lparr>fw_buzzer := bz\<rparr> in
      if s1 \<noteq> SUCCESS then (False, fw1) else
      (case CallbackService_Init (ko_callbackQueue ko) (ko_callbackTask ko) (fw_callbacks fw1) of (s2, cs) \<Rightarrow>
      let fw2 = fw1\<lparr>fw_callbacks := cs\<rparr> in
      if s2 \<noteq> SUCCESS then (False, fw2) else
      if ApiService_Init (ko_apiTask ko) \<noteq> PLATFORM_STATUS_OK then (False, fw2) else
      (case TemperatureService_Init (fw_temperature fw2) (ko_temperatureMutex ko) (ko_busMutex ko) (ko_temperatureTask ko) of (s3, tp) \<Rightarrow>
      let fw3 = fw2\<lparr>fw_temperature := tp\<rparr> in
      if s3 \<noteq> SUCCESS then (False, fw3) else
      (case TimeService_Init (fw_time fw3) (ko_timeTask ko) of (s4, ti) \<Rightarrow>
      let fw4 = fw3\<lparr>fw_time := ti\<rparr> in
      if \<not> s4 then (False, fw4) else
      (HealthCheckService_Init (ko_healthTask ko) = SUCCESS, fw4)))))"

definition rtos_StartupTask :: "kernel_objects \<Rightarrow> firmware \<Rightarrow> startup_result \<times> firmware" where
  "rtos_StartupTask ko fw =
     (case W25Q64_Init (ko_flashMutex ko) (fw_flash fw) of (s0, f0) \<Rightarrow>
      let fw0 = fw\<lparr>fw_flash := f0\<rparr> in
      if s0 \<noteq> PLATFORM_STATUS_OK then (Startup_Error, fw0) else
      (case FactoryResetService_Recover (fw_flash fw0) of (s1, f1) \<Rightarrow>
      let fw1 = fw0\<lparr>fw_flash := f1\<rparr> in
      if s1 \<noteq> PLATFORM_STATUS_OK then (Startup_Error, fw1) else
      (case startup_Stores ko fw1 of (stored, fw2) \<Rightarrow>
      if \<not> stored then (Startup_Error, fw2) else
      (case startup_Services ko fw2 of (started, fw3) \<Rightarrow>
      if \<not> started then (Startup_Error, fw3) else
      if FactoryResetService_Init (ko_resetTask ko) \<noteq> SUCCESS then (Startup_Error, fw3) else
      if \<not> ko_networkTask ko then (Startup_Error, fw3) else (Startup_Ready, fw3)))))"

datatype Rtos_StatusTypeDef = RTOS_STATUS_OK | RTOS_STATUS_TASK_ERROR

definition Rtos_Init :: "bool \<Rightarrow> ErrorStatus \<Rightarrow> bool \<Rightarrow> Rtos_StatusTypeDef" where
  "Rtos_Init defaultTask heartbeat startupTask =
     (if \<not> defaultTask then RTOS_STATUS_TASK_ERROR
      else if heartbeat \<noteq> SUCCESS then RTOS_STATUS_TASK_ERROR
      else if \<not> startupTask then RTOS_STATUS_TASK_ERROR
      else RTOS_STATUS_OK)"

section \<open>The network task\<close>

text \<open>\<open>setTime\<close> and \<open>psa\<close> are the results of \<open>mbedtls_platform_set_time\<close> and \<open>psa_crypto_init\<close>; the value seeds \<open>srand\<close>.\<close>

definition TlsPlatform_Init ::
  "bool \<Rightarrow> int \<Rightarrow> int \<Rightarrow> tls_platform \<Rightarrow> Platform_StatusTypeDef \<times> u32 option \<times> tls_platform" where
  "TlsPlatform_Init created setTime psa t =
     (if \<not> created then (PLATFORM_STATUS_ERROR, None, t\<lparr>cryptoMutex := None\<rparr>)
      else case mbedtls_hardware_poll (rng_words t) 4 of
        (ok, output, ws) \<Rightarrow>
          let t1 = t\<lparr>cryptoMutex := Some 0, rng_words := ws\<rparr>
          in if \<not> ok then (PLATFORM_STATUS_ERROR, None, t1)
             else if setTime \<noteq> 0 then (PLATFORM_STATUS_ERROR, Some (of_le32 output), t1)
             else if psa \<noteq> 0 then (PLATFORM_STATUS_ERROR, Some (of_le32 output), t1)
             else (PLATFORM_STATUS_OK, Some (of_le32 output), t1))"

definition tlsPlatform_GetTime :: "rtc \<Rightarrow> u32" where
  "tlsPlatform_GetTime h =
     (if \<not> Rtc_IsSynchronized h then 0 else case Rtc_GetUnixTime h of None \<Rightarrow> 0 | Some unixTime \<Rightarrow> unixTime)"

text \<open>The part before the polling loop.\<close>

definition rtos_NetworkTask :: "bool \<Rightarrow> int \<Rightarrow> int \<Rightarrow> bool \<Rightarrow> tls_platform \<Rightarrow> startup_result \<times> tls_platform" where
  "rtos_NetworkTask created setTime psa lwip t =
     (case TlsPlatform_Init created setTime psa t of
        (s, _, t1) \<Rightarrow> (if s \<noteq> PLATFORM_STATUS_OK \<or> \<not> lwip then Startup_Error else Startup_Ready, t1))"

section \<open>Each step on working flash\<close>

definition flash_works :: "w25q64 \<Rightarrow> bool" where
  "flash_works f \<longleftrightarrow> spi_faults f = [] \<and> busy_times f = []"

lemma W25Q64_Init_ready:
  assumes "flash_works f"
  shows "\<exists>f'. W25Q64_Init True f = (PLATFORM_STATUS_OK, f') \<and> flash_ready f' \<and> nor_mem f' = nor_mem f"
  using assms
  by (auto simp: W25Q64_Init_def W25Q64_IsAvailable_def xSemaphoreTakeRecursive_def xSemaphoreGiveRecursive_def w25q64_Command_def
      w25q64_Transfer_ready flash_works_def flash_ready_def)

lemma CallbackConfig_Init_valid:
  assumes "flash_ready f"
  shows "\<exists>st f'. CallbackConfig_Init True st0 f = (PLATFORM_STATUS_OK, st, f') \<and> flash_ready f'
    \<and> callbackConfigMutex st = Sem_Free \<and> callbackConfig_FieldsValid (cs_config (cb_snapshot st)) \<and> wf_callback (cs_config (cb_snapshot st))"
proof -
  obtain st f' where i: "CallbackConfig_Init True st0 f = (PLATFORM_STATUS_OK, st, f')" "flash_ready f'" "callbackConfigMutex st = Sem_Free"
      "cb_ab.newest (nor_mem f') = Some (cb_snapshot st, cb_activeAddress st)"
    using CallbackConfig_Init_ready [OF assms, of st0] by blast
  have "callbackConfig_Valid (cb_snapshot st)" "dec_cb_snapshot (image_at (nor_mem f') (cb_activeAddress st) cb_snapshot_size) = cb_snapshot st"
    using cb_ab.newest_active [OF i(4)] by simp_all
  moreover have "length (image_at (nor_mem f') (cb_activeAddress st) cb_snapshot_size) = 168"
    by (simp add: image_at_def cb_snapshot_size_def)
  ultimately show ?thesis
    using i wf_dec_cb_snapshot by (metis callbackConfig_Valid_def)
qed

lemma HealthCheckConfig_Init_valid:
  assumes "flash_ready f"
  shows "\<exists>st f'. HealthCheckConfig_Init True st0 f = (PLATFORM_STATUS_OK, st, f') \<and> flash_ready f'
    \<and> hc_configMutex st = Sem_Free \<and> wf_hc_snapshot (hc_snapshot st)
    \<and> HEALTH_CHECK_CONFIG_MIN_PERIOD_SECONDS \<le> hc_periodSeconds (hc_snapshot st)
    \<and> hc_periodSeconds (hc_snapshot st) \<le> HEALTH_CHECK_CONFIG_MAX_PERIOD_SECONDS"
proof -
  obtain f1 where f1: "flash_ready f1" "nor_mem f1 = nor_mem f" and init: "HealthCheckConfig_Init True st0 f =
    (let st = st0\<lparr>hc_configMutex := Sem_Free\<rparr>
     in case hc_ab.newest (nor_mem f) of
       Some (x, a) \<Rightarrow> (PLATFORM_STATUS_OK, st\<lparr>hc_snapshot := x, hc_activeAddress := a\<rparr>, f1)
     | None \<Rightarrow> healthCheckConfig_SaveInPlace
         (case hc_legacy.newest (nor_mem f) of
            Some (l, a) \<Rightarrow> st\<lparr>hc_activeAddress := a, hc_snapshot := healthCheckConfig_MigrateLegacy l\<rparr>
          | None \<Rightarrow> st\<lparr>hc_snapshot := healthCheckConfig_SetDefault, hc_activeAddress := hc_sector_b\<rparr>) f1)"
    using HealthCheckConfig_Init_ab [OF assms] by blast
  show ?thesis
  proof (cases "hc_ab.newest (nor_mem f)")
    case (Some xa)
    obtain x a where xa: "xa = (x, a)" by (cases xa)
    have "wf_hc_snapshot x"
      using hc_ab.newest_active(1) [OF Some [unfolded xa]] wf_dec_hc_snapshot [of "image_at (nor_mem f) a hc_snapshot_size"]
      by (simp add: image_at_def hc_snapshot_size_def)
    then show ?thesis
      using f1 init hc_ab.newest_active(2) [OF Some [unfolded xa]] Some
      by (auto simp: xa Let_def healthCheckConfig_IsValid_def)
  next
    case None
    define st where "st = (case hc_legacy.newest (nor_mem f) of
        Some (l, a) \<Rightarrow> st0\<lparr>hc_configMutex := Sem_Free, hc_activeAddress := a, hc_snapshot := healthCheckConfig_MigrateLegacy l\<rparr>
      | None \<Rightarrow> st0\<lparr>hc_configMutex := Sem_Free, hc_snapshot := healthCheckConfig_SetDefault, hc_activeAddress := hc_sector_b\<rparr>)"
    have "wf_hc_snapshot (hc_snapshot st) \<and> HEALTH_CHECK_CONFIG_MIN_PERIOD_SECONDS \<le> hc_periodSeconds (hc_snapshot st)
        \<and> hc_periodSeconds (hc_snapshot st) \<le> HEALTH_CHECK_CONFIG_MAX_PERIOD_SECONDS
        \<and> (hc_activeAddress st = hc_sector_a \<or> hc_activeAddress st = hc_sector_b) \<and> hc_configMutex st = Sem_Free"
    proof (cases "hc_legacy.newest (nor_mem f)")
      case None
      then show ?thesis
        using default_hc_inv by (simp add: st_def hc_inv_def)
    next
      case (Some la)
      obtain l a where la: "la = (l, a)" by (cases la)
      note old = hc_legacy.newest_active [OF Some [unfolded la]]
      have "wf_hc_snapshot (healthCheckConfig_MigrateLegacy l)"
        using wf_migrate [of "image_at (nor_mem f) a hl_snapshot_size"] old(1) by (simp add: image_at_def hl_snapshot_size_def)
      then show ?thesis
        using Some la old(2,3) by (simp add: st_def healthCheckConfig_IsLegacyValid_def healthCheckConfig_MigrateLegacy_def)
    qed
    moreover have "HealthCheckConfig_Init True st0 f = healthCheckConfig_SaveInPlace st f1"
      using init None by (simp add: st_def Let_def split: option.splits)
    moreover have "hc_ab.newest (nor_mem f1) = None"
      using None f1(2) by simp
    moreover have "wf_hc_snapshot (healthCheckConfig_Seal x) = wf_hc_snapshot x" "hc_periodSeconds (healthCheckConfig_Seal x) = hc_periodSeconds x" for x
      by (simp_all add: healthCheckConfig_Seal_def Let_def wf_hc_snapshot_def)
    ultimately show ?thesis
      using healthCheckConfig_SaveInPlace_fresh [OF f1(1), of st] by auto
  qed
qed

lemma TlsServerCredentials_Init_valid:
  assumes "flash_ready f"
  shows "\<exists>st f'. TlsServerCredentials_Init st0 f = (PLATFORM_STATUS_OK, st, f') \<and> flash_ready f'
    \<and> (hasValidSnapshot st \<longrightarrow> tlsServerCredentials_IsValid (sc_snapshot st))"
proof -
  obtain b1 f1 where r1: "W25Q64_Read f sc_sector_a sc_snapshot_size = (PLATFORM_STATUS_OK, b1, f1)" "flash_ready f1"
    using W25Q64_Read_ready [OF assms, of sc_snapshot_size sc_sector_a] by (auto simp: sc_snapshot_size_def)
  obtain b2 f2 where r2: "W25Q64_Read f1 sc_sector_b sc_snapshot_size = (PLATFORM_STATUS_OK, b2, f2)" "flash_ready f2"
    using W25Q64_Read_ready [OF r1(2), of sc_snapshot_size sc_sector_b] by (auto simp: sc_snapshot_size_def)
  show ?thesis
    using r1 r2 by (auto simp: TlsServerCredentials_Init_def Let_def)
qed

text \<open>
  The memory of a legacy trust store, read into the structure of the current format; its check does
  not look at the anchors, so that they are valid is an assumption about old firmware.
\<close>

definition legacy_view :: "(nat \<Rightarrow> u8) \<Rightarrow> TlsTrustStore_SnapshotTypeDef \<Rightarrow> u32 \<Rightarrow> TlsTrustStore_SnapshotTypeDef" where
  "legacy_view m x bank = dec_ts_snapshot (image_at m bank tl_snapshot_size @ drop 6556 (enc_ts_snapshot x))"

definition legacy_anchors_ok :: "(nat \<Rightarrow> u8) \<Rightarrow> bool" where
  "legacy_anchors_ok m \<longleftrightarrow> (\<forall>bank\<in>{FLASH_LAYOUT_TLS_TRUST_STORE_LEGACY_BANK_A, FLASH_LAYOUT_TLS_TRUST_STORE_LEGACY_BANK_B}. \<forall>x y.
     wf_ts_snapshot x \<and> wf_ts_snapshot y \<and> tlsTrustStore_IsLegacySnapshotValid (legacy_view m x bank)
     \<longrightarrow> list_all anchor_valid (take 3 (ts_anchors (legacy_view m y bank))))"

lemma legacy_read_ready:
  assumes "flash_ready f" and "wf_ts_snapshot (trustStoreSnapshot st)"
    and "bank = FLASH_LAYOUT_TLS_TRUST_STORE_LEGACY_BANK_A \<or> bank = FLASH_LAYOUT_TLS_TRUST_STORE_LEGACY_BANK_B"
  shows "\<exists>f'. read_into st f bank tl_snapshot_size = (PLATFORM_STATUS_OK,
      st\<lparr>trustStoreSnapshot := legacy_view (nor_mem f) (trustStoreSnapshot st) bank\<rparr>, f') \<and> flash_ready f' \<and> nor_mem f' = nor_mem f
    \<and> wf_ts_snapshot (legacy_view (nor_mem f) (trustStoreSnapshot st) bank)"
proof -
  have range: "unat bank + unat tl_snapshot_size \<le> nor_capacity" "0 < unat tl_snapshot_size"
    using assms(3) by (auto simp: tl_snapshot_size_def)
  obtain bs f' where r: "W25Q64_Read f bank tl_snapshot_size = (PLATFORM_STATUS_OK, bs, f')" "flash_ready f'"
    using W25Q64_Read_ready [OF assms(1) range(2,1)] by auto
  moreover have "bs = image_at (nor_mem f) bank tl_snapshot_size" "nor_mem f' = nor_mem f"
    using w25q64_driver.rd_ok [OF r(1) range(1)] w25q64_driver.rd_mem [OF r(1) range(1)] by (simp_all add: image_at_def)
  moreover have "length (image_at (nor_mem f) bank tl_snapshot_size) = 6556"
    by (simp add: image_at_def tl_snapshot_size_def)
  ultimately show ?thesis
    using length_enc_ts_snapshot [OF assms(2)] by (simp add: read_into_def legacy_view_def wf_dec_ts_snapshot)
qed

lemma migrated_inv:
  assumes "wf_ts_snapshot x" and "list_all anchor_valid (take 3 (ts_anchors x))"
  shows "ts_inv (x\<lparr>ts_anchors := (tlsTrustStore_MigrateLoop (ts_anchors x))[0 := tlsTrustStore_SetDefaultAnchor]\<rparr>)"
proof -
  obtain a b c d where "ts_anchors x = [a, b, c, d]"
    using assms(1) by (auto simp: wf_ts_snapshot_def length_Suc_conv numeral_eq_Suc)
  then show ?thesis
    using assms default_anchor_ok by (simp add: ts_inv_def wf_ts_snapshot_def tlsTrustStore_MigrateLoop_def)
qed

text \<open>The candidate that is committed when neither bank holds a snapshot of the current format.\<close>

lemma TlsTrustStore_Init_valid:
  assumes "flash_ready f" and "legacy_anchors_ok (nor_mem f)" and "wf_ts_snapshot (trustStoreSnapshot st0)"
  shows "\<exists>st f'. TlsTrustStore_Init True st0 f = (PLATFORM_STATUS_OK, st, f') \<and> flash_ready f'
    \<and> trustStoreMutex st = Sem_Free \<and> ts_inv (trustStoreSnapshot st)"
proof -
  let ?st = "st0\<lparr>trustStoreMutex := Sem_Free\<rparr>" and ?A = FLASH_LAYOUT_TLS_TRUST_STORE_LEGACY_BANK_A
    and ?B = FLASH_LAYOUT_TLS_TRUST_STORE_LEGACY_BANK_B and ?m = "nor_mem f"
  define x where "x bank = dec_ts_snapshot (ts_image f bank)" for bank
  have wf: "wf_ts_snapshot (x bank)" for bank
    by (simp add: x_def wf_dec_ts_snapshot ts_image_def)
  have read: "\<exists>g'. flash_ready g' \<and> nor_mem g' = ?m \<and> tlsTrustStore_ReadSnapshot st g bank =
      (if tlsTrustStore_IsSnapshotValid (x bank) then PLATFORM_STATUS_OK else PLATFORM_STATUS_ERROR, st\<lparr>trustStoreSnapshot := x bank\<rparr>, g')"
    if "flash_ready g" "nor_mem g = ?m" "bank = ts_bank_a \<or> bank = ts_bank_b" "wf_ts_snapshot (trustStoreSnapshot st)" for st g bank
    using tlsTrustStore_ReadSnapshot_ready [OF that(1,3,4)] that(2) by (auto simp: x_def ts_image_def)
  obtain f1 where r1: "flash_ready f1" "nor_mem f1 = ?m" "tlsTrustStore_ReadSnapshot ?st f ts_bank_a =
      (if tlsTrustStore_IsSnapshotValid (x ts_bank_a) then PLATFORM_STATUS_OK else PLATFORM_STATUS_ERROR,
       ?st\<lparr>trustStoreSnapshot := x ts_bank_a\<rparr>, f1)"
    using read [of f ts_bank_a ?st] assms(1,3) by auto
  let ?st1 = "?st\<lparr>trustStoreSnapshot := x ts_bank_a\<rparr>" and ?st2 = "?st\<lparr>trustStoreSnapshot := x ts_bank_b\<rparr>"
  obtain f2 where r2: "flash_ready f2" "nor_mem f2 = ?m" "tlsTrustStore_ReadSnapshot ?st1 f1 ts_bank_b =
      (if tlsTrustStore_IsSnapshotValid (x ts_bank_b) then PLATFORM_STATUS_OK else PLATFORM_STATUS_ERROR, ?st2, f2)"
    using read [of f1 ts_bank_b ?st1] r1(1,2) wf by auto
  obtain f3 where r3: "flash_ready f3" "tlsTrustStore_ReadSnapshot ?st2 f2 ts_bank_a =
      (if tlsTrustStore_IsSnapshotValid (x ts_bank_a) then PLATFORM_STATUS_OK else PLATFORM_STATUS_ERROR, ?st1, f3)"
    using read [of f2 ts_bank_a ?st2] r2(1,2) wf by auto
  have inv: "tlsTrustStore_IsSnapshotValid (x bank) \<Longrightarrow> ts_inv (x bank)" for bank
    using wf by (simp add: ts_inv_def tlsTrustStore_IsSnapshotValid_def split: if_splits)
  show ?thesis
  proof (cases "tlsTrustStore_IsSnapshotValid (x ts_bank_a) \<or> tlsTrustStore_IsSnapshotValid (x ts_bank_b)")
    case True
    then show ?thesis
      using r1 r2 r3 inv by (auto simp: TlsTrustStore_Init_def Let_def)
  next
    case False
    define l1 l2 l3 where "l1 = legacy_view ?m (x ts_bank_b) ?A" and "l2 = legacy_view ?m l1 ?B" and "l3 = legacy_view ?m l2 ?A"
    obtain g1 where g1: "read_into ?st2 f2 ?A tl_snapshot_size = (PLATFORM_STATUS_OK, ?st\<lparr>trustStoreSnapshot := l1\<rparr>, g1)"
        "flash_ready g1" "nor_mem g1 = ?m" "wf_ts_snapshot l1"
      using legacy_read_ready [OF r2(1), of ?st2 ?A] wf r2(2) by (auto simp: l1_def)
    obtain g2 where g2: "read_into (?st\<lparr>trustStoreSnapshot := l1\<rparr>) g1 ?B tl_snapshot_size = (PLATFORM_STATUS_OK, ?st\<lparr>trustStoreSnapshot := l2\<rparr>, g2)"
        "flash_ready g2" "nor_mem g2 = ?m" "wf_ts_snapshot l2"
      using legacy_read_ready [OF g1(2), of "?st\<lparr>trustStoreSnapshot := l1\<rparr>" ?B] g1(3,4) by (auto simp: l2_def)
    obtain g3 where g3: "read_into (?st\<lparr>trustStoreSnapshot := l2\<rparr>) g2 ?A tl_snapshot_size = (PLATFORM_STATUS_OK, ?st\<lparr>trustStoreSnapshot := l3\<rparr>, g3)"
        "flash_ready g3" "wf_ts_snapshot l3"
      using legacy_read_ready [OF g2(2), of "?st\<lparr>trustStoreSnapshot := l2\<rparr>" ?A] g2(3,4) by (auto simp: l3_def)
    have ok: "tlsTrustStore_IsLegacySnapshotValid l1 \<Longrightarrow> list_all anchor_valid (take 3 (ts_anchors l3))"
        "tlsTrustStore_IsLegacySnapshotValid l2 \<Longrightarrow> list_all anchor_valid (take 3 (ts_anchors l2))"
      using assms(2) wf g1(4) g2(4) unfolding legacy_anchors_ok_def l1_def l2_def l3_def by blast+
    have zero: "ts_inv (zero_ts_snapshot\<lparr>ts_anchors := (ts_anchors zero_ts_snapshot)[0 := tlsTrustStore_SetDefaultAnchor]\<rparr>)"
      by (intro ts_inv_update ts_inv_zero default_anchor_ok)
    have "\<exists>c g. TlsTrustStore_Init True st0 f =
        (case tlsTrustStore_CommitCandidate (?st\<lparr>trustStoreSnapshot := c, trustStoreActiveAddress := ts_bank_b\<rparr>) g of
          (s, st7, f7) \<Rightarrow> (if s = TLS_TRUST_STORE_STATUS_OK then PLATFORM_STATUS_OK else PLATFORM_STATUS_ERROR, st7, f7))
        \<and> flash_ready g \<and> ts_inv c"
    proof (cases "tlsTrustStore_IsLegacySnapshotValid l1 \<and> (\<not> tlsTrustStore_IsLegacySnapshotValid l2 \<or> ts_generation l2 \<le> ts_generation l1)")
      case first: True
      then show ?thesis
        using r1 r2 False g1(1) g2(1) g3 migrated_inv [OF g3(3) ok(1)]
        by (intro exI [of _ "l3\<lparr>ts_anchors := (tlsTrustStore_MigrateLoop (ts_anchors l3))[0 := tlsTrustStore_SetDefaultAnchor]\<rparr>"] exI [of _ g3])
          (simp add: TlsTrustStore_Init_def Let_def)
    next
      case second: False
      show ?thesis
      proof (cases "tlsTrustStore_IsLegacySnapshotValid l2")
        case True
        then show ?thesis
          using r1 r2 False second g1(1) g2 migrated_inv [OF g2(4) ok(2)]
          by (intro exI [of _ "l2\<lparr>ts_anchors := (tlsTrustStore_MigrateLoop (ts_anchors l2))[0 := tlsTrustStore_SetDefaultAnchor]\<rparr>"] exI [of _ g2])
            (auto simp: TlsTrustStore_Init_def Let_def)
      next
        case none: False
        then show ?thesis
          using r1 r2 False second g1(1) g2 zero
          by (intro exI [of _ "zero_ts_snapshot\<lparr>ts_anchors := (ts_anchors zero_ts_snapshot)[0 := tlsTrustStore_SetDefaultAnchor]\<rparr>"] exI [of _ g2])
            (simp add: TlsTrustStore_Init_def Let_def)
      qed
    qed
    then obtain c g where c: "TlsTrustStore_Init True st0 f =
        (case tlsTrustStore_CommitCandidate (?st\<lparr>trustStoreSnapshot := c, trustStoreActiveAddress := ts_bank_b\<rparr>) g of
          (s, st7, f7) \<Rightarrow> (if s = TLS_TRUST_STORE_STATUS_OK then PLATFORM_STATUS_OK else PLATFORM_STATUS_ERROR, st7, f7))"
        "flash_ready g" "ts_inv c"
      by blast
    show ?thesis
      using c(1) tlsTrustStore_CommitCandidate_ready [OF c(2), of "?st\<lparr>trustStoreSnapshot := c, trustStoreActiveAddress := ts_bank_b\<rparr>"] c(3)
      by auto
  qed
qed

lemma reset_done_legacy:
  assumes "reset_done m"
  shows "legacy_anchors_ok m"
proof -
  have "\<not> tlsTrustStore_IsLegacySnapshotValid (legacy_view m x bank)"
    if "bank \<in> {FLASH_LAYOUT_TLS_TRUST_STORE_LEGACY_BANK_A, FLASH_LAYOUT_TLS_TRUST_STORE_LEGACY_BANK_B}" for x bank
  proof -
    have "image_at m bank tl_snapshot_size = replicate 6556 0xFF"
      using reset_image [OF assms, of bank tl_snapshot_size] that by (auto simp: tl_snapshot_size_def)
    then have "ts_magic (legacy_view m x bank) = 0xFFFFFFFF"
      by (simp add: legacy_view_def dec_ts_snapshot_def)
    then show ?thesis
      by (rule magic_invalid(2))
  qed
  then show ?thesis
    by (auto simp: legacy_anchors_ok_def)
qed

lemma FactoryResetService_Recover_any:
  assumes "flash_ready f"
  shows "\<exists>f'. FactoryResetService_Recover f = (PLATFORM_STATUS_OK, f') \<and> flash_ready f'
    \<and> (if marker_set (nor_mem f) then reset_done (nor_mem f') else nor_mem f' = nor_mem f)"
proof (cases "marker_set (nor_mem f)")
  case True
  then show ?thesis
    using FactoryResetService_Recover_ready [OF assms] by auto
next
  case False
  obtain valid f1 where v: "factoryReset_MarkerValid f = (valid, f1)"
    by fastforce
  then show ?thesis
    using factoryReset_MarkerValid_outcome [OF v] assms False by (auto simp: FactoryResetService_Recover_def)
qed

section \<open>The device comes up\<close>

definition stores_well_formed :: "firmware \<Rightarrow> bool" where
  "stores_well_formed fw \<longleftrightarrow> flash_ready (fw_flash fw)
     \<and> trustStoreMutex (fw_trust fw) = Sem_Free \<and> ts_inv (trustStoreSnapshot (fw_trust fw))
     \<and> callbackConfigMutex (fw_callbackConfig fw) = Sem_Free \<and> callbackConfig_FieldsValid (cs_config (cb_snapshot (fw_callbackConfig fw)))
     \<and> wf_callback (cs_config (cb_snapshot (fw_callbackConfig fw)))
     \<and> hc_configMutex (fw_config fw) = Sem_Free \<and> wf_hc_snapshot (hc_snapshot (fw_config fw))
     \<and> HEALTH_CHECK_CONFIG_MIN_PERIOD_SECONDS \<le> hc_periodSeconds (hc_snapshot (fw_config fw))
     \<and> hc_periodSeconds (hc_snapshot (fw_config fw)) \<le> HEALTH_CHECK_CONFIG_MAX_PERIOD_SECONDS
     \<and> logMutex (fw_log fw) = Sem_Free \<and> (activeSector (fw_log fw) = 0 \<or> activeSector (fw_log fw) = 1)
     \<and> nextSlot (fw_log fw) < HEALTH_CHECK_LOG_SLOTS_PER_SECTOR
     \<and> (hasValidSnapshot (fw_credentials fw) \<longrightarrow> tlsServerCredentials_IsValid (sc_snapshot (fw_credentials fw)))"

lemma startup_Stores_well_formed:
  assumes "ko_trustMutex ko" and "ko_callbackMutex ko" and "ko_configMutex ko" and "ko_logMutex ko"
    and "flash_ready (fw_flash fw)" and "legacy_anchors_ok (nor_mem (fw_flash fw))" and "wf_ts_snapshot (trustStoreSnapshot (fw_trust fw))"
  shows "\<exists>fw'. startup_Stores ko fw = (True, fw') \<and> stores_well_formed fw' \<and> fw_buzzer fw' = fw_buzzer fw"
proof -
  obtain ts f1 where i1: "TlsTrustStore_Init True (fw_trust fw) (fw_flash fw) = (PLATFORM_STATUS_OK, ts, f1)" "flash_ready f1"
      "trustStoreMutex ts = Sem_Free" "ts_inv (trustStoreSnapshot ts)"
    using TlsTrustStore_Init_valid [OF assms(5,6,7)] by blast
  obtain cb f2 where i2: "CallbackConfig_Init True (fw_callbackConfig fw) f1 = (PLATFORM_STATUS_OK, cb, f2)" "flash_ready f2"
      "callbackConfigMutex cb = Sem_Free" "callbackConfig_FieldsValid (cs_config (cb_snapshot cb))" "wf_callback (cs_config (cb_snapshot cb))"
    using CallbackConfig_Init_valid [OF i1(2)] by blast
  obtain hc f3 where i3: "HealthCheckConfig_Init True (fw_config fw) f2 = (PLATFORM_STATUS_OK, hc, f3)" "flash_ready f3"
      "hc_configMutex hc = Sem_Free" "wf_hc_snapshot (hc_snapshot hc)"
      "HEALTH_CHECK_CONFIG_MIN_PERIOD_SECONDS \<le> hc_periodSeconds (hc_snapshot hc)"
      "hc_periodSeconds (hc_snapshot hc) \<le> HEALTH_CHECK_CONFIG_MAX_PERIOD_SECONDS"
    using HealthCheckConfig_Init_valid [OF i2(2)] by blast
  obtain log f4 where i4: "HealthCheckLog_Init True (fw_log fw) f3 = (PLATFORM_STATUS_OK, log, f4)" "flash_ready f4"
      "logMutex log = Sem_Free" "activeSector log = 0 \<or> activeSector log = 1" "nextSlot log < HEALTH_CHECK_LOG_SLOTS_PER_SECTOR"
    using HealthCheckLog_Init_valid [OF i3(2)] by blast
  obtain sc f5 where i5: "TlsServerCredentials_Init (fw_credentials fw) f4 = (PLATFORM_STATUS_OK, sc, f5)" "flash_ready f5"
      "hasValidSnapshot sc \<longrightarrow> tlsServerCredentials_IsValid (sc_snapshot sc)"
    using TlsServerCredentials_Init_valid [OF i4(2)] by blast
  show ?thesis
    using assms(1-4) i1 i2 i3 i4 i5 by (simp add: startup_Stores_def stores_well_formed_def Let_def)
qed

definition all_created :: kernel_objects where
  "all_created = \<lparr>ko_flashMutex = True, ko_trustMutex = True, ko_callbackMutex = True, ko_configMutex = True, ko_logMutex = True,
     ko_buzzer = True, ko_buzzerSemaphore = True, ko_buzzerTask = True, ko_callbackQueue = True, ko_callbackTask = True,
     ko_apiTask = True, ko_temperatureMutex = True, ko_busMutex = True, ko_temperatureTask = True, ko_timeTask = True,
     ko_healthTask = True, ko_resetTask = True, ko_networkTask = True\<rparr>"

text \<open>The user store, as the API task loads it when it starts.\<close>

lemma UserStore_Init_valid:
  assumes "flash_ready f"
  shows "\<exists>us f'. UserStore_Init True us0 f = (PLATFORM_STATUS_OK, us, f') \<and> us_storeMutex us = Sem_Free
    \<and> wf_user_snapshot (us_snapshot us) \<and> unat (us_count (us_snapshot us)) \<le> USER_STORE_MAX_USERS"
proof -
  obtain f' where l: "user_ab.load f = (user_ab.newest (nor_mem f), f')"
    using user_ab.load_ready [OF assms] by blast
  have "wf_user_snapshot x \<and> unat (us_count x) \<le> USER_STORE_MAX_USERS" if "user_ab.newest (nor_mem f) = Some (x, a)" for x a
  proof -
    have x: "dec_user_snapshot (image_at (nor_mem f) a user_snapshot_size) = x" "userStore_IsValid x"
      using user_ab.newest_active [OF that] by simp_all
    have "wf_user_snapshot (dec_user_snapshot (image_at (nor_mem f) a user_snapshot_size))"
      by (rule wf_dec_user_snapshot) (simp add: image_at_def user_snapshot_size_def)
    then show ?thesis
      using x by (simp add: userStore_IsValid_def)
  qed
  moreover have "wf_user_snapshot zero_user_snapshot" "us_count zero_user_snapshot = 0"
    using user_inv_zero by (simp_all add: user_inv_def zero_user_snapshot_def)
  ultimately show ?thesis
    by (auto simp: UserStore_Init_ab l split: option.split)
qed

text \<open>
  C8: when the flash works, the kernel can create its objects, and the anchors of a trust store in the
  format of older firmware, if the flash holds one, are valid, the start-up task reaches its end,
  whatever else the flash holds, with or without an interrupted factory reset. The five stores it
  loads are then well-formed: the trust store, the callback and health-check configurations (bounded
  fields, terminated strings, a period of 60 to 1800 seconds), the log (an append position inside its
  sector) and the server credentials (a snapshot in use is valid); the mutexes are free and the
  services run. The user store is not among them: the API task loads it, which then succeeds too, with a
  well-formed snapshot. (The array lengths of the static trust-store structure are an assumption.)
\<close>

theorem startup_well_formed:
  assumes "flash_works (fw_flash fw)" and "legacy_anchors_ok (nor_mem (fw_flash fw))" and "wf_ts_snapshot (trustStoreSnapshot (fw_trust fw))"
  shows "\<exists>fw'. rtos_StartupTask all_created fw = (Startup_Ready, fw') \<and> stores_well_formed fw'
    \<and> buzzerTask (fw_buzzer fw') \<and> callbackQueue (fw_callbacks fw') = Some [] \<and> temperatureMutex (fw_temperature fw') = Sem_Free
    \<and> syncState (fw_time fw') = TIME_SYNC_IDLE
    \<and> (\<exists>us f. UserStore_Init True us0 (fw_flash fw') = (PLATFORM_STATUS_OK, us, f) \<and> us_storeMutex us = Sem_Free
        \<and> wf_user_snapshot (us_snapshot us) \<and> unat (us_count (us_snapshot us)) \<le> USER_STORE_MAX_USERS)"
proof -
  obtain f0 where f0: "W25Q64_Init True (fw_flash fw) = (PLATFORM_STATUS_OK, f0)" "flash_ready f0" "nor_mem f0 = nor_mem (fw_flash fw)"
    using W25Q64_Init_ready [OF assms(1)] by blast
  obtain f1 where f1: "FactoryResetService_Recover f0 = (PLATFORM_STATUS_OK, f1)" "flash_ready f1" "legacy_anchors_ok (nor_mem f1)"
    using FactoryResetService_Recover_any [OF f0(2)] reset_done_legacy assms(2) f0(3) by (metis (full_types))
  obtain fw2 where fw2: "startup_Stores all_created (fw\<lparr>fw_flash := f1\<rparr>) = (True, fw2)" "stores_well_formed fw2"
    using startup_Stores_well_formed [of all_created "fw\<lparr>fw_flash := f1\<rparr>"] f1(2,3) assms(3) by (auto simp: all_created_def)
  have "\<exists>fw3. startup_Services all_created fw2 = (True, fw3) \<and> stores_well_formed fw3
    \<and> buzzerTask (fw_buzzer fw3) \<and> callbackQueue (fw_callbacks fw3) = Some [] \<and> temperatureMutex (fw_temperature fw3) = Sem_Free
    \<and> syncState (fw_time fw3) = TIME_SYNC_IDLE"
    using fw2(2)
    by (simp add: startup_Services_def all_created_def BuzzerService_Init_def CallbackService_Init_def ApiService_Init_def
        TemperatureService_Init_def OneWire_Init_def TimeService_Init_def HealthCheckService_Init_def stores_well_formed_def Let_def)
  then obtain fw3 where fw3: "startup_Services all_created fw2 = (True, fw3)" "stores_well_formed fw3"
    "buzzerTask (fw_buzzer fw3)" "callbackQueue (fw_callbacks fw3) = Some []" "temperatureMutex (fw_temperature fw3) = Sem_Free"
    "syncState (fw_time fw3) = TIME_SYNC_IDLE"
    by blast
  have "rtos_StartupTask all_created fw = (Startup_Ready, fw3)"
    using f0(1) f1(1) fw2(1) fw3(1)
    by (auto simp: rtos_StartupTask_def FactoryResetService_Init_def all_created_def)
  moreover have "flash_ready (fw_flash fw3)"
    using fw3(2) by (simp add: stores_well_formed_def)
  ultimately show ?thesis
    using fw3(2-6) UserStore_Init_valid by blast
qed

text \<open>A device with erased flash.\<close>

definition idle_sensors :: temperature_service where
  "idle_sensors = \<lparr>tp_onewire = \<lparr>ow_bus = \<lparr>bus_history = [], bus_env = (\<lambda>_. True), bus_push_pull = False, bus_delays = []\<rparr>,
       oneWireDevices = [], oneWireDeviceCount = 0, oneWireMutex = Sem_Free\<rparr>,
     measurements = [], temperatureMutex = Sem_Free, lastSearchTick = 0\<rparr>"

definition new_device :: firmware where
  "new_device = \<lparr>fw_flash = blank_flash, fw_trust = empty_trust_store, fw_callbackConfig = sample_cb, fw_config = sample_hc, fw_log = sample_log,
     fw_credentials = blank_credentials, fw_buzzer = silent_buzzer, fw_callbacks = \<lparr>callbackQueue = None, callbackTaskRunning = False\<rparr>,
     fw_temperature = idle_sensors, fw_time = fresh_time_service\<rparr>"

theorem startup_well_formed_witness:
  "fst (rtos_StartupTask all_created new_device) = Startup_Ready"
proof -
  have "flash_works (fw_flash new_device)" "wf_ts_snapshot (trustStoreSnapshot (fw_trust new_device))"
    using ts_inv_zero by (simp_all add: flash_works_def new_device_def blank_flash_def empty_trust_store_def ts_inv_def)
  moreover have "legacy_anchors_ok (nor_mem (fw_flash new_device))"
    by (rule reset_done_legacy) (simp add: reset_done_def all_erased_def blank_flash_def new_device_def)
  ultimately show ?thesis
    using startup_well_formed [of new_device empty_user_store] by (metis fst_conv)
qed

end
