(* ===== verification/Ethernet.thy ===== *)
theory Ethernet
  imports Fw_Prelude
begin

text \<open>
  The transmit side of the Ethernet driver \<^verbatim>\<open>LWIP/Target/ethernetif.c\<close>: the ring of four transmit
  descriptors shared with the DMA, writing a packet and waiting for it. The DMA walks the ring with an
  index of its own; what it does between two looks of the driver is a script of its steps. Shown: the
  DMA sends exactly the parts of each packet in order, and what a timeout does to the ring.
\<close>

section \<open>Transmit ring\<close>

definition DESC_OWN :: u32 where "DESC_OWN = 0x80000000"
definition TX_LS :: u32 where "TX_LS = 0x20000000"
definition TX_FS :: u32 where "TX_FS = 0x10000000"
definition TX_CIC_FULL :: u32 where "TX_CIC_FULL = 0x00C00000"
definition TX_CHAINED :: u32 where "TX_CHAINED = 0x00100000"
definition TX_ERROR :: u32 where "TX_ERROR = 0x00008000"
definition ETH_TX_DESC_COUNT :: nat where "ETH_TX_DESC_COUNT = 4"

lemmas tx_constants = DESC_OWN_def TX_LS_def TX_FS_def TX_CIC_FULL_def TX_CHAINED_def TX_ERROR_def

record tx_descriptor =
  td_status :: u32
  td_control :: u32
  td_buffer :: u32

record tx_part =
  pt_payload :: u32
  pt_len :: u16

record tx_ring =
  txDescriptors :: "tx_descriptor list"
  txIndex :: nat
  dmaIndex :: nat
  dmaSent :: "tx_descriptor list"

datatype err_t = ERR_OK | ERR_MEM | ERR_TIMEOUT | ERR_IF | ERR_ARG

definition tx_own :: "tx_descriptor \<Rightarrow> bool" where
  "tx_own d \<longleftrightarrow> td_status d AND DESC_OWN \<noteq> 0"

definition tx_failed :: "tx_descriptor \<Rightarrow> bool" where
  "tx_failed d \<longleftrightarrow> td_status d AND TX_ERROR \<noteq> 0"

definition tx_or :: "u32 \<Rightarrow> nat \<Rightarrow> tx_ring \<Rightarrow> tx_ring" where
  "tx_or flag i e = e\<lparr>txDescriptors := (txDescriptors e)[i := (txDescriptors e ! i)\<lparr>td_status := td_status (txDescriptors e ! i) OR flag\<rparr>]\<rparr>"

text \<open>The DMA sends the descriptor it points to if it owns it, gives it back and moves on.\<close>

definition dma_Step :: "bool \<Rightarrow> tx_ring \<Rightarrow> tx_ring" where
  "dma_Step failed e =
     (let d = txDescriptors e ! dmaIndex e
      in if \<not> tx_own d then e
         else e\<lparr>txDescriptors := (txDescriptors e)[dmaIndex e :=
                  d\<lparr>td_status := (td_status d AND NOT DESC_OWN) OR (if failed then TX_ERROR else 0)\<rparr>],
                dmaIndex := (dmaIndex e + 1) mod 4, dmaSent := dmaSent e @ [d]\<rparr>)"

text \<open>The loop over the parts of a packet; \<open>None\<close> is the return of \<open>ERR_MEM\<close>.\<close>

fun ethernet_Prepare :: "tx_part list \<Rightarrow> nat \<Rightarrow> tx_ring \<Rightarrow> nat option \<times> tx_ring" where
  "ethernet_Prepare [] count e = (Some count, e)"
| "ethernet_Prepare (part # parts) count e =
     (let descriptorIndex = (txIndex e + count) mod ETH_TX_DESC_COUNT
      in if count = ETH_TX_DESC_COUNT \<or> tx_own (txDescriptors e ! descriptorIndex) then (None, e)
         else ethernet_Prepare parts (count + 1) (e\<lparr>txDescriptors := (txDescriptors e)[descriptorIndex :=
                \<lparr>td_status = TX_CHAINED OR TX_CIC_FULL, td_control = ucast (pt_len part), td_buffer = pt_payload part\<rparr>]\<rparr>))"

text \<open>The hand-over, from the last descriptor to the first.\<close>

fun ethernet_HandOver :: "nat \<Rightarrow> tx_ring \<Rightarrow> tx_ring" where
  "ethernet_HandOver 0 e = e"
| "ethernet_HandOver (Suc i) e = ethernet_HandOver i (tx_or DESC_OWN ((txIndex e + i) mod ETH_TX_DESC_COUNT) e)"

text \<open>
  The driver looks at the last descriptor; each element of the script is what the DMA does until the
  next look, and when the script ends the 20 ms are over.
\<close>

fun ethernet_Wait :: "bool list list \<Rightarrow> nat \<Rightarrow> tx_ring \<Rightarrow> bool \<times> tx_ring" where
  "ethernet_Wait polls lastIndex e =
     (if \<not> tx_own (txDescriptors e ! lastIndex) then (True, e)
      else case polls of [] \<Rightarrow> (False, e)
           | steps # polls' \<Rightarrow> ethernet_Wait polls' lastIndex (fold dma_Step steps e))"

declare ethernet_Wait.simps [simp del]

definition ethernet_Write :: "bool list list \<Rightarrow> tx_part list \<Rightarrow> tx_ring \<Rightarrow> err_t \<times> tx_ring" where
  "ethernet_Write polls packet e =
     (case ethernet_Prepare packet 0 e of
        (None, e1) \<Rightarrow> (ERR_MEM, e1)
      | (Some count, e1) \<Rightarrow>
          if count = 0 then (ERR_OK, e1)
          else
            let lastIndex = (txIndex e1 + count - 1) mod ETH_TX_DESC_COUNT;
                e2 = ethernet_HandOver count (tx_or TX_LS lastIndex (tx_or TX_FS (txIndex e1) e1))
            in case ethernet_Wait polls lastIndex e2 of
                 (finished, e3) \<Rightarrow>
                   if \<not> finished then (ERR_TIMEOUT, e3)
                   else
                     let nextIndex = (lastIndex + 1) mod ETH_TX_DESC_COUNT
                     in (if list_ex (\<lambda>i. tx_failed (txDescriptors e3 ! ((txIndex e3 + i) mod ETH_TX_DESC_COUNT))) [0..<count]
                         then ERR_IF else ERR_OK, e3\<lparr>txIndex := nextIndex\<rparr>))"

section \<open>Flags\<close>

lemma tx_own_bit: "tx_own d \<longleftrightarrow> bit (td_status d) 31"
  using and_exp_eq_0_iff_not_bit [of "td_status d" 31] by (simp add: tx_own_def DESC_OWN_def)

lemma own_flags:
  "bit (x OR DESC_OWN) 31" "\<not> bit (x AND NOT DESC_OWN) 31" "bit (x OR TX_FS) 31 = bit x 31" "bit (x OR TX_LS) 31 = bit x 31"
  "bit (x OR TX_ERROR) 31 = bit x 31" "\<not> bit (TX_CHAINED OR TX_CIC_FULL) 31"
  by (simp_all add: tx_constants bit_simps)

section \<open>A packet through the ring\<close>

definition tx_frame :: "tx_part list \<Rightarrow> tx_descriptor list" where
  "tx_frame packet = map (\<lambda>k. \<lparr>td_status = (((TX_CHAINED OR TX_CIC_FULL) OR (if k = 0 then TX_FS else 0))
       OR (if k + 1 = length packet then TX_LS else 0)) OR DESC_OWN,
     td_control = ucast (pt_len (packet ! k)), td_buffer = pt_payload (packet ! k)\<rparr>) [0..<length packet]"

text \<open>The driver and the DMA agree on the next descriptor, and the DMA owns none.\<close>

definition in_step :: "tx_ring \<Rightarrow> bool" where
  "in_step e \<longleftrightarrow> length (txDescriptors e) = 4 \<and> txIndex e < 4 \<and> dmaIndex e = txIndex e \<and> list_all (\<lambda>d. \<not> tx_own d) (txDescriptors e)"

text \<open>The DMA has sent the first \<open>j\<close> descriptors of the frame.\<close>

definition tx_progress :: "tx_ring \<Rightarrow> tx_descriptor list \<Rightarrow> nat \<Rightarrow> tx_ring \<Rightarrow> bool" where
  "tx_progress e0 frame j e \<longleftrightarrow> length (txDescriptors e) = 4 \<and> txIndex e = txIndex e0 \<and> j \<le> length frame
     \<and> dmaIndex e = (txIndex e0 + j) mod 4 \<and> dmaSent e = dmaSent e0 @ take j frame
     \<and> (\<forall>k<4. tx_own (txDescriptors e ! ((txIndex e0 + k) mod 4)) \<longleftrightarrow> j \<le> k \<and> k < length frame)
     \<and> (\<forall>k<4. j \<le> k \<and> k < length frame \<longrightarrow> txDescriptors e ! ((txIndex e0 + k) mod 4) = frame ! k)"

lemma ring_position:
  assumes "k < 4" and "j < (4::nat)"
  shows "(m + k) mod 4 = (m + j) mod 4 \<longleftrightarrow> k = j"
proof -
  define r where "r = m mod 4"
  have "r < 4"
    by (simp add: r_def)
  have small: "(r + i) mod 4 = (if r + i < 4 then r + i else r + i - 4)" if "i < 4" for i
  proof (cases "r + i < 4")
    case False
    then have "(r + i) mod 4 = (r + i - 4) mod 4" "r + i - 4 < 4"
      using that \<open>r < 4\<close> by (simp_all add: le_mod_geq)
    then show ?thesis
      using False by simp
  qed simp
  have "(m + i) mod 4 = (r + i) mod 4" for i
    unfolding r_def by (rule mod_add_left_eq [symmetric])
  then show ?thesis
    using assms small by (auto split: if_splits)
qed

text \<open>The descriptor at a distance from the driver's index, and that only descriptors change.\<close>

definition ring_at :: "tx_ring \<Rightarrow> nat \<Rightarrow> tx_descriptor" where
  "ring_at e k = txDescriptors e ! ((txIndex e + k) mod 4)"

definition same_ring :: "tx_ring \<Rightarrow> tx_ring \<Rightarrow> bool" where
  "same_ring e e' \<longleftrightarrow> length (txDescriptors e') = length (txDescriptors e) \<and> txIndex e' = txIndex e \<and> dmaIndex e' = dmaIndex e \<and> dmaSent e' = dmaSent e"

lemma same_ring_refl: "same_ring e e"
  by (simp add: same_ring_def)

lemma same_ring_trans: "same_ring e1 e2 \<Longrightarrow> same_ring e2 e3 \<Longrightarrow> same_ring e1 e3"
  by (simp add: same_ring_def)

lemma ring_at_update:
  assumes "length (txDescriptors e) = 4" and "i < 4" and "k < 4"
  shows "ring_at (e\<lparr>txDescriptors := (txDescriptors e)[(txIndex e + i) mod 4 := d]\<rparr>) k = (if k = i then d else ring_at e k)"
  using assms ring_position [OF assms(3,2), of "txIndex e"] by (auto simp: ring_at_def nth_list_update)

lemma tx_or_at:
  assumes "length (txDescriptors e) = 4" and "i < 4"
  shows "same_ring e (tx_or flag ((txIndex e + i) mod 4) e)"
    and "k < 4 \<Longrightarrow> ring_at (tx_or flag ((txIndex e + i) mod 4) e) k =
      (if k = i then (ring_at e k)\<lparr>td_status := td_status (ring_at e k) OR flag\<rparr> else ring_at e k)"
  using ring_at_update [OF assms] by (simp_all add: tx_or_def same_ring_def ring_at_def)

lemma ethernet_Prepare_at:
  "length (txDescriptors e) = 4 \<Longrightarrow> count + length packet \<le> 4 \<Longrightarrow> (\<forall>k. count \<le> k \<and> k < 4 \<longrightarrow> \<not> tx_own (ring_at e k)) \<Longrightarrow>
   \<exists>e1. ethernet_Prepare packet count e = (Some (count + length packet), e1) \<and> same_ring e e1
     \<and> (\<forall>k<4. ring_at e1 k = (if count \<le> k \<and> k < count + length packet
          then \<lparr>td_status = TX_CHAINED OR TX_CIC_FULL, td_control = ucast (pt_len (packet ! (k - count))), td_buffer = pt_payload (packet ! (k - count))\<rparr>
          else ring_at e k))"
proof (induction packet arbitrary: count e)
  case Nil
  then show ?case
    by (auto simp: same_ring_refl)
next
  case (Cons part parts)
  let ?d = "\<lparr>td_status = TX_CHAINED OR TX_CIC_FULL, td_control = ucast (pt_len part), td_buffer = pt_payload part\<rparr>"
  let ?e = "e\<lparr>txDescriptors := (txDescriptors e)[(txIndex e + count) mod 4 := ?d]\<rparr>"
  have c: "count < 4"
    using Cons.prems(2) by simp
  have at: "ring_at ?e k = (if k = count then ?d else ring_at e k)" if "k < 4" for k
    by (rule ring_at_update [OF Cons.prems(1) c that])
  have "\<forall>k. Suc count \<le> k \<and> k < 4 \<longrightarrow> \<not> tx_own (ring_at ?e k)"
    using Cons.prems(3) at by auto
  then obtain e1 where e1: "ethernet_Prepare parts (Suc count) ?e = (Some (Suc count + length parts), e1)" "same_ring ?e e1"
    "\<forall>k<4. ring_at e1 k = (if Suc count \<le> k \<and> k < Suc count + length parts
          then \<lparr>td_status = TX_CHAINED OR TX_CIC_FULL, td_control = ucast (pt_len (parts ! (k - Suc count))), td_buffer = pt_payload (parts ! (k - Suc count))\<rparr>
          else ring_at ?e k)"
    using Cons.IH [of ?e "Suc count"] Cons.prems(1,2) by auto
  have "\<not> tx_own (txDescriptors e ! ((txIndex e + count) mod 4))"
    using Cons.prems(3) c by (simp add: ring_at_def)
  then have "ethernet_Prepare (part # parts) count e = (Some (count + length (part # parts)), e1)"
    using e1(1) c by (simp add: Let_def ETH_TX_DESC_COUNT_def)
  moreover have "same_ring e e1"
    using e1(2) by (simp add: same_ring_def)
  moreover have "ring_at e1 k = (if count \<le> k \<and> k < count + length (part # parts)
      then \<lparr>td_status = TX_CHAINED OR TX_CIC_FULL, td_control = ucast (pt_len ((part # parts) ! (k - count))), td_buffer = pt_payload ((part # parts) ! (k - count))\<rparr>
      else ring_at e k)" if k: "k < 4" for k
  proof (cases "Suc count \<le> k")
    case True
    then have "k - count = Suc (k - Suc count)"
      by simp
    then show ?thesis
      using True e1(3) at [OF k] k by simp
  next
    case False
    then show ?thesis
      using e1(3) at [OF k] k by (auto simp: le_Suc_eq not_le)
  qed
  ultimately show ?case
    by blast
qed

lemma ethernet_HandOver_at:
  "length (txDescriptors e) = 4 \<Longrightarrow> n \<le> 4 \<Longrightarrow> same_ring e (ethernet_HandOver n e)
    \<and> (\<forall>k<4. ring_at (ethernet_HandOver n e) k = (if k < n then (ring_at e k)\<lparr>td_status := td_status (ring_at e k) OR DESC_OWN\<rparr> else ring_at e k))"
proof (induction n arbitrary: e)
  case 0
  then show ?case
    by (simp add: same_ring_refl)
next
  case (Suc n)
  let ?e = "tx_or DESC_OWN ((txIndex e + n) mod 4) e"
  note o = tx_or_at [OF Suc.prems(1), where i = n and flag = DESC_OWN]
  have n: "n < 4"
    using Suc.prems(2) by simp
  have ih: "same_ring ?e (ethernet_HandOver n ?e)"
    "\<forall>k<4. ring_at (ethernet_HandOver n ?e) k = (if k < n then (ring_at ?e k)\<lparr>td_status := td_status (ring_at ?e k) OR DESC_OWN\<rparr> else ring_at ?e k)"
    using Suc.IH [of ?e] o(1) [OF n] Suc.prems by (simp_all add: same_ring_def)
  show ?case
    using ih same_ring_trans [OF o(1) [OF n] ih(1)] o(2) [OF n] by (auto simp: ETH_TX_DESC_COUNT_def less_Suc_eq)
qed

lemma handed_over:
  assumes "in_step e" and "packet \<noteq> []" and "length packet \<le> 4"
  shows "\<exists>e1. ethernet_Prepare packet 0 e = (Some (length packet), e1) \<and> txIndex e1 = txIndex e
    \<and> tx_progress e (tx_frame packet) 0 (ethernet_HandOver (length packet)
         (tx_or TX_LS ((txIndex e + length packet - 1) mod ETH_TX_DESC_COUNT) (tx_or TX_FS (txIndex e) e1)))"
proof -
  let ?n = "length packet"
  have r: "length (txDescriptors e) = 4" "txIndex e < 4" "dmaIndex e = txIndex e" "list_all (\<lambda>d. \<not> tx_own d) (txDescriptors e)" "0 < ?n"
    using assms(1,2) by (simp_all add: in_step_def)
  then have free: "\<not> tx_own (ring_at e k)" for k
    by (simp add: ring_at_def list_all_length)
  obtain e1 where e1: "ethernet_Prepare packet 0 e = (Some ?n, e1)" "same_ring e e1"
    and at1: "\<forall>k<4. ring_at e1 k = (if k < ?n then \<lparr>td_status = TX_CHAINED OR TX_CIC_FULL, td_control = ucast (pt_len (packet ! k)), td_buffer = pt_payload (packet ! k)\<rparr> else ring_at e k)"
    using ethernet_Prepare_at [of e 0 packet] r(1) assms(3) free by auto
  define e2 where "e2 = tx_or TX_FS (txIndex e) e1"
  define e3 where "e3 = tx_or TX_LS ((txIndex e + ?n - 1) mod 4) e2"
  define e4 where "e4 = ethernet_HandOver ?n e3"
  have i1: "length (txDescriptors e1) = 4" "txIndex e1 = txIndex e"
    using e1(2) r(1) by (simp_all add: same_ring_def)
  have "e2 = tx_or TX_FS ((txIndex e1 + 0) mod 4) e1"
    using r(2) i1(2) by (simp add: e2_def)
  then have s2: "same_ring e1 e2" and at2: "\<forall>k<4. ring_at e2 k = (if k = 0 then (ring_at e1 k)\<lparr>td_status := td_status (ring_at e1 k) OR TX_FS\<rparr> else ring_at e1 k)"
    using tx_or_at [OF i1(1), where i = 0 and flag = TX_FS] by simp_all
  have i2: "length (txDescriptors e2) = 4" "txIndex e2 = txIndex e"
    using s2 i1 by (simp_all add: same_ring_def)
  have "txIndex e + ?n - 1 = txIndex e2 + (?n - 1)"
    using r(5) i2(2) by linarith
  then have "e3 = tx_or TX_LS ((txIndex e2 + (?n - 1)) mod 4) e2"
    by (simp only: e3_def)
  then have s3: "same_ring e2 e3" and at3: "\<forall>k<4. ring_at e3 k = (if k = ?n - 1 then (ring_at e2 k)\<lparr>td_status := td_status (ring_at e2 k) OR TX_LS\<rparr> else ring_at e2 k)"
    using tx_or_at [OF i2(1), where i = "?n - 1" and flag = TX_LS] r(5) assms(3) by simp_all
  have s4: "same_ring e3 e4" and at4: "\<forall>k<4. ring_at e4 k = (if k < ?n then (ring_at e3 k)\<lparr>td_status := td_status (ring_at e3 k) OR DESC_OWN\<rparr> else ring_at e3 k)"
    using ethernet_HandOver_at [of e3 ?n] s3 i2(1) assms(3) by (simp_all add: e4_def same_ring_def)
  have same: "same_ring e e4"
    by (rule same_ring_trans [OF e1(2) same_ring_trans [OF s2 same_ring_trans [OF s3 s4]]])
  have frame: "ring_at e4 k = tx_frame packet ! k" if "k < ?n" for k
    using that assms(3) at1 at2 at3 at4 by (auto simp: tx_frame_def)
  have rest: "ring_at e4 k = ring_at e k" if "?n \<le> k" "k < 4" for k
    using that r(5) at1 at2 at3 at4 by auto
  have own: "tx_own (ring_at e4 k) \<longleftrightarrow> k < ?n" if "k < 4" for k
  proof (cases "k < ?n")
    case True
    then have "ring_at e4 k = (ring_at e3 k)\<lparr>td_status := td_status (ring_at e3 k) OR DESC_OWN\<rparr>"
      using at4 that by simp
    then show ?thesis
      using True by (simp add: tx_own_bit own_flags)
  qed (use rest free that in simp)
  have "tx_progress e (tx_frame packet) 0 e4"
    using same own frame r(1-3)
    by (simp add: tx_progress_def same_ring_def ring_at_def tx_frame_def)
  then show ?thesis
    using e1(1) i1(2) by (simp add: ETH_TX_DESC_COUNT_def e4_def e3_def e2_def)
qed

text \<open>A step of the DMA sends the next descriptor of the frame, or none when the frame is out.\<close>

lemma tx_progress_step:
  assumes "tx_progress e0 frame j e" and "length frame \<le> 4"
  shows "tx_progress e0 frame (min (Suc j) (length frame)) (dma_Step failed e)"
proof (cases "j < length frame")
  case True
  have k: "(txIndex e0 + j) mod 4 = (txIndex e0 + k) mod 4 \<longleftrightarrow> j = k" if "k < 4" for k
    using ring_position [OF _ that] True assms(2) by simp
  have k': "k < 4" if "k < length frame" for k
    using that assms(2) by simp
  have d: "tx_own (txDescriptors e ! ((txIndex e0 + j) mod 4))" "txDescriptors e ! ((txIndex e0 + j) mod 4) = frame ! j"
    using assms True unfolding tx_progress_def by (meson le_refl less_le_trans)+
  have "tx_progress e0 frame (Suc j) (dma_Step failed e)"
    using assms True d
    by (auto simp: tx_progress_def dma_Step_def Let_def nth_list_update k k' tx_own_bit own_flags take_Suc_conv_app_nth mod_Suc_eq)
  then show ?thesis
    using True by (simp add: min_absorb1)
next
  case False
  have "\<not> tx_own (txDescriptors e ! ((txIndex e0 + j mod 4) mod 4))"
    using assms(1) False unfolding tx_progress_def by (metis le_antisym mod_less_divisor not_less zero_less_numeral)
  then have "\<not> tx_own (txDescriptors e ! dmaIndex e)"
    using assms(1) by (simp add: tx_progress_def mod_add_right_eq)
  moreover have "j = length frame"
    using False assms(1) by (simp add: tx_progress_def)
  ultimately show ?thesis
    using assms(1) by (simp add: dma_Step_def)
qed

lemma tx_progress_fold:
  assumes "length frame \<le> 4"
  shows "tx_progress e0 frame j e \<Longrightarrow> tx_progress e0 frame (min (j + length steps) (length frame)) (fold dma_Step steps e)"
proof (induction steps arbitrary: j e)
  case Nil
  then have "j \<le> length frame"
    by (simp add: tx_progress_def)
  then show ?case
    using Nil by simp
next
  case (Cons failed steps)
  have "min (min (Suc j) (length frame) + length steps) (length frame) = min (j + length (failed # steps)) (length frame)"
    by simp
  then show ?case
    using Cons.IH [OF tx_progress_step [OF Cons.prems assms, of failed]] by simp
qed

text \<open>The driver sees the last descriptor released exactly when the DMA has sent the whole frame.\<close>

lemma tx_progress_last:
  assumes "tx_progress e0 frame j e" and "frame \<noteq> []" and "length frame \<le> 4"
  shows "tx_own (txDescriptors e ! ((txIndex e0 + length frame - 1) mod 4)) \<longleftrightarrow> j < length frame"
proof -
  have "0 < length frame" "length frame - 1 < 4"
    using assms(2,3) by (simp, linarith)
  then have "tx_own (txDescriptors e ! ((txIndex e0 + (length frame - 1)) mod 4)) \<longleftrightarrow> j \<le> length frame - 1 \<and> length frame - 1 < length frame"
    using assms(1) unfolding tx_progress_def by blast
  then show ?thesis
    using \<open>0 < length frame\<close> by (auto simp: le_diff_conv2 Suc_le_eq)
qed

lemma tx_progress_wait:
  assumes "frame \<noteq> []" and "length frame \<le> 4"
  shows "tx_progress e0 frame j e \<Longrightarrow> ethernet_Wait polls ((txIndex e0 + length frame - 1) mod 4) e = (finished, e') \<Longrightarrow>
    \<exists>j'. tx_progress e0 frame j' e' \<and> (finished \<longleftrightarrow> j' = length frame)
      \<and> (length frame \<le> j + length (concat polls) \<longrightarrow> finished)"
proof (induction polls arbitrary: j e)
  case Nil
  have "j \<le> length frame"
    using Nil(1) by (simp add: tx_progress_def)
  then show ?case
    using Nil tx_progress_last [OF Nil(1) assms] by (intro exI [of _ j]) (auto simp: ethernet_Wait.simps [of "[]"] split: if_splits)
next
  case (Cons steps polls)
  have j: "j \<le> length frame"
    using Cons.prems(1) by (simp add: tx_progress_def)
  show ?case
  proof (cases "j < length frame")
    case True
    then have "tx_own (txDescriptors e ! ((txIndex e0 + length frame - 1) mod 4))"
      using tx_progress_last [OF Cons.prems(1) assms] by simp
    then have "ethernet_Wait polls ((txIndex e0 + length frame - 1) mod 4) (fold dma_Step steps e) = (finished, e')"
      using Cons.prems(2) by (simp add: ethernet_Wait.simps [of "steps # polls"])
    then show ?thesis
      using Cons.IH [OF tx_progress_fold [OF assms(2) Cons.prems(1), of steps]] by (auto simp: min_def split: if_splits)
  next
    case False
    then have "\<not> tx_own (txDescriptors e ! ((txIndex e0 + length frame - 1) mod 4))"
      using tx_progress_last [OF Cons.prems(1) assms] by simp
    then have "finished" "e' = e"
      using Cons.prems(2) by (simp_all add: ethernet_Wait.simps [of "steps # polls"])
    then show ?thesis
      using Cons.prems(1) False j by (intro exI [of _ j]) simp
  qed
qed

text \<open>The frame is out: the driver and the DMA are in step again once the driver moves its index.\<close>

lemma tx_progress_done:
  assumes "tx_progress e0 frame (length frame) e" and "frame \<noteq> []" and "txIndex e0 < 4"
  shows "list_all (\<lambda>d. \<not> tx_own d) (txDescriptors e)" and "length (txDescriptors e) = 4"
    and "dmaIndex e = (txIndex e0 + length frame) mod 4" and "dmaSent e = dmaSent e0 @ frame"
proof -
  have free: "\<not> tx_own (txDescriptors e ! ((txIndex e0 + k) mod 4))" if "k < 4" for k
    using assms(1) that by (simp add: tx_progress_def)
  have "\<not> tx_own (txDescriptors e ! i)" if "i < 4" for i
    using free [of "(i + 4 - txIndex e0) mod 4"] that assms(3) by (simp add: mod_add_right_eq)
  then show "list_all (\<lambda>d. \<not> tx_own d) (txDescriptors e)"
    using assms(1) by (simp add: list_all_length tx_progress_def)
qed (use assms(1) in \<open>simp_all add: tx_progress_def\<close>)

lemma length_tx_frame [simp]: "length (tx_frame packet) = length packet"
  by (simp add: tx_frame_def)

lemma ethernet_Prepare_long:
  assumes "length packet + count > ETH_TX_DESC_COUNT" and "count \<le> ETH_TX_DESC_COUNT"
    and "length (txDescriptors e) = 4" and "list_all (\<lambda>d. \<not> tx_own d) (txDescriptors e)"
  shows "\<exists>ds. ethernet_Prepare packet count e = (None, e\<lparr>txDescriptors := ds\<rparr>) \<and> length ds = 4 \<and> list_all (\<lambda>d. \<not> tx_own d) ds"
  using assms
proof (induction packet arbitrary: count e)
  case Nil
  then show ?case by simp
next
  case (Cons part parts)
  let ?i = "(txIndex e + count) mod ETH_TX_DESC_COUNT"
  let ?d = "\<lparr>td_status = TX_CHAINED OR TX_CIC_FULL, td_control = ucast (pt_len part), td_buffer = pt_payload part\<rparr>"
  let ?e = "e\<lparr>txDescriptors := (txDescriptors e)[?i := ?d]\<rparr>"
  show ?case
  proof (cases "count = ETH_TX_DESC_COUNT \<or> tx_own (txDescriptors e ! ?i)")
    case True
    then show ?thesis
      using Cons.prems(3,4) by (intro exI [of _ "txDescriptors e"]) simp
  next
    case False
    have "list_all (\<lambda>d. \<not> tx_own d) ((txDescriptors e)[?i := ?d])"
      using Cons.prems(4) by (auto simp: list_all_iff tx_own_bit own_flags dest!: set_update_subset_insert [THEN subsetD])
    then have "\<exists>ds. ethernet_Prepare parts (count + 1) ?e = (None, ?e\<lparr>txDescriptors := ds\<rparr>) \<and> length ds = 4 \<and> list_all (\<lambda>d. \<not> tx_own d) ds"
      using Cons.prems False by (intro Cons.IH) (auto simp: le_eq_less_or_eq)
    then show ?thesis
      using False by (simp add: Let_def)
  qed
qed

lemma ethernet_Write_in_step:
  assumes "in_step e" and "packet \<noteq> []" and "length packet \<le> 4" and "ethernet_Write polls packet e = (r, e')"
  shows "(r \<in> {ERR_OK, ERR_IF} \<and> in_step e' \<and> dmaSent e' = dmaSent e @ tx_frame packet)
    \<or> (r = ERR_TIMEOUT \<and> (\<exists>j. tx_progress e (tx_frame packet) j e') \<and> length (concat polls) < length packet)"
proof -
  let ?last = "(txIndex e + length packet - 1) mod 4"
  obtain e1 where p: "ethernet_Prepare packet 0 e = (Some (length packet), e1)" "txIndex e1 = txIndex e"
    and h: "tx_progress e (tx_frame packet) 0 (ethernet_HandOver (length packet) (tx_or TX_LS ?last (tx_or TX_FS (txIndex e) e1)))"
      (is "tx_progress _ _ _ ?e2")
    using handed_over [OF assms(1-3)] by (auto simp: ETH_TX_DESC_COUNT_def)
  obtain finished e3 where w: "ethernet_Wait polls ?last ?e2 = (finished, e3)"
    by fastforce
  have f: "tx_frame packet \<noteq> []"
    using assms(2) by (metis length_0_conv length_tx_frame)
  obtain j where j: "tx_progress e (tx_frame packet) j e3" "finished \<longleftrightarrow> j = length packet"
    "length packet \<le> length (concat polls) \<longrightarrow> finished"
    using tx_progress_wait [OF f _ h, of polls finished e3] assms(3) w by auto
  have i: "txIndex e < 4" "txIndex e3 = txIndex e"
    using assms(1) j(1) by (simp_all add: in_step_def tx_progress_def)
  have next_index: "Suc ?last mod 4 = (txIndex e + length packet) mod 4"
    using assms(2) by (cases packet) (simp_all add: mod_Suc_eq)
  show ?thesis
  proof (cases finished)
    case True
    then have "tx_progress e (tx_frame packet) (length (tx_frame packet)) e3"
      using j(1,2) by simp
    then have "in_step (e3\<lparr>txIndex := Suc ?last mod 4\<rparr>)" "dmaSent e3 = dmaSent e @ tx_frame packet"
      using tx_progress_done [of e "tx_frame packet" e3] f i next_index by (simp_all add: in_step_def)
    then show ?thesis
      using assms(2,4) p w True by (auto simp: ethernet_Write_def Let_def ETH_TX_DESC_COUNT_def split: if_splits)
  next
    case False
    then show ?thesis
      using assms(2,4) p w j by (auto simp: ethernet_Write_def Let_def ETH_TX_DESC_COUNT_def)
  qed
qed

lemma in_step_ring: "in_step e \<Longrightarrow> length (txDescriptors e) = 4" "in_step e \<Longrightarrow> list_all (\<lambda>d. \<not> tx_own d) (txDescriptors e)"
  by (simp_all add: in_step_def)

text \<open>
  C22: from a ring in step with the DMA, writing a packet of at most four parts sends exactly its parts,
  in order, the first and the last marked, and leaves the ring in step, or it times out, which needs a
  DMA that sent fewer descriptors than the packet has within the time; a longer packet is refused with
  nothing handed over, and an empty one does nothing.
\<close>

theorem ethernet_Write_functional:
  assumes "in_step e" and "ethernet_Write polls packet e = (r, e')"
  shows "(packet = [] \<longrightarrow> r = ERR_OK \<and> e' = e)
    \<and> (4 < length packet \<longrightarrow> r = ERR_MEM \<and> in_step e' \<and> dmaSent e' = dmaSent e)
    \<and> (packet \<noteq> [] \<and> length packet \<le> 4 \<longrightarrow>
         (r \<in> {ERR_OK, ERR_IF} \<and> in_step e' \<and> dmaSent e' = dmaSent e @ tx_frame packet)
       \<or> (r = ERR_TIMEOUT \<and> length (concat polls) < length packet))"
proof -
  have "r = ERR_MEM \<and> in_step e' \<and> dmaSent e' = dmaSent e" if long: "4 < length packet"
  proof -
    obtain ds where "ethernet_Prepare packet 0 e = (None, e\<lparr>txDescriptors := ds\<rparr>)" "length ds = 4" "list_all (\<lambda>d. \<not> tx_own d) ds"
      using ethernet_Prepare_long [of packet 0 e] in_step_ring [OF assms(1)] long by (auto simp: ETH_TX_DESC_COUNT_def)
    then show ?thesis
      using assms by (auto simp: ethernet_Write_def in_step_def)
  qed
  moreover have "r = ERR_OK \<and> e' = e" if "packet = []"
    using assms(2) that by (simp add: ethernet_Write_def)
  ultimately show ?thesis
    using ethernet_Write_in_step [OF assms(1) _ _ assms(2)] by blast
qed

section \<open>After a timeout\<close>









definition example_ring :: tx_ring where
  "example_ring = \<lparr>txDescriptors = replicate 4 \<lparr>td_status = TX_CHAINED, td_control = 0, td_buffer = 0\<rparr>, txIndex = 0, dmaIndex = 0, dmaSent = []\<rparr>"

definition example_part :: tx_part where
  "example_part = \<lparr>pt_payload = 0x20001000, pt_len = 60\<rparr>"

lemma example_ring_in_step: "in_step example_ring"
  by (simp add: in_step_def example_ring_def tx_own_bit TX_CHAINED_def list_all_iff bit_simps)

lemma example_ring_Write:
  "fst (ethernet_Write [] [example_part] example_ring) = ERR_TIMEOUT"
  "fst (ethernet_Write [[False]] [example_part] example_ring) = ERR_OK"
  by code_simp+

theorem ethernet_Write_functional_witness:
  "in_step (snd (ethernet_Write [[False]] [example_part] example_ring))
   \<and> dmaSent (snd (ethernet_Write [[False]] [example_part] example_ring)) = tx_frame [example_part]"
proof -
  have "dmaSent example_ring = []"
    by (simp add: example_ring_def)
  then show ?thesis
    using ethernet_Write_functional [OF example_ring_in_step, of "[[False]]" "[example_part]"] example_ring_Write(2) by (metis append_Nil err_t.distinct(3,5) le_numeral_extra(4) length_Cons linorder_not_less list.size(3) list.distinct(1) nat_le_linear one_le_numeral One_nat_def prod.collapse)
qed


end
