(* ===== verification/Ethernet_Input.thy ===== *)
theory Ethernet_Input
  imports Ethernet
begin

text \<open>
  The receive side of \<^verbatim>\<open>LWIP/Target/ethernetif.c\<close> with its pool of packet buffers, the set-up of the
  rings, the MAC address and the link check. Shown: no receive buffer is lost or used twice, a packet
  passed on fits its buffer, draining the ring ends, and the link flags of the interface agree with the
  state of the MAC and its DMA.
\<close>

section \<open>Receive ring\<close>

definition ETH_RX_DESC_COUNT :: nat where "ETH_RX_DESC_COUNT = 4"
definition ETH_RX_BUFFER_SIZE :: u32 where "ETH_RX_BUFFER_SIZE = 1536"
definition RX_FRAME_LEN :: u32 where "RX_FRAME_LEN = 0x3FFF0000"
definition RX_ERROR :: u32 where "RX_ERROR = 0x00008000"
definition RX_FS :: u32 where "RX_FS = 0x00000200"
definition RX_LS :: u32 where "RX_LS = 0x00000100"
definition RX_CHAINED :: u32 where "RX_CHAINED = 0x00004000"

record rx_descriptor =
  rd_status :: u32
  rd_control :: u32
  rd_buffer :: u32

text \<open>
  A packet buffer is named by the address of its payload, from which the sources compute the address
  of its \<open>pbuf\<close> and back. The memory pool is lwIP's; its two operations are arguments.
\<close>

record rx_packet =
  rp_buffer :: u32
  rp_len :: u16

record 'p rx_ring =
  rxDescriptors :: "rx_descriptor list"
  rxIndex :: nat
  rxPool :: 'p

type_synonym 'p mempool_alloc = "'p \<Rightarrow> u32 option \<times> 'p"
type_synonym 'p mempool_free = "u32 \<Rightarrow> 'p \<Rightarrow> 'p"

definition ethernet_AllocateRxBuffer :: "'p mempool_alloc \<Rightarrow> 'p rx_ring \<Rightarrow> u32 option \<times> 'p rx_ring" where
  "ethernet_AllocateRxBuffer alloc r = (case alloc (rxPool r) of (b, p) \<Rightarrow> (b, r\<lparr>rxPool := p\<rparr>))"

definition ethernet_FreeRxBuffer :: "'p mempool_free \<Rightarrow> u32 \<Rightarrow> 'p rx_ring \<Rightarrow> 'p rx_ring" where
  "ethernet_FreeRxBuffer release b r = r\<lparr>rxPool := release b (rxPool r)\<rparr>"

definition rx_own :: "rx_descriptor \<Rightarrow> bool" where
  "rx_own d \<longleftrightarrow> rd_status d AND DESC_OWN \<noteq> 0"

definition ethernet_Read :: "'p mempool_alloc \<Rightarrow> 'p mempool_free \<Rightarrow> 'p rx_ring \<Rightarrow> rx_packet option \<times> 'p rx_ring" where
  "ethernet_Read alloc release r =
     (let descriptor = rxDescriptors r ! rxIndex r
      in if rx_own descriptor then (None, r)
         else
           let status = rd_status descriptor;
               len = ucast (drop_bit 16 (status AND RX_FRAME_LEN)) :: u16;
               give = (\<lambda>buffer r. r\<lparr>rxDescriptors := (rxDescriptors r)[rxIndex r := descriptor\<lparr>rd_status := DESC_OWN, rd_buffer := buffer\<rparr>],
                                  rxIndex := (rxIndex r + 1) mod ETH_RX_DESC_COUNT\<rparr>)
           in case ethernet_AllocateRxBuffer alloc r of
                (None, r1) \<Rightarrow> (None, give (rd_buffer descriptor) r1)
              | (Some replacement, r1) \<Rightarrow>
                  if status AND (RX_ERROR OR RX_FS OR RX_LS) = (RX_FS OR RX_LS) \<and> ucast len \<le> ETH_RX_BUFFER_SIZE
                  then (Some \<lparr>rp_buffer = rd_buffer descriptor, rp_len = len\<rparr>, give replacement r1)
                  else (None, give (rd_buffer descriptor) (ethernet_FreeRxBuffer release replacement r1)))"

text \<open>
  The loop of \<open>ethernetif_input\<close> with a bound on its rounds; \<open>netif->input\<close> is an argument that
  answers whether the stack took the packet.
\<close>

fun ethernetif_input :: "'p mempool_alloc \<Rightarrow> 'p mempool_free \<Rightarrow> (rx_packet \<Rightarrow> bool) \<Rightarrow> nat \<Rightarrow> 'p rx_ring \<Rightarrow> (rx_packet list \<times> 'p rx_ring) option" where
  "ethernetif_input alloc release input_ok 0 r = None"
| "ethernetif_input alloc release input_ok (Suc fuel) r =
     (case ethernet_Read alloc release r of
        (None, r1) \<Rightarrow> Some ([], r1)
      | (Some packet, r1) \<Rightarrow>
          if input_ok packet
          then map_option (\<lambda>(taken, r2). (packet # taken, r2)) (ethernetif_input alloc release input_ok fuel r1)
          else ethernetif_input alloc release input_ok fuel (ethernet_FreeRxBuffer release (rp_buffer packet) r1))"

text \<open>What lwIP documents of a memory pool: an element is handed out only while it is free.\<close>

definition mempool :: "'p mempool_alloc \<Rightarrow> 'p mempool_free \<Rightarrow> ('p \<Rightarrow> u32 set) \<Rightarrow> bool" where
  "mempool alloc release elems \<longleftrightarrow>
     (\<forall>p b p'. alloc p = (Some b, p') \<longrightarrow> b \<in> elems p \<and> elems p' = elems p - {b})
     \<and> (\<forall>p p'. alloc p = (None, p') \<longrightarrow> elems p' = elems p)
     \<and> (\<forall>p b. elems (release b p) = insert b (elems p))"

lemma mempool_alloc: "mempool alloc release elems \<Longrightarrow> alloc p = (Some b, p') \<Longrightarrow> b \<in> elems p \<and> elems p' = elems p - {b}"
  by (simp add: mempool_def)

definition rx_buffers :: "'p rx_ring \<Rightarrow> u32 list" where
  "rx_buffers r = map rd_buffer (rxDescriptors r)"

definition rx_wf :: "('p \<Rightarrow> u32 set) \<Rightarrow> 'p rx_ring \<Rightarrow> bool" where
  "rx_wf elems r \<longleftrightarrow> length (rxDescriptors r) = 4 \<and> rxIndex r < 4 \<and> distinct (rx_buffers r) \<and> set (rx_buffers r) \<inter> elems (rxPool r) = {}"

text \<open>The buffers the driver is responsible for.\<close>

definition rx_owned :: "('p \<Rightarrow> u32 set) \<Rightarrow> 'p rx_ring \<Rightarrow> u32 set" where
  "rx_owned elems r = set (rx_buffers r) \<union> elems (rxPool r)"

lemmas rx_defs = rx_wf_def rx_owned_def rx_buffers_def

lemma map_buffer_update: "map rd_buffer (ds[i := d\<lparr>rd_status := x, rd_buffer := b\<rparr>]) = (map rd_buffer ds)[i := b]"
  by (simp add: map_update)

lemma set_update_distinct:
  assumes "distinct xs" and "i < length xs"
  shows "set (xs[i := y]) = insert y (set xs - {xs ! i})"
  using assms by (auto simp: set_conv_nth nth_list_update distinct_conv_nth)

lemma ethernet_Read_cases:
  fixes r :: "'p rx_ring"
  assumes "ethernet_Read alloc release r = (packet, r')"
  obtains "rx_own (rxDescriptors r ! rxIndex r)" "packet = None" "r' = r"
    | p where "\<not> rx_own (rxDescriptors r ! rxIndex r)" "alloc (rxPool r) = (None, p)" "packet = None"
        "r' = \<lparr>rxDescriptors = (rxDescriptors r)[rxIndex r := (rxDescriptors r ! rxIndex r)\<lparr>rd_status := DESC_OWN\<rparr>], rxIndex = (rxIndex r + 1) mod 4, rxPool = p\<rparr>"
    | b p where "\<not> rx_own (rxDescriptors r ! rxIndex r)" "alloc (rxPool r) = (Some b, p)" "packet = None"
        "r' = \<lparr>rxDescriptors = (rxDescriptors r)[rxIndex r := (rxDescriptors r ! rxIndex r)\<lparr>rd_status := DESC_OWN\<rparr>], rxIndex = (rxIndex r + 1) mod 4, rxPool = release b p\<rparr>"
    | b p len where "\<not> rx_own (rxDescriptors r ! rxIndex r)" "alloc (rxPool r) = (Some b, p)"
        "packet = Some \<lparr>rp_buffer = rd_buffer (rxDescriptors r ! rxIndex r), rp_len = len\<rparr>" "ucast len \<le> ETH_RX_BUFFER_SIZE"
        "r' = \<lparr>rxDescriptors = (rxDescriptors r)[rxIndex r := (rxDescriptors r ! rxIndex r)\<lparr>rd_status := DESC_OWN, rd_buffer := b\<rparr>], rxIndex = (rxIndex r + 1) mod 4, rxPool = p\<rparr>"
proof -
  obtain ob p where a: "alloc (rxPool r) = (ob, p)"
    by fastforce
  show thesis
  proof (cases ob)
    case None
    then show thesis
      using assms a that(1,2) by (cases r) (auto simp: ethernet_Read_def Let_def ethernet_AllocateRxBuffer_def ETH_RX_DESC_COUNT_def split: if_splits)
  next
    case (Some b)
    then show thesis
      using assms a that(1) that(3) [of b p] that(4) [of b p]
      by (cases r) (auto simp: ethernet_Read_def Let_def ethernet_AllocateRxBuffer_def ethernet_FreeRxBuffer_def ETH_RX_DESC_COUNT_def split: if_splits)
  qed
qed

text \<open>One read keeps every buffer in exactly one place.\<close>

lemma ethernet_Read_conserves:
  assumes pool: "mempool alloc release elems" and wf: "rx_wf elems r" and read: "ethernet_Read alloc release r = (packet, r')"
  shows "rx_wf elems r'"
    and "packet = None \<Longrightarrow> rx_owned elems r' = rx_owned elems r"
    and "packet = Some q \<Longrightarrow> rp_buffer q \<notin> rx_owned elems r' \<and> rx_owned elems r = insert (rp_buffer q) (rx_owned elems r')
       \<and> ucast (rp_len q) \<le> ETH_RX_BUFFER_SIZE"
proof -
  let ?i = "rxIndex r" and ?bs = "rx_buffers r"
  have i: "?i < length ?bs" and d: "distinct ?bs" and disj: "set ?bs \<inter> elems (rxPool r) = {}" and len: "length ?bs = 4"
    using wf by (simp_all add: rx_defs)
  have same: "?bs[?i := rd_buffer (rxDescriptors r ! ?i)] = ?bs"
    using i by (simp add: rx_buffers_def flip: nth_map)
  have kept: "rx_buffers \<lparr>rxDescriptors = (rxDescriptors r)[?i := (rxDescriptors r ! ?i)\<lparr>rd_status := DESC_OWN\<rparr>], rxIndex = n, rxPool = p\<rparr> = ?bs" for n p
    using same by (simp add: map_update rx_buffers_def)
  have old: "rd_buffer (rxDescriptors r ! ?i) = ?bs ! ?i"
    using i by (simp add: rx_buffers_def)
  from read have "rx_wf elems r' \<and> (packet = None \<longrightarrow> rx_owned elems r' = rx_owned elems r) \<and>
    (packet = Some q \<longrightarrow> rp_buffer q \<notin> rx_owned elems r' \<and> rx_owned elems r = insert (rp_buffer q) (rx_owned elems r')
       \<and> ucast (rp_len q) \<le> ETH_RX_BUFFER_SIZE)"
  proof (cases rule: ethernet_Read_cases)
    case 1
    then show ?thesis
      using wf by simp
  next
    case (2 p)
    then have "elems p = elems (rxPool r)"
      using pool by (simp add: mempool_def)
    then show ?thesis
      using 2 d disj len by (simp add: rx_wf_def rx_owned_def kept, simp add: rx_buffers_def)
  next
    case (3 b p)
    then have "elems (release b p) = elems (rxPool r)"
      using pool by (auto simp: mempool_def)
    then show ?thesis
      using 3 d disj len by (simp add: rx_wf_def rx_owned_def kept, simp add: rx_buffers_def)
  next
    case (4 b p l)
    then have b: "b \<in> elems (rxPool r)" "elems p = elems (rxPool r) - {b}"
      using pool by (auto simp: mempool_def)
    have r': "rx_buffers r' = ?bs[?i := b]"
      using 4 by (simp add: rx_buffers_def map_update)
    have "distinct (?bs[?i := b])"
      using d b disj by (intro distinct_list_update) auto
    moreover have "set (?bs[?i := b]) = insert b (set ?bs - {?bs ! ?i})"
      by (rule set_update_distinct [OF d i])
    moreover have "length (rxDescriptors r') = 4" "rxIndex r' < 4" "rxPool r' = p" "rp_buffer (the packet) = ?bs ! ?i"
      using 4 len old by (simp_all add: rx_buffers_def)
    ultimately have wf': "rx_wf elems r'" and o: "rx_owned elems r' = insert b (set ?bs - {?bs ! ?i}) \<union> (elems (rxPool r) - {b})"
      using b disj by (auto simp: rx_wf_def rx_owned_def r')
    have m: "?bs ! ?i \<in> set ?bs"
      by (rule nth_mem [OF i])
    then have "?bs ! ?i \<notin> elems (rxPool r)"
      using disj by blast
    then have "?bs ! ?i \<notin> rx_owned elems r'" "rx_owned elems r = insert (?bs ! ?i) (rx_owned elems r')"
      using m b(1) unfolding o rx_owned_def [of elems r] by blast+
    moreover have "q = \<lparr>rp_buffer = ?bs ! ?i, rp_len = l\<rparr>" if "packet = Some q"
      using that 4(3) old by simp
    ultimately show ?thesis
      using 4(3,4) wf' by force
  qed
  then show "rx_wf elems r'" "packet = None \<Longrightarrow> rx_owned elems r' = rx_owned elems r"
    "packet = Some q \<Longrightarrow> rp_buffer q \<notin> rx_owned elems r' \<and> rx_owned elems r = insert (rp_buffer q) (rx_owned elems r')
       \<and> ucast (rp_len q) \<le> ETH_RX_BUFFER_SIZE"
    by auto
qed

text \<open>The descriptors the DMA has filled, which a read that passes a packet on reduces.\<close>

definition rx_filled :: "'p rx_ring \<Rightarrow> nat" where
  "rx_filled r = length (filter (\<lambda>d. \<not> rx_own d) (rxDescriptors r))"

lemma filter_update_less:
  assumes "i < length xs" and "P (xs ! i)" and "\<not> P y"
  shows "length (filter P (xs[i := y])) < length (filter P xs)"
  using assms by (induction xs arbitrary: i) (auto simp: nth_Cons split: nat.splits)

lemma ethernet_Read_filled:
  assumes "rx_wf elems r" and "ethernet_Read alloc release r = (Some q, r')"
  shows "rx_filled r' < rx_filled r"
  using assms(2)
  by (cases rule: ethernet_Read_cases)
    (use assms(1) in \<open>auto simp: rx_filled_def rx_own_def DESC_OWN_def rx_wf_def intro!: filter_update_less\<close>)

lemma ethernet_FreeRxBuffer_conserves:
  assumes "mempool alloc release elems" and "rx_wf elems r" and "b \<notin> rx_owned elems r"
  shows "rx_wf elems (ethernet_FreeRxBuffer release b r)" and "rx_owned elems (ethernet_FreeRxBuffer release b r) = insert b (rx_owned elems r)"
    and "rx_filled (ethernet_FreeRxBuffer release b r) = rx_filled r"
  using assms by (auto simp: ethernet_FreeRxBuffer_def mempool_def rx_defs rx_filled_def)

lemma ethernetif_input_conserves:
  assumes pool: "mempool alloc release elems"
  shows "rx_wf elems r \<Longrightarrow> rx_filled r < fuel \<Longrightarrow> \<exists>taken r'. ethernetif_input alloc release input_ok fuel r = Some (taken, r') \<and> rx_wf elems r'
    \<and> distinct (map rp_buffer taken) \<and> set (map rp_buffer taken) \<inter> rx_owned elems r' = {}
    \<and> set (map rp_buffer taken) \<union> rx_owned elems r' = rx_owned elems r
    \<and> list_all (\<lambda>q. ucast (rp_len q) \<le> ETH_RX_BUFFER_SIZE \<and> input_ok q) taken"
proof (induction fuel arbitrary: r)
  case 0
  then show ?case by simp
next
  case (Suc fuel)
  obtain packet r1 where read: "ethernet_Read alloc release r = (packet, r1)"
    by fastforce
  note kept = ethernet_Read_conserves [OF pool Suc.prems(1) read]
  show ?case
  proof (cases packet)
    case None
    then show ?thesis
      using read kept(1,2) by simp
  next
    case (Some q)
    then have less: "rx_filled r1 < fuel"
      using ethernet_Read_filled [OF Suc.prems(1)] read Suc.prems(2) by fastforce
    show ?thesis
    proof (cases "input_ok q")
      case True
      then show ?thesis
        using Suc.IH [OF kept(1) less] kept(3) [OF Some] read Some by (fastforce simp: disjoint_iff)
    next
      case False
      note free = ethernet_FreeRxBuffer_conserves [OF pool kept(1), of "rp_buffer q"]
      show ?thesis
        using Suc.IH [OF free(1)] free(2,3) less kept(3) [OF Some] read Some False by simp
    qed
  qed
qed

lemma rx_filled_le: "rx_wf elems r \<Longrightarrow> rx_filled r \<le> 4"
  using length_filter_le [of "\<lambda>d. \<not> rx_own d" "rxDescriptors r"] by (simp add: rx_filled_def rx_wf_def)

text \<open>
  C21: draining the receive ring ends after at most five reads; every buffer the driver had is
  afterwards in exactly one place: in a descriptor, in the pool, or in a packet the stack took, whose
  length fits its buffer. So reception loses no buffer and never lets the DMA write into a packet that
  the stack still reads.
\<close>

theorem ethernetif_input_conserves_buffers:
  assumes "mempool alloc release elems" and "rx_wf elems r"
  shows "\<exists>taken r'. ethernetif_input alloc release input_ok 5 r = Some (taken, r') \<and> rx_wf elems r'
    \<and> distinct (map rp_buffer taken) \<and> set (map rp_buffer taken) \<inter> rx_owned elems r' = {}
    \<and> set (map rp_buffer taken) \<union> rx_owned elems r' = rx_owned elems r
    \<and> list_all (\<lambda>q. ucast (rp_len q) \<le> ETH_RX_BUFFER_SIZE \<and> input_ok q) taken"
  using ethernetif_input_conserves [OF assms, of 5] rx_filled_le [OF assms(2)] by simp

fun example_alloc :: "u32 list \<Rightarrow> u32 option \<times> u32 list" where
  "example_alloc [] = (None, [])"
| "example_alloc (b # bs) = (Some b, removeAll b bs)"

lemma example_mempool: "mempool example_alloc (#) set"
  unfolding mempool_def by (auto elim!: example_alloc.elims)

definition example_rx :: "u32 list rx_ring" where
  "example_rx = \<lparr>rxDescriptors = map (\<lambda>b. \<lparr>rd_status = 0x00400300, rd_control = RX_CHAINED OR ETH_RX_BUFFER_SIZE, rd_buffer = b\<rparr>) [0x1000, 0x2000, 0x3000, 0x4000],
     rxIndex = 0, rxPool = [0x5000]\<rparr>"

theorem ethernetif_input_conserves_buffers_witness:
  "\<exists>taken r'. ethernetif_input example_alloc (#) (\<lambda>_. True) 5 example_rx = Some (taken, r')
    \<and> set (map rp_buffer taken) \<union> rx_owned set r' = {0x1000, 0x2000, 0x3000, 0x4000, 0x5000}"
proof -
  have "rx_wf set example_rx" "rx_owned set example_rx = {0x1000, 0x2000, 0x3000, 0x4000, 0x5000}"
    by (auto simp: example_rx_def rx_defs)
  then show ?thesis
    using ethernetif_input_conserves_buffers [OF example_mempool, of example_rx "\<lambda>_. True"] by metis
qed

section \<open>Link state\<close>

text \<open>
  The bits of \<open>ETH->MACCR\<close> and \<open>ETH->DMAOMR\<close> that the driver changes after the set-up, and the two flags of
  the lwIP interface. The answers of the PHY driver \<^verbatim>\<open>dp83848.h\<close> are integers that are not part of the
  repository; they are a record of parameters.
\<close>

record mac_control =
  maccr_FES :: bool
  maccr_DM :: bool
  maccr_TE :: bool
  maccr_RE :: bool
  dmaomr_ST :: bool
  dmaomr_SR :: bool

record netif =
  netif_up :: bool
  netif_link_up :: bool

record dp83848 =
  LINK_DOWN :: int
  FULL_100 :: int
  HALF_100 :: int
  FULL_10 :: int

definition ethernet_Start :: "mac_control \<Rightarrow> mac_control" where
  "ethernet_Start m = m\<lparr>maccr_TE := True, maccr_RE := True, dmaomr_ST := True, dmaomr_SR := True\<rparr>"

definition ethernet_Stop :: "mac_control \<Rightarrow> mac_control" where
  "ethernet_Stop m = m\<lparr>dmaomr_ST := False, dmaomr_SR := False, maccr_TE := False, maccr_RE := False\<rparr>"

definition ethernet_link_check_state :: "dp83848 \<Rightarrow> int \<Rightarrow> netif \<times> mac_control \<Rightarrow> netif \<times> mac_control" where
  "ethernet_link_check_state phy link s =
     (case s of (n, m) \<Rightarrow>
        if netif_link_up n \<and> link \<le> LINK_DOWN phy
        then (n\<lparr>netif_up := False, netif_link_up := False\<rparr>, ethernet_Stop m)
        else if netif_link_up n \<or> link \<le> LINK_DOWN phy then (n, m)
        else (n\<lparr>netif_up := True, netif_link_up := True\<rparr>,
              ethernet_Start (m\<lparr>maccr_FES := (link = FULL_100 phy \<or> link = HALF_100 phy),
                               maccr_DM := (link = FULL_100 phy \<or> link = FULL_10 phy)\<rparr>)))"

definition mac_running :: "bool \<Rightarrow> mac_control \<Rightarrow> bool" where
  "mac_running on m \<longleftrightarrow> maccr_TE m = on \<and> maccr_RE m = on \<and> dmaomr_ST m = on \<and> dmaomr_SR m = on"

definition link_agrees :: "netif \<times> mac_control \<Rightarrow> bool" where
  "link_agrees s \<longleftrightarrow> (case s of (n, m) \<Rightarrow> netif_up n = netif_link_up n \<and> mac_running (netif_link_up n) m)"

section \<open>PHY registers\<close>

text \<open>
  Reading and writing a register of the PHY over the management interface. Each script says whether the
  interface is busy at one look after the other; when it ends, the 100 ms are over. The registers of the
  PHY are a function of device and register number. \<open>None\<close> is the result \<open>-1\<close>.
\<close>

fun phy_Wait :: "bool list \<Rightarrow> bool" where
  "phy_Wait [] = False"
| "phy_Wait (busy # polls) = (if busy then phy_Wait polls else True)"

definition phy_Read :: "bool list \<Rightarrow> bool list \<Rightarrow> u32 \<Rightarrow> u32 \<Rightarrow> (u32 \<times> u32 \<Rightarrow> u32) \<Rightarrow> u32 option" where
  "phy_Read before after device reg phyRegisters =
     (if \<not> phy_Wait before then None else if \<not> phy_Wait after then None else Some (phyRegisters (device, reg)))"

definition phy_Write :: "bool list \<Rightarrow> bool list \<Rightarrow> u32 \<Rightarrow> u32 \<Rightarrow> u32 \<Rightarrow> (u32 \<times> u32 \<Rightarrow> u32) \<Rightarrow> bool \<times> (u32 \<times> u32 \<Rightarrow> u32)" where
  "phy_Write before after device reg value phyRegisters =
     (if \<not> phy_Wait before then (False, phyRegisters)
      else (phy_Wait after, phyRegisters((device, reg) := value)))"

section \<open>Set-up\<close>

definition macAddress :: "u32 \<Rightarrow> u32 \<Rightarrow> u32 \<Rightarrow> u8 list" where
  "macAddress uid0 uid1 uid2 =
     [0x02, ucast (drop_bit 8 uid0), ucast (drop_bit 24 uid0), ucast (uid1 XOR drop_bit 16 uid2),
      ucast (drop_bit 16 uid1 XOR uid2), ucast (drop_bit 16 uid0 XOR drop_bit 8 uid2)]"

fun ethernet_FillRx :: "'p mempool_alloc \<Rightarrow> nat list \<Rightarrow> 'p rx_ring \<Rightarrow> Platform_StatusTypeDef \<times> 'p rx_ring" where
  "ethernet_FillRx alloc [] r = (PLATFORM_STATUS_OK, r)"
| "ethernet_FillRx alloc (i # is) r =
     (case ethernet_AllocateRxBuffer alloc r of
        (None, r1) \<Rightarrow> (PLATFORM_STATUS_ERROR, r1)
      | (Some buffer, r1) \<Rightarrow>
          ethernet_FillRx alloc is (r1\<lparr>rxDescriptors := (rxDescriptors r1)[i :=
            \<lparr>rd_status = DESC_OWN, rd_control = RX_CHAINED OR ETH_RX_BUFFER_SIZE, rd_buffer = buffer\<rparr>]\<rparr>))"

record 'p ethernet =
  eth_rx :: "'p rx_ring"
  eth_tx :: tx_ring
  eth_mac :: mac_control
  MACA0HR :: u32
  MACA0LR :: u32

text \<open>
  The pins and the fixed values of the filter, flow-control and bus-mode registers are not represented;
  \<open>DMATDLAR\<close> sets the position of the transmit DMA to the first descriptor.
\<close>

definition ethernet_HardwareInit :: "'p mempool_alloc \<Rightarrow> bool \<Rightarrow> u8 list \<Rightarrow> 'p ethernet \<Rightarrow> Platform_StatusTypeDef \<times> 'p ethernet" where
  "ethernet_HardwareInit alloc resetDone mac h =
     (if \<not> resetDone then (PLATFORM_STATUS_TIMEOUT, h)
      else
        let h1 = h\<lparr>eth_mac := \<lparr>maccr_FES = True, maccr_DM = True, maccr_TE = False, maccr_RE = False, dmaomr_ST = False, dmaomr_SR = False\<rparr>,
                   MACA0HR := push_bit 8 (ucast (mac ! 5)) OR ucast (mac ! 4),
                   MACA0LR := push_bit 24 (ucast (mac ! 3)) OR push_bit 16 (ucast (mac ! 2)) OR push_bit 8 (ucast (mac ! 1)) OR ucast (mac ! 0)\<rparr>
        in case ethernet_FillRx alloc [0..<ETH_RX_DESC_COUNT] (eth_rx h1) of
             (s, r) \<Rightarrow>
               if s \<noteq> PLATFORM_STATUS_OK then (s, h1\<lparr>eth_rx := r\<rparr>)
               else (PLATFORM_STATUS_OK,
                     h1\<lparr>eth_rx := r\<lparr>rxIndex := 0\<rparr>,
                        eth_tx := (eth_tx h1)\<lparr>txDescriptors := replicate ETH_TX_DESC_COUNT \<lparr>td_status = TX_CHAINED, td_control = 0, td_buffer = 0\<rparr>,
                                   txIndex := 0, dmaIndex := 0\<rparr>\<rparr>))"

text \<open>
  \<open>resetDone\<close>: the MAC left its reset in time. \<open>phyReady\<close>: the two calls of the PHY driver succeeded.
  \<open>link\<close>: its first answer on the link. The copy of the address, the MTU and the capability flags in the
  interface structure are constants and not represented.
\<close>

definition low_level_init :: "'p mempool_alloc \<Rightarrow> dp83848 \<Rightarrow> bool \<Rightarrow> bool \<Rightarrow> int \<Rightarrow> u32 \<times> u32 \<times> u32 \<Rightarrow> netif \<Rightarrow> 'p ethernet \<Rightarrow> err_t \<times> netif \<times> 'p ethernet" where
  "low_level_init alloc phy resetDone phyReady link uid n h =
     (case uid of (uid0, uid1, uid2) \<Rightarrow>
      case ethernet_HardwareInit alloc resetDone (macAddress uid0 uid1 uid2) h of
        (s, h1) \<Rightarrow>
          if s \<noteq> PLATFORM_STATUS_OK then (ERR_IF, n, h1)
          else if \<not> phyReady then (ERR_IF, n, h1)
          else case ethernet_link_check_state phy link (n, eth_mac h1) of
                 (n', m) \<Rightarrow> (ERR_OK, n', h1\<lparr>eth_mac := m\<rparr>))"

section \<open>Set-up and link properties\<close>

lemma link_agrees_check:
  assumes "link_agrees s" and "ethernet_link_check_state phy link s = s'"
  shows "link_agrees s' \<and> netif_link_up (fst s') = (LINK_DOWN phy < link)"
  using assms
  by (auto simp: link_agrees_def ethernet_link_check_state_def ethernet_Start_def ethernet_Stop_def mac_running_def split: prod.splits if_splits)

lemma foldl_link_agrees:
  "link_agrees s \<Longrightarrow> link_agrees (foldl (\<lambda>s link. ethernet_link_check_state phy link s) s links)"
proof (induction links arbitrary: s)
  case (Cons link links)
  then show ?case
    using link_agrees_check [OF Cons.prems refl, of phy link] by simp
qed simp

text \<open>
  After any number of link checks the interface is up exactly when the last answer of the PHY was a
  link, its two flags agree, and the MAC and both DMA directions run exactly then.
\<close>

theorem ethernet_link_agrees:
  assumes "link_agrees s" and "foldl (\<lambda>s link. ethernet_link_check_state phy link s) s (links @ [link]) = (n, m)"
  shows "netif_link_up n = (LINK_DOWN phy < link) \<and> netif_up n = netif_link_up n \<and> mac_running (netif_link_up n) m"
proof -
  have "link_agrees (foldl (\<lambda>s link. ethernet_link_check_state phy link s) s links)"
    by (rule foldl_link_agrees [OF assms(1)])
  then show ?thesis
    using link_agrees_check [of _ phy link "(n, m)"] assms(2) by (fastforce simp: link_agrees_def)
qed

theorem ethernet_link_agrees_witness:
  "netif_link_up (fst (foldl (\<lambda>s link. ethernet_link_check_state \<lparr>LINK_DOWN = 1, FULL_100 = 2, HALF_100 = 3, FULL_10 = 4\<rparr> link s)
      (\<lparr>netif_up = False, netif_link_up = False\<rparr>, \<lparr>maccr_FES = True, maccr_DM = True, maccr_TE = False, maccr_RE = False, dmaomr_ST = False, dmaomr_SR = False\<rparr>)
      ([1, 2] @ [5])))"
  using ethernet_link_agrees [of "(\<lparr>netif_up = False, netif_link_up = False\<rparr>, \<lparr>maccr_FES = True, maccr_DM = True, maccr_TE = False, maccr_RE = False, dmaomr_ST = False, dmaomr_SR = False\<rparr>)"
      "\<lparr>LINK_DOWN = 1, FULL_100 = 2, HALF_100 = 3, FULL_10 = 4\<rparr>" "[1, 2]" 5, OF _ prod.collapse [symmetric]]
  by (simp add: link_agrees_def mac_running_def)

text \<open>Four allocations give four different buffers, which the pool does not hold any more.\<close>

lemma ethernet_FillRx_buffers:
  assumes pool: "mempool alloc release elems" and "length (rxDescriptors r) = 4"
    and fill: "ethernet_FillRx alloc [0..<ETH_RX_DESC_COUNT] r = (PLATFORM_STATUS_OK, r')"
  shows "rx_wf elems (r'\<lparr>rxIndex := 0\<rparr>) \<and> rx_owned elems r' = elems (rxPool r) \<and> list_all rx_own (rxDescriptors r')"
proof -
  obtain a b c d where ds: "rxDescriptors r = [a, b, c, d]"
    using assms(2) by (auto simp: length_Suc_conv numeral_eq_Suc)
  have upt: "[0..<ETH_RX_DESC_COUNT] = [0, 1, 2, 3]"
    by (simp add: ETH_RX_DESC_COUNT_def upt_rec)
  obtain x0 p0 x1 p1 x2 p2 x3 p3 where al: "alloc (rxPool r) = (Some x0, p0)" "alloc p0 = (Some x1, p1)" "alloc p1 = (Some x2, p2)" "alloc p2 = (Some x3, p3)"
    and bs: "rx_buffers r' = [x0, x1, x2, x3]" and own: "list_all rx_own (rxDescriptors r')" and p: "rxPool r' = p3" "length (rxDescriptors r') = 4"
    using fill ds unfolding upt by (auto simp: ethernet_AllocateRxBuffer_def rx_buffers_def rx_own_def DESC_OWN_def split: option.splits prod.splits)
  have chain: "x0 \<notin> elems p0 \<and> elems (rxPool r) = insert x0 (elems p0)" "x1 \<notin> elems p1 \<and> elems p0 = insert x1 (elems p1)"
    "x2 \<notin> elems p2 \<and> elems p1 = insert x2 (elems p2)" "x3 \<notin> elems p3 \<and> elems p2 = insert x3 (elems p3)"
    using al [THEN mempool_alloc [OF pool]] by (simp_all add: insert_absorb)
  have "distinct [x0, x1, x2, x3]" "set [x0, x1, x2, x3] \<inter> elems p3 = {}" "set [x0, x1, x2, x3] \<union> elems p3 = elems (rxPool r)"
    using chain by simp_all
  then show ?thesis
    using bs own p by (simp add: rx_wf_def rx_owned_def rx_buffers_def)
qed

lemma MACA0_bytes:
  fixes a b c d e f :: u8
  shows "le32 (push_bit 24 (ucast d) OR push_bit 16 (ucast c) OR push_bit 8 (ucast b) OR ucast a) = [a, b, c, d]"
    and "le16 (ucast (push_bit 8 (ucast f) OR ucast e :: u32)) = [e, f]"
  by (auto simp: le32_def le16_def bit_simps intro!: bit_word_eqI)

lemma low_level_init_facts:
  assumes "mempool alloc release elems" and "length (rxDescriptors (eth_rx h)) = 4" and "\<not> netif_up n \<and> \<not> netif_link_up n"
    and "low_level_init alloc phy resetDone phyReady link (uid0, uid1, uid2) n h = (ERR_OK, n', h')"
  shows "rx_wf elems (eth_rx h') \<and> rx_owned elems (eth_rx h') = elems (rxPool (eth_rx h)) \<and> list_all rx_own (rxDescriptors (eth_rx h'))
    \<and> in_step (eth_tx h') \<and> link_agrees (n', eth_mac h')
    \<and> le32 (MACA0LR h') @ le16 (ucast (MACA0HR h')) = macAddress uid0 uid1 uid2
    \<and> hd (macAddress uid0 uid1 uid2) AND 3 = 2"
proof -
  define mac where "mac = macAddress uid0 uid1 uid2"
  obtain m0 m1 m2 m3 m4 m5 where mac6: "mac = [m0, m1, m2, m3, m4, m5]"
    by (simp add: mac_def macAddress_def)
  obtain s h1 where init: "ethernet_HardwareInit alloc resetDone mac h = (s, h1)"
    by fastforce
  have ok: "s = PLATFORM_STATUS_OK" "phyReady" "ethernet_link_check_state phy link (n, eth_mac h1) = (n', eth_mac h')"
    and h': "h' = h1\<lparr>eth_mac := eth_mac h'\<rparr>"
    using assms(4) init by (auto simp: low_level_init_def mac_def split: if_splits prod.splits)
  obtain r where fill: "ethernet_FillRx alloc [0..<ETH_RX_DESC_COUNT] (eth_rx h) = (PLATFORM_STATUS_OK, r)"
    and rings: "eth_rx h1 = r\<lparr>rxIndex := 0\<rparr>" "in_step (eth_tx h1)" "\<not> maccr_TE (eth_mac h1)" "mac_running False (eth_mac h1)"
    and regs: "le32 (MACA0LR h1) = [m0, m1, m2, m3]" "le16 (ucast (MACA0HR h1)) = [m4, m5]"
    using init ok(1) mac6
    by (auto simp: ethernet_HardwareInit_def Let_def mac_running_def in_step_def ETH_TX_DESC_COUNT_def MACA0_bytes list_all_iff tx_own_bit TX_CHAINED_def bit_simps split: if_splits prod.splits)
  have rx: "rx_wf elems (eth_rx h1) \<and> rx_owned elems (eth_rx h1) = elems (rxPool (eth_rx h)) \<and> list_all rx_own (rxDescriptors (eth_rx h1))"
    using ethernet_FillRx_buffers [OF assms(1,2) fill] rings(1) by (simp add: rx_defs)
  have "link_agrees (n', eth_mac h')"
    using link_agrees_check [OF _ ok(3)] assms(3) rings(4) by (auto simp: link_agrees_def)
  moreover have "eth_rx h' = eth_rx h1" "eth_tx h' = eth_tx h1" "MACA0HR h' = MACA0HR h1" "MACA0LR h' = MACA0LR h1"
    by (subst h', simp)+
  moreover have "hd (macAddress uid0 uid1 uid2) AND 3 = 2"
    by (simp add: macAddress_def)
  ultimately show ?thesis
    using rx rings(2) regs mac6 by (simp add: mac_def)
qed

text \<open>
  When the set-up of the interface succeeds, both rings are well formed: the receive descriptors
  belong to the DMA and hold four different buffers taken from the pool, the transmit ring is in step
  with the DMA, the link flags agree with the MAC, and the address registers hold a locally
  administered unicast address made of the identification of the chip.
\<close>

theorem low_level_init_ready:
  assumes "mempool alloc release elems" and "length (rxDescriptors (eth_rx h)) = 4" and "\<not> netif_up n \<and> \<not> netif_link_up n"
    and "low_level_init alloc phy resetDone phyReady link (uid0, uid1, uid2) n h = (ERR_OK, n', h')"
  shows "rx_wf elems (eth_rx h') \<and> rx_owned elems (eth_rx h') = elems (rxPool (eth_rx h)) \<and> list_all rx_own (rxDescriptors (eth_rx h'))
    \<and> in_step (eth_tx h') \<and> link_agrees (n', eth_mac h')
    \<and> le32 (MACA0LR h') @ le16 (ucast (MACA0HR h')) = macAddress uid0 uid1 uid2
    \<and> hd (macAddress uid0 uid1 uid2) AND 3 = 2"
  by (rule low_level_init_facts [OF assms])

definition example_ethernet :: "u32 list ethernet" where
  "example_ethernet = \<lparr>eth_rx = \<lparr>rxDescriptors = replicate 4 \<lparr>rd_status = 0, rd_control = 0, rd_buffer = 0\<rparr>, rxIndex = 0, rxPool = [0x1000, 0x2000, 0x3000, 0x4000, 0x5000]\<rparr>,
     eth_tx = example_ring, eth_mac = \<lparr>maccr_FES = False, maccr_DM = False, maccr_TE = False, maccr_RE = False, dmaomr_ST = False, dmaomr_SR = False\<rparr>,
     MACA0HR = 0, MACA0LR = 0\<rparr>"

theorem low_level_init_ready_witness:
  "\<exists>n' h'. low_level_init example_alloc \<lparr>LINK_DOWN = 1, FULL_100 = 2, HALF_100 = 3, FULL_10 = 4\<rparr> True True 2 (0x003A0025, 0x31385106, 0x34363439)
       \<lparr>netif_up = False, netif_link_up = False\<rparr> example_ethernet = (ERR_OK, n', h')
     \<and> rx_wf set (eth_rx h') \<and> in_step (eth_tx h') \<and> link_agrees (n', eth_mac h')"
proof -
  let ?init = "low_level_init example_alloc \<lparr>LINK_DOWN = 1, FULL_100 = 2, HALF_100 = 3, FULL_10 = 4\<rparr> True True 2 (0x003A0025, 0x31385106, 0x34363439)
       \<lparr>netif_up = False, netif_link_up = False\<rparr> example_ethernet"
  have "fst ?init = ERR_OK"
    by code_simp
  then obtain n' h' where i: "?init = (ERR_OK, n', h')"
    by (metis prod.collapse)
  show ?thesis
    using low_level_init_ready [OF example_mempool _ _ i] i by (simp add: example_ethernet_def)
qed

end
