(* ===== verification/Lwip_App.thy ===== *)
theory Lwip_App
  imports Ethernet_Input
begin

text \<open>
  The network configuration of \<^verbatim>\<open>LWIP/App/lwip.c\<close>: bringing the interface up, polling the link every
  100 ms, DHCP with a static fallback after ten seconds, and the flag that tells the services that the
  network is ready. The DHCP client is lwIP's: what \<open>dhcp_supplied_address\<close> answers and the address of
  the interface are part of the state, and the client changes them between two calls of the firmware.
  Shown: the flag is set only while the link is up and the MAC runs, the network is ready at the latest
  at the first poll ten seconds after DHCP began, an address from DHCP replaces the fallback, and what
  happens to the ten seconds when the link comes up.
\<close>

section \<open>State and operations\<close>

definition LWIP_LINK_POLL_PERIOD_MS :: u32 where "LWIP_LINK_POLL_PERIOD_MS = 100"
definition LWIP_DHCP_TIMEOUT_MS :: u32 where "LWIP_DHCP_TIMEOUT_MS = 10000"

datatype Lwip_StatusTypeDef = LWIP_STATUS_OK | LWIP_STATUS_INTERFACE_ERROR | LWIP_STATUS_DHCP_ERROR

record 'p lwip =
  net_eth :: "'p ethernet"
  gnetif :: netif
  net_addr :: u32
  net_mask :: u32
  net_gw :: u32
  net_dns :: u32
  dhcp_supplied :: bool
  lwipLinkPollTick :: u32
  lwipDhcpWaitStartTick :: u32
  lwipNetworkConfigurationReported :: bool
  lwipStaticFallbackActive :: bool
  lwipNetworkReady :: bool

definition ip4 :: "u8 \<Rightarrow> u8 \<Rightarrow> u8 \<Rightarrow> u8 \<Rightarrow> u32" where
  "ip4 a b c d = push_bit 24 (ucast a) OR push_bit 16 (ucast b) OR push_bit 8 (ucast c) OR ucast d"

text \<open>
  \<open>released\<close> is the address that \<open>dhcp_stop\<close> leaves on the interface, given whether DHCP supplied it and
  the address so far.
\<close>

type_synonym dhcp_release = "bool \<Rightarrow> u32 \<Rightarrow> u32"

definition dhcp_stop :: "dhcp_release \<Rightarrow> 'p lwip \<Rightarrow> 'p lwip" where
  "dhcp_stop released s = s\<lparr>net_addr := released (dhcp_supplied s) (net_addr s), dhcp_supplied := False\<rparr>"

definition lwip_ReportNetworkConfiguration :: "'p lwip \<Rightarrow> 'p lwip" where
  "lwip_ReportNetworkConfiguration s =
     s\<lparr>lwipNetworkConfigurationReported := True, lwipNetworkReady := netif_link_up (gnetif s)\<rparr>"

definition lwip_ApplyStaticConfiguration :: "dhcp_release \<Rightarrow> 'p lwip \<Rightarrow> 'p lwip" where
  "lwip_ApplyStaticConfiguration released s =
     (let s1 = (if netif_link_up (gnetif s) then s else dhcp_stop released s)
      in lwip_ReportNetworkConfiguration
           (s1\<lparr>net_addr := ip4 192 168 0 50, net_mask := ip4 255 255 255 0, net_gw := ip4 192 168 0 1,
               net_dns := ip4 8 8 8 8, lwipStaticFallbackActive := True\<rparr>))"

text \<open>\<open>tick\<close> is what \<open>Platform_GetTick\<close> answers there, \<open>started\<close> whether \<open>dhcp_start\<close> succeeded.\<close>

definition lwip_StartDhcp :: "dhcp_release \<Rightarrow> u32 \<Rightarrow> bool \<Rightarrow> 'p lwip \<Rightarrow> 'p lwip" where
  "lwip_StartDhcp released tick started s =
     (let s1 = s\<lparr>net_addr := 0, net_mask := 0, net_gw := 0, net_dns := 0, dhcp_supplied := False,
                 lwipDhcpWaitStartTick := tick, lwipStaticFallbackActive := False, lwipNetworkReady := False\<rparr>
      in if \<not> started then lwip_ApplyStaticConfiguration released s1 else s1)"

definition lwip_LinkStatusChanged :: "dhcp_release \<Rightarrow> u32 \<Rightarrow> bool \<Rightarrow> 'p lwip \<Rightarrow> 'p lwip" where
  "lwip_LinkStatusChanged released tick started s =
     (if netif_link_up (gnetif s)
      then lwip_StartDhcp released tick started (s\<lparr>lwipNetworkConfigurationReported := False\<rparr>)
      else (dhcp_stop released s)\<lparr>lwipDhcpWaitStartTick := tick, lwipNetworkConfigurationReported := False,
             lwipStaticFallbackActive := False, lwipNetworkReady := False\<rparr>)"

definition lwip_ProcessConfiguration :: "dhcp_release \<Rightarrow> u32 \<Rightarrow> 'p lwip \<Rightarrow> 'p lwip" where
  "lwip_ProcessConfiguration released now s =
     (if \<not> netif_link_up (gnetif s)
      then (if net_addr s = 0 \<and> LWIP_DHCP_TIMEOUT_MS \<le> now - lwipDhcpWaitStartTick s
            then lwip_ApplyStaticConfiguration released s else s)
      else if dhcp_supplied s
      then (if \<not> lwipNetworkConfigurationReported s \<or> lwipStaticFallbackActive s
            then lwip_ReportNetworkConfiguration (s\<lparr>lwipStaticFallbackActive := False\<rparr>) else s)
      else if net_addr s \<noteq> 0 then s
      else if LWIP_DHCP_TIMEOUT_MS \<le> now - lwipDhcpWaitStartTick s then lwip_ApplyStaticConfiguration released s
      else s)"

text \<open>
  \<open>netif_set_link_up\<close> and \<open>netif_set_link_down\<close> call the link callback when they change the flag. The tick
  it reads is a later one than that of the poll: \<open>ethernet_Start\<close> waits three times in between.
\<close>

definition lwip_CheckLink :: "dp83848 \<Rightarrow> int \<Rightarrow> dhcp_release \<Rightarrow> u32 \<Rightarrow> bool \<Rightarrow> 'p lwip \<Rightarrow> 'p lwip" where
  "lwip_CheckLink phy link released tick started s =
     (case ethernet_link_check_state phy link (gnetif s, eth_mac (net_eth s)) of
        (n, m) \<Rightarrow>
          let s1 = s\<lparr>gnetif := n, net_eth := (net_eth s)\<lparr>eth_mac := m\<rparr>\<rparr>
          in if netif_link_up n \<noteq> netif_link_up (gnetif s) then lwip_LinkStatusChanged released tick started s1 else s1)"

definition lwip_Poll :: "dp83848 \<Rightarrow> int \<Rightarrow> dhcp_release \<Rightarrow> u32 \<Rightarrow> u32 \<Rightarrow> bool \<Rightarrow> 'p lwip \<Rightarrow> 'p lwip" where
  "lwip_Poll phy link released now tick started s =
     (if now - lwipLinkPollTick s < LWIP_LINK_POLL_PERIOD_MS then s
      else lwip_ProcessConfiguration released now
             (lwip_CheckLink phy link released tick started (s\<lparr>lwipLinkPollTick := now\<rparr>)))"

text \<open>The frames are drained first; \<open>None\<close> would be a drain that needs more than five reads.\<close>

definition Lwip_Process :: "'p mempool_alloc \<Rightarrow> 'p mempool_free \<Rightarrow> (rx_packet \<Rightarrow> bool) \<Rightarrow> dp83848 \<Rightarrow> int \<Rightarrow> dhcp_release \<Rightarrow>
    u32 \<Rightarrow> u32 \<Rightarrow> bool \<Rightarrow> 'p lwip \<Rightarrow> (rx_packet list \<times> 'p lwip) option" where
  "Lwip_Process alloc release input_ok phy link released now tick started s =
     map_option (\<lambda>(taken, r). (taken, lwip_Poll phy link released now tick started (s\<lparr>net_eth := (net_eth s)\<lparr>eth_rx := r\<rparr>\<rparr>)))
       (ethernetif_input alloc release input_ok 5 (eth_rx (net_eth s)))"

definition Lwip_IsReady :: "'p lwip \<Rightarrow> bool" where
  "Lwip_IsReady s = lwipNetworkReady s"

text \<open>\<open>netif_add\<close> calls \<open>ethernetif_init\<close> and fails when that fails; \<open>room\<close> is whether it can add the interface at all.\<close>

definition lwip_CoreInit :: "'p mempool_alloc \<Rightarrow> dp83848 \<Rightarrow> bool \<Rightarrow> bool \<Rightarrow> bool \<Rightarrow> int \<Rightarrow> u32 \<times> u32 \<times> u32 \<Rightarrow> dhcp_release \<Rightarrow>
    u32 \<Rightarrow> u32 \<Rightarrow> bool \<Rightarrow> 'p lwip \<Rightarrow> Lwip_StatusTypeDef \<times> 'p lwip" where
  "lwip_CoreInit alloc phy room resetDone phyReady link uid released tick tick2 started s =
     (case low_level_init alloc phy resetDone phyReady link uid (gnetif s) (net_eth s) of
        (r, n, h) \<Rightarrow>
          let s1 = s\<lparr>gnetif := n, net_eth := h, net_addr := 0, net_mask := 0, net_gw := 0\<rparr>
          in if \<not> room \<or> r \<noteq> ERR_OK then (LWIP_STATUS_INTERFACE_ERROR, s1)
             else
               let s2 = s1\<lparr>lwipDhcpWaitStartTick := tick, lwipNetworkConfigurationReported := False,
                           lwipStaticFallbackActive := False, lwipNetworkReady := False\<rparr>
               in (LWIP_STATUS_OK,
                   if netif_link_up (gnetif s2)
                   then lwip_StartDhcp released tick2 started (s2\<lparr>gnetif := (gnetif s2)\<lparr>netif_up := True\<rparr>\<rparr>)
                   else s2\<lparr>gnetif := (gnetif s2)\<lparr>netif_up := False\<rparr>\<rparr>))"

text \<open>\<open>signalled\<close>: the TCP/IP thread ran \<open>lwip_CoreInit\<close> within the five seconds.\<close>

definition Lwip_Init :: "bool \<Rightarrow> bool \<Rightarrow> Lwip_StatusTypeDef \<times> 'p lwip \<Rightarrow> 'p lwip \<Rightarrow> Lwip_StatusTypeDef \<times> 'p lwip" where
  "Lwip_Init semaphore signalled core s =
     (if \<not> semaphore then (LWIP_STATUS_INTERFACE_ERROR, s)
      else if \<not> signalled then (LWIP_STATUS_INTERFACE_ERROR, s)
      else core)"

section \<open>Invariant\<close>

text \<open>
  The flag for the services is set only while the link is up, a reported configuration of a link that is
  up has set it, and an address that DHCP did not supply was reported.
\<close>

definition net_ok :: "netif \<Rightarrow> mac_control \<Rightarrow> bool \<Rightarrow> bool \<Rightarrow> u32 \<Rightarrow> bool \<Rightarrow> bool" where
  "net_ok n m ready reported address supplied \<longleftrightarrow> link_agrees (n, m)
     \<and> (ready \<longrightarrow> netif_link_up n)
     \<and> (reported \<and> netif_link_up n \<longrightarrow> ready)
     \<and> (netif_link_up n \<and> address \<noteq> 0 \<and> \<not> supplied \<longrightarrow> ready)
     \<and> (supplied \<longrightarrow> address \<noteq> 0 \<and> netif_link_up n)"

definition lwip_inv :: "'p lwip \<Rightarrow> bool" where
  "lwip_inv s \<longleftrightarrow> net_ok (gnetif s) (eth_mac (net_eth s)) (lwipNetworkReady s) (lwipNetworkConfigurationReported s)
     (net_addr s) (dhcp_supplied s)"

text \<open>The implications of the invariant are kept from the simplifier, which would chase them in circles.\<close>

lemma net_ok_same_link:
  "net_ok n m ready reported address supplied \<Longrightarrow> netif_link_up n' = netif_link_up n \<Longrightarrow> link_agrees (n', m') \<Longrightarrow> net_ok n' m' ready reported address supplied"
  unfolding net_ok_def by metis

lemma net_ok_facts:
  assumes "net_ok n m ready reported address supplied"
  shows "link_agrees (n, m)" and "supplied \<longrightarrow> netif_link_up n" and "supplied \<longrightarrow> address \<noteq> 0" and "ready \<longrightarrow> netif_link_up n"
    and "netif_link_up n \<and> address \<noteq> 0 \<and> \<not> supplied \<longrightarrow> ready" and "reported \<and> netif_link_up n \<longrightarrow> ready"
  using assms unfolding net_ok_def by blast+

lemma static_address: "ip4 192 168 0 50 \<noteq> 0"
  by (simp add: ip4_def)

lemmas lwip_defs = lwip_ReportNetworkConfiguration_def lwip_ApplyStaticConfiguration_def lwip_StartDhcp_def lwip_LinkStatusChanged_def
  dhcp_stop_def Let_def

lemma lwip_ApplyStaticConfiguration_inv:
  assumes "link_agrees (gnetif s, eth_mac (net_eth s))" and "dhcp_supplied s \<longrightarrow> netif_link_up (gnetif s)"
  shows "lwip_inv (lwip_ApplyStaticConfiguration released s)"
  using assms static_address by (auto simp: lwip_inv_def net_ok_def lwip_defs)

lemma lwip_LinkStatusChanged_inv:
  assumes "link_agrees (gnetif s, eth_mac (net_eth s))"
  shows "lwip_inv (lwip_LinkStatusChanged released tick started s)"
  using assms static_address by (auto simp: lwip_inv_def net_ok_def lwip_defs)

lemma lwip_CheckLink_inv:
  assumes "lwip_inv s"
  shows "lwip_inv (lwip_CheckLink phy link released tick started s)"
    and "netif_link_up (gnetif (lwip_CheckLink phy link released tick started s)) = (LINK_DOWN phy < link)"
proof -
  obtain n m where c: "ethernet_link_check_state phy link (gnetif s, eth_mac (net_eth s)) = (n, m)"
    by fastforce
  have l: "link_agrees (n, m)" "netif_link_up n = (LINK_DOWN phy < link)"
    using link_agrees_check [OF net_ok_facts(1) [OF assms [unfolded lwip_inv_def]] c] by simp_all
  let ?s = "s\<lparr>gnetif := n, net_eth := (net_eth s)\<lparr>eth_mac := m\<rparr>\<rparr>"
  have "lwip_inv (lwip_LinkStatusChanged released tick started ?s)"
    by (rule lwip_LinkStatusChanged_inv) (simp add: l)
  moreover have "lwip_inv ?s" if "netif_link_up n = netif_link_up (gnetif s)"
    using net_ok_same_link [OF assms [unfolded lwip_inv_def] that l(1)] by (simp add: lwip_inv_def)
  ultimately show "lwip_inv (lwip_CheckLink phy link released tick started s)"
    by (simp add: lwip_CheckLink_def c Let_def)
  show "netif_link_up (gnetif (lwip_CheckLink phy link released tick started s)) = (LINK_DOWN phy < link)"
    using l(2) by (auto simp: lwip_CheckLink_def c lwip_defs)
qed

lemma lwip_ProcessConfiguration_inv:
  assumes "lwip_inv s"
  shows "lwip_inv (lwip_ProcessConfiguration released now s)"
proof -
  have "lwip_inv (lwip_ApplyStaticConfiguration released s)"
    by (rule lwip_ApplyStaticConfiguration_inv) (rule net_ok_facts [OF assms [unfolded lwip_inv_def]])+
  moreover have "lwip_inv (lwip_ReportNetworkConfiguration (s\<lparr>lwipStaticFallbackActive := False\<rparr>))"
    using net_ok_facts(1,2,3) [OF assms [unfolded lwip_inv_def]] by (auto simp: lwip_inv_def net_ok_def lwip_ReportNetworkConfiguration_def)
  ultimately show ?thesis
    using assms by (simp add: lwip_ProcessConfiguration_def)
qed

lemma lwip_inv_tick: "lwip_inv (s\<lparr>lwipLinkPollTick := now\<rparr>) = lwip_inv s"
  by (simp add: lwip_inv_def)

lemma lwip_Poll_inv: "lwip_inv s \<Longrightarrow> lwip_inv (lwip_Poll phy link released now tick started s)"
  by (simp add: lwip_Poll_def lwip_ProcessConfiguration_inv lwip_CheckLink_inv(1) lwip_inv_tick)

lemma Lwip_Process_inv:
  assumes "lwip_inv s" and "Lwip_Process alloc release input_ok phy link released now tick started s = Some (taken, s')"
  shows "lwip_inv s'"
proof -
  obtain r where "s' = lwip_Poll phy link released now tick started (s\<lparr>net_eth := (net_eth s)\<lparr>eth_rx := r\<rparr>\<rparr>)"
    using assms(2) by (auto simp: Lwip_Process_def)
  moreover have "lwip_inv (s\<lparr>net_eth := (net_eth s)\<lparr>eth_rx := r\<rparr>\<rparr>)"
    using assms(1) by (simp add: lwip_inv_def)
  ultimately show ?thesis
    by (simp add: lwip_Poll_inv)
qed

lemma lwip_CoreInit_inv:
  assumes "mempool alloc release elems" and "length (rxDescriptors (eth_rx (net_eth s))) = 4" and "\<not> netif_up (gnetif s) \<and> \<not> netif_link_up (gnetif s)"
    and "\<not> dhcp_supplied s"
    and "lwip_CoreInit alloc phy room resetDone phyReady link (uid0, uid1, uid2) released tick tick2 started s = (LWIP_STATUS_OK, s')"
  shows "lwip_inv s' \<and> rx_wf elems (eth_rx (net_eth s')) \<and> in_step (eth_tx (net_eth s'))"
proof -
  obtain r n h where l: "low_level_init alloc phy resetDone phyReady link (uid0, uid1, uid2) (gnetif s) (net_eth s) = (r, n, h)"
    by (metis prod_cases3)
  have r: "r = ERR_OK"
    using assms(5) l by (auto simp: lwip_CoreInit_def Let_def split: if_splits)
  have h: "rx_wf elems (eth_rx h)" "in_step (eth_tx h)" "link_agrees (n, eth_mac h)"
    using low_level_init_facts [OF assms(1-3)] l r by simp_all
  then show ?thesis
    using assms(4,5) l r static_address
    by (auto simp: lwip_CoreInit_def lwip_defs lwip_inv_def net_ok_def link_agrees_def split: if_splits)
qed

section \<open>Runs\<close>

text \<open>
  What happens between two calls of the firmware: the receive DMA fills a descriptor it owns, the DHCP
  client obtains an address on a link that is up, or loses it.
\<close>

inductive lwip_step :: "'p mempool_alloc \<Rightarrow> 'p mempool_free \<Rightarrow> dp83848 \<Rightarrow> dhcp_release \<Rightarrow> 'p lwip \<Rightarrow> 'p lwip \<Rightarrow> bool"
  for alloc release phy released where
  step_process: "Lwip_Process alloc release input_ok phy link released now tick started s = Some (taken, s') \<Longrightarrow>
     lwip_step alloc release phy released s s'"
| step_frame: "i < 4 \<Longrightarrow> lwip_step alloc release phy released s
     (s\<lparr>net_eth := (net_eth s)\<lparr>eth_rx := (eth_rx (net_eth s))\<lparr>rxDescriptors := (rxDescriptors (eth_rx (net_eth s)))[i :=
          (rxDescriptors (eth_rx (net_eth s)) ! i)\<lparr>rd_status := status\<rparr>]\<rparr>\<rparr>\<rparr>)"
| step_bound: "netif_link_up (gnetif s) \<Longrightarrow> address \<noteq> 0 \<Longrightarrow> lwip_step alloc release phy released s
     (s\<lparr>net_addr := address, net_mask := netmask, net_gw := gateway, net_dns := dns, dhcp_supplied := True\<rparr>)"
| step_lost: "dhcp_supplied s \<Longrightarrow> lwip_step alloc release phy released s
     (s\<lparr>net_addr := 0, net_mask := 0, net_gw := 0, dhcp_supplied := False\<rparr>)"

inductive lwip_reachable :: "'p mempool_alloc \<Rightarrow> 'p mempool_free \<Rightarrow> dp83848 \<Rightarrow> dhcp_release \<Rightarrow> 'p lwip \<Rightarrow> 'p lwip \<Rightarrow> bool"
  for alloc release phy released s0 where
  reach_refl: "lwip_reachable alloc release phy released s0 s0"
| reach_step: "lwip_reachable alloc release phy released s0 s \<Longrightarrow> lwip_step alloc release phy released s s' \<Longrightarrow>
     lwip_reachable alloc release phy released s0 s'"

definition lwip_wf :: "('p \<Rightarrow> u32 set) \<Rightarrow> 'p lwip \<Rightarrow> bool" where
  "lwip_wf elems s \<longleftrightarrow> lwip_inv s \<and> rx_wf elems (eth_rx (net_eth s))"

lemma lwip_Poll_rx: "eth_rx (net_eth (lwip_Poll phy link released now tick started s)) = eth_rx (net_eth s)"
  by (simp add: lwip_Poll_def lwip_ProcessConfiguration_def lwip_CheckLink_def lwip_defs split: prod.split)

lemma Lwip_Process_wf:
  assumes pool: "mempool alloc release elems" and wf: "lwip_wf elems s"
  shows "\<exists>taken s'. Lwip_Process alloc release input_ok phy link released now tick started s = Some (taken, s') \<and> lwip_wf elems s'"
proof -
  have rx: "rx_wf elems (eth_rx (net_eth s))" and inv: "lwip_inv s"
    using wf by (simp_all add: lwip_wf_def)
  obtain taken r where r: "ethernetif_input alloc release input_ok 5 (eth_rx (net_eth s)) = Some (taken, r)" "rx_wf elems r"
    using ethernetif_input_conserves [OF pool rx, of 5 input_ok] rx_filled_le [OF rx] by auto
  let ?s = "lwip_Poll phy link released now tick started (s\<lparr>net_eth := (net_eth s)\<lparr>eth_rx := r\<rparr>\<rparr>)"
  have p: "Lwip_Process alloc release input_ok phy link released now tick started s = Some (taken, ?s)"
    by (simp add: Lwip_Process_def r)
  moreover have "lwip_wf elems ?s"
    using Lwip_Process_inv [OF inv p] r(2) by (simp add: lwip_wf_def lwip_Poll_rx)
  ultimately show ?thesis
    by blast
qed

lemma rx_wf_status: "rx_wf elems (r\<lparr>rxDescriptors := (rxDescriptors r)[i := (rxDescriptors r ! i)\<lparr>rd_status := status\<rparr>]\<rparr>) = rx_wf elems r"
proof (cases "i < length (rxDescriptors r)")
  case True
  then have "map rd_buffer ((rxDescriptors r)[i := (rxDescriptors r ! i)\<lparr>rd_status := status\<rparr>]) = map rd_buffer (rxDescriptors r)"
    by (simp add: map_update list_update_same_conv)
  then show ?thesis
    by (simp add: rx_wf_def rx_buffers_def)
qed (simp add: list_update_beyond)

lemma lwip_step_wf:
  assumes pool: "mempool alloc release elems" and wf: "lwip_wf elems s" and step: "lwip_step alloc release phy released s s'"
  shows "lwip_wf elems s'"
  using step
proof cases
  case (step_process input_ok link now tick started taken)
  then show ?thesis
    using Lwip_Process_wf [OF pool wf, of input_ok phy link released now tick started] by auto
next
  case (step_frame i status)
  then show ?thesis
    using wf by (simp add: lwip_wf_def lwip_inv_def rx_wf_status)
next
  case (step_bound address netmask gateway dns)
  have "net_ok (gnetif s) (eth_mac (net_eth s)) (lwipNetworkReady s) (lwipNetworkConfigurationReported s) address True"
    using wf step_bound(2,3) unfolding lwip_wf_def lwip_inv_def net_ok_def by blast
  then show ?thesis
    using wf step_bound(1) by (simp add: lwip_wf_def lwip_inv_def)
next
  case step_lost
  have "net_ok (gnetif s) (eth_mac (net_eth s)) (lwipNetworkReady s) (lwipNetworkConfigurationReported s) 0 False"
    using wf unfolding lwip_wf_def lwip_inv_def net_ok_def by blast
  then show ?thesis
    using wf step_lost(1) by (simp add: lwip_wf_def lwip_inv_def)
qed

lemma lwip_reachable_wf:
  assumes "mempool alloc release elems" and "lwip_wf elems s0" and "lwip_reachable alloc release phy released s0 s"
  shows "lwip_wf elems s"
  using assms(3) by induction (use assms(1,2) lwip_step_wf in blast)+

section \<open>Properties of the network configuration\<close>

lemma lwip_CheckLink_stays:
  assumes "netif_link_up (gnetif s)" and "LINK_DOWN phy < link"
  shows "lwip_CheckLink phy link released tick started s = s"
  using assms by (simp add: lwip_CheckLink_def ethernet_link_check_state_def Let_def)

lemma lwip_Poll_due:
  assumes "LWIP_LINK_POLL_PERIOD_MS \<le> now - lwipLinkPollTick s"
  shows "lwip_Poll phy link released now tick started s =
    lwip_ProcessConfiguration released now (lwip_CheckLink phy link released tick started (s\<lparr>lwipLinkPollTick := now\<rparr>))"
  using assms by (simp add: lwip_Poll_def not_less)

lemma Lwip_Process_Poll:
  assumes "Lwip_Process alloc release input_ok phy link released now tick started s = Some (taken, s')"
  obtains r where "s' = lwip_Poll phy link released now tick started (s\<lparr>net_eth := (net_eth s)\<lparr>eth_rx := r\<rparr>\<rparr>)"
  using assms by (auto simp: Lwip_Process_def)

text \<open>
  C19: in every state the network can reach after a successful start, the flag that lets the services use
  the network is set only while the link is up, the interface is up and the MAC with both DMA directions
  runs; and the next round of the network task always completes.
\<close>

theorem lwip_ready_means_link:
  assumes "mempool alloc release elems" and "length (rxDescriptors (eth_rx (net_eth s))) = 4"
    and "\<not> netif_up (gnetif s) \<and> \<not> netif_link_up (gnetif s)" and "\<not> dhcp_supplied s"
    and "lwip_CoreInit alloc phy room resetDone phyReady link (uid0, uid1, uid2) released tick tick2 started s = (LWIP_STATUS_OK, s0)"
    and "lwip_reachable alloc release phy released s0 s1"
  shows "(Lwip_IsReady s1 \<longrightarrow> netif_link_up (gnetif s1) \<and> netif_up (gnetif s1) \<and> mac_running True (eth_mac (net_eth s1)))
    \<and> (\<exists>taken s2. Lwip_Process alloc release input_ok phy link' released now tick' started' s1 = Some (taken, s2))"
proof -
  have "lwip_wf elems s1"
    using lwip_reachable_wf [OF assms(1) _ assms(6)] lwip_CoreInit_inv [OF assms(1-5)] by (simp add: lwip_wf_def)
  then have inv: "lwip_inv s1" and run: "\<exists>taken s2. Lwip_Process alloc release input_ok phy link' released now tick' started' s1 = Some (taken, s2)"
    using Lwip_Process_wf [OF assms(1), of s1 input_ok] by (simp add: lwip_wf_def, blast)
  show ?thesis
    using net_ok_facts(1,4) [OF inv [unfolded lwip_inv_def]] run by (auto simp: link_agrees_def Lwip_IsReady_def)
qed

lemma lwip_ready_after_timeout:
  assumes inv: "lwip_inv s" and up: "netif_link_up (gnetif s)" and late: "LWIP_DHCP_TIMEOUT_MS \<le> now - lwipDhcpWaitStartTick s"
  shows "lwipNetworkReady (lwip_ProcessConfiguration released now s) \<and> net_addr (lwip_ProcessConfiguration released now s) \<noteq> 0"
proof -
  note f = net_ok_facts [OF inv [unfolded lwip_inv_def]]
  show ?thesis
    using f(3,5,6) up late static_address by (auto simp: lwip_ProcessConfiguration_def lwip_defs)
qed

text \<open>
  C20: while the link stays up, the first poll at least ten seconds after DHCP was started leaves the
  network ready with an address, from DHCP or the static fallback, whatever the DHCP client did.
\<close>

theorem lwip_ready_within_timeout:
  assumes "lwip_inv s" and "netif_link_up (gnetif s)" and "LINK_DOWN phy < link"
    and "LWIP_LINK_POLL_PERIOD_MS \<le> now - lwipLinkPollTick s" and "LWIP_DHCP_TIMEOUT_MS \<le> now - lwipDhcpWaitStartTick s"
    and "Lwip_Process alloc release input_ok phy link released now tick started s = Some (taken, s')"
  shows "Lwip_IsReady s' \<and> net_addr s' \<noteq> 0"
proof -
  obtain r where s': "s' = lwip_Poll phy link released now tick started (s\<lparr>net_eth := (net_eth s)\<lparr>eth_rx := r\<rparr>\<rparr>)"
    using assms(6) by (rule Lwip_Process_Poll)
  let ?s = "s\<lparr>net_eth := (net_eth s)\<lparr>eth_rx := r\<rparr>, lwipLinkPollTick := now\<rparr>"
  have "s' = lwip_ProcessConfiguration released now ?s"
    unfolding s' using assms(2-4) by (simp add: lwip_Poll_due lwip_CheckLink_stays)
  moreover have "lwip_inv ?s"
    using assms(1) by (simp add: lwip_inv_def)
  ultimately show ?thesis
    using lwip_ready_after_timeout [of ?s now released] assms(2,5) by (simp add: Lwip_IsReady_def)
qed

text \<open>
  As soon as DHCP has supplied an address, the next poll on a link that stays up takes the static
  fallback back and reports the network ready with the address DHCP chose.
\<close>

theorem dhcp_replaces_fallback:
  assumes "lwip_inv s" and "netif_link_up (gnetif s)" and "dhcp_supplied s" and "LINK_DOWN phy < link"
    and "LWIP_LINK_POLL_PERIOD_MS \<le> now - lwipLinkPollTick s"
    and "Lwip_Process alloc release input_ok phy link released now tick started s = Some (taken, s')"
  shows "Lwip_IsReady s' \<and> \<not> lwipStaticFallbackActive s' \<and> net_addr s' = net_addr s \<and> net_addr s' \<noteq> 0"
proof -
  obtain r where s': "s' = lwip_Poll phy link released now tick started (s\<lparr>net_eth := (net_eth s)\<lparr>eth_rx := r\<rparr>\<rparr>)"
    using assms(6) by (rule Lwip_Process_Poll)
  note f = net_ok_facts [OF assms(1) [unfolded lwip_inv_def]]
  have "s' = lwip_ProcessConfiguration released now (s\<lparr>net_eth := (net_eth s)\<lparr>eth_rx := r\<rparr>, lwipLinkPollTick := now\<rparr>)"
    unfolding s' using assms(2,4,5) by (simp add: lwip_Poll_due lwip_CheckLink_stays)
  then show ?thesis
    using assms(2,3) f(3,6) by (auto simp: lwip_ProcessConfiguration_def lwip_defs Lwip_IsReady_def)
qed

lemma wrapped_wait:
  assumes "0 < d" and "d \<le> 4294957296"
  shows "LWIP_DHCP_TIMEOUT_MS \<le> now - (now + of_nat d)"
proof -
  have "now - (now + of_nat d :: u32) = of_nat (4294967296 - d)"
    using assms(2) by (simp add: of_nat_diff)
  then have "unat (now - (now + of_nat d :: u32)) = 4294967296 - d"
    using assms(1) by (simp add: unat_of_nat)
  then show ?thesis
    using assms by (simp add: LWIP_DHCP_TIMEOUT_MS_def word_le_nat_alt)
qed

text \<open>
  C38: when a poll finds the link up that was down, the static fallback is applied in the same poll
  although DHCP was just started: the start of the ten seconds is read after \<open>ethernet_Start\<close> has waited,
  the time of the poll before, and their difference wraps around.
\<close>

theorem link_up_skips_dhcp_wait:
  assumes "\<not> netif_link_up (gnetif s)" and "LINK_DOWN phy < link" and "LWIP_LINK_POLL_PERIOD_MS \<le> now - lwipLinkPollTick s"
    and "0 < d" and "d \<le> 4294957296"
    and "Lwip_Process alloc release input_ok phy link released now (now + of_nat d) True s = Some (taken, s')"
  shows "Lwip_IsReady s' \<and> lwipStaticFallbackActive s' \<and> net_addr s' = ip4 192 168 0 50"
proof -
  obtain r where s': "s' = lwip_Poll phy link released now (now + of_nat d) True (s\<lparr>net_eth := (net_eth s)\<lparr>eth_rx := r\<rparr>\<rparr>)"
    using assms(6) by (rule Lwip_Process_Poll)
  show ?thesis
    unfolding s' using assms(1-3) wrapped_wait [OF assms(4,5), of now]
    by (simp add: lwip_Poll_due lwip_CheckLink_def ethernet_link_check_state_def lwip_ProcessConfiguration_def lwip_defs Lwip_IsReady_def)
qed

section \<open>Examples\<close>

definition example_phy :: dp83848 where
  "example_phy = \<lparr>LINK_DOWN = 1, FULL_100 = 2, HALF_100 = 3, FULL_10 = 4\<rparr>"

definition example_mac :: "bool \<Rightarrow> mac_control" where
  "example_mac on = \<lparr>maccr_FES = True, maccr_DM = True, maccr_TE = on, maccr_RE = on, dmaomr_ST = on, dmaomr_SR = on\<rparr>"

text \<open>An interface whose link is up or down, with or without an address from DHCP, polled last at time 0.\<close>

definition example_lwip :: "bool \<Rightarrow> bool \<Rightarrow> u32 list lwip" where
  "example_lwip up supplied = \<lparr>net_eth = example_ethernet\<lparr>eth_rx := example_rx, eth_mac := example_mac up\<rparr>,
     gnetif = \<lparr>netif_up = up, netif_link_up = up\<rparr>, net_addr = (if supplied then ip4 10 121 10 60 else 0), net_mask = 0, net_gw = 0, net_dns = 0,
     dhcp_supplied = supplied, lwipLinkPollTick = 0, lwipDhcpWaitStartTick = 0, lwipNetworkConfigurationReported = False,
     lwipStaticFallbackActive = False, lwipNetworkReady = False\<rparr>"

lemma example_lwip_wf: "lwip_wf set (example_lwip True b)" "lwip_wf set (example_lwip False False)"
proof -
  have "rx_wf set example_rx"
    by (simp add: example_rx_def rx_defs)
  then show "lwip_wf set (example_lwip True b)" "lwip_wf set (example_lwip False False)"
    by (simp_all add: lwip_wf_def lwip_inv_def net_ok_def example_lwip_def example_mac_def link_agrees_def mac_running_def ip4_def)
qed

lemma example_Process:
  assumes "lwip_wf set s"
  obtains taken s' where "Lwip_Process example_alloc (#) (\<lambda>_. True) example_phy 2 (\<lambda>_ _. 0) now tick True s = Some (taken, s')"
  using Lwip_Process_wf [OF example_mempool assms] by blast

theorem lwip_ready_means_link_witness:
  "\<exists>s0 taken s2. lwip_CoreInit example_alloc example_phy True True True 1 (1, 2, 3) (\<lambda>_ _. 0) 0 0 True
       ((example_lwip False False)\<lparr>net_eth := example_ethernet\<rparr>) = (LWIP_STATUS_OK, s0)
     \<and> Lwip_Process example_alloc (#) (\<lambda>_. True) example_phy 2 (\<lambda>_ _. 0) 500 503 True s0 = Some (taken, s2)"
proof -
  let ?s = "(example_lwip False False)\<lparr>net_eth := example_ethernet\<rparr>"
  let ?c = "lwip_CoreInit example_alloc example_phy True True True 1 (1, 2, 3) (\<lambda>_ _. 0) 0 0 True ?s"
  have "fst ?c = LWIP_STATUS_OK"
    by code_simp
  then have c: "?c = (LWIP_STATUS_OK, snd ?c)"
    by (metis prod.collapse)
  have s: "length (rxDescriptors (eth_rx (net_eth ?s))) = 4" "\<not> netif_up (gnetif ?s) \<and> \<not> netif_link_up (gnetif ?s)" "\<not> dhcp_supplied ?s"
    by (simp_all add: example_lwip_def example_ethernet_def)
  show ?thesis
    using lwip_ready_means_link [OF example_mempool s c reach_refl] c by blast
qed

theorem lwip_ready_within_timeout_witness:
  "\<exists>taken s'. Lwip_Process example_alloc (#) (\<lambda>_. True) example_phy 2 (\<lambda>_ _. 0) 10100 10100 True (example_lwip True False) = Some (taken, s')
     \<and> Lwip_IsReady s' \<and> net_addr s' \<noteq> 0"
proof -
  obtain taken s' where p: "Lwip_Process example_alloc (#) (\<lambda>_. True) example_phy 2 (\<lambda>_ _. 0) 10100 10100 True (example_lwip True False) = Some (taken, s')"
    by (rule example_Process [OF example_lwip_wf(1)])
  have "lwip_inv (example_lwip True False)"
    using example_lwip_wf(1) by (simp add: lwip_wf_def)
  then show ?thesis
    using lwip_ready_within_timeout [OF _ _ _ _ _ p] p
    by (simp add: example_lwip_def example_phy_def LWIP_LINK_POLL_PERIOD_MS_def LWIP_DHCP_TIMEOUT_MS_def)
qed

theorem dhcp_replaces_fallback_witness:
  "\<exists>taken s'. Lwip_Process example_alloc (#) (\<lambda>_. True) example_phy 2 (\<lambda>_ _. 0) 400 400 True (example_lwip True True) = Some (taken, s')
     \<and> Lwip_IsReady s' \<and> net_addr s' = ip4 10 121 10 60"
proof -
  obtain taken s' where p: "Lwip_Process example_alloc (#) (\<lambda>_. True) example_phy 2 (\<lambda>_ _. 0) 400 400 True (example_lwip True True) = Some (taken, s')"
    by (rule example_Process [OF example_lwip_wf(1)])
  have "lwip_inv (example_lwip True True)"
    using example_lwip_wf(1) by (simp add: lwip_wf_def)
  then show ?thesis
    using dhcp_replaces_fallback [OF _ _ _ _ _ p] p
    by (simp add: example_lwip_def example_phy_def LWIP_LINK_POLL_PERIOD_MS_def)
qed

theorem link_up_skips_dhcp_wait_witness:
  "\<exists>taken s'. Lwip_Process example_alloc (#) (\<lambda>_. True) example_phy 2 (\<lambda>_ _. 0) 400 403 True (example_lwip False False) = Some (taken, s')
     \<and> lwipStaticFallbackActive s'"
proof -
  obtain taken s' where p: "Lwip_Process example_alloc (#) (\<lambda>_. True) example_phy 2 (\<lambda>_ _. 0) 400 403 True (example_lwip False False) = Some (taken, s')"
    by (rule example_Process [OF example_lwip_wf(2)])
  then show ?thesis
    using link_up_skips_dhcp_wait [of "example_lwip False False" example_phy 2 400 3] p
    by (simp add: example_lwip_def example_phy_def LWIP_LINK_POLL_PERIOD_MS_def)
qed

end
