(* ===== verification/Sys_Arch.thy ===== *)
theory Sys_Arch
  imports Callback_Service Ethernet
begin

text \<open>
  The layer between lwIP and FreeRTOS, \<^verbatim>\<open>LWIP/Target/sys_arch.c\<close>: semaphores, mailboxes with at most sixteen
  messages, two threads with static stacks, and the conversion of time-outs. How long a blocking call
  waits until another task gives the semaphore or posts a message is an argument. Shown: a mailbox is a
  bounded first-in first-out queue under every interleaving of posts and fetches, a wait never turns
  into one without end or without length, and no two threads share a stack.
\<close>

section \<open>Time-outs\<close>

definition configTICK_RATE_HZ :: nat where "configTICK_RATE_HZ = 1000"

definition portMAX_DELAY :: u32 where "portMAX_DELAY = - 1"

definition pdMS_TO_TICKS :: "u32 \<Rightarrow> u32" where
  "pdMS_TO_TICKS ms = of_nat (unat ms * configTICK_RATE_HZ div 1000)"

text \<open>The time-out in ticks of \<open>sys_arch_sem_wait\<close> and \<open>sys_arch_mbox_fetch\<close>.\<close>

definition sys_arch_Ticks :: "u32 \<Rightarrow> u32" where
  "sys_arch_Ticks timeoutMs =
     (let timeout = (if timeoutMs = 0 then portMAX_DELAY else pdMS_TO_TICKS timeoutMs)
      in if timeoutMs \<noteq> 0 \<and> timeout = 0 then 1 else timeout)"

definition sys_now :: "u32 \<Rightarrow> u32" where
  "sys_now tickCount = tickCount * of_nat (1000 div configTICK_RATE_HZ)"

definition sys_arch_msleep :: "u32 \<Rightarrow> u32" where
  "sys_arch_msleep delayMs = (if 0 < pdMS_TO_TICKS delayMs then pdMS_TO_TICKS delayMs else 1)"

datatype sys_wait = SYS_ARCH_TIMEOUT | Waited u32

definition sys_jiffies :: "u32 \<Rightarrow> u32" where
  "sys_jiffies tickCount = tickCount"

section \<open>Mutexes\<close>

text \<open>A recursive mutex as its holder sees it: how often it has taken it. \<open>None\<close> is an invalid handle.\<close>

type_synonym sys_mutex = "nat option"

definition sys_mutex_new :: "bool \<Rightarrow> sys_mutex \<Rightarrow> err_t \<times> sys_mutex" where
  "sys_mutex_new created mutex = (if created then (ERR_OK, Some 0) else (ERR_MEM, None))"

definition sys_mutex_lock :: "sys_mutex \<Rightarrow> sys_mutex" where
  "sys_mutex_lock mutex = map_option Suc mutex"

definition sys_mutex_unlock :: "sys_mutex \<Rightarrow> sys_mutex" where
  "sys_mutex_unlock mutex = map_option (\<lambda>n. n - 1) mutex"

definition sys_mutex_free :: "sys_mutex \<Rightarrow> sys_mutex" where
  "sys_mutex_free mutex = None"

section \<open>Semaphores\<close>

text \<open>A binary semaphore; \<open>None\<close> is an invalid handle.\<close>

type_synonym sys_sem = "bool option"

definition sys_sem_new :: "bool \<Rightarrow> u8 \<Rightarrow> sys_sem \<Rightarrow> err_t \<times> sys_sem" where
  "sys_sem_new created initialCount sem =
     (if 1 < initialCount then (ERR_ARG, sem)
      else if \<not> created then (ERR_MEM, None)
      else (ERR_OK, Some (initialCount \<noteq> 0)))"

definition sys_sem_signal :: "sys_sem \<Rightarrow> sys_sem" where
  "sys_sem_signal sem = map_option (\<lambda>_. True) sem"

text \<open>
  \<open>given\<close>: after how many ticks another task gives the semaphore, if it does. \<open>None\<close>: the call does not
  return.
\<close>

definition sys_arch_sem_wait :: "nat option \<Rightarrow> u32 \<Rightarrow> sys_sem \<Rightarrow> (sys_wait \<times> sys_sem) option" where
  "sys_arch_sem_wait given timeoutMs sem =
     (if sem = Some True then Some (Waited 0, Some False)
      else case given of
             None \<Rightarrow> if timeoutMs = 0 then None else Some (SYS_ARCH_TIMEOUT, sem)
           | Some t \<Rightarrow>
               if timeoutMs = 0 \<or> t \<le> unat (sys_arch_Ticks timeoutMs) then Some (Waited (of_nat t), sem)
               else Some (SYS_ARCH_TIMEOUT, sem))"

definition sys_sem_free :: "sys_sem \<Rightarrow> sys_sem" where
  "sys_sem_free sem = None"

section \<open>Mailboxes\<close>

definition SYS_ARCH_MBOX_CAPACITY :: nat where "SYS_ARCH_MBOX_CAPACITY = 16"
definition TCPIP_MBOX_SIZE :: nat where "TCPIP_MBOX_SIZE = 8"

record 'a sys_mbox =
  mb_size :: nat
  mb_messages :: "'a list option"

definition sys_mbox_new :: "bool \<Rightarrow> int \<Rightarrow> 'a sys_mbox \<Rightarrow> err_t \<times> 'a sys_mbox" where
  "sys_mbox_new created capacity mbox =
     (if capacity \<le> 0 \<or> int SYS_ARCH_MBOX_CAPACITY < capacity then (ERR_ARG, mbox)
      else if \<not> created then (ERR_MEM, mbox\<lparr>mb_messages := None\<rparr>)
      else (ERR_OK, mbox\<lparr>mb_size := nat capacity, mb_messages := Some []\<rparr>))"

definition sys_mbox_trypost :: "'a \<Rightarrow> 'a sys_mbox \<Rightarrow> err_t \<times> 'a sys_mbox" where
  "sys_mbox_trypost message mbox =
     (case mb_messages mbox of
        None \<Rightarrow> (ERR_MEM, mbox)
      | Some q \<Rightarrow>
          case xQueueSendToBack (mb_size mbox) message q of
            (sent, q') \<Rightarrow> (if sent then ERR_OK else ERR_MEM, mbox\<lparr>mb_messages := Some q'\<rparr>))"

definition sys_mbox_trypost_fromisr :: "'a \<Rightarrow> 'a sys_mbox \<Rightarrow> err_t \<times> 'a sys_mbox" where
  "sys_mbox_trypost_fromisr message mbox = sys_mbox_trypost message mbox"

definition sys_arch_mbox_tryfetch :: "'a sys_mbox \<Rightarrow> 'a option \<times> 'a sys_mbox" where
  "sys_arch_mbox_tryfetch mbox =
     (case mb_messages mbox of
        None \<Rightarrow> (None, mbox)
      | Some q \<Rightarrow> case xQueueReceive q of (m, q') \<Rightarrow> (m, mbox\<lparr>mb_messages := Some q'\<rparr>))"

text \<open>A post to a full mailbox waits for room: \<open>None\<close>.\<close>

definition sys_mbox_post :: "'a \<Rightarrow> 'a sys_mbox \<Rightarrow> 'a sys_mbox option" where
  "sys_mbox_post message mbox = (case sys_mbox_trypost message mbox of (e, mbox') \<Rightarrow> if e = ERR_OK then Some mbox' else None)"

text \<open>\<open>posted\<close>: the message another task posts while this one waits on an empty mailbox, and when.\<close>

definition sys_arch_mbox_fetch :: "(nat \<times> 'a) option \<Rightarrow> u32 \<Rightarrow> 'a sys_mbox \<Rightarrow> (sys_wait \<times> 'a option \<times> 'a sys_mbox) option" where
  "sys_arch_mbox_fetch posted timeoutMs mbox =
     (case sys_arch_mbox_tryfetch mbox of
        (Some m, mbox') \<Rightarrow> Some (Waited 0, Some m, mbox')
      | (None, mbox') \<Rightarrow>
          (case posted of
             None \<Rightarrow> if timeoutMs = 0 then None else Some (SYS_ARCH_TIMEOUT, None, mbox')
           | Some (t, m) \<Rightarrow>
               if timeoutMs = 0 \<or> t \<le> unat (sys_arch_Ticks timeoutMs) then Some (Waited (of_nat t), Some m, mbox')
               else Some (SYS_ARCH_TIMEOUT, None, mbox')))"

definition sys_mbox_free :: "'a sys_mbox \<Rightarrow> 'a sys_mbox" where
  "sys_mbox_free mbox = mbox\<lparr>mb_messages := None\<rparr>"

text \<open>The mailbox of the TCP/IP thread offers the interface of a bounded queue.\<close>

interpretation tcpip_mbox: bounded_queue "xQueueSendToBack TCPIP_MBOX_SIZE" xQueueReceive "\<lambda>q. q" TCPIP_MBOX_SIZE
  by unfold_locales (auto simp: xQueueSendToBack_def xQueueReceive_def TCPIP_MBOX_SIZE_def)

section \<open>Threads\<close>

definition SYS_ARCH_THREAD_COUNT :: nat where "SYS_ARCH_THREAD_COUNT = 2"
definition SYS_ARCH_THREAD_STACK_WORDS :: nat where "SYS_ARCH_THREAD_STACK_WORDS = 512"

text \<open>The flags of the static stacks; the answer is the stack the thread runs on.\<close>

fun sys_thread_Slot :: "bool list \<Rightarrow> nat \<Rightarrow> nat option" where
  "sys_thread_Slot [] index = None"
| "sys_thread_Slot (allocated # rest) index = (if \<not> allocated then Some index else sys_thread_Slot rest (Suc index))"

definition sys_thread_new :: "int \<Rightarrow> bool list \<Rightarrow> nat option \<times> bool list" where
  "sys_thread_new stackSize threads =
     (if stackSize \<le> 0 \<or> int (SYS_ARCH_THREAD_STACK_WORDS * 4) < stackSize then (None, threads)
      else case sys_thread_Slot threads 0 of
             None \<Rightarrow> (None, threads)
           | Some index \<Rightarrow> (Some index, threads[index := True]))"

section \<open>Properties\<close>

text \<open>A run of posts and fetches: the messages accepted, the messages delivered.\<close>

datatype 'a mbox_op = Post 'a | Fetch

fun mbox_run :: "'a mbox_op list \<Rightarrow> 'a sys_mbox \<Rightarrow> 'a list \<times> 'a list \<times> 'a sys_mbox" where
  "mbox_run [] mbox = ([], [], mbox)"
| "mbox_run (Post m # ops) mbox =
     (case sys_mbox_trypost m mbox of
        (e, mbox1) \<Rightarrow> case mbox_run ops mbox1 of (accepted, delivered, mbox2) \<Rightarrow> ((if e = ERR_OK then [m] else []) @ accepted, delivered, mbox2))"
| "mbox_run (Fetch # ops) mbox =
     (case sys_arch_mbox_tryfetch mbox of
        (r, mbox1) \<Rightarrow> case mbox_run ops mbox1 of (accepted, delivered, mbox2) \<Rightarrow> (accepted, (case r of None \<Rightarrow> [] | Some m \<Rightarrow> [m]) @ delivered, mbox2))"

lemma mbox_run_fifo:
  "mb_messages mbox = Some q \<Longrightarrow> length q \<le> mb_size mbox \<Longrightarrow> mbox_run ops mbox = (accepted, delivered, mbox') \<Longrightarrow>
    \<exists>q'. mb_messages mbox' = Some q' \<and> mb_size mbox' = mb_size mbox \<and> length q' \<le> mb_size mbox \<and> delivered @ q' = q @ accepted"
proof (induction ops arbitrary: mbox q accepted delivered)
  case Nil
  then show ?case by simp
next
  case (Cons op ops)
  show ?case
  proof (cases op)
    case (Post m)
    let ?room = "length q < mb_size mbox"
    define mbox1 where "mbox1 = mbox\<lparr>mb_messages := Some (if ?room then q @ [m] else q)\<rparr>"
    have p: "sys_mbox_trypost m mbox = (if ?room then ERR_OK else ERR_MEM, mbox1)"
      using Cons.prems(1) by (simp add: sys_mbox_trypost_def xQueueSendToBack_def mbox1_def)
    obtain accepted1 where r: "mbox_run ops mbox1 = (accepted1, delivered, mbox')" and a: "accepted = (if ?room then [m] else []) @ accepted1"
      using Cons.prems(3) p Post by (auto split: prod.splits)
    have "mb_messages mbox1 = Some (if ?room then q @ [m] else q)" "length (if ?room then q @ [m] else q) \<le> mb_size mbox1"
      using Cons.prems(2) by (simp_all add: mbox1_def)
    from Cons.IH [OF this r] show ?thesis
      using a by (auto simp: mbox1_def)
  next
    case Fetch
    define mbox1 where "mbox1 = mbox\<lparr>mb_messages := Some (tl q)\<rparr>"
    have f: "sys_arch_mbox_tryfetch mbox = (if q = [] then None else Some (hd q), mbox1)"
      using Cons.prems(1) by (cases q) (simp_all add: sys_arch_mbox_tryfetch_def xQueueReceive_def mbox1_def)
    obtain delivered1 where r: "mbox_run ops mbox1 = (accepted, delivered1, mbox')" and d: "delivered = (if q = [] then [] else [hd q]) @ delivered1"
      using Cons.prems(3) f Fetch by (auto split: prod.splits)
    have "mb_messages mbox1 = Some (tl q)" "length (tl q) \<le> mb_size mbox1"
      using Cons.prems(2) by (simp_all add: mbox1_def)
    from Cons.IH [OF this r] show ?thesis
      using d by (cases q) (auto simp: mbox1_def)
  qed
qed

text \<open>
  A new mailbox under any sequence of posts and fetches delivers exactly the messages it accepted, in
  the order in which it accepted them, holds the rest, and never holds more than its size, which is at
  most sixteen.
\<close>

theorem mailbox_fifo:
  assumes "sys_mbox_new True capacity mbox0 = (ERR_OK, mbox)" and "mbox_run ops mbox = (accepted, delivered, mbox')"
  shows "\<exists>q. mb_messages mbox' = Some q \<and> delivered @ q = accepted \<and> int (length q) \<le> capacity \<and> capacity \<le> 16"
proof -
  have m: "mb_messages mbox = Some []" "mb_size mbox = nat capacity" "capacity \<le> 16" "0 < capacity"
    using assms(1) by (auto simp: sys_mbox_new_def SYS_ARCH_MBOX_CAPACITY_def split: if_splits)
  show ?thesis
    using mbox_run_fifo [OF m(1) _ assms(2)] m(2-4) by auto
qed

text \<open>
  The time-out handed to the kernel is finite and positive exactly when lwIP asked for a positive
  time, and equals it in milliseconds; zero asks for an unbounded wait. (At 1000 ticks per second the
  one request that would become the unbounded wait is that of \<open>2 ^ 32 - 1\<close> milliseconds.)
\<close>

theorem sys_arch_Ticks_exact: "sys_arch_Ticks timeoutMs = (if timeoutMs = 0 then portMAX_DELAY else timeoutMs)"
  by (simp add: sys_arch_Ticks_def pdMS_TO_TICKS_def configTICK_RATE_HZ_def)

lemma sys_thread_Slot_le: "sys_thread_Slot threads k = Some i \<Longrightarrow> k \<le> i"
  by (induction threads arbitrary: k) (fastforce split: if_splits)+

lemma sys_thread_Slot_free: "sys_thread_Slot threads k = Some (k + i) \<Longrightarrow> i < length threads \<and> \<not> threads ! i"
proof (induction threads arbitrary: k i)
  case (Cons a threads)
  then show ?case
    using Cons.IH [of "Suc k" "i - 1"] by (cases i) (auto split: if_splits dest: sys_thread_Slot_le)
qed simp

text \<open>A stack is handed out once: while its thread exists no other thread gets it.\<close>

lemma sys_thread_new_slot:
  assumes "sys_thread_new stackSize threads = (Some i, threads')"
  shows "i < length threads \<and> \<not> threads ! i \<and> threads' = threads[i := True] \<and> stackSize \<le> 2048"
  using assms sys_thread_Slot_free [of threads 0 i]
  by (auto simp: sys_thread_new_def SYS_ARCH_THREAD_STACK_WORDS_def split: if_splits option.splits)

end
