(* ===== verification/Board.thy ===== *)
theory Board
  imports Buzzer_Service Rtc
begin

text \<open>
  The small drivers of the board: the millisecond counter, the microsecond delay and the configuration
  of a pin (\<^verbatim>\<open>Core/Src/device_platform.c\<close>, \<^verbatim>\<open>delay.c\<close>, \<^verbatim>\<open>platform.h\<close>), the buzzer timer (\<^verbatim>\<open>Periph/Src/buzzer.c\<close>),
  the console line (\<^verbatim>\<open>rs485.c\<close>, \<open>_write\<close> of \<^verbatim>\<open>syscalls.c\<close>), the heap limit (\<^verbatim>\<open>sysmem.c\<close>), the bounded wait of the clock
  set-up (\<^verbatim>\<open>main.c\<close>) and the heartbeat LED. What the counters and status registers read is a script.
  Shown: a pin is configured without touching another one, a delay is never too short across the
  wrap-around of the counter, every tone of the services is one the timer accepts, and the line driver
  is always released.
\<close>

section \<open>Time\<close>

text \<open>
  A wait on a wrapping counter: the values it reads, until the difference reaches the bound. \<open>None\<close>: the
  script ends while the loop still runs.
\<close>

fun wait_elapsed :: "u32 \<Rightarrow> u32 \<Rightarrow> u32 list \<Rightarrow> u32 option" where
  "wait_elapsed started duration [] = None"
| "wait_elapsed started duration (tick # ticks) =
     (if tick - started < duration then wait_elapsed started duration ticks else Some tick)"

definition Platform_Delay :: "u32 \<Rightarrow> u32 list \<Rightarrow> u32 option" where
  "Platform_Delay milliseconds ticks = (case ticks of [] \<Rightarrow> None | started # rest \<Rightarrow> wait_elapsed started milliseconds rest)"

text \<open>\<open>cyccnt\<close>: what the cycle counter reads; \<open>SystemCoreClock\<close> is an argument.\<close>

definition Delay_Microseconds :: "u32 \<Rightarrow> u32 \<Rightarrow> u32 list \<Rightarrow> u32 option" where
  "Delay_Microseconds clock microseconds cyccnt =
     (case cyccnt of [] \<Rightarrow> None | start # rest \<Rightarrow> wait_elapsed start (microseconds * (clock div 1000000)) rest)"

definition Platform_IncrementTick :: "u32 \<Rightarrow> u32" where
  "Platform_IncrementTick platformTick = platformTick + 1"

section \<open>Pins\<close>

record gpio =
  MODER :: u32
  PUPDR :: u32
  OSPEEDR :: u32
  AFR :: "u32 list"
  ODR :: u32

definition Platform_GpioConfigure :: "nat \<Rightarrow> u32 \<Rightarrow> u32 \<Rightarrow> u32 \<Rightarrow> u8 \<Rightarrow> gpio \<Rightarrow> gpio" where
  "Platform_GpioConfigure pin mode pull speed alternate port =
     (let shift = pin * 2;
          port1 = port\<lparr>MODER := (MODER port AND NOT (push_bit shift 3)) OR push_bit shift mode,
                       PUPDR := (PUPDR port AND NOT (push_bit shift 3)) OR push_bit shift pull,
                       OSPEEDR := (OSPEEDR port AND NOT (push_bit shift 3)) OR push_bit shift speed\<rparr>
      in if mode = 2
         then let index = pin div 8; alternateShift = (pin mod 8) * 4
              in port1\<lparr>AFR := (AFR port1)[index := (AFR port1 ! index AND NOT (push_bit alternateShift 15)) OR push_bit alternateShift (ucast alternate)]\<rparr>
         else port1)"

text \<open>Writing \<open>BSRR\<close> sets or clears one bit of the output.\<close>

definition Platform_GpioWrite :: "nat \<Rightarrow> bool \<Rightarrow> gpio \<Rightarrow> gpio" where
  "Platform_GpioWrite pin high port = port\<lparr>ODR := (if high then ODR port OR push_bit pin 1 else ODR port AND NOT (push_bit pin 1))\<rparr>"

text \<open>\<open>idr\<close>: the input register of the port.\<close>

definition Platform_GpioRead :: "nat \<Rightarrow> u32 \<Rightarrow> bool" where
  "Platform_GpioRead pin idr \<longleftrightarrow> idr AND push_bit pin 1 \<noteq> 0"

section \<open>Buzzer timer\<close>

definition BUZZER_TIMER_PRESCALER :: u32 where "BUZZER_TIMER_PRESCALER = 167"
definition BUZZER_TIMER_COUNTER_HZ :: u32 where "BUZZER_TIMER_COUNTER_HZ = 1000000"
definition BUZZER_MIN_FREQUENCY_HZ :: u16 where "BUZZER_MIN_FREQUENCY_HZ = 500"
definition BUZZER_MAX_FREQUENCY_HZ :: u16 where "BUZZER_MAX_FREQUENCY_HZ = 5000"

record tim1 =
  TIM1_PSC :: u32
  TIM1_ARR :: u32
  TIM1_CCR1 :: u32
  TIM1_CNT :: u32
  TIM1_CEN :: bool
  TIM1_CC1E :: bool
  TIM1_MOE :: bool

definition Buzzer_SetFrequency :: "u16 \<Rightarrow> tim1 \<Rightarrow> Platform_StatusTypeDef \<times> tim1" where
  "Buzzer_SetFrequency frequencyHz t =
     (if frequencyHz < BUZZER_MIN_FREQUENCY_HZ \<or> BUZZER_MAX_FREQUENCY_HZ < frequencyHz then (PLATFORM_STATUS_ERROR, t)
      else let period = BUZZER_TIMER_COUNTER_HZ div ucast frequencyHz - 1
           in (PLATFORM_STATUS_OK, t\<lparr>TIM1_ARR := period, TIM1_CCR1 := (period + 1) div 2, TIM1_CNT := 0\<rparr>))"

definition Buzzer_Start :: "tim1 \<Rightarrow> Platform_StatusTypeDef \<times> tim1" where
  "Buzzer_Start t = (PLATFORM_STATUS_OK, t\<lparr>TIM1_CC1E := True, TIM1_MOE := True, TIM1_CEN := True\<rparr>)"

definition Buzzer_Stop :: "tim1 \<Rightarrow> Platform_StatusTypeDef \<times> tim1" where
  "Buzzer_Stop t = (PLATFORM_STATUS_OK, t\<lparr>TIM1_CEN := False, TIM1_CC1E := False, TIM1_MOE := False, TIM1_CNT := 0\<rparr>)"

definition Buzzer_Init :: "gpio \<Rightarrow> tim1 \<Rightarrow> Platform_StatusTypeDef \<times> gpio \<times> tim1" where
  "Buzzer_Init port t =
     (let port1 = Platform_GpioConfigure 8 2 2 3 1 port
      in case Buzzer_SetFrequency BUZZER_DEFAULT_FREQUENCY_HZ (t\<lparr>TIM1_PSC := BUZZER_TIMER_PRESCALER\<rparr>) of
           (s, t1) \<Rightarrow>
             if s \<noteq> PLATFORM_STATUS_OK then (PLATFORM_STATUS_ERROR, port1, t1)
             else case Buzzer_Stop (t1\<lparr>TIM1_CC1E := True, TIM1_MOE := True\<rparr>) of (s', t2) \<Rightarrow> (s', port1, t2))"

text \<open>
  The whole of \<open>buzzerService_Tone\<close> on the timer: \<open>None\<close> is the call of \<open>Error_Handler\<close>. While the tone
  sounds the task sleeps; the timer state of that time is returned with the final one.
\<close>

definition buzzer_PlayTone :: "u16 \<Rightarrow> tim1 \<Rightarrow> (tim1 \<times> tim1) option" where
  "buzzer_PlayTone frequencyHz t =
     (case Buzzer_SetFrequency frequencyHz t of
        (s1, t1) \<Rightarrow>
          if s1 \<noteq> PLATFORM_STATUS_OK then None
          else case Buzzer_Start t1 of
                 (s2, t2) \<Rightarrow>
                   if s2 \<noteq> PLATFORM_STATUS_OK then None
                   else case Buzzer_Stop t2 of
                          (s3, t3) \<Rightarrow> if s3 \<noteq> PLATFORM_STATUS_OK then None else Some (t2, t3))"

section \<open>Console line\<close>

record rs485 =
  rs485Initialized :: bool
  rs485Port :: gpio
  rs485Sent :: "u8 list"

definition RS485_DIRECTION_PIN :: nat where "RS485_DIRECTION_PIN = 7"
definition UINT16_MAX :: nat where "UINT16_MAX = 65535"

text \<open>
  Each element of the script is one look at the status register; when it ends while the flag is still
  clear, the second is over.
\<close>

fun rs485_AwaitFlag :: "bool list \<Rightarrow> bool \<times> bool list" where
  "rs485_AwaitFlag [] = (False, [])"
| "rs485_AwaitFlag (ready # polls) = (if ready then (True, polls) else rs485_AwaitFlag polls)"

fun rs485_Send :: "u8 list \<Rightarrow> bool list \<Rightarrow> rs485 \<Rightarrow> Platform_StatusTypeDef \<times> bool list \<times> rs485" where
  "rs485_Send [] polls h = (PLATFORM_STATUS_OK, polls, h)"
| "rs485_Send (b # bs) polls h =
     (case rs485_AwaitFlag polls of
        (False, rest) \<Rightarrow> (PLATFORM_STATUS_TIMEOUT, rest, h)
      | (True, rest) \<Rightarrow> rs485_Send bs rest (h\<lparr>rs485Sent := rs485Sent h @ [b]\<rparr>))"

definition Rs485_Transmit :: "u8 list \<Rightarrow> bool list \<Rightarrow> rs485 \<Rightarrow> Platform_StatusTypeDef \<times> rs485" where
  "Rs485_Transmit data polls h =
     (if \<not> rs485Initialized h then (PLATFORM_STATUS_ERROR, h)
      else if length data = 0 then (PLATFORM_STATUS_OK, h)
      else if UINT16_MAX < length data then (PLATFORM_STATUS_ERROR, h)
      else
        let h1 = h\<lparr>rs485Port := Platform_GpioWrite RS485_DIRECTION_PIN True (rs485Port h)\<rparr>
        in case rs485_Send data polls h1 of
             (s, rest, h2) \<Rightarrow>
               let s' = (if s = PLATFORM_STATUS_OK \<and> \<not> fst (rs485_AwaitFlag rest) then PLATFORM_STATUS_TIMEOUT else s)
               in (s', h2\<lparr>rs485Port := Platform_GpioWrite RS485_DIRECTION_PIN False (rs485Port h2)\<rparr>))"

definition Rs485_Init :: "rs485 \<Rightarrow> Platform_StatusTypeDef \<times> rs485" where
  "Rs485_Init h =
     (let p = Platform_GpioWrite RS485_DIRECTION_PIN False (rs485Port h);
          p1 = Platform_GpioConfigure 7 1 0 3 0 p;
          p2 = Platform_GpioConfigure 5 2 1 3 7 p1;
          p3 = Platform_GpioConfigure 6 2 1 3 7 p2
      in (PLATFORM_STATUS_OK, h\<lparr>rs485Initialized := True, rs485Port := p3\<rparr>))"

text \<open>
  \<open>suspended\<close> counts the calls of \<open>vTaskSuspendAll\<close> that \<open>xTaskResumeAll\<close> has not undone; the length of
  the data is not negative.
\<close>

definition syscall_write :: "bool \<Rightarrow> u8 list \<Rightarrow> bool list \<Rightarrow> nat \<times> rs485 \<Rightarrow> int \<times> nat \<times> rs485" where
  "syscall_write schedulerRunning data polls st =
     (case st of (suspended, h) \<Rightarrow>
        let suspended1 = (if schedulerRunning then suspended + 1 else suspended)
        in case Rs485_Transmit data polls h of
             (s, h1) \<Rightarrow>
               let suspended2 = (if schedulerRunning then suspended1 - 1 else suspended1)
               in (if s \<noteq> PLATFORM_STATUS_OK then - 1 else int (length data), suspended2, h1))"

text \<open>The C library's clock: \<open>None\<close> is the error \<open>EIO\<close>.\<close>

definition syscall_gettimeofday :: "rtc \<Rightarrow> (u32 \<times> nat) option" where
  "syscall_gettimeofday h = (case Rtc_GetUnixTime h of None \<Rightarrow> None | Some unixTime \<Rightarrow> Some (unixTime, 0))"

section \<open>Heap\<close>

text \<open>The start of the heap and its limit come from the linker script; the increment is a signed number in two's complement; \<open>None\<close> is the error \<open>ENOMEM\<close>.\<close>

definition syscall_sbrk :: "u32 \<Rightarrow> u32 \<Rightarrow> u32 \<Rightarrow> u32 option \<Rightarrow> u32 option \<times> u32 option" where
  "syscall_sbrk heapStart limit incr heapEnd =
     (let current = (case heapEnd of None \<Rightarrow> heapStart | Some e \<Rightarrow> e)
      in if limit < current + incr then (None, Some current)
         else (Some current, Some (current + incr)))"

section \<open>Heartbeat\<close>

definition HEARTBEAT_FIRST_PULSE_MS :: nat where "HEARTBEAT_FIRST_PULSE_MS = 120"
definition HEARTBEAT_INTER_PULSE_PAUSE_MS :: nat where "HEARTBEAT_INTER_PULSE_PAUSE_MS = 100"
definition HEARTBEAT_SECOND_PULSE_MS :: nat where "HEARTBEAT_SECOND_PULSE_MS = 120"
definition HEARTBEAT_REST_MS :: nat where "HEARTBEAT_REST_MS = 880"
definition HEARTBEAT_PERIOD_MS :: nat where
  "HEARTBEAT_PERIOD_MS = HEARTBEAT_FIRST_PULSE_MS + HEARTBEAT_INTER_PULSE_PAUSE_MS + HEARTBEAT_SECOND_PULSE_MS + HEARTBEAT_REST_MS"
definition HEARTBEAT_LED_PIN :: nat where "HEARTBEAT_LED_PIN = 13"

definition heartbeatService_SetLed :: "bool \<Rightarrow> gpio \<Rightarrow> gpio" where
  "heartbeatService_SetLed enabled port = Platform_GpioWrite HEARTBEAT_LED_PIN (\<not> enabled) port"

text \<open>
  One period that begins at time \<open>t\<close>: the port and how long it stays that way; the last wait ends at
  \<open>t + HEARTBEAT_PERIOD_MS\<close>, the time \<open>vTaskDelayUntil\<close> computes.
\<close>

definition heartbeatService_Period :: "nat \<Rightarrow> gpio \<Rightarrow> (gpio \<times> nat) list \<times> nat \<times> gpio" where
  "heartbeatService_Period t port =
     (let p1 = heartbeatService_SetLed True port; p2 = heartbeatService_SetLed False p1;
          p3 = heartbeatService_SetLed True p2; p4 = heartbeatService_SetLed False p3;
          t4 = t + HEARTBEAT_FIRST_PULSE_MS + HEARTBEAT_INTER_PULSE_PAUSE_MS + HEARTBEAT_SECOND_PULSE_MS
      in ([(p1, HEARTBEAT_FIRST_PULSE_MS), (p2, HEARTBEAT_INTER_PULSE_PAUSE_MS), (p3, HEARTBEAT_SECOND_PULSE_MS),
           (p4, t + HEARTBEAT_PERIOD_MS - t4)], t + HEARTBEAT_PERIOD_MS, p4))"

definition HeartbeatService_Init :: "bool \<Rightarrow> gpio \<Rightarrow> ErrorStatus \<times> gpio" where
  "HeartbeatService_Init taskCreated port =
     (let p = Platform_GpioConfigure HEARTBEAT_LED_PIN 1 0 0 0 (heartbeatService_SetLed False port)
      in (if taskCreated then SUCCESS else ERROR, p))"

section \<open>Watchdog\<close>

text \<open>
  The independent watchdog: the three keys of \<open>IWDG->KR\<close>, the registers that are writable after the first
  of them, and the down-counter, which runs at the LSI clock divided by four times two to the power of
  the prescaler field.
\<close>

record iwdg =
  IWDG_unlocked :: bool
  IWDG_PR :: nat
  IWDG_RLR :: nat
  IWDG_counter :: nat
  IWDG_running :: bool

definition IWDG_KR :: "u32 \<Rightarrow> iwdg \<Rightarrow> iwdg" where
  "IWDG_KR key w =
     (if key = 0x5555 then w\<lparr>IWDG_unlocked := True\<rparr>
      else if key = 0xAAAA then w\<lparr>IWDG_unlocked := False, IWDG_counter := IWDG_RLR w\<rparr>
      else if key = 0xCCCC then w\<lparr>IWDG_unlocked := False, IWDG_running := True\<rparr>
      else w\<lparr>IWDG_unlocked := False\<rparr>)"

definition IWDG_write :: "nat \<Rightarrow> nat \<Rightarrow> iwdg \<Rightarrow> iwdg" where
  "IWDG_write prescaler reload w = (if IWDG_unlocked w then w\<lparr>IWDG_PR := prescaler, IWDG_RLR := reload\<rparr> else w)"

text \<open>What the task does before its loop, once the status register has become zero.\<close>

definition watchdog_Start :: "iwdg \<Rightarrow> iwdg" where
  "watchdog_Start w = IWDG_KR 0xCCCC (IWDG_KR 0xAAAA (IWDG_write 6 4095 (IWDG_KR 0x5555 w)))"

text \<open>Passing time at an LSI clock of \<open>lsi\<close> hertz; \<open>None\<close> is the reset of the chip.\<close>

definition iwdg_Elapse :: "nat \<Rightarrow> nat \<Rightarrow> iwdg \<Rightarrow> iwdg option" where
  "iwdg_Elapse lsi ms w =
     (let ticks = lsi * ms div (1000 * (4 * 2 ^ IWDG_PR w))
      in if \<not> IWDG_running w then Some w
         else if IWDG_counter w < ticks then None
         else Some (w\<lparr>IWDG_counter := IWDG_counter w - ticks\<rparr>))"

text \<open>The loop of the default task; each element is how long one round takes, sleep and delays included.\<close>

fun rtos_DefaultTask :: "nat \<Rightarrow> nat list \<Rightarrow> iwdg \<Rightarrow> iwdg option" where
  "rtos_DefaultTask lsi [] w = Some w"
| "rtos_DefaultTask lsi (ms # rounds) w =
     (case iwdg_Elapse lsi ms (IWDG_KR 0xAAAA w) of None \<Rightarrow> None | Some w' \<Rightarrow> rtos_DefaultTask lsi rounds w')"

section \<open>Bounded register wait\<close>

text \<open>\<open>reads\<close>: what the register reads the \<open>k\<close>-th time.\<close>

fun system_WaitForRegister :: "nat \<Rightarrow> (nat \<Rightarrow> u32) \<Rightarrow> nat \<Rightarrow> u32 \<Rightarrow> u32 \<Rightarrow> Platform_StatusTypeDef" where
  "system_WaitForRegister 0 reads k msk expected = PLATFORM_STATUS_TIMEOUT"
| "system_WaitForRegister (Suc remaining) reads k msk expected =
     (if reads k AND msk = expected then PLATFORM_STATUS_OK
      else system_WaitForRegister remaining reads (Suc k) msk expected)"

section \<open>Properties\<close>

lemma wait_elapsed_sound: "wait_elapsed started duration ticks = Some tick \<Longrightarrow> duration \<le> tick - started"
  by (induction ticks) (auto split: if_splits)

text \<open>
  When a delay returns, at least the requested number of milliseconds has passed on the counter,
  also when the counter wrapped around; and it returns at the first look at which they have.
\<close>

theorem Platform_Delay_exact:
  assumes "\<And>i. i < length before \<Longrightarrow> before ! i - started < milliseconds"
  shows "Platform_Delay milliseconds (started # before @ tick # rest) =
    (if tick - started < milliseconds then Platform_Delay milliseconds (started # rest) else Some tick)"
proof -
  have "wait_elapsed started milliseconds (before @ tick # rest) =
    (if tick - started < milliseconds then wait_elapsed started milliseconds rest else Some tick)"
    using assms
  proof (induction before)
    case (Cons b bs)
    then show ?case
      using Cons.prems [of 0] Cons.IH Cons.prems [of "Suc _"] by fastforce
  qed simp
  then show ?thesis
    by (simp add: Platform_Delay_def)
qed

text \<open>The fields of width \<open>n\<close> of a register: one is written, the others stay.\<close>

lemma same_field:
  assumes "k < n" and "p * n \<le> q * n + k" and "q * n + k < p * n + n"
  shows "q = (p::nat)"
proof -
  define d where "d = q * n + k - p * n"
  have "q * n + k = p * n + d" "d < n"
    using assms(2,3) by (simp_all add: d_def)
  then have "(p * n + d) div n = p" "(p * n + d) div n = (q * n + k) div n"
    by simp_all
  then show ?thesis
    using assms(1) by simp
qed

lemma field_update:
  fixes w v :: u32
  assumes "p * n + n \<le> 32" and "q * n + n \<le> 32" and "take_bit n v = v"
  shows "take_bit n (drop_bit (q * n) ((w AND NOT (push_bit (p * n) (mask n))) OR push_bit (p * n) v)) =
    (if q = p then v else take_bit n (drop_bit (q * n) w))"
proof (rule bit_word_eqI)
  fix k
  assume "k < LENGTH(32)"
  have v: "bit v k = (k < n \<and> bit v k)"
    using assms(3) by (metis bit_take_bit_iff)
  have other: "\<not> (p * n \<le> q * n + k \<and> q * n + k < p * n + n)" if "k < n" "q \<noteq> p"
    using same_field [of k n p q] that by blast
  have high: "\<not> bit v (q * n + k - p * n)" if "p * n + n \<le> q * n + k"
    using assms(3) that by (metis (no_types) add_diff_cancel_left' bit_take_bit_iff diff_le_mono le_diff_conv2 not_le add.commute add_leD1)
  show "bit (take_bit n (drop_bit (q * n) ((w AND NOT (push_bit (p * n) (mask n))) OR push_bit (p * n) v))) k =
    bit (if q = p then v else take_bit n (drop_bit (q * n) w)) k"
    using assms(1,2) v other high by (cases "q = p"; cases "k < n") (auto simp: bit_simps not_le not_less)
qed

definition gpio_field :: "nat \<Rightarrow> nat \<Rightarrow> u32 \<Rightarrow> u32" where
  "gpio_field n q w = take_bit n (drop_bit (q * n) w)"

lemma gpio_field_2:
  assumes "pin < 16" and "q < 16" and "v < 4"
  shows "gpio_field 2 q ((w AND NOT (push_bit (pin * 2) 3)) OR push_bit (pin * 2) v) = (if q = pin then v else gpio_field 2 q w)"
proof -
  have "(3 :: u32) = mask 2"
    by (simp add: mask_numeral)
  moreover have "take_bit 2 v = v"
    using assms(3) by (simp add: word_unat_eq_iff unsigned_take_bit_eq take_bit_nat_eq_self_iff word_less_nat_alt)
  ultimately show ?thesis
    using assms(1,2) field_update [of pin 2 q v w] by (simp add: gpio_field_def)
qed

lemma gpio_field_4:
  assumes "i < 8" and "j < 8" and "unat (v :: u8) < 16"
  shows "gpio_field 4 j ((w AND NOT (push_bit (i * 4) 15)) OR push_bit (i * 4) (ucast v)) = (if j = i then ucast v else gpio_field 4 j w)"
proof -
  have "(15 :: u32) = mask 4"
    by (simp add: mask_numeral)
  moreover have "unat (ucast v :: u32) = unat v"
    using assms(3) by (simp add: unsigned_ucast_eq take_bit_nat_eq_self_iff)
  then have "take_bit 4 (ucast v :: u32) = ucast v"
    using assms(3) by (simp add: word_unat_eq_iff unsigned_take_bit_eq take_bit_nat_eq_self_iff)
  ultimately show ?thesis
    using assms(1,2) field_update [of i 4 j "ucast v" w] by (simp add: gpio_field_def)
qed

text \<open>
  Configuring a pin writes exactly its own mode, pull, speed and, for an alternate function, its
  function number; every field of every other pin of the port stays as it was.
\<close>

theorem Platform_GpioConfigure_own_pin:
  assumes "pin < 16" and "mode < 4" and "pull < 4" and "speed < 4" and "unat alternate < 16" and "length (AFR port) = 2" and "q < 16"
  shows "let port' = Platform_GpioConfigure pin mode pull speed alternate port
    in gpio_field 2 q (MODER port') = (if q = pin then mode else gpio_field 2 q (MODER port))
     \<and> gpio_field 2 q (PUPDR port') = (if q = pin then pull else gpio_field 2 q (PUPDR port))
     \<and> gpio_field 2 q (OSPEEDR port') = (if q = pin then speed else gpio_field 2 q (OSPEEDR port))
     \<and> gpio_field 4 (q mod 8) (AFR port' ! (q div 8)) = (if q = pin \<and> mode = 2 then ucast alternate else gpio_field 4 (q mod 8) (AFR port ! (q div 8)))
     \<and> ODR port' = ODR port"
proof -
  have i: "pin div 8 < 2" "q div 8 < 2" "pin mod 8 < 8" "q mod 8 < 8"
    using assms(1,7) by (simp_all add: less_mult_imp_div_less)
  have eq: "q = pin \<longleftrightarrow> q div 8 = pin div 8 \<and> q mod 8 = pin mod 8"
    by (metis div_mult_mod_eq)
  show ?thesis
    using assms(6) i
    by (auto simp: Platform_GpioConfigure_def Let_def gpio_field_2 [OF assms(1,7)] assms(2-4) gpio_field_4 [OF i(3,4) assms(5)] gpio_field_4 [OF i(3,3) assms(5)]
        nth_list_update eq)
qed

section \<open>Tones the timer accepts\<close>

text \<open>The frequencies of a list of buzzer events.\<close>

definition event_tones :: "buzzer_event list \<Rightarrow> u16 list" where
  "event_tones es = concat (map (\<lambda>e. case e of Tone f _ \<Rightarrow> [f] | Pause _ \<Rightarrow> []) es)"

lemma event_tones_append: "event_tones (xs @ ys) = event_tones xs @ event_tones ys"
  by (simp add: event_tones_def)

lemma PlayCount_tones: "set (event_tones (buzzerService_PlayCount n)) \<subseteq> {BUZZER_DEFAULT_FREQUENCY_HZ}"
  by (auto simp: event_tones_def buzzerService_PlayCount_def buzzerService_Tone_def split: if_splits)

lemma job_tones: "set (event_tones (job_events job)) \<subseteq> {1600, 2100, 2500, 2800}"
proof -
  have melody: "set (event_tones (buzzerService_PlayCertificateWarning i)) \<subseteq> {1600, 2100, 2800} \<union> {BUZZER_DEFAULT_FREQUENCY_HZ}" for i
    using PlayCount_tones [of "i + 1"]
    by (auto simp: buzzerService_PlayCertificateWarning_def event_tones_append buzzer_melody_def buzzerService_Tone_def event_tones_def upt_rec)
  show ?thesis
    using melody PlayCount_tones by (cases job) (fastforce simp: job_events_def BUZZER_DEFAULT_FREQUENCY_HZ_def event_tones_def)+
qed

lemma accepted_tone:
  assumes "f \<in> {1600, 2100, 2500, 2800}"
  shows "\<exists>t2 t3. buzzer_PlayTone f t = Some (t2, t3) \<and> TIM1_CEN t2 \<and> TIM1_CC1E t2 \<and> TIM1_MOE t2
    \<and> unat (TIM1_ARR t2) + 1 = 1000000 div unat f \<and> unat (TIM1_CCR1 t2) = (unat (TIM1_ARR t2) + 1) div 2
    \<and> unat (TIM1_ARR t2) < 65536 \<and> \<not> TIM1_CEN t3 \<and> \<not> TIM1_CC1E t3 \<and> \<not> TIM1_MOE t3"
  using assms
  by (auto simp: buzzer_PlayTone_def Buzzer_SetFrequency_def Buzzer_Start_def Buzzer_Stop_def BUZZER_MIN_FREQUENCY_HZ_def
      BUZZER_MAX_FREQUENCY_HZ_def BUZZER_TIMER_COUNTER_HZ_def Let_def)

text \<open>
  Every tone that any job of the buzzer service plays is one the timer accepts, so the service never
  ends in \<open>Error_Handler\<close>; while it sounds, the period register holds the number of microseconds of one
  period, in its 16 bits, with half of it as the pulse, and afterwards the output is off.
\<close>

theorem buzzer_tones_accepted:
  assumes "f \<in> set (event_tones (job_events job))"
  shows "\<exists>t2 t3. buzzer_PlayTone f t = Some (t2, t3) \<and> TIM1_CEN t2 \<and> TIM1_CC1E t2 \<and> TIM1_MOE t2
    \<and> unat (TIM1_ARR t2) + 1 = 1000000 div unat f \<and> unat (TIM1_CCR1 t2) = (unat (TIM1_ARR t2) + 1) div 2
    \<and> unat (TIM1_ARR t2) < 65536 \<and> \<not> TIM1_CEN t3 \<and> \<not> TIM1_CC1E t3 \<and> \<not> TIM1_MOE t3"
  using accepted_tone job_tones assms by (meson subsetD)

section \<open>The line is released\<close>

lemma rs485_Send_bytes:
  "rs485_Send bs polls h = (s, rest, h') \<Longrightarrow> s \<in> {PLATFORM_STATUS_OK, PLATFORM_STATUS_TIMEOUT}
    \<and> (\<exists>k \<le> length bs. h' = h\<lparr>rs485Sent := rs485Sent h @ take k bs\<rparr> \<and> (s = PLATFORM_STATUS_OK \<longrightarrow> k = length bs))"
proof (induction bs arbitrary: polls h)
  case Nil
  then show ?case by simp
next
  case (Cons b bs)
  obtain ready rest1 where a: "rs485_AwaitFlag polls = (ready, rest1)"
    by fastforce
  show ?case
  proof (cases ready)
    case True
    then have "rs485_Send bs rest1 (h\<lparr>rs485Sent := rs485Sent h @ [b]\<rparr>) = (s, rest, h')"
      using Cons.prems a by simp
    from Cons.IH [OF this] obtain k where "k \<le> length bs" "h' = h\<lparr>rs485Sent := rs485Sent h @ take (Suc k) (b # bs)\<rparr>"
      "s = PLATFORM_STATUS_OK \<longrightarrow> k = length bs" "s \<in> {PLATFORM_STATUS_OK, PLATFORM_STATUS_TIMEOUT}"
      by auto
    then show ?thesis
      by (intro conjI exI [of _ "Suc k"]) auto
  next
    case False
    then show ?thesis
      using Cons.prems a by (intro conjI exI [of _ 0]) auto
  qed
qed

lemma direction_low: "\<not> bit (ODR (Platform_GpioWrite RS485_DIRECTION_PIN False p)) 7"
  by (simp add: Platform_GpioWrite_def RS485_DIRECTION_PIN_def bit_simps)

text \<open>
  However the transmission on the console line ends, by success, timeout or refusal, the direction
  pin is low again so that the line can be read, the scheduler is resumed as often as it was suspended,
  and the bytes on the line are the first bytes of the text, all of them when \<open>_write\<close> reports success.
\<close>

theorem console_line_released:
  assumes "\<not> bit (ODR (rs485Port h)) 7" and "syscall_write running data polls (suspended, h) = (n, suspended', h')"
  shows "\<not> bit (ODR (rs485Port h')) 7 \<and> suspended' = suspended
    \<and> (\<exists>k \<le> length data. rs485Sent h' = rs485Sent h @ take k data \<and> (n \<noteq> - 1 \<longrightarrow> n = int (length data) \<and> k = length data))"
proof -
  obtain s where t: "Rs485_Transmit data polls h = (s, h')" and n: "n = (if s \<noteq> PLATFORM_STATUS_OK then - 1 else int (length data))"
    and susp: "suspended' = suspended"
    using assms(2) by (auto simp: syscall_write_def Let_def split: prod.splits if_splits)
  show ?thesis
  proof (cases "rs485Initialized h \<and> 0 < length data \<and> length data \<le> UINT16_MAX")
    case False
    then have "h' = h" "s = PLATFORM_STATUS_OK \<longrightarrow> data = []"
      using t by (auto simp: Rs485_Transmit_def split: if_splits)
    then show ?thesis
      using assms(1) n susp by (intro conjI exI [of _ 0]) auto
  next
    case True
    let ?h1 = "h\<lparr>rs485Port := Platform_GpioWrite RS485_DIRECTION_PIN True (rs485Port h)\<rparr>"
    obtain s1 rest h2 where send: "rs485_Send data polls ?h1 = (s1, rest, h2)"
      by (metis prod_cases3)
    have s: "s = PLATFORM_STATUS_OK \<longrightarrow> s1 = PLATFORM_STATUS_OK" and h': "h' = h2\<lparr>rs485Port := Platform_GpioWrite RS485_DIRECTION_PIN False (rs485Port h2)\<rparr>"
      using t True send by (auto simp: Rs485_Transmit_def Let_def split: if_splits)
    show ?thesis
      using rs485_Send_bytes [OF send] s n susp direction_low by (auto simp: h')
  qed
qed

section \<open>Heartbeat, register wait and heap\<close>

lemma bit_GpioWrite: "pin < 32 \<Longrightarrow> bit (ODR (Platform_GpioWrite pin high p)) k = (if k = pin then high else bit (ODR p) k)"
  by (auto simp: Platform_GpioWrite_def bit_simps dest: bit_imp_le_length)

text \<open>
  The heartbeat repeats exactly every 1220 ms: two pulses of 120 ms, 100 ms apart, with the active-low
  output low during the pulses and high otherwise, and no other pin is touched.
\<close>

theorem heartbeat_rhythm:
  assumes "heartbeatService_Period t port = (phases, t', port')"
  shows "t' = t + 1220 \<and> sum_list (map snd phases) = 1220
    \<and> map (\<lambda>(p, d). (bit (ODR p) 13, d)) phases = [(False, 120), (True, 100), (False, 120), (True, 880)]
    \<and> (\<forall>p \<in> set (map fst phases). \<forall>k. k \<noteq> 13 \<longrightarrow> bit (ODR p) k = bit (ODR port) k)"
  using assms
  by (auto simp: heartbeatService_Period_def heartbeatService_SetLed_def bit_GpioWrite Let_def HEARTBEAT_LED_PIN_def
      HEARTBEAT_PERIOD_MS_def HEARTBEAT_FIRST_PULSE_MS_def HEARTBEAT_INTER_PULSE_PAUSE_MS_def HEARTBEAT_SECOND_PULSE_MS_def HEARTBEAT_REST_MS_def)

lemma system_WaitForRegister_OK:
  "system_WaitForRegister limit reads k msk expected = PLATFORM_STATUS_OK \<longleftrightarrow> (\<exists>j<limit. reads (k + j) AND msk = expected)"
proof (induction limit arbitrary: k)
  case (Suc limit)
  have "(\<exists>j<Suc limit. reads (k + j) AND msk = expected) \<longleftrightarrow> reads k AND msk = expected \<or> (\<exists>j<limit. reads (Suc k + j) AND msk = expected)"
    by (auto simp: less_Suc_eq_0_disj)
  then show ?case
    using Suc.IH [of "Suc k"] by simp
qed simp

text \<open>
  A block the heap hands out starts at or above the heap's start and ends at or below the stack's reserve.
\<close>

lemma syscall_sbrk_block:
  assumes "unat limit < 2 ^ 31" and "unat incr < 2 ^ 31" and "heapStart \<le> limit" and "\<forall>e. heapEnd = Some e \<longrightarrow> heapStart \<le> e \<and> e \<le> limit"
    and "syscall_sbrk heapStart limit incr heapEnd = (Some block, Some newEnd)"
  shows "heapStart \<le> block \<and> unat newEnd = unat block + unat incr \<and> newEnd \<le> limit"
proof -
  have b: "heapStart \<le> block" "block \<le> limit" "newEnd = block + incr" "newEnd \<le> limit"
    using assms(3-5) by (auto simp: syscall_sbrk_def Let_def split: option.splits if_splits)
  then have "unat block + unat incr < 2 ^ 32"
    using assms(1,2) by (simp add: word_le_nat_alt)
  then show ?thesis
    using b by (simp add: unat_word_ariths)
qed

section \<open>Watchdog margin\<close>

definition iwdg_started :: "iwdg \<Rightarrow> bool" where
  "iwdg_started w \<longleftrightarrow> IWDG_PR w = 6 \<and> IWDG_RLR w = 4095 \<and> IWDG_running w"

lemma watchdog_Start_started: "iwdg_started (watchdog_Start w)"
  by (simp add: watchdog_Start_def IWDG_KR_def IWDG_write_def iwdg_started_def)

lemma iwdg_round:
  assumes "iwdg_started w"
  shows "iwdg_Elapse lsi ms (IWDG_KR 0xAAAA w) =
    (if 4095 < lsi * ms div 256000 then None else Some (w\<lparr>IWDG_unlocked := False, IWDG_counter := 4095 - lsi * ms div 256000\<rparr>))"
  using assms by (simp add: iwdg_Elapse_def IWDG_KR_def iwdg_started_def Let_def)

text \<open>
  With an LSI clock of at most 47 kHz the watchdog never fires as long as the default task comes
  around every twenty seconds, and with one of at least 17 kHz a task that is held up for 62 seconds
  always makes it fire.
\<close>

theorem watchdog_margin:
  "(lsi \<le> 47000 \<and> list_all (\<lambda>ms. ms \<le> 20000) rounds \<longrightarrow> (\<exists>w'. rtos_DefaultTask lsi rounds (watchdog_Start w) = Some w'))
   \<and> (17000 \<le> lsi \<and> list_ex (\<lambda>ms. 62000 \<le> ms) rounds \<longrightarrow> rtos_DefaultTask lsi rounds (watchdog_Start w) = None)"
proof -
  have fast: "lsi * ms div 256000 \<le> 4095" if "lsi \<le> 47000" "ms \<le> 20000" for ms
    using mult_le_mono [OF that] by (simp add: div_le_mono [THEN order_trans])
  have slow: "4095 < lsi * ms div 256000" if "17000 \<le> lsi" "62000 \<le> ms" for ms
    using mult_le_mono [OF that] div_le_mono [of "17000 * 62000" "lsi * ms" 256000] by simp
  have keep: "iwdg_started (v\<lparr>IWDG_unlocked := b, IWDG_counter := c\<rparr>) = iwdg_started v" for v b c
    by (simp add: iwdg_started_def)
  have "iwdg_started v \<Longrightarrow> (lsi \<le> 47000 \<and> list_all (\<lambda>ms. ms \<le> 20000) rounds \<longrightarrow> (\<exists>w'. rtos_DefaultTask lsi rounds v = Some w'))
    \<and> (17000 \<le> lsi \<and> list_ex (\<lambda>ms. 62000 \<le> ms) rounds \<longrightarrow> rtos_DefaultTask lsi rounds v = None)" for v
  proof (induction rounds arbitrary: v)
    case (Cons ms rounds)
    show ?case
      using Cons.IH [of "v\<lparr>IWDG_unlocked := False, IWDG_counter := 4095 - lsi * ms div 256000\<rparr>"] Cons.prems fast [of ms] slow [of ms]
      by (auto simp: iwdg_round keep)
  qed simp
  then show ?thesis
    using watchdog_Start_started by blast
qed

end
