(* ===== verification/Spec2Isabelle.thy ===== *)
theory Spec2Isabelle
  imports Api_References Onewire_Search Startup Lwip_App Sys_Arch Board
begin

text \<open>
  \<^bold>\<open>Verification of the STM32F407 health-check controller firmware.\<close>

  The device checks up to three web resources over TLS at a fixed period, keeps the results in a serial
  flash chip, sounds a buzzer and calls a configured URL when a check fails, warns of expiring
  certificates, and is managed over an HTTPS interface with users and roles. The sources are C for a
  bare microcontroller with FreeRTOS, lwIP and mbedTLS. This development translates the application code
  into HOL functions, function by function and with the names of the sources, and proves what makes the
  parts correct alone and together.

  \<^bold>\<open>Parts and theories.\<close> Paths are relative to the source tree.

  \<^item> \<open>Fw_Prelude\<close>: machine integers, status values (\<^verbatim>\<open>Core/Inc/platform.h\<close>), byte images, C strings, CRC-32, mutexes.
  \<^item> \<open>W25q64\<close>: the flash driver \<^verbatim>\<open>Periph/Src/w25q64.c\<close> over a model of the chip; locale \<open>nor_driver\<close> is the contract
    of read, erase and program with faults, interpreted on the driver. \<open>Flash_Layout\<close>: \<^verbatim>\<open>Periph/Inc/flash_layout.h\<close>.
  \<^item> \<open>Ab_Store\<close>: the A/B snapshot scheme shared by the stores; locales \<open>ab_reader\<close> and \<open>ab_store\<close>, interpreted by
    \<open>User_Store\<close>, \<open>Health_Check_Config\<close> (both formats), \<open>Callback_Config\<close> and \<open>Server_Credentials\<close>, the models of the sources
    of the same names under \<^verbatim>\<open>Srv/Src\<close> and \<^verbatim>\<open>TLS/Src\<close>. \<open>Trust_Store\<close> (\<^verbatim>\<open>TLS/Src/tls_trust_store.c\<close>) and \<open>Health_Check_Log\<close>
    (\<^verbatim>\<open>Srv/Src/health_check_log.c\<close>) have their own layouts.
  \<^item> \<open>Auth_Service\<close>: passwords, sessions and user administration; \<open>Tls_Platform\<close>: the crypto lock and random source.
  \<^item> \<open>Api_Json\<close>, \<open>Api_Request\<close>, \<open>Api_Service\<close>: \<^verbatim>\<open>Srv/Src/api_service.c\<close> from reading a request to every route;
    \<open>Api_Security\<close> and \<open>Api_References\<close>: what holds of all routes together.
  \<^item> \<open>Tls_Transport\<close>, \<open>Health_Check_Service\<close>, \<open>Callback_Service\<close>: the outgoing requests, the periodic checks and the
    delivery of failures, with the queue between the two tasks (locale \<open>bounded_queue\<close>, interpreted on the
    callback queue and on the mailbox of the TCP/IP thread).
  \<^item> \<open>Factory_Reset\<close>, \<open>Reset_Button\<close>: \<^verbatim>\<open>Srv/Src/factory_reset_service.c\<close>, its recovery after a power loss and its timing.
  \<^item> \<open>Rtc\<close>, \<open>Time_Service\<close>, \<open>Onewire\<close>, \<open>Onewire_Search\<close>, \<open>Temperature\<close>, \<open>Buzzer_Service\<close>: clock, network time,
    sensors and buzzer.
  \<^item> \<open>Ethernet\<close>, \<open>Ethernet_Input\<close>, \<open>Lwip_App\<close>, \<open>Sys_Arch\<close>: the descriptor rings, the link, DHCP with its fallback, and
    the operating-system layer under \<^verbatim>\<open>LWIP\<close>.
  \<^item> \<open>Board\<close>: pins, delays, buzzer timer, console line, heap limit, heartbeat, watchdog; \<open>Startup\<close>: \<^verbatim>\<open>Srv/Src/rtos.c\<close>,
    which composes all stores and services.

  \<^bold>\<open>How the code is represented.\<close> A \<open>static\<close> variable or structure is a field of the component's record, which
  every operation takes and returns; a status enumeration is a datatype; integers keep their width; the
  persistent structures have byte images with the layout of the compiler, and what is in the flash chip is
  bytes. Code that is not in the tree appears as arguments: cryptographic and X.509 functions as records of
  functions, and what the hardware, the network and the scheduler do as scripts that give the results of the
  coming calls (a fault per flash operation, a poll of a status register per element, the result of a read).
  A script that has run out means a time-out in a wait, and success where the default is success; theorems
  are stated for all scripts or for those without faults, and say which. The creation of a mutex or a task is
  a boolean argument. Guards against NULL arguments and the text printed on the console are not represented.
  Work that other tasks can interrupt (buzzer requests, the callback queue, time synchronisation) is cut into
  the steps between critical sections, and the theorems range over all interleavings; two neighbouring steps
  are merged in places that the theories name (draining the completion of the buzzer and requesting it, one
  iteration of the time service). The DMA of the Ethernet
  controller is an agent with its own position in the ring; the DHCP client is an environment step.

  \<^bold>\<open>What the lemmas show.\<close> For each store: the byte image round trip, an invariant kept by every operation under
  arbitrary flash faults, the effect of every operation on fault-free flash, durability across a restart and
  safety of an interrupted save; \<open>User_Store\<close> refines a map and \<open>Health_Check_Log\<close> a list. For the services:
  authorisation as an invariant of all request sequences, non-interference of requests without the right role,
  referential integrity between the stores, that each failed check is reported, logged and called back, that
  an interrupted factory reset is completed, that waiting loops end, that messages fit their buffers, and
  that every tone, time and sensor value is what the sources mean. For the network: conservation of receive
  buffers, agreement of driver and DMA, the network-ready flag, and the start-up of the whole device into
  well-formed stores. Theorems on faults say what they assume of the rest of the run: the log is append-only
  from one start-up to the next, since a slot left erased by a fault rewinds the append position at the next
  start-up (\<open>log_gap_rewinds\<close>); an interrupted update of the users is any update with any faults and any torn
  bytes in the sector being written. Token lifetimes are differences of the 32-bit millisecond counter.
  Three theorems state further defects of the sources: \<open>request_buffer_overflow\<close>,
  \<open>ethernet_timeout_stalls\<close> and \<open>link_up_skips_dhcp_wait\<close>.

  \<^bold>\<open>Bounds.\<close> Loops over arrays recurse over their index lists. Loops that poll recurse over their script. The
  loops of the factory-reset task are partial functions with a theorem that they end; the drain of the
  receive ring has a bound of five reads, with a theorem that it suffices because the ring has four
  descriptors. The watchdog theorem uses the limits of the internal oscillator, 17 and 47 kHz.

  \<^bold>\<open>Not modelled.\<close> The FreeRTOS kernel is a vendored copy; its semaphores, notifications, queues and task
  creation are modelled by their documented behaviour. lwIP, mbedTLS, the PHY driver and CMSIS are not in
  the tree. The clock tree, SPI, CRC, pin and MAC set-up consist of fixed register values whose meaning is in
  the vendor's header; \<^verbatim>\<open>Core/Src/system_stm32f4xx.c\<close> and the start-up file are vendor code; fault handlers and
  \<open>Error_Handler\<close> loop for ever and are results of their callers. Time inside one bus slot and the memory
  consumption of the stacks are not represented. The host tools and test set-ups are not firmware.
\<close>

text \<open>
  No two persistent stores share a flash sector, and every allocated sector lies inside the
  chip.
\<close>

theorem flash_allocation_disjoint:
  "distinct (concat (map snd flash_allocation))
   \<and> list_all (\<lambda>k. k < nor_capacity div nor_sector) (concat (map snd flash_allocation))"
  by (simp add: flash_allocation_def sectors_of_def FLASH_LAYOUT_TLS_TRUST_STORE_BANK_SECTORS_def
      upt_rec)

end
